(* ===== verification/Py_Prelude.thy ===== *)
theory Py_Prelude
  imports Main "HOL-Library.Word" "HOL-Library.List_Lexorder" "HOL-Library.Multiset"
begin

text \<open>
  The vocabulary the component theories share: Python values as the scripts test them with
  \<^verbatim>\<open>isinstance\<close> and \<^verbatim>\<open>type\<close>, byte strings and code-point strings, the exception monad,
  positional (big-endian) digit strings, and self-delimiting byte encodings as a locale.

  A \<^verbatim>\<open>str\<close> is a list of code points, a \<^verbatim>\<open>bytes\<close> a list of 8-bit words, an \<^verbatim>\<open>int\<close> an
  unbounded \<^typ>\<open>int\<close>, a \<^verbatim>\<open>float\<close> its binary64 bit pattern. A raised exception is the left
  summand of a sum: the exception class with the fixed part of its message. The
  \<^verbatim>\<open>label\<close> arguments of the scripts only prefix message texts and are left out.
\<close>

section \<open>Values\<close>

type_synonym byte = "8 word"
type_synonym bytes = "byte list"
type_synonym pystr = "nat list"
type_synonym f64 = "64 word"

text \<open>String and bytes literals.\<close>

definition lit :: "string \<Rightarrow> pystr" where
  "lit s = map of_char s"

lemma lit_eq: "lit s = lit t \<longleftrightarrow> s = t"
  by (simp add: lit_def inj_map_eq_map inj_on_def)

definition blit :: "string \<Rightarrow> bytes" where
  "blit s = map of_char s"

text \<open>
  What an argument annotated \<^verbatim>\<open>Any\<close> can be. Mappings keep their insertion order; that their
  keys are pairwise different is a hypothesis where it matters.
\<close>

datatype pyval =
    PyNone
  | PyBool bool
  | PyInt int
  | PyFloat f64
  | PyStr pystr
  | PyBytes bytes
  | PyByteArray bytes
  | PyList "pyval list"
  | PyTuple "pyval list"
  | PyDict "(pyval \<times> pyval) list"
  | PyOther

lemma map_injective_eq [simp]:
  "map PyInt xs = map PyInt ys \<longleftrightarrow> xs = ys" "map PyStr ss = map PyStr ts \<longleftrightarrow> ss = ts"
  "map PyFloat us = map PyFloat vs \<longleftrightarrow> us = vs"
  by (simp_all add: inj_map_eq_map inj_on_def)

section \<open>Exceptions\<close>

datatype exn =
    SchemaError string
  | TimingMathError string
  | F64CodecError string
  | SequenceMathError string
  | SequenceMathCodecError string
  | RegistryResolutionError string
  | CensusError string
  | CapsuleError string
  | ReadinessError string
  | TimingControlError string
  | TimingControlIndeterminate string
  | TimingArtifactError string
  | ValueError string
  | TypeError string
  | KeyError string
  | IndexError string
  | AttributeError string
  | TimingPublicationError string
  | TimingPublicationCollision string
  | TimingPublicationIndeterminate string
  | OSError nat
  | RecursionError
  | OtherException string

type_synonym 'a py = "exn + 'a"

text \<open>Sequencing: the first exception ends the computation.\<close>

definition and_then :: "'e + 'a \<Rightarrow> ('a \<Rightarrow> 'e + 'b) \<Rightarrow> 'e + 'b" where
  "and_then m f = (case m of Inl e \<Rightarrow> Inl e | Inr x \<Rightarrow> f x)"

lemma and_then_Inl [simp]: "and_then (Inl e) f = Inl e"
  by (simp add: and_then_def)

lemma and_then_Inr [simp]: "and_then (Inr x) f = f x"
  by (simp add: and_then_def)

lemma and_then_eq_Inr [simp]:
  "and_then m f = Inr y \<longleftrightarrow> (\<exists>x. m = Inr x \<and> f x = Inr y)"
  by (cases m) simp_all

lemma and_then_eq_Inl:
  "and_then m f = Inl e \<longleftrightarrow> m = Inl e \<or> (\<exists>x. m = Inr x \<and> f x = Inl e)"
  by (cases m) auto

lemma if_raise_eq_Inr [simp]:
  "(if b then Inl e else m) = Inr y \<longleftrightarrow> \<not> b \<and> m = Inr y"
  "(if b then m else Inl e) = Inr y \<longleftrightarrow> b \<and> m = Inr y"
  by simp_all

text \<open>\<^verbatim>\<open>raise\<close> unless a condition holds, and the two loops over a list.\<close>

definition ensure :: "bool \<Rightarrow> 'e \<Rightarrow> 'e + unit" where
  "ensure b e = (if b then Inr () else Inl e)"

lemma ensure_eq_Inr [simp]: "ensure b e = Inr u \<longleftrightarrow> b"
  by (simp add: ensure_def)

lemma ensure_True [simp]: "ensure True e = Inr ()"
  by (simp add: ensure_def)

lemma ensure_False [simp]: "ensure False e = Inl e"
  by (simp add: ensure_def)

fun mapM :: "('a \<Rightarrow> 'b py) \<Rightarrow> 'a list \<Rightarrow> 'b list py" where
  "mapM f [] = Inr []"
| "mapM f (x # xs) = and_then (f x) (\<lambda>y. and_then (mapM f xs) (\<lambda>ys. Inr (y # ys)))"

fun foldM :: "('s \<Rightarrow> 'a \<Rightarrow> 's py) \<Rightarrow> 's \<Rightarrow> 'a list \<Rightarrow> 's py" where
  "foldM f s [] = Inr s"
| "foldM f s (x # xs) = and_then (f s x) (\<lambda>s'. foldM f s' xs)"

lemma and_then_cong [fundef_cong]:
  "m = m' \<Longrightarrow> (\<And>x. m' = Inr x \<Longrightarrow> f x = g x) \<Longrightarrow> and_then m f = and_then m' g"
  by (cases m') auto

lemma mapM_cong [fundef_cong]:
  "xs = ys \<Longrightarrow> (\<And>x. x \<in> set ys \<Longrightarrow> f x = g x) \<Longrightarrow> mapM f xs = mapM g ys"
  by (induction ys arbitrary: xs) auto

lemma mapM_eq_Inr: "mapM f xs = Inr ys \<longleftrightarrow> list_all2 (\<lambda>x y. f x = Inr y) xs ys"
  by (induction xs arbitrary: ys) (auto simp: list_all2_Cons1)

lemma mapM_length: "mapM f xs = Inr ys \<Longrightarrow> length ys = length xs"
  by (auto simp: mapM_eq_Inr dest: list_all2_lengthD)

lemma mapM_in_set: "mapM f xs = Inr ys \<Longrightarrow> y \<in> set ys \<Longrightarrow> \<exists>x \<in> set xs. f x = Inr y"
  by (induction xs arbitrary: ys) auto

lemma mapM_member: "mapM f xs = Inr ys \<Longrightarrow> x \<in> set xs \<Longrightarrow> \<exists>y. f x = Inr y"
  by (induction xs arbitrary: ys) auto

lemma mapM_map: "mapM f (map g xs) = mapM (f \<circ> g) xs"
  by (induction xs) simp_all

lemma mapM_Inr: "(\<And>x. x \<in> set xs \<Longrightarrow> f x = Inr (g x)) \<Longrightarrow> mapM f xs = Inr (map g xs)"
  by (induction xs) simp_all

lemma mapM_Inr_iff_id:
  assumes "\<And>x y. f x = Inr y \<longleftrightarrow> P x \<and> y = g x"
  shows "mapM f xs = Inr ys \<longleftrightarrow> (\<forall>x \<in> set xs. P x) \<and> ys = map g xs"
  by (induction xs arbitrary: ys) (auto simp: assms)

lemma foldM_append: "foldM f s (xs @ ys) = and_then (foldM f s xs) (\<lambda>s'. foldM f s' ys)"
proof (induction xs arbitrary: s)
  case (Cons x xs)
  then show ?case by (cases "f s x") simp_all
qed simp

section \<open>Python helpers\<close>

text \<open>
  Association lists in insertion order stand for \<^verbatim>\<open>dict\<close>: storing under a present key keeps its
  position, a new key goes last.
\<close>

fun dict_put :: "('k \<times> 'v) list \<Rightarrow> 'k \<Rightarrow> 'v \<Rightarrow> ('k \<times> 'v) list" where
  "dict_put [] k v = [(k, v)]"
| "dict_put ((k', v') # d) k v = (if k' = k then (k, v) # d else (k', v') # dict_put d k v)"

lemma map_of_dict_put [simp]: "map_of (dict_put d k v) = (map_of d)(k \<mapsto> v)"
  by (induction d) auto

lemma dict_put_fresh: "k \<notin> fst ` set d \<Longrightarrow> dict_put d k v = d @ [(k, v)]"
  by (induction d) auto

lemma keys_dict_put [simp]: "fst ` set (dict_put d k v) = insert k (fst ` set d)"
  by (simp flip: dom_map_of_conv_image_fst)

lemma distinct_dict_put: "distinct (map fst d) \<Longrightarrow> distinct (map fst (dict_put d k v))"
proof (induction d)
  case (Cons p d)
  then show ?case by (cases p) auto
qed simp

text \<open>Subscription \<^verbatim>\<open>xs[i]\<close>: negative indices count from the end, other misses raise.\<close>

definition py_getitem :: "'a list \<Rightarrow> int \<Rightarrow> 'a py" where
  "py_getitem xs i =
     (let j = (if i < 0 then int (length xs) + i else i)
      in if 0 \<le> j \<and> j < int (length xs) then Inr (xs ! nat j) else Inl (IndexError ''list index out of range''))"

lemma py_getitem_in_range [simp]:
  "0 \<le> i \<Longrightarrow> i < int (length xs) \<Longrightarrow> py_getitem xs i = Inr (xs ! nat i)"
  by (simp add: py_getitem_def)

section \<open>Positional digits\<close>

lemma div_less_product: "0 < (a :: int) \<Longrightarrow> m div a < b \<longleftrightarrow> m < b * a"
proof -
  assume a: "0 < a"
  have m: "m = m div a * a + m mod a" "0 \<le> m mod a" "m mod a < a" using a by simp_all
  show ?thesis
  proof
    assume "m div a < b"
    then have "(m div a + 1) * a \<le> b * a" using a by (intro mult_right_mono) auto
    then have "m div a * a + a \<le> b * a" by (simp add: algebra_simps)
    then show "m < b * a" using m by linarith
  next
    assume lt: "m < b * a"
    show "m div a < b"
    proof (rule ccontr)
      assume "\<not> m div a < b"
      then have "b * a \<le> m div a * a" using a by (intro mult_right_mono) auto
      then show False using lt m by linarith
    qed
  qed
qed

primrec be_digits :: "nat \<Rightarrow> nat \<Rightarrow> nat \<Rightarrow> nat list" where
  "be_digits b 0 n = []"
| "be_digits b (Suc k) n = be_digits b k (n div b) @ [n mod b]"

definition of_digits :: "nat \<Rightarrow> nat list \<Rightarrow> nat" where
  "of_digits b ds = foldl (\<lambda>a d. a * b + d) 0 ds"

lemma of_digits_Nil [simp]: "of_digits b [] = 0"
  by (simp add: of_digits_def)

lemma of_digits_snoc [simp]: "of_digits b (ds @ [d]) = of_digits b ds * b + d"
  by (simp add: of_digits_def)

lemma length_be_digits [simp]: "length (be_digits b k n) = k"
  by (induction k arbitrary: n) simp_all

lemma be_digits_less: "0 < b \<Longrightarrow> d \<in> set (be_digits b k n) \<Longrightarrow> d < b"
  by (induction k arbitrary: n) auto

lemma of_be_digits: "0 < b \<Longrightarrow> of_digits b (be_digits b k n) = n mod b ^ k"
proof (induction k arbitrary: n)
  case (Suc k)
  have "of_digits b (be_digits b (Suc k) n) = (n div b) mod b ^ k * b + n mod b"
    using Suc by simp
  also have "\<dots> = n mod b ^ Suc k"
    by (simp add: mod_mult2_eq mult.commute)
  finally show ?case .
qed simp

lemma of_be_digits_less: "0 < b \<Longrightarrow> n < b ^ k \<Longrightarrow> of_digits b (be_digits b k n) = n"
  by (simp add: of_be_digits)

lemma of_digits_less:
  assumes "\<forall>d \<in> set ds. d < b"
  shows "of_digits b ds < b ^ length ds"
  using assms
proof (induction ds rule: rev_induct)
  case (snoc d ds)
  then have "of_digits b ds + 1 \<le> b ^ length ds" and "d < b" by auto
  then have "of_digits b ds * b + d < (of_digits b ds + 1) * b"
    by simp
  also have "\<dots> \<le> b ^ length ds * b"
    using \<open>of_digits b ds + 1 \<le> b ^ length ds\<close> by (rule mult_le_mono1)
  finally show ?case by (simp add: mult.commute)
qed simp

lemma be_of_digits:
  "\<forall>d \<in> set ds. d < b \<Longrightarrow> be_digits b (length ds) (of_digits b ds) = ds"
  by (induction ds rule: rev_induct) auto

lemma be_digits_inj:
  "0 < b \<Longrightarrow> m < b ^ k \<Longrightarrow> n < b ^ k \<Longrightarrow> be_digits b k m = be_digits b k n \<Longrightarrow> m = n"
  by (metis of_be_digits_less)

lemma of_digits_inj:
  "\<forall>d \<in> set ds. d < b \<Longrightarrow> \<forall>d \<in> set es. d < b \<Longrightarrow> length ds = length es \<Longrightarrow>
   of_digits b ds = of_digits b es \<Longrightarrow> ds = es"
  by (metis be_of_digits)

text \<open>\<^verbatim>\<open>int.to_bytes(k, "big")\<close> and \<^verbatim>\<open>int.from_bytes(_, "big")\<close> for nonnegative values.\<close>

definition to_bytes :: "nat \<Rightarrow> nat \<Rightarrow> bytes" where
  "to_bytes k n = map word_of_nat (be_digits 256 k n)"

definition from_bytes :: "bytes \<Rightarrow> nat" where
  "from_bytes bs = of_digits 256 (map unat bs)"

lemma length_to_bytes [simp]: "length (to_bytes k n) = k"
  by (simp add: to_bytes_def)

lemma unat_byte_less: "unat (b :: byte) < 256"
  using unsigned_less [of b, where 'a = nat] by simp

lemma map_unat_to_bytes: "map unat (to_bytes k n) = be_digits 256 k n"
proof -
  have "unat (word_of_nat d :: byte) = d" if "d \<in> set (be_digits 256 k n)" for d
    using be_digits_less [OF _ that] by (simp add: unat_of_nat)
  then show ?thesis by (simp add: to_bytes_def map_idI)
qed

lemma from_to_bytes: "n < 256 ^ k \<Longrightarrow> from_bytes (to_bytes k n) = n"
  by (simp add: from_bytes_def map_unat_to_bytes of_be_digits_less)

lemma to_bytes_inj: "m < 256 ^ k \<Longrightarrow> n < 256 ^ k \<Longrightarrow> to_bytes k m = to_bytes k n \<Longrightarrow> m = n"
  by (metis from_to_bytes)

lemma from_bytes_less: "from_bytes bs < 256 ^ length bs"
  using of_digits_less [of "map unat bs" 256] by (auto simp: from_bytes_def unat_byte_less)

lemma to_from_bytes: "to_bytes (length bs) (from_bytes bs) = bs"
proof -
  have "be_digits 256 (length (map unat bs)) (of_digits 256 (map unat bs)) = map unat bs"
    by (rule be_of_digits) (auto simp: unat_byte_less)
  then show ?thesis by (simp add: to_bytes_def from_bytes_def map_idI)
qed

text \<open>Fixed-width lowercase hexadecimal, \<^verbatim>\<open>format(n, "0kx")\<close> and \<^verbatim>\<open>int(text, 16)\<close>.\<close>

definition hex_digit :: "nat \<Rightarrow> nat" where
  "hex_digit d = (if d < 10 then 48 + d else 87 + d)"

definition hex_value :: "nat \<Rightarrow> nat" where
  "hex_value c = (if c < 58 then c - 48 else c - 87)"

definition is_lower_hex :: "nat \<Rightarrow> bool" where
  "is_lower_hex c \<longleftrightarrow> 48 \<le> c \<and> c \<le> 57 \<or> 97 \<le> c \<and> c \<le> 102"

definition format_hex :: "nat \<Rightarrow> nat \<Rightarrow> pystr" where
  "format_hex k n = map hex_digit (be_digits 16 k n)"

definition int_base16 :: "pystr \<Rightarrow> nat" where
  "int_base16 s = of_digits 16 (map hex_value s)"

text \<open>The regular expression \<^verbatim>\<open>[0-9a-f]{k}\<close>, matched against the whole string.\<close>

definition lower_hex_exactly :: "nat \<Rightarrow> pystr \<Rightarrow> bool" where
  "lower_hex_exactly k s \<longleftrightarrow> length s = k \<and> (\<forall>c \<in> set s. is_lower_hex c)"

lemma hex_value_digit: "d < 16 \<Longrightarrow> hex_value (hex_digit d) = d"
  by (simp add: hex_value_def hex_digit_def)

lemma hex_digit_value: "is_lower_hex c \<Longrightarrow> hex_digit (hex_value c) = c"
  by (auto simp: hex_value_def hex_digit_def is_lower_hex_def)

lemma hex_value_less: "is_lower_hex c \<Longrightarrow> hex_value c < 16"
  by (auto simp: hex_value_def is_lower_hex_def)

lemma is_lower_hex_digit: "d < 16 \<Longrightarrow> is_lower_hex (hex_digit d)"
  by (auto simp: hex_digit_def is_lower_hex_def)

lemma format_hex_shape: "lower_hex_exactly k (format_hex k n)"
  by (auto simp: lower_hex_exactly_def format_hex_def intro!: is_lower_hex_digit
      dest: be_digits_less [rotated])

lemma length_format_hex [simp]: "length (format_hex k n) = k"
  by (simp add: format_hex_def)

lemma int_format_hex: "n < 16 ^ k \<Longrightarrow> int_base16 (format_hex k n) = n"
proof -
  assume "n < 16 ^ k"
  moreover have "map hex_value (format_hex k n) = be_digits 16 k n"
    by (auto simp: format_hex_def intro!: map_idI hex_value_digit dest: be_digits_less [rotated])
  ultimately show ?thesis by (simp add: int_base16_def of_be_digits_less)
qed

lemma format_int_hex: "lower_hex_exactly k s \<Longrightarrow> format_hex k (int_base16 s) = s"
proof -
  assume s: "lower_hex_exactly k s"
  then have "be_digits 16 (length (map hex_value s)) (of_digits 16 (map hex_value s)) = map hex_value s"
    by (intro be_of_digits) (auto simp: lower_hex_exactly_def hex_value_less)
  then show ?thesis using s
    by (auto simp: format_hex_def int_base16_def lower_hex_exactly_def hex_digit_value intro!: map_idI)
qed

lemma int_base16_less: "lower_hex_exactly k s \<Longrightarrow> int_base16 s < 16 ^ k"
  using of_digits_less [of "map hex_value s" 16]
  by (auto simp: int_base16_def lower_hex_exactly_def hex_value_less)

text \<open>Decimal digits: \<^verbatim>\<open>[0-9]\<close>, the shortest decimal text of a number and its value.\<close>

definition is_digit :: "nat \<Rightarrow> bool" where
  "is_digit c \<longleftrightarrow> 48 \<le> c \<and> c \<le> 57"

fun dec_text :: "nat \<Rightarrow> pystr" where
  "dec_text n = (if n < 10 then [48 + n] else dec_text (n div 10) @ [48 + n mod 10])"

declare dec_text.simps [simp del]

definition dec_value :: "pystr \<Rightarrow> nat" where
  "dec_value s = of_digits 10 (map (\<lambda>c. c - 48) s)"

lemma dec_value_text: "dec_value (dec_text n) = n"
  by (induction n rule: dec_text.induct) (subst dec_text.simps, simp add: dec_value_def of_digits_def)

lemma is_digit_numeral: "d < 10 \<Longrightarrow> is_digit (48 + d)"
  by (simp add: is_digit_def)

lemma dec_text_digits: "list_all is_digit (dec_text n)"
  by (induction n rule: dec_text.induct) (subst dec_text.simps, simp add: is_digit_numeral)

lemma dec_text_nonempty: "dec_text n \<noteq> []"
  by (subst dec_text.simps) simp

lemma dec_text_hd: "0 < n \<Longrightarrow> hd (dec_text n) \<noteq> 48"
proof (induction n rule: dec_text.induct)
  case (1 n)
  show ?case
  proof (cases "n < 10")
    case True
    then show ?thesis using 1 by (subst dec_text.simps) simp
  next
    case False
    then have "hd (dec_text (n div 10)) \<noteq> 48" using 1 by simp
    then show ?thesis using False dec_text_nonempty by (subst dec_text.simps) simp
  qed
qed

lemma dec_text_0: "dec_text 0 = [48]"
  by (simp add: dec_text.simps)

section \<open>Self-delimiting encodings\<close>

text \<open>
  An encoding is self-delimiting on the values that satisfy \<open>ok\<close> when the encoded value and the
  rest of the stream are both determined by the stream. Every record format of the scripts is built
  from such encodings, and their injectivity follows from the lemmas of this locale.
\<close>

locale prefix_code =
  fixes enc :: "'a \<Rightarrow> bytes" and ok :: "'a \<Rightarrow> bool"
  assumes self_delimiting: "ok x \<Longrightarrow> ok y \<Longrightarrow> enc x @ r = enc y @ s \<Longrightarrow> x = y \<and> r = s"
begin

lemma enc_inj: "ok x \<Longrightarrow> ok y \<Longrightarrow> enc x = enc y \<Longrightarrow> x = y"
  using self_delimiting [of x y "[]" "[]"] by simp

lemma concat_enc:
  "length xs = length ys \<Longrightarrow> \<forall>x \<in> set xs. ok x \<Longrightarrow> \<forall>y \<in> set ys. ok y \<Longrightarrow>
   concat (map enc xs) @ r = concat (map enc ys) @ s \<Longrightarrow> xs = ys \<and> r = s"
proof (induction xs ys rule: list_induct2)
  case (Cons x xs y ys)
  then have "enc x @ (concat (map enc xs) @ r) = enc y @ (concat (map enc ys) @ s)" by simp
  then have "x = y" and "concat (map enc xs) @ r = concat (map enc ys) @ s"
    using self_delimiting Cons.prems by (metis list.set_intros(1))+
  then show ?case using Cons by simp
qed simp

end

locale fixed_width_code =
  fixes enc :: "'a \<Rightarrow> bytes" and ok :: "'a \<Rightarrow> bool" and width :: nat
  assumes width: "ok x \<Longrightarrow> length (enc x) = width"
    and inj: "ok x \<Longrightarrow> ok y \<Longrightarrow> enc x = enc y \<Longrightarrow> x = y"

sublocale fixed_width_code \<subseteq> prefix_code enc ok
proof
  fix x y r s
  assume "ok x" "ok y" "enc x @ r = enc y @ s"
  then have "enc x = enc y" and "r = s"
    by (metis width append_eq_append_conv)+
  then show "x = y \<and> r = s" using inj \<open>ok x\<close> \<open>ok y\<close> by simp
qed

text \<open>Big-endian u64 fields.\<close>

interpretation u64_code: fixed_width_code "to_bytes 8" "\<lambda>n. n < 2 ^ 64" 8
  by unfold_locales (auto intro: to_bytes_inj [where k = 8])

text \<open>A byte string behind its own u64 length.\<close>

definition length_prefix :: "bytes \<Rightarrow> bytes" where
  "length_prefix bs = to_bytes 8 (length bs) @ bs"

interpretation lp_code: prefix_code length_prefix "\<lambda>bs. length bs < 2 ^ 64"
proof
  fix x y r s :: bytes
  assume "length x < 2 ^ 64" "length y < 2 ^ 64" "length_prefix x @ r = length_prefix y @ s"
  then have "to_bytes 8 (length x) @ (x @ r) = to_bytes 8 (length y) @ (y @ s)"
    by (simp add: length_prefix_def)
  from u64_code.self_delimiting [OF _ _ this] \<open>length x < 2 ^ 64\<close> \<open>length y < 2 ^ 64\<close>
  have "length x = length y" and "x @ r = y @ s" by auto
  then show "x = y \<and> r = s" by simp
qed

section \<open>Sorting\<close>

text \<open>A stable sort by a key without ties depends only on the multiset of the records.\<close>

lemma sort_key_cong_mset:
  assumes "mset xs = mset ys" and "inj_on f (set xs)"
  shows "sort_key f xs = sort_key f ys"
  using assms by (intro sort_key_inj_key_eq) auto

lemma sort_cong_mset: "mset xs = mset ys \<Longrightarrow> sort xs = sort ys"
  by (rule sort_key_cong_mset) auto

end
