(* ===== verification/Sha256.thy ===== *)
theory Sha256
  imports Py_Prelude
begin

text \<open>
  SHA-256 as \<^verbatim>\<open>hashlib.sha256\<close> computes it (FIPS 180-4), on byte lists. The scripts use it to bind
  populations, payloads and documents; the developments that use it never need more than its output
  length, and never assume that it is free of collisions.
\<close>

unbundle bit_operations_syntax

type_synonym u32 = "32 word"

text \<open>
  The round constants are the first 32 bits of the fractional parts of the cube roots of the first
  64 primes, the initial state those of the square roots of the first eight; both are computed by
  integer root extraction, one bit at a time.
\<close>

fun root_bits :: "nat \<Rightarrow> nat \<Rightarrow> nat \<Rightarrow> nat \<Rightarrow> nat" where
  "root_bits e n 0 r = r"
| "root_bits e n (Suc b) r =
     (if (r + 2 ^ b) ^ e \<le> n then root_bits e n b (r + 2 ^ b) else root_bits e n b r)"

definition root_fraction :: "nat \<Rightarrow> nat \<Rightarrow> u32" where
  "root_fraction e p = word_of_nat (root_bits e (p * 2 ^ (32 * e)) 36 0)"

definition sha_primes :: "nat list" where
  "sha_primes = [
     2, 3, 5, 7, 11, 13, 17, 19, 23, 29, 31, 37, 41, 43, 47, 53, 59, 61, 67, 71, 73, 79, 83,
     89, 97, 101, 103, 107, 109, 113, 127, 131, 137, 139, 149, 151, 157, 163, 167, 173, 179,
     181, 191, 193, 197, 199, 211, 223, 227, 229, 233, 239, 241, 251, 257, 263, 269, 271, 277,
     281, 283, 293, 307, 311]"

definition sha_k :: "u32 list" where
  "sha_k = map (root_fraction 3) sha_primes"

definition sha_h0 :: "u32 list" where
  "sha_h0 = map (root_fraction 2) (take 8 sha_primes)"

definition rotr :: "nat \<Rightarrow> u32 \<Rightarrow> u32" where
  "rotr n x = word_rotr n x"

definition big_sigma0 :: "u32 \<Rightarrow> u32" where
  "big_sigma0 x = rotr 2 x XOR rotr 13 x XOR rotr 22 x"

definition big_sigma1 :: "u32 \<Rightarrow> u32" where
  "big_sigma1 x = rotr 6 x XOR rotr 11 x XOR rotr 25 x"

definition small_sigma0 :: "u32 \<Rightarrow> u32" where
  "small_sigma0 x = rotr 7 x XOR rotr 18 x XOR drop_bit 3 x"

definition small_sigma1 :: "u32 \<Rightarrow> u32" where
  "small_sigma1 x = rotr 17 x XOR rotr 19 x XOR drop_bit 10 x"

text \<open>The message is extended by a one bit, zeros and its bit length to a multiple of 64 bytes.\<close>

definition sha_pad :: "bytes \<Rightarrow> bytes" where
  "sha_pad m = m @ [128] @ replicate ((119 - length m mod 64) mod 64) 0 @ to_bytes 8 (8 * length m)"

fun words_of_bytes :: "bytes \<Rightarrow> u32 list" where
  "words_of_bytes (a # b # c # d # rest) = word_of_nat (from_bytes [a, b, c, d]) # words_of_bytes rest"
| "words_of_bytes _ = []"

text \<open>The message schedule: the window holds the sixteen most recent words.\<close>

fun schedule :: "nat \<Rightarrow> u32 list \<Rightarrow> u32 list" where
  "schedule 0 win = []"
| "schedule (Suc n) win =
     hd win # schedule n (tl win @ [small_sigma1 (win ! 14) + win ! 9 + small_sigma0 (win ! 1) + hd win])"

fun sha_round :: "u32 list \<Rightarrow> u32 \<times> u32 \<Rightarrow> u32 list" where
  "sha_round [a, b, c, d, e, f, g, h] (k, w) =
     (let t1 = h + big_sigma1 e + ((e AND f) XOR (NOT e AND g)) + k + w;
          t2 = big_sigma0 a + ((a AND b) XOR (a AND c) XOR (b AND c))
      in [t1 + t2, a, b, c, d + t1, e, f, g])"
| "sha_round s _ = s"

definition sha_block :: "u32 list \<Rightarrow> bytes \<Rightarrow> u32 list" where
  "sha_block h blk = map2 (+) h (foldl sha_round h (zip sha_k (schedule 64 (words_of_bytes blk))))"

text \<open>One chaining step per 64-byte block.\<close>

function sha_blocks :: "u32 list \<Rightarrow> bytes \<Rightarrow> u32 list" where
  "sha_blocks h m = (if m = [] then h else sha_blocks (sha_block h (take 64 m)) (drop 64 m))"
  by pat_completeness auto
termination
  by (relation "measure (\<lambda>(h, m). length m)") auto

declare sha_blocks.simps [simp del]

definition sha256 :: "bytes \<Rightarrow> bytes" where
  "sha256 m = concat (map (\<lambda>w. to_bytes 4 (unat w)) (sha_blocks sha_h0 (sha_pad m)))"

text \<open>The digest has 32 bytes, whatever the message.\<close>

lemma length_sha_round [simp]: "length (sha_round s kw) = length s"
  by (cases "(s, kw)" rule: sha_round.cases) (simp_all add: Let_def)

lemma length_foldl_sha_round [simp]: "length (foldl sha_round s kws) = length s"
  by (induction kws arbitrary: s) simp_all

lemma length_sha_block [simp]: "length (sha_block h blk) = length h"
  by (simp add: sha_block_def)

lemma length_sha_blocks: "length (sha_blocks h m) = length h"
  by (induction h m rule: sha_blocks.induct) (subst sha_blocks.simps, simp)

lemma length_sha256 [simp]: "length (sha256 m) = 32"
proof -
  have "length (concat (map (\<lambda>w. to_bytes 4 (unat w)) ws)) = 4 * length ws" for ws :: "u32 list"
    by (induction ws) simp_all
  then show ?thesis by (simp add: sha256_def length_sha_blocks) (simp add: sha_h0_def sha_primes_def)
qed

text \<open>\<^verbatim>\<open>hexdigest()\<close>, and the digest read as a 256-bit integer.\<close>

definition hexdigest :: "bytes \<Rightarrow> pystr" where
  "hexdigest bs = concat (map (\<lambda>b. format_hex 2 (unat b)) bs)"

definition sha256_int :: "bytes \<Rightarrow> int" where
  "sha256_int m = int (from_bytes (sha256 m))"

lemma sha256_int_bounds: "0 \<le> sha256_int m" "sha256_int m < 2 ^ 256"
proof -
  show "0 \<le> sha256_int m" by (simp add: sha256_int_def)
  have "from_bytes (sha256 m) < 256 ^ 32" using from_bytes_less [of "sha256 m"] by simp
  also have "(256 :: nat) ^ 32 = 2 ^ 256" by (simp add: power_mult [of 2 8 32, simplified])
  finally show "sha256_int m < 2 ^ 256" unfolding sha256_int_def
    by (metis of_nat_less_numeral_power_cancel_iff)
qed

lemma hexdigest_shape: "lower_hex_exactly (2 * length bs) (hexdigest bs)"
proof (induction bs)
  case (Cons b bs)
  then show ?case
    using format_hex_shape [of 2 "unat b"] by (auto simp: hexdigest_def lower_hex_exactly_def)
qed (simp add: hexdigest_def lower_hex_exactly_def)

end
