(* ===== verification/Timing_Math.thy ===== *)
theory Timing_Math
  imports Complex_Main Sha256
begin

text \<open>
  The exact timing mathematics of \<^verbatim>\<open>src/scripts/cp2/cp2_timing_math.py\<close>: fixed-width hexadecimal
  scalars, reduced rationals, linear quantiles of integer populations, ratio gates by cross
  products, the median of three ratios, and the pair and campaign results built from them.

  Each frozen dataclass is a record and its \<^verbatim>\<open>__post_init__\<close> a checking function; a constructor
  call is \<open>mk_\<dots>\<close>, which returns the record only when the check passes. Records are not
  constrained by their type, so forged evidence (a record that no constructor returned) is a value
  of the model; its integer fields hold integers. Arguments annotated \<^verbatim>\<open>Any\<close> are \<^typ>\<open>pyval\<close>s.
\<close>

section \<open>Constants and scalar validation\<close>

definition U64_MAX :: int where "U64_MAX = 2 ^ 64 - 1"
definition U128_MAX :: int where "U128_MAX = 2 ^ 128 - 1"
definition U256_MAX :: int where "U256_MAX = 2 ^ 256 - 1"
definition MAX_TIMING_SAMPLE_COUNT :: int where "MAX_TIMING_SAMPLE_COUNT = 1000000"
definition MAX_EXACT_RATIO_COMPONENT :: int where "MAX_EXACT_RATIO_COMPONENT = U128_MAX"

definition P50_QUANTILE :: "int \<times> int" where "P50_QUANTILE = (1, 2)"
definition P95_QUANTILE :: "int \<times> int" where "P95_QUANTILE = (19, 20)"
definition MEDIAN_RATIO_LIMIT :: "int \<times> int" where "MEDIAN_RATIO_LIMIT = (11, 10)"
definition P95_RATIO_LIMIT :: "int \<times> int" where "P95_RATIO_LIMIT = (23, 20)"

definition TIMING_COMMON_DOMAIN :: bytes where
  "TIMING_COMMON_DOMAIN = blit ''SchurVIO-CP2-timing-common-v1'' @ [0]"

definition ALLOWED_QUANTILES :: "(int \<times> int) list" where
  "ALLOWED_QUANTILES = [P50_QUANTILE, P95_QUANTILE]"

definition ALLOWED_RATIO_LIMITS :: "(int \<times> int) list" where
  "ALLOWED_RATIO_LIMITS = [MEDIAN_RATIO_LIMIT, P95_RATIO_LIMIT]"

lemmas width_defs = U64_MAX_def U128_MAX_def U256_MAX_def MAX_TIMING_SAMPLE_COUNT_def
  MAX_EXACT_RATIO_COMPONENT_def

lemmas frozen_pair_defs = P50_QUANTILE_def P95_QUANTILE_def MEDIAN_RATIO_LIMIT_def
  P95_RATIO_LIMIT_def ALLOWED_QUANTILES_def ALLOWED_RATIO_LIMITS_def

definition plain_integer :: "pyval \<Rightarrow> int py" where
  "plain_integer value =
     (case value of PyInt n \<Rightarrow> Inr n | _ \<Rightarrow> Inl (TimingMathError ''must be an integer''))"

definition u64 :: "pyval \<Rightarrow> int py" where
  "u64 value = and_then (plain_integer value) (\<lambda>converted.
     if converted < 0 \<or> U64_MAX < converted then Inl (TimingMathError ''is outside u64'')
     else Inr converted)"

definition positive_u64 :: "pyval \<Rightarrow> int py" where
  "positive_u64 value = and_then (u64 value) (\<lambda>converted.
     if converted = 0 then Inl (TimingMathError ''must be positive'') else Inr converted)"

definition u128_to_hex :: "pyval \<Rightarrow> pystr py" where
  "u128_to_hex value = and_then (plain_integer value) (\<lambda>converted.
     if converted < 0 \<or> U128_MAX < converted then Inl (TimingMathError ''is outside u128'')
     else Inr (format_hex 32 (nat converted)))"

definition u128_from_hex :: "pyval \<Rightarrow> int py" where
  "u128_from_hex value =
     (case value of
        PyStr s \<Rightarrow>
          if lower_hex_exactly 32 s then Inr (int (int_base16 s))
          else Inl (TimingMathError ''must be exactly 32 lowercase hexadecimal digits'')
      | _ \<Rightarrow> Inl (TimingMathError ''must be exactly 32 lowercase hexadecimal digits''))"

definition u256_to_hex :: "pyval \<Rightarrow> pystr py" where
  "u256_to_hex value = and_then (plain_integer value) (\<lambda>converted.
     if converted < 0 \<or> U256_MAX < converted then Inl (TimingMathError ''is outside u256'')
     else Inr (format_hex 64 (nat converted)))"

definition u256_from_hex :: "pyval \<Rightarrow> int py" where
  "u256_from_hex value =
     (case value of
        PyStr s \<Rightarrow>
          if lower_hex_exactly 64 s then Inr (int (int_base16 s))
          else Inl (TimingMathError ''must be exactly 64 lowercase hexadecimal digits'')
      | _ \<Rightarrow> Inl (TimingMathError ''must be exactly 64 lowercase hexadecimal digits''))"

text \<open>
  A canonical rational record is a dict with exactly the two keys; the result is the pair of its
  values. The membership test compares sets of keys, so the order of the entries is free.
\<close>

definition exact_rational_record :: "pyval \<Rightarrow> (pyval \<times> pyval) py" where
  "exact_rational_record value =
     (case value of
        PyDict d \<Rightarrow>
          (if set (map fst d) \<noteq> {PyStr (lit ''numerator_hex''), PyStr (lit ''denominator_hex'')}
           then Inl (TimingMathError ''record keys differ from the canonical schema'')
           else case (map_of d (PyStr (lit ''numerator_hex'')), map_of d (PyStr (lit ''denominator_hex''))) of
                  (Some a, Some b) \<Rightarrow> Inr (a, b)
                | _ \<Rightarrow> Inl (KeyError ''numerator_hex''))
      | _ \<Rightarrow> Inl (TimingMathError ''record keys differ from the canonical schema''))"

definition checked_u64_add :: "int \<Rightarrow> int \<Rightarrow> int py" where
  "checked_u64_add left right =
     and_then (u64 (PyInt left)) (\<lambda>lhs. and_then (u64 (PyInt right)) (\<lambda>rhs.
       if U64_MAX - rhs < lhs then Inl (TimingMathError ''overflows u64 addition'')
       else Inr (lhs + rhs)))"

definition checked_u64_multiply :: "int \<Rightarrow> int \<Rightarrow> int py" where
  "checked_u64_multiply left right =
     and_then (u64 (PyInt left)) (\<lambda>lhs. and_then (u64 (PyInt right)) (\<lambda>rhs.
       if lhs \<noteq> 0 \<and> U64_MAX div lhs < rhs then Inl (TimingMathError ''overflows u64 multiplication'')
       else Inr (lhs * rhs)))"

definition canonical_allowed_pair ::
    "pyval \<Rightarrow> pyval \<Rightarrow> (int \<times> int) list \<Rightarrow> (int \<times> int) py" where
  "canonical_allowed_pair numerator denominator allowed =
     and_then (u64 numerator) (\<lambda>num. and_then (positive_u64 denominator) (\<lambda>den.
       if num = 0 \<or> gcd num den \<noteq> 1 then Inl (TimingMathError ''must be a positive canonical rational'')
       else if (num, den) \<notin> set allowed
       then Inl (TimingMathError ''is not one of the proposed frozen values'')
       else Inr (num, den)))"

text \<open>
  \<^verbatim>\<open>except (AttributeError, TimingMathError)\<close> around a revalidation: only these two classes are
  translated.
\<close>

definition except_timing :: "'a py \<Rightarrow> string \<Rightarrow> 'a py" where
  "except_timing m msg =
     (case m of
        Inl (TimingMathError _) \<Rightarrow> Inl (TimingMathError msg)
      | Inl (AttributeError _) \<Rightarrow> Inl (TimingMathError msg)
      | Inl e \<Rightarrow> Inl e
      | Inr x \<Rightarrow> Inr x)"

section \<open>Rational nanoseconds and exact ratios\<close>

record rational_ns =
  rn_numerator :: int
  rn_denominator :: int

definition rational_ns_check :: "rational_ns \<Rightarrow> unit py" where
  "rational_ns_check r =
     (let numerator = rn_numerator r in
      and_then (positive_u64 (PyInt (rn_denominator r))) (\<lambda>denominator.
        if numerator < 0 then Inl (TimingMathError ''rational numerator must be nonnegative'')
        else if U128_MAX < numerator
        then Inl (TimingMathError ''rational numerator exceeds the retained u128 domain'')
        else if U64_MAX * denominator < numerator
        then Inl (TimingMathError ''rational nanoseconds value exceeds u64'')
        else if gcd numerator denominator \<noteq> 1
        then Inl (TimingMathError ''rational nanoseconds must be reduced'')
        else Inr ()))"

definition mk_rational_ns :: "int \<Rightarrow> int \<Rightarrow> rational_ns py" where
  "mk_rational_ns numerator denominator =
     (let r = \<lparr>rn_numerator = numerator, rn_denominator = denominator\<rparr>
      in and_then (rational_ns_check r) (\<lambda>_. Inr r))"

definition rational_ns_from_u64 :: "pyval \<Rightarrow> rational_ns py" where
  "rational_ns_from_u64 value = and_then (u64 value) (\<lambda>v. mk_rational_ns v 1)"

definition validated_rational_ns :: "rational_ns \<Rightarrow> rational_ns py" where
  "validated_rational_ns value =
     except_timing (mk_rational_ns (rn_numerator value) (rn_denominator value))
       ''is forged or invalid rational evidence''"

definition rational_ns_to_record :: "rational_ns \<Rightarrow> pyval py" where
  "rational_ns_to_record value =
     and_then (validated_rational_ns value) (\<lambda>rational.
     and_then (u128_to_hex (PyInt (rn_numerator rational))) (\<lambda>n.
     and_then (u128_to_hex (PyInt (rn_denominator rational))) (\<lambda>d.
       Inr (PyDict [(PyStr (lit ''numerator_hex''), PyStr n),
                    (PyStr (lit ''denominator_hex''), PyStr d)]))))"

definition rational_ns_from_record :: "pyval \<Rightarrow> rational_ns py" where
  "rational_ns_from_record value =
     and_then (exact_rational_record value) (\<lambda>(num, den).
     and_then (u128_from_hex num) (\<lambda>n. and_then (u128_from_hex den) (\<lambda>d. mk_rational_ns n d)))"

record exact_ratio =
  er_numerator :: int
  er_denominator :: int

definition exact_ratio_check :: "exact_ratio \<Rightarrow> unit py" where
  "exact_ratio_check r =
     (let numerator = er_numerator r; denominator = er_denominator r in
      if numerator < 0 \<or> MAX_EXACT_RATIO_COMPONENT < numerator
      then Inl (TimingMathError ''exact-ratio numerator is outside its bounded domain'')
      else if denominator \<le> 0 \<or> MAX_EXACT_RATIO_COMPONENT < denominator
      then Inl (TimingMathError ''exact-ratio denominator is outside its bounded domain'')
      else if gcd numerator denominator \<noteq> 1
      then Inl (TimingMathError ''exact ratio must be reduced'')
      else Inr ())"

definition mk_exact_ratio :: "int \<Rightarrow> int \<Rightarrow> exact_ratio py" where
  "mk_exact_ratio numerator denominator =
     (let r = \<lparr>er_numerator = numerator, er_denominator = denominator\<rparr>
      in and_then (exact_ratio_check r) (\<lambda>_. Inr r))"

definition validated_exact_ratio :: "exact_ratio \<Rightarrow> exact_ratio py" where
  "validated_exact_ratio value =
     except_timing (mk_exact_ratio (er_numerator value) (er_denominator value))
       ''is forged or invalid exact-ratio evidence''"

definition exact_ratio_to_record :: "exact_ratio \<Rightarrow> pyval py" where
  "exact_ratio_to_record value =
     and_then (validated_exact_ratio value) (\<lambda>ratio.
     and_then (u128_to_hex (PyInt (er_numerator ratio))) (\<lambda>n.
     and_then (u128_to_hex (PyInt (er_denominator ratio))) (\<lambda>d.
       Inr (PyDict [(PyStr (lit ''numerator_hex''), PyStr n),
                    (PyStr (lit ''denominator_hex''), PyStr d)]))))"

definition exact_ratio_from_record :: "pyval \<Rightarrow> exact_ratio py" where
  "exact_ratio_from_record value =
     and_then (exact_rational_record value) (\<lambda>(num, den).
     and_then (u128_from_hex num) (\<lambda>n. and_then (u128_from_hex den) (\<lambda>d. mk_exact_ratio n d)))"

definition reduced_rational_ns :: "int \<Rightarrow> int \<Rightarrow> rational_ns py" where
  "reduced_rational_ns numerator denominator =
     (let divisor = gcd numerator denominator
      in mk_rational_ns (numerator div divisor) (denominator div divisor))"

definition reduced_exact_ratio :: "int \<Rightarrow> int \<Rightarrow> exact_ratio py" where
  "reduced_exact_ratio numerator denominator =
     (let divisor = gcd numerator denominator
      in mk_exact_ratio (numerator div divisor) (denominator div divisor))"

definition candidate_baseline_ratio_from_validated :: "rational_ns \<Rightarrow> rational_ns \<Rightarrow> exact_ratio py" where
  "candidate_baseline_ratio_from_validated candidate_ns baseline_ns =
     (if rn_numerator baseline_ns = 0 then Inl (TimingMathError ''ratio baseline must be positive'')
      else let numerator = rn_numerator candidate_ns * rn_denominator baseline_ns;
               denominator = rn_denominator candidate_ns * rn_numerator baseline_ns
           in reduced_exact_ratio numerator denominator)"

definition exact_candidate_baseline_ratio :: "rational_ns \<Rightarrow> rational_ns \<Rightarrow> exact_ratio py" where
  "exact_candidate_baseline_ratio candidate_ns baseline_ns =
     and_then (validated_rational_ns candidate_ns) (\<lambda>candidate.
     and_then (validated_rational_ns baseline_ns) (\<lambda>baseline.
       candidate_baseline_ratio_from_validated candidate baseline))"

section \<open>Linear ranks\<close>

record linear_rank_ev =
  sample_count :: int
  quantile_numerator :: int
  quantile_denominator :: int
  low_index :: int
  high_index :: int
  weight_numerator :: int
  weight_denominator :: int

definition linear_rank_check :: "linear_rank_ev \<Rightarrow> unit py" where
  "linear_rank_check r =
     and_then (positive_u64 (PyInt (sample_count r))) (\<lambda>count.
     and_then (canonical_allowed_pair (PyInt (quantile_numerator r)) (PyInt (quantile_denominator r))
                 ALLOWED_QUANTILES) (\<lambda>(q_num, q_den).
     and_then (u64 (PyInt (low_index r))) (\<lambda>low.
     and_then (u64 (PyInt (high_index r))) (\<lambda>high.
     and_then (u64 (PyInt (weight_numerator r))) (\<lambda>weight_num.
     and_then (positive_u64 (PyInt (weight_denominator r))) (\<lambda>weight_den.
     and_then (checked_u64_multiply (count - 1) q_num) (\<lambda>scaled.
       let expected_low = scaled div q_den; remainder = scaled mod q_den in
       and_then (if remainder = 0 then Inr expected_low else checked_u64_add expected_low 1) (\<lambda>expected_high.
         let expected_weight =
               (if remainder = 0 then (0, 1)
                else let divisor = gcd remainder q_den in (remainder div divisor, q_den div divisor)) in
         if low \<noteq> expected_low \<or> high \<noteq> expected_high \<or> (weight_num, weight_den) \<noteq> expected_weight
         then Inl (TimingMathError ''linear-rank evidence differs from exact recomputation'')
         else if count \<le> high then Inl (TimingMathError ''linear rank is outside its population'')
         else Inr ()))))))))"

definition mk_linear_rank :: "linear_rank_ev \<Rightarrow> linear_rank_ev py" where
  "mk_linear_rank r = and_then (linear_rank_check r) (\<lambda>_. Inr r)"

definition validated_linear_rank :: "linear_rank_ev \<Rightarrow> linear_rank_ev py" where
  "validated_linear_rank value =
     except_timing (mk_linear_rank value) ''is forged or invalid linear-rank evidence''"

definition linear_rank :: "pyval \<Rightarrow> pyval \<Rightarrow> pyval \<Rightarrow> linear_rank_ev py" where
  "linear_rank count_arg q_num_arg q_den_arg =
     and_then (positive_u64 count_arg) (\<lambda>count.
     and_then (canonical_allowed_pair q_num_arg q_den_arg ALLOWED_QUANTILES)
       (\<lambda>(q_num, q_den).
     let interval_count = count - 1 in
     and_then (checked_u64_multiply interval_count q_num) (\<lambda>scaled_index.
     let low_index = scaled_index div q_den; remainder = scaled_index mod q_den in
     and_then (if remainder = 0 then Inr low_index else checked_u64_add low_index 1) (\<lambda>high_index.
       if count \<le> high_index then Inl (TimingMathError ''linear rank is outside its population'')
       else
         let (weight_numerator, weight_denominator) =
               (if remainder = 0 then (0, 1)
                else let divisor = gcd remainder q_den in (remainder div divisor, q_den div divisor))
         in mk_linear_rank
              \<lparr>sample_count = count, quantile_numerator = q_num, quantile_denominator = q_den,
               low_index = low_index, high_index = high_index,
               weight_numerator = weight_numerator, weight_denominator = weight_denominator\<rparr>))))"

section \<open>Linear quantiles\<close>

text \<open>The loops that check an ordered population: each sample is a u64 and no smaller than the last.\<close>

fun nondecreasing_u64 :: "int option \<Rightarrow> int list \<Rightarrow> unit py" where
  "nondecreasing_u64 previous [] = Inr ()"
| "nondecreasing_u64 previous (sample # rest) =
     and_then (u64 (PyInt sample)) (\<lambda>retained.
       case previous of
         Some p \<Rightarrow> if retained < p then Inl (TimingMathError ''retained timing population is not sorted'')
                    else nondecreasing_u64 (Some retained) rest
       | None \<Rightarrow> nondecreasing_u64 (Some retained) rest)"

definition POPULATION_DOMAIN :: bytes where
  "POPULATION_DOMAIN = blit ''SchurVIO-Lite CP2-E sorted u64 timing population v1'' @ [0]"

definition population_payload :: "int list \<Rightarrow> bytes" where
  "population_payload ordered =
     POPULATION_DOMAIN @ to_bytes 8 (length ordered) @ concat (map (\<lambda>v. to_bytes 8 (nat v)) ordered)"

definition population_sha256_of :: "int list \<Rightarrow> int" where
  "population_sha256_of ordered = sha256_int (population_payload ordered)"

record linear_quantile_ev =
  lq_rank :: linear_rank_ev
  low_value_ns :: int
  high_value_ns :: int
  value_ns :: rational_ns
  population_sha256 :: int
  ordered_samples_ns :: "int list"

definition interpolate :: "linear_rank_ev \<Rightarrow> int \<Rightarrow> int \<Rightarrow> rational_ns py" where
  "interpolate rank low_value high_value =
     (let weight_num = weight_numerator rank; weight_den = weight_denominator rank;
          numerator = (weight_den - weight_num) * low_value + weight_num * high_value
      in reduced_rational_ns numerator weight_den)"

definition linear_quantile_check :: "linear_quantile_ev \<Rightarrow> unit py" where
  "linear_quantile_check q =
     and_then (validated_linear_rank (lq_rank q)) (\<lambda>rank.
     if MAX_TIMING_SAMPLE_COUNT < sample_count rank
     then Inl (TimingMathError ''linear-quantile population exceeds the resource limit'')
     else
     and_then (validated_rational_ns (value_ns q)) (\<lambda>value.
     let binding = population_sha256 q in
     if binding < 0 \<or> 2 ^ 256 \<le> binding then Inl (TimingMathError ''population SHA-256 is outside 256 bits'')
     else if int (length (ordered_samples_ns q)) \<noteq> sample_count rank
     then Inl (TimingMathError ''linear-quantile population count differs from its rank'')
     else
     and_then (nondecreasing_u64 None (ordered_samples_ns q)) (\<lambda>_.
     if population_sha256_of (ordered_samples_ns q) \<noteq> binding
     then Inl (TimingMathError ''population SHA-256 differs from retained timing samples'')
     else
     and_then (u64 (PyInt (low_value_ns q))) (\<lambda>low_value.
     and_then (u64 (PyInt (high_value_ns q))) (\<lambda>high_value.
     if high_value < low_value
     then Inl (TimingMathError ''linear-quantile bracketing values are unordered'')
     else if low_index rank = high_index rank \<and> low_value \<noteq> high_value
     then Inl (TimingMathError ''an exact linear rank has unequal bracketing values'')
     else
     and_then (py_getitem (ordered_samples_ns q) (low_index rank)) (\<lambda>at_low.
     and_then (py_getitem (ordered_samples_ns q) (high_index rank)) (\<lambda>at_high.
     if low_value \<noteq> at_low \<or> high_value \<noteq> at_high
     then Inl (TimingMathError ''linear bracketing values differ from the retained population'')
     else
     and_then (interpolate rank low_value high_value) (\<lambda>expected.
     if value \<noteq> expected
     then Inl (TimingMathError ''linear-quantile value differs from exact interpolation'')
     else Inr ()))))))))"

definition mk_linear_quantile :: "linear_quantile_ev \<Rightarrow> linear_quantile_ev py" where
  "mk_linear_quantile q = and_then (linear_quantile_check q) (\<lambda>_. Inr q)"

definition validated_linear_quantile :: "linear_quantile_ev \<Rightarrow> linear_quantile_ev py" where
  "validated_linear_quantile value =
     except_timing (mk_linear_quantile value) ''is forged or invalid linear-quantile evidence''"

definition snapshot_sorted_samples :: "pyval \<Rightarrow> int list py" where
  "snapshot_sorted_samples samples =
     and_then
       (case samples of
          PyList xs \<Rightarrow> Inr xs
        | PyTuple xs \<Rightarrow> Inr xs
        | _ \<Rightarrow> Inl (TimingMathError ''timing samples must be a finite sequence'')) (\<lambda>xs.
     let declared_count = int (length xs) in
     if declared_count \<le> 0 then Inl (TimingMathError ''timing sample population is empty'')
     else if MAX_TIMING_SAMPLE_COUNT < declared_count
     then Inl (TimingMathError ''timing sample population exceeds the resource limit'')
     else and_then (mapM u64 xs) (\<lambda>retained.
       if int (length retained) \<noteq> declared_count
       then Inl (TimingMathError ''timing sequence changed while being snapshotted'')
       else Inr (sort retained)))"

definition quantile_from_sorted :: "int list \<Rightarrow> int \<Rightarrow> int \<Rightarrow> int \<Rightarrow> linear_quantile_ev py" where
  "quantile_from_sorted ordered q_num q_den sha =
     and_then (linear_rank (PyInt (int (length ordered))) (PyInt q_num) (PyInt q_den)) (\<lambda>rank.
     and_then (py_getitem ordered (low_index rank)) (\<lambda>low_value.
     and_then (py_getitem ordered (high_index rank)) (\<lambda>high_value.
     and_then (interpolate rank low_value high_value) (\<lambda>value.
       mk_linear_quantile
         \<lparr>lq_rank = rank, low_value_ns = low_value, high_value_ns = high_value, value_ns = value,
          population_sha256 = sha, ordered_samples_ns = ordered\<rparr>))))"

definition linear_quantile_ns :: "pyval \<Rightarrow> pyval \<Rightarrow> pyval \<Rightarrow> linear_quantile_ev py" where
  "linear_quantile_ns samples q_num_arg q_den_arg =
     and_then (canonical_allowed_pair q_num_arg q_den_arg ALLOWED_QUANTILES)
       (\<lambda>(q_num, q_den).
     and_then (snapshot_sorted_samples samples) (\<lambda>ordered.
       quantile_from_sorted ordered q_num q_den (population_sha256_of ordered)))"

record timing_quantiles_ev =
  p50 :: linear_quantile_ev
  p95 :: linear_quantile_ev

definition quantile_pair :: "linear_quantile_ev \<Rightarrow> int \<times> int" where
  "quantile_pair q = (quantile_numerator (lq_rank q), quantile_denominator (lq_rank q))"

definition timing_quantiles_check :: "timing_quantiles_ev \<Rightarrow> unit py" where
  "timing_quantiles_check t =
     and_then (validated_linear_quantile (p50 t)) (\<lambda>a.
     and_then (validated_linear_quantile (p95 t)) (\<lambda>b.
     if quantile_pair a \<noteq> P50_QUANTILE \<or> quantile_pair b \<noteq> P95_QUANTILE
        \<or> sample_count (lq_rank a) \<noteq> sample_count (lq_rank b)
     then Inl (TimingMathError ''timing quantiles do not contain one p50/p95 population pair'')
     else if population_sha256 a \<noteq> population_sha256 b
     then Inl (TimingMathError ''p50 and p95 do not bind the same sorted population'')
     else if ordered_samples_ns a \<noteq> ordered_samples_ns b
     then Inl (TimingMathError ''p50 and p95 do not retain the same sorted population'')
     else if rn_numerator (value_ns b) * rn_denominator (value_ns a)
             < rn_numerator (value_ns a) * rn_denominator (value_ns b)
     then Inl (TimingMathError ''p50 exceeds p95'')
     else Inr ()))"

definition mk_timing_quantiles :: "timing_quantiles_ev \<Rightarrow> timing_quantiles_ev py" where
  "mk_timing_quantiles t = and_then (timing_quantiles_check t) (\<lambda>_. Inr t)"

definition validated_timing_quantiles :: "timing_quantiles_ev \<Rightarrow> timing_quantiles_ev py" where
  "validated_timing_quantiles value =
     except_timing (mk_timing_quantiles value) ''is forged or invalid timing-quantile evidence''"

definition timing_quantiles_ns :: "pyval \<Rightarrow> timing_quantiles_ev py" where
  "timing_quantiles_ns samples =
     and_then (snapshot_sorted_samples samples) (\<lambda>ordered.
     let sha = population_sha256_of ordered in
     and_then (quantile_from_sorted ordered (fst P50_QUANTILE) (snd P50_QUANTILE) sha) (\<lambda>a.
     and_then (quantile_from_sorted ordered (fst P95_QUANTILE) (snd P95_QUANTILE) sha) (\<lambda>b.
       mk_timing_quantiles \<lparr>p50 = a, p95 = b\<rparr>)))"

section \<open>Ratio gates\<close>

record ratio_gate_ev =
  baseline_ns :: rational_ns
  candidate_ns :: rational_ns
  candidate_over_baseline :: exact_ratio
  limit_numerator :: int
  limit_denominator :: int
  left_cross_product :: int
  right_cross_product :: int
  gate_passed :: bool

definition ratio_gate_check :: "ratio_gate_ev \<Rightarrow> unit py" where
  "ratio_gate_check g =
     and_then (validated_rational_ns (baseline_ns g)) (\<lambda>baseline.
     and_then (validated_rational_ns (candidate_ns g)) (\<lambda>candidate.
     and_then (validated_exact_ratio (candidate_over_baseline g)) (\<lambda>retained_ratio.
     if rn_numerator baseline = 0 then Inl (TimingMathError ''ratio baseline must be positive'')
     else
     and_then (candidate_baseline_ratio_from_validated candidate baseline) (\<lambda>expected_ratio.
     if retained_ratio \<noteq> expected_ratio
     then Inl (TimingMathError ''retained candidate/baseline ratio differs from exact recomputation'')
     else
     and_then (canonical_allowed_pair (PyInt (limit_numerator g)) (PyInt (limit_denominator g))
                 ALLOWED_RATIO_LIMITS) (\<lambda>(limit_num, limit_den).
     let left = left_cross_product g; right = right_cross_product g in
     if left < 0 \<or> right < 0 then Inl (TimingMathError ''ratio cross products must be nonnegative'')
     else
     let expected_left = rn_numerator candidate * rn_denominator baseline * limit_den;
         expected_right = rn_numerator baseline * rn_denominator candidate * limit_num in
     if U128_MAX < expected_left \<or> U128_MAX < expected_right
     then Inl (TimingMathError ''ratio-gate cross product exceeds the retained u128 domain'')
     else if left \<noteq> expected_left \<or> right \<noteq> expected_right
     then Inl (TimingMathError ''ratio-gate cross product differs from exact recomputation'')
     else if gate_passed g \<noteq> (left \<le> right)
     then Inl (TimingMathError ''ratio-gate decision differs from exact comparison'')
     else Inr ())))))"

definition mk_ratio_gate :: "ratio_gate_ev \<Rightarrow> ratio_gate_ev py" where
  "mk_ratio_gate g = and_then (ratio_gate_check g) (\<lambda>_. Inr g)"

definition validated_ratio_gate :: "ratio_gate_ev \<Rightarrow> ratio_gate_ev py" where
  "validated_ratio_gate value =
     except_timing (mk_ratio_gate value) ''is forged or invalid ratio-gate evidence''"

definition ratio_gate :: "rational_ns \<Rightarrow> rational_ns \<Rightarrow> pyval \<Rightarrow> pyval \<Rightarrow> ratio_gate_ev py" where
  "ratio_gate baseline_arg candidate_arg limit_num_arg limit_den_arg =
     and_then (validated_rational_ns baseline_arg) (\<lambda>baseline.
     and_then (validated_rational_ns candidate_arg) (\<lambda>candidate.
     and_then (candidate_baseline_ratio_from_validated candidate baseline) (\<lambda>exact_ratio.
     and_then (canonical_allowed_pair limit_num_arg limit_den_arg ALLOWED_RATIO_LIMITS)
       (\<lambda>(limit_num, limit_den).
     let left = rn_numerator candidate * rn_denominator baseline * limit_den;
         right = rn_numerator baseline * rn_denominator candidate * limit_num in
     if U128_MAX < left \<or> U128_MAX < right
     then Inl (TimingMathError ''ratio-gate cross product exceeds the retained u128 domain'')
     else mk_ratio_gate
       \<lparr>baseline_ns = baseline, candidate_ns = candidate, candidate_over_baseline = exact_ratio,
        limit_numerator = limit_num, limit_denominator = limit_den,
        left_cross_product = left, right_cross_product = right, gate_passed = (left \<le> right)\<rparr>))))"

section \<open>The median of three ratios\<close>

definition compare_exact_ratios :: "exact_ratio \<Rightarrow> exact_ratio \<Rightarrow> int py" where
  "compare_exact_ratios left right =
     (let left_cross = er_numerator left * er_denominator right;
          right_cross = er_numerator right * er_denominator left in
      if U256_MAX < left_cross \<or> U256_MAX < right_cross
      then Inl (TimingMathError ''ratio-ordering cross product exceeds u256'')
      else Inr (if left_cross < right_cross then -1 else if right_cross < left_cross then 1 else 0))"

record median_ev =
  ordered_ratios :: "exact_ratio list"
  median_ratio :: exact_ratio

definition median_check :: "median_ev \<Rightarrow> unit py" where
  "median_check m =
     (case ordered_ratios m of
        [r0, r1, r2] \<Rightarrow>
          and_then (mapM validated_exact_ratio [r0, r1, r2]) (\<lambda>_.
          and_then (validated_exact_ratio (median_ratio m)) (\<lambda>median.
          and_then (compare_exact_ratios r0 r1) (\<lambda>c01.
          if 0 < c01 then Inl (TimingMathError ''median ratios are not in nondecreasing exact order'')
          else
          and_then (compare_exact_ratios r1 r2) (\<lambda>c12.
          if 0 < c12 then Inl (TimingMathError ''median ratios are not in nondecreasing exact order'')
          else if median \<noteq> r1
          then Inl (TimingMathError ''retained median is not the middle ordered ratio'')
          else Inr ()))))
      | _ \<Rightarrow> Inl (TimingMathError ''median evidence must retain exactly three ordered ratios''))"

definition mk_median :: "median_ev \<Rightarrow> median_ev py" where
  "mk_median m = and_then (median_check m) (\<lambda>_. Inr m)"

definition validated_median :: "median_ev \<Rightarrow> median_ev py" where
  "validated_median value = except_timing (mk_median value) ''is forged or invalid median evidence''"

text \<open>One comparator of the sorting network: swap only on a strict inequality.\<close>

definition order_pair :: "exact_ratio \<Rightarrow> exact_ratio \<Rightarrow> (exact_ratio \<times> exact_ratio) py" where
  "order_pair a b =
     and_then (compare_exact_ratios a b) (\<lambda>c. if 0 < c then Inr (b, a) else Inr (a, b))"

definition median_of_three_ratios :: "exact_ratio list \<Rightarrow> median_ev py" where
  "median_of_three_ratios ratios =
     (case ratios of
        [r0, r1, r2] \<Rightarrow>
          and_then (validated_exact_ratio r0) (\<lambda>r0.
          and_then (validated_exact_ratio r1) (\<lambda>r1.
          and_then (validated_exact_ratio r2) (\<lambda>r2.
          and_then (order_pair r0 r1) (\<lambda>(r0, r1).
          and_then (order_pair r1 r2) (\<lambda>(r1, r2).
          and_then (order_pair r0 r1) (\<lambda>(r0, r1).
            mk_median \<lparr>ordered_ratios = [r0, r1, r2], median_ratio = r1\<rparr>))))))
      | _ \<Rightarrow> Inl (TimingMathError ''median requires exactly three ratios''))"

section \<open>Pair and campaign results\<close>

fun increasing_u64 :: "int option \<Rightarrow> pyval list \<Rightarrow> int list py" where
  "increasing_u64 previous [] = Inr []"
| "increasing_u64 previous (timestamp # rest) =
     and_then (u64 timestamp) (\<lambda>retained.
       if (case previous of Some p \<Rightarrow> retained \<le> p | None \<Rightarrow> False)
       then Inl (TimingMathError ''common camera timestamps are not strictly increasing'')
       else and_then (increasing_u64 (Some retained) rest) (\<lambda>ts. Inr (retained # ts)))"

definition validated_common_timestamps :: "pyval \<Rightarrow> int list py" where
  "validated_common_timestamps value =
     (case value of
        PyTuple ts \<Rightarrow>
          if ts = [] then Inl (TimingMathError ''common timestamps must be one nonempty exact tuple'')
          else if MAX_TIMING_SAMPLE_COUNT < int (length ts)
          then Inl (TimingMathError ''common timestamp population exceeds the resource limit'')
          else increasing_u64 None ts
      | _ \<Rightarrow> Inl (TimingMathError ''common timestamps must be one nonempty exact tuple''))"

definition canonical_common_population_payload :: "pyval \<Rightarrow> pyval \<Rightarrow> bytes py" where
  "canonical_common_population_payload pair_index_arg timestamps_arg =
     and_then (u64 pair_index_arg) (\<lambda>pair_index.
     if 2 < pair_index
     then Inl (TimingMathError ''timing-pair index is outside the frozen three-pair campaign'')
     else
     and_then (validated_common_timestamps timestamps_arg) (\<lambda>timestamps.
       Inr (TIMING_COMMON_DOMAIN @ to_bytes 8 (nat pair_index) @ to_bytes 8 (length timestamps)
            @ concat (map (\<lambda>t. to_bytes 8 (nat t)) timestamps))))"

definition common_payload_sha256_of :: "int \<Rightarrow> int list \<Rightarrow> int py" where
  "common_payload_sha256_of pair_index timestamps =
     and_then (canonical_common_population_payload (PyInt pair_index) (PyTuple (map PyInt timestamps)))
       (\<lambda>payload. Inr (sha256_int payload))"

record timing_pair_ev =
  timing_pair_index :: int
  common_timestamps_ns :: "int list"
  common_payload_sha256 :: int
  baseline_quantiles :: timing_quantiles_ev
  candidate_quantiles :: timing_quantiles_ev
  p50_gate :: ratio_gate_ev
  p95_gate :: ratio_gate_ev
  pair_passed :: bool

definition limit_pair :: "ratio_gate_ev \<Rightarrow> int \<times> int" where
  "limit_pair g = (limit_numerator g, limit_denominator g)"

definition timing_pair_check :: "timing_pair_ev \<Rightarrow> unit py" where
  "timing_pair_check p =
     and_then (u64 (PyInt (timing_pair_index p))) (\<lambda>pair_index.
     if 2 < pair_index
     then Inl (TimingMathError ''timing-pair index is outside the frozen three-pair campaign'')
     else
     and_then (validated_common_timestamps (PyTuple (map PyInt (common_timestamps_ns p)))) (\<lambda>timestamps.
     let common_sha = common_payload_sha256 p in
     if common_sha < 0 \<or> U256_MAX < common_sha
     then Inl (TimingMathError ''common payload SHA-256 is outside u256'')
     else
     and_then (common_payload_sha256_of pair_index timestamps) (\<lambda>expected_sha.
     if expected_sha \<noteq> common_sha
     then Inl (TimingMathError ''common payload SHA-256 differs from exact recomputation'')
     else
     and_then (validated_timing_quantiles (baseline_quantiles p)) (\<lambda>baseline.
     and_then (validated_timing_quantiles (candidate_quantiles p)) (\<lambda>candidate.
     if sample_count (lq_rank (p50 baseline)) \<noteq> int (length timestamps)
        \<or> sample_count (lq_rank (p50 candidate)) \<noteq> int (length timestamps)
     then Inl (TimingMathError ''timing quantile population count differs from the common timestamps'')
     else
     and_then (validated_ratio_gate (p50_gate p)) (\<lambda>g50.
     and_then (validated_ratio_gate (p95_gate p)) (\<lambda>g95.
     if baseline_ns g50 \<noteq> value_ns (p50 baseline) \<or> candidate_ns g50 \<noteq> value_ns (p50 candidate)
        \<or> limit_pair g50 \<noteq> MEDIAN_RATIO_LIMIT
     then Inl (TimingMathError ''p50 gate does not bind the retained pair quantiles'')
     else if baseline_ns g95 \<noteq> value_ns (p95 baseline) \<or> candidate_ns g95 \<noteq> value_ns (p95 candidate)
        \<or> limit_pair g95 \<noteq> P95_RATIO_LIMIT
     then Inl (TimingMathError ''p95 gate does not bind the retained pair quantiles'')
     else if pair_passed p \<noteq> (gate_passed g50 \<and> gate_passed g95)
     then Inl (TimingMathError ''timing-pair decision differs from both exact gates'')
     else Inr ())))))))"

definition mk_timing_pair :: "timing_pair_ev \<Rightarrow> timing_pair_ev py" where
  "mk_timing_pair p = and_then (timing_pair_check p) (\<lambda>_. Inr p)"

definition validated_timing_pair_result :: "timing_pair_ev \<Rightarrow> timing_pair_ev py" where
  "validated_timing_pair_result value =
     except_timing (mk_timing_pair value) ''campaign pair result is forged or invalid''"

text \<open>A duration argument is a list or tuple; strings and byte strings are refused.\<close>

definition durations_sequence :: "pyval \<Rightarrow> string \<Rightarrow> pyval list py" where
  "durations_sequence v msg =
     (case v of PyList xs \<Rightarrow> Inr xs | PyTuple xs \<Rightarrow> Inr xs | _ \<Rightarrow> Inl (TimingMathError msg))"

definition timing_pair_result :: "pyval \<Rightarrow> pyval \<Rightarrow> pyval \<Rightarrow> pyval \<Rightarrow> timing_pair_ev py" where
  "timing_pair_result pair_index_arg timestamps_arg baseline_durations candidate_durations =
     and_then (u64 pair_index_arg) (\<lambda>pair_index.
     and_then (validated_common_timestamps timestamps_arg) (\<lambda>timestamps.
     and_then (durations_sequence baseline_durations
                 ''baseline timing durations must be a finite sequence'') (\<lambda>bs.
     and_then (durations_sequence candidate_durations
                 ''candidate timing durations must be a finite sequence'') (\<lambda>cs.
     if length bs \<noteq> length timestamps \<or> length cs \<noteq> length timestamps
     then Inl (TimingMathError ''mode timing duration counts differ from the common timestamps'')
     else
     and_then (timing_quantiles_ns baseline_durations) (\<lambda>baseline.
     and_then (timing_quantiles_ns candidate_durations) (\<lambda>candidate.
     and_then (ratio_gate (value_ns (p50 baseline)) (value_ns (p50 candidate))
                 (PyInt (fst MEDIAN_RATIO_LIMIT)) (PyInt (snd MEDIAN_RATIO_LIMIT))) (\<lambda>g50.
     and_then (ratio_gate (value_ns (p95 baseline)) (value_ns (p95 candidate))
                 (PyInt (fst P95_RATIO_LIMIT)) (PyInt (snd P95_RATIO_LIMIT))) (\<lambda>g95.
     and_then (common_payload_sha256_of pair_index timestamps) (\<lambda>sha.
       mk_timing_pair
         \<lparr>timing_pair_index = pair_index, common_timestamps_ns = timestamps,
          common_payload_sha256 = sha, baseline_quantiles = baseline,
          candidate_quantiles = candidate, p50_gate = g50, p95_gate = g95,
          pair_passed = (gate_passed g50 \<and> gate_passed g95)\<rparr>)))))))))"

record timing_campaign_ev =
  pair_results :: "timing_pair_ev list"
  median_p50 :: median_ev
  median_p95 :: median_ev
  every_pair_passed :: bool
  campaign_passed :: bool

definition timing_campaign_check :: "timing_campaign_ev \<Rightarrow> unit py" where
  "timing_campaign_check c =
     (if length (pair_results c) \<noteq> 3
      then Inl (TimingMathError ''timing campaign must retain exactly three pair results'')
      else
      and_then (mapM validated_timing_pair_result (pair_results c)) (\<lambda>pairs.
      if map timing_pair_index pairs \<noteq> [0, 1, 2]
      then Inl (TimingMathError ''timing campaign pair indices are not exactly 0,1,2'')
      else
      and_then (median_of_three_ratios (map (\<lambda>v. candidate_over_baseline (p50_gate v)) pairs)) (\<lambda>expected_p50.
      and_then (median_of_three_ratios (map (\<lambda>v. candidate_over_baseline (p95_gate v)) pairs)) (\<lambda>expected_p95.
      and_then (validated_median (median_p50 c)) (\<lambda>m50.
      and_then (validated_median (median_p95 c)) (\<lambda>m95.
      if m50 \<noteq> expected_p50 \<or> m95 \<noteq> expected_p95
      then Inl (TimingMathError ''timing campaign median differs from exact pair ratios'')
      else
      let expected_every = list_all pair_passed pairs in
      if every_pair_passed c \<noteq> expected_every
      then Inl (TimingMathError ''timing campaign every-pair decision differs'')
      else if campaign_passed c \<noteq> expected_every
      then Inl (TimingMathError ''timing campaign decision differs from every-pair gates'')
      else Inr ()))))))"

definition mk_timing_campaign :: "timing_campaign_ev \<Rightarrow> timing_campaign_ev py" where
  "mk_timing_campaign c = and_then (timing_campaign_check c) (\<lambda>_. Inr c)"

definition timing_campaign_result :: "timing_pair_ev list \<Rightarrow> timing_campaign_ev py" where
  "timing_campaign_result results =
     (if length results \<noteq> 3
      then Inl (TimingMathError ''timing campaign requires an exact three-pair tuple'')
      else
      and_then (mapM validated_timing_pair_result results) (\<lambda>pairs.
      if map timing_pair_index pairs \<noteq> [0, 1, 2]
      then Inl (TimingMathError ''timing campaign pair indices are not exactly 0,1,2'')
      else
      and_then (median_of_three_ratios (map (\<lambda>v. candidate_over_baseline (p50_gate v)) pairs)) (\<lambda>m50.
      and_then (median_of_three_ratios (map (\<lambda>v. candidate_over_baseline (p95_gate v)) pairs)) (\<lambda>m95.
      let every = list_all pair_passed pairs in
      mk_timing_campaign
        \<lparr>pair_results = pairs, median_p50 = m50, median_p95 = m95,
         every_pair_passed = every, campaign_passed = every\<rparr>))))"

section \<open>Success of the scalar checks\<close>

lemma plain_integer_Inr [simp]: "plain_integer v = Inr n \<longleftrightarrow> v = PyInt n"
  by (cases v) (auto simp: plain_integer_def)

lemma u64_Inr [simp]: "u64 v = Inr n \<longleftrightarrow> v = PyInt n \<and> 0 \<le> n \<and> n \<le> U64_MAX"
  by (auto simp: u64_def)

lemma positive_u64_Inr [simp]: "positive_u64 v = Inr n \<longleftrightarrow> v = PyInt n \<and> 0 < n \<and> n \<le> U64_MAX"
  by (auto simp: positive_u64_def)

lemma except_timing_Inr [simp]: "except_timing m msg = Inr x \<longleftrightarrow> m = Inr x"
  by (auto simp: except_timing_def split: sum.splits exn.splits)

lemma canonical_allowed_pair_Inr [simp]:
  "canonical_allowed_pair a b allowed = Inr p \<longleftrightarrow>
     (\<exists>n d. p = (n, d) \<and> a = PyInt n \<and> b = PyInt d \<and> 0 < n \<and> n \<le> U64_MAX \<and> 0 < d \<and> d \<le> U64_MAX \<and>
            gcd n d = 1 \<and> (n, d) \<in> set allowed)"
  by (auto simp: canonical_allowed_pair_def)

lemma gcd_frozen [simp]: "gcd 19 20 = (1 :: int)" "gcd 11 10 = (1 :: int)" "gcd 23 20 = (1 :: int)"
  by code_simp+

lemma checked_u64_add_Inr:
  "checked_u64_add a b = Inr c \<longleftrightarrow> 0 \<le> a \<and> 0 \<le> b \<and> a + b \<le> U64_MAX \<and> c = a + b"
  by (auto simp: checked_u64_add_def width_defs)

lemma checked_u64_multiply_Inr:
  "checked_u64_multiply a b = Inr c \<longleftrightarrow>
     0 \<le> a \<and> a \<le> U64_MAX \<and> 0 \<le> b \<and> b \<le> U64_MAX \<and> a * b \<le> U64_MAX \<and> c = a * b"
proof -
  have "(U64_MAX div a < b) = (U64_MAX < a * b)" if "0 < a"
  proof -
    have "U64_MAX = a * (U64_MAX div a) + U64_MAX mod a" "0 \<le> U64_MAX mod a" "U64_MAX mod a < a"
      using that by simp_all
    moreover have "a * (U64_MAX div a) + a \<le> a * b" if "U64_MAX div a < b"
      using \<open>0 < a\<close> that mult_left_mono [of "U64_MAX div a + 1" b a] by (simp add: algebra_simps)
    moreover have "a * b \<le> a * (U64_MAX div a)" if "b \<le> U64_MAX div a"
      using \<open>0 < a\<close> that by simp
    ultimately show ?thesis by linarith
  qed
  then show ?thesis
    by (cases "a = 0") (auto simp: checked_u64_multiply_def U64_MAX_def)
qed

section \<open>Canonical rationals\<close>

definition rational_ns_valid :: "rational_ns \<Rightarrow> bool" where
  "rational_ns_valid r \<longleftrightarrow> 0 < rn_denominator r \<and> rn_denominator r \<le> U64_MAX \<and> 0 \<le> rn_numerator r
     \<and> rn_numerator r \<le> U128_MAX \<and> rn_numerator r \<le> U64_MAX * rn_denominator r
     \<and> gcd (rn_numerator r) (rn_denominator r) = 1"

definition exact_ratio_valid :: "exact_ratio \<Rightarrow> bool" where
  "exact_ratio_valid r \<longleftrightarrow> 0 \<le> er_numerator r \<and> er_numerator r \<le> U128_MAX \<and> 0 < er_denominator r
     \<and> er_denominator r \<le> U128_MAX \<and> gcd (er_numerator r) (er_denominator r) = 1"

lemma rational_ns_check_Inr [simp]: "rational_ns_check r = Inr u \<longleftrightarrow> rational_ns_valid r"
  by (auto simp: rational_ns_check_def rational_ns_valid_def Let_def)

lemma exact_ratio_check_Inr [simp]: "exact_ratio_check r = Inr u \<longleftrightarrow> exact_ratio_valid r"
  by (auto simp: exact_ratio_check_def exact_ratio_valid_def Let_def MAX_EXACT_RATIO_COMPONENT_def)

lemma mk_rational_ns_Inr:
  "mk_rational_ns n d = Inr r \<longleftrightarrow> r = \<lparr>rn_numerator = n, rn_denominator = d\<rparr> \<and> rational_ns_valid r"
  by (auto simp: mk_rational_ns_def Let_def)

lemma mk_exact_ratio_Inr:
  "mk_exact_ratio n d = Inr r \<longleftrightarrow> r = \<lparr>er_numerator = n, er_denominator = d\<rparr> \<and> exact_ratio_valid r"
  by (auto simp: mk_exact_ratio_def Let_def)

lemma validated_rational_ns_Inr [simp]:
  "validated_rational_ns r = Inr s \<longleftrightarrow> s = r \<and> rational_ns_valid r"
  by (cases r) (auto simp: validated_rational_ns_def mk_rational_ns_Inr)

lemma validated_exact_ratio_Inr [simp]:
  "validated_exact_ratio r = Inr s \<longleftrightarrow> s = r \<and> exact_ratio_valid r"
  by (cases r) (auto simp: validated_exact_ratio_def mk_exact_ratio_Inr)

text \<open>The rational number a record stands for.\<close>

definition rat_ns :: "rational_ns \<Rightarrow> rat" where
  "rat_ns r = of_int (rn_numerator r) / of_int (rn_denominator r)"

definition rat_ratio :: "exact_ratio \<Rightarrow> rat" where
  "rat_ratio r = of_int (er_numerator r) / of_int (er_denominator r)"

lemma reduced_fraction_unique:
  assumes "(of_int a / of_int b :: rat) = of_int c / of_int d"
    and "gcd a b = 1" "gcd c d = 1" "0 < b" "0 < d"
  shows "a = c \<and> b = d"
proof -
  have "Fract a b = Fract c d" using assms(1) by (simp add: Fract_of_int_quotient)
  then have "Rat.normalize (a, b) = Rat.normalize (c, d)" by (metis quotient_of_Fract)
  then show ?thesis using assms(2-5) by (simp add: Rat.normalize_def)
qed

lemma rat_ns_inj: "rational_ns_valid r \<Longrightarrow> rational_ns_valid s \<Longrightarrow> rat_ns r = rat_ns s \<Longrightarrow> r = s"
  using reduced_fraction_unique [of "rn_numerator r" "rn_denominator r" "rn_numerator s" "rn_denominator s"]
  by (cases r; cases s) (auto simp: rational_ns_valid_def rat_ns_def)

lemma rat_ratio_inj: "exact_ratio_valid r \<Longrightarrow> exact_ratio_valid s \<Longrightarrow> rat_ratio r = rat_ratio s \<Longrightarrow> r = s"
  using reduced_fraction_unique [of "er_numerator r" "er_denominator r" "er_numerator s" "er_denominator s"]
  by (cases r; cases s) (auto simp: exact_ratio_valid_def rat_ratio_def)

lemma div_gcd_rat:
  assumes "0 < (d :: int)"
  shows "(of_int (n div gcd n d) / of_int (d div gcd n d) :: rat) = of_int n / of_int d"
proof -
  let ?g = "gcd n d"
  have g: "?g \<noteq> 0" using assms by simp
  have "(of_int (n div ?g) * of_int ?g :: rat) = of_int n" "(of_int (d div ?g) * of_int ?g :: rat) = of_int d"
    by (simp_all flip: of_int_mult)
  then have "(of_int n / of_int d :: rat) = (of_int (n div ?g) * of_int ?g) / (of_int (d div ?g) * of_int ?g)"
    by simp
  also have "\<dots> = of_int (n div ?g) / of_int (d div ?g)" using g by simp
  finally show ?thesis by simp
qed

lemma reduced_components:
  assumes "0 < (d :: int)" "0 \<le> n"
  shows "0 < d div gcd n d" "d div gcd n d \<le> d" "0 \<le> n div gcd n d" "n div gcd n d \<le> n"
    "gcd (n div gcd n d) (d div gcd n d) = 1"
proof -
  have g: "0 < gcd n d" using assms by simp
  then have g1: "1 \<le> gcd n d" by linarith
  show "0 < d div gcd n d" using assms g
    by (simp add: pos_imp_zdiv_pos_iff zdvd_imp_le)
  show "d div gcd n d \<le> d" "n div gcd n d \<le> n" using assms
    zdiv_mono2 [OF _ _ g1, of d] zdiv_mono2 [OF _ _ g1, of n] by simp_all
  show "0 \<le> n div gcd n d" using assms g by (simp add: pos_imp_zdiv_nonneg_iff)
  show "gcd (n div gcd n d) (d div gcd n d) = 1"
    using assms by (simp add: div_gcd_coprime flip: coprime_iff_gcd_eq_1)
qed

lemma reduced_rational_ns_ok:
  assumes "0 \<le> n" "0 < d" "d \<le> U64_MAX" "n \<le> U64_MAX * d"
  shows "\<exists>r. reduced_rational_ns n d = Inr r \<and> rational_ns_valid r \<and> rat_ns r = of_int n / of_int d
           \<and> rn_denominator r \<le> d"
proof -
  let ?r = "\<lparr>rn_numerator = n div gcd n d, rn_denominator = d div gcd n d\<rparr>"
  note rc = reduced_components [OF assms(2,1)]
  have g: "0 < gcd n d" using assms by simp
  have "n div gcd n d * gcd n d \<le> U64_MAX * (d div gcd n d) * gcd n d"
    using assms by (simp add: mult.assoc)
  then have val: "n div gcd n d \<le> U64_MAX * (d div gcd n d)"
    using g by (meson mult_le_cancel_right not_less)
  have "U64_MAX * (d div gcd n d) \<le> U64_MAX * U64_MAX"
    using rc(2) assms(3) by (intro mult_left_mono) (auto simp: U64_MAX_def)
  then have "n div gcd n d \<le> U128_MAX" using val by (simp add: width_defs)
  then have v: "rational_ns_valid ?r"
    using rc assms val by (auto simp: rational_ns_valid_def)
  have "reduced_rational_ns n d = Inr ?r"
    using v by (simp add: reduced_rational_ns_def Let_def mk_rational_ns_Inr)
  moreover have "rat_ns ?r = of_int n / of_int d"
    using div_gcd_rat [OF assms(2)] by (simp add: rat_ns_def)
  ultimately show ?thesis using v rc(2) by auto
qed

lemma reduced_exact_ratio_ok:
  assumes "0 \<le> n" "0 < d" "n \<le> U128_MAX" "d \<le> U128_MAX"
  shows "\<exists>r. reduced_exact_ratio n d = Inr r \<and> exact_ratio_valid r \<and> rat_ratio r = of_int n / of_int d"
proof -
  let ?r = "\<lparr>er_numerator = n div gcd n d, er_denominator = d div gcd n d\<rparr>"
  note rc = reduced_components [OF assms(2,1)]
  have v: "exact_ratio_valid ?r"
    using rc assms by (auto simp: exact_ratio_valid_def)
  have "reduced_exact_ratio n d = Inr ?r"
    using v by (simp add: reduced_exact_ratio_def Let_def mk_exact_ratio_Inr)
  moreover have "rat_ratio ?r = of_int n / of_int d"
    using div_gcd_rat [OF assms(2)] by (simp add: rat_ratio_def)
  ultimately show ?thesis using v by auto
qed

lemma reduced_exact_ratio_sound:
  assumes "reduced_exact_ratio n d = Inr r" "0 < d"
  shows "exact_ratio_valid r \<and> rat_ratio r = of_int n / of_int d"
  using assms div_gcd_rat [OF assms(2), of n]
  by (auto simp: reduced_exact_ratio_def Let_def mk_exact_ratio_Inr rat_ratio_def)

section \<open>Linear ranks\<close>

text \<open>The real-valued rank \<open>h = (n - 1) * q\<close> of the module documentation.\<close>

definition rank_position :: "int \<Rightarrow> int \<times> int \<Rightarrow> rat" where
  "rank_position n q = of_int (n - 1) * of_int (fst q) / of_int (snd q)"

definition weight_of_remainder :: "int \<Rightarrow> int \<Rightarrow> int \<times> int" where
  "weight_of_remainder remainder q_den =
     (if remainder = 0 then (0, 1)
      else let divisor = gcd remainder q_den in (remainder div divisor, q_den div divisor))"

lemma linear_rank_check_Inr:
  "linear_rank_check r = Inr u \<longleftrightarrow>
     0 < sample_count r \<and> sample_count r \<le> U64_MAX \<and>
     (quantile_numerator r, quantile_denominator r) \<in> set ALLOWED_QUANTILES \<and>
     (sample_count r - 1) * quantile_numerator r \<le> U64_MAX \<and>
     low_index r = (sample_count r - 1) * quantile_numerator r div quantile_denominator r \<and>
     high_index r = low_index r
       + (if (sample_count r - 1) * quantile_numerator r mod quantile_denominator r = 0 then 0 else 1) \<and>
     (weight_numerator r, weight_denominator r) =
       weight_of_remainder ((sample_count r - 1) * quantile_numerator r mod quantile_denominator r)
         (quantile_denominator r) \<and>
     high_index r < sample_count r"
  (is "?L = ?R")
proof
  assume ?L then show ?R
    by (auto simp: linear_rank_check_def Let_def checked_u64_multiply_Inr checked_u64_add_Inr
        weight_of_remainder_def split: if_splits)
next
  assume R: ?R
  define q where "q = quantile_denominator r"
  define m where "m = (sample_count r - 1) * quantile_numerator r"
  have q: "q = 2 \<or> q = 20" and qn: "quantile_numerator r = 1 \<or> quantile_numerator r = 19"
    and cop: "gcd (quantile_numerator r) q = 1"
    using R by (auto simp: frozen_pair_defs q_def)
  have m0: "0 \<le> m" using R qn by (auto simp: m_def)
  have lowm: "low_index r = m div q" using R by (simp add: m_def q_def)
  have "0 \<le> m div q" "m div q \<le> m" using m0 q by auto
  have rem: "0 \<le> m mod q" "m mod q < q" using q by auto
  have w: "0 \<le> weight_numerator r \<and> weight_numerator r \<le> U64_MAX \<and> 0 < weight_denominator r \<and> weight_denominator r \<le> U64_MAX"
  proof (cases "m mod q = 0")
    case True
    then show ?thesis using R by (simp add: weight_of_remainder_def m_def q_def U64_MAX_def)
  next
    case False
    then have "weight_numerator r = m mod q div gcd (m mod q) q" "weight_denominator r = q div gcd (m mod q) q"
      using R by (simp_all add: weight_of_remainder_def m_def q_def Let_def)
    moreover have "0 < q" "q \<le> 20" "20 \<le> U64_MAX" using q by (auto simp: U64_MAX_def)
    ultimately show ?thesis using reduced_components [OF \<open>0 < q\<close> rem(1)] rem
      by (intro conjI) linarith+
  qed
  have hi: "high_index r = (if m mod q = 0 then m div q else m div q + 1)"
    using R by (simp add: m_def q_def)
  have bnd: "high_index r \<le> U64_MAX" "0 \<le> high_index r" "0 \<le> low_index r" "low_index r \<le> U64_MAX"
  proof -
    have "low_index r \<le> high_index r" using hi lowm by simp
    moreover have "high_index r < sample_count r" "sample_count r \<le> U64_MAX" using R by simp_all
    moreover have "0 \<le> low_index r" using lowm \<open>0 \<le> m div q\<close> by simp
    ultimately show "high_index r \<le> U64_MAX" "0 \<le> high_index r" "0 \<le> low_index r" "low_index r \<le> U64_MAX"
      by linarith+
  qed
  have a: "positive_u64 (PyInt (sample_count r)) = Inr (sample_count r)"
    "u64 (PyInt (low_index r)) = Inr (low_index r)" "u64 (PyInt (high_index r)) = Inr (high_index r)"
    "u64 (PyInt (weight_numerator r)) = Inr (weight_numerator r)"
    "positive_u64 (PyInt (weight_denominator r)) = Inr (weight_denominator r)"
    using R w bnd by simp_all
  have b: "canonical_allowed_pair (PyInt (quantile_numerator r)) (PyInt (quantile_denominator r)) ALLOWED_QUANTILES
      = Inr (quantile_numerator r, q)"
    using R q qn cop by (auto simp: q_def U64_MAX_def)
  have c: "checked_u64_multiply (sample_count r - 1) (quantile_numerator r) = Inr m"
    using R qn m0 by (auto simp: checked_u64_multiply_Inr m_def U64_MAX_def)
  have d: "(if m mod q = 0 then Inr (m div q) else checked_u64_add (m div q) 1) = Inr (high_index r)"
    using hi bnd \<open>0 \<le> m div q\<close> by (auto simp: checked_u64_add_Inr)
  have e: "(weight_numerator r, weight_denominator r) = weight_of_remainder (m mod q) q"
    using R by (simp add: m_def q_def)
  have f: "high_index r < sample_count r" using R by simp
  show ?L
    unfolding linear_rank_check_def a b c and_then_Inr Let_def case_prod_conv d
    using e f lowm by (simp add: weight_of_remainder_def Let_def)
qed

lemma weight_of_remainder_rat:
  assumes "0 < q" "0 \<le> m" "weight_of_remainder (m mod q) q = (wn, wd)"
  shows "(of_int (m div q) + of_int wn / of_int wd :: rat) = of_int m / of_int q"
    and "0 \<le> wn" "wn < wd" "wd \<le> q"
proof -
  have split: "(of_int m :: rat) = of_int (m div q) * of_int q + of_int (m mod q)"
    by (metis div_mult_mod_eq of_int_add of_int_mult)
  have rem: "0 \<le> m mod q" "m mod q < q" using assms by auto
  have frac: "(of_int wn / of_int wd :: rat) = of_int (m mod q) / of_int q"
    using assms(3) div_gcd_rat [OF assms(1), of "m mod q"]
    by (auto simp: weight_of_remainder_def Let_def split: if_splits)
  show "(of_int (m div q) + of_int wn / of_int wd :: rat) = of_int m / of_int q"
    unfolding frac split using assms(1) by (simp add: add_divide_distrib)
  show le: "0 \<le> wn" "wd \<le> q"
    using assms(1,3) reduced_components [OF assms(1) rem(1)]
    by (auto simp: weight_of_remainder_def Let_def split: if_splits)
  have wd: "0 < wd"
    using assms(1,3) reduced_components [OF assms(1) rem(1)]
    by (auto simp: weight_of_remainder_def Let_def split: if_splits)
  have "(of_int wn / of_int wd :: rat) < 1"
    unfolding frac using rem(2) assms(1) by simp
  then show "wn < wd" using wd by simp
qed

text \<open>Every rank that passes the check brackets the position and interpolates it exactly.\<close>

lemma linear_rank_check_position:
  assumes "linear_rank_check r = Inr u"
  shows "of_int (low_index r) + of_int (weight_numerator r) / of_int (weight_denominator r)
           = rank_position (sample_count r) (quantile_numerator r, quantile_denominator r)"
    and "0 \<le> low_index r" "low_index r \<le> high_index r" "high_index r \<le> low_index r + 1"
    and "high_index r < sample_count r"
    and "0 \<le> weight_numerator r" "weight_numerator r < weight_denominator r" "weight_denominator r \<le> 20"
    and "low_index r = high_index r \<longleftrightarrow> weight_numerator r = 0"
proof -
  note R = assms [unfolded linear_rank_check_Inr]
  define q where "q = quantile_denominator r"
  define m where "m = (sample_count r - 1) * quantile_numerator r"
  have q: "0 < q" "q \<le> 20" and qn: "0 < quantile_numerator r"
    using R by (auto simp: frozen_pair_defs q_def)
  have m: "0 \<le> m" using R qn by (auto simp: m_def)
  have w: "weight_of_remainder (m mod q) q = (weight_numerator r, weight_denominator r)"
    using R by (simp add: m_def q_def)
  note wr = weight_of_remainder_rat [OF q(1) m w]
  have low: "low_index r = m div q" and high: "high_index r = m div q + (if m mod q = 0 then 0 else 1)"
    using R by (simp_all add: m_def q_def)
  show "of_int (low_index r) + of_int (weight_numerator r) / of_int (weight_denominator r)
           = rank_position (sample_count r) (quantile_numerator r, quantile_denominator r)"
    using wr(1) by (simp add: low rank_position_def m_def q_def)
  show "0 \<le> low_index r" using m q by (simp add: low pos_imp_zdiv_nonneg_iff)
  show "low_index r \<le> high_index r" "high_index r \<le> low_index r + 1" by (simp_all add: low high)
  show "high_index r < sample_count r" using R by simp
  show "0 \<le> weight_numerator r" "weight_numerator r < weight_denominator r" "weight_denominator r \<le> 20"
    using wr q(2) by simp_all
  have "m mod q = 0 \<longleftrightarrow> weight_numerator r = 0"
    using w reduced_components [OF q(1), of "m mod q"] q(1)
    by (auto simp: weight_of_remainder_def Let_def dvd_div_eq_0_iff split: if_splits)
  then show "low_index r = high_index r \<longleftrightarrow> weight_numerator r = 0" by (simp add: low high)
qed

lemma linear_rank_ok:
  assumes "0 < n" "n \<le> U64_MAX" "q \<in> set ALLOWED_QUANTILES" "(n - 1) * fst q \<le> U64_MAX"
  shows "\<exists>r. linear_rank (PyInt n) (PyInt (fst q)) (PyInt (snd q)) = Inr r \<and> linear_rank_check r = Inr ()
           \<and> sample_count r = n \<and> (quantile_numerator r, quantile_denominator r) = q"
proof -
  obtain a b where q: "q = (a, b)" by (cases q)
  have ab: "(a, b) \<in> set ALLOWED_QUANTILES" "0 < a" "a < b" "b \<le> 20" "gcd a b = 1"
    using assms(3) by (auto simp: q frozen_pair_defs)
  define m where "m = (n - 1) * a"
  have m: "0 \<le> m" "m \<le> U64_MAX" using assms ab by (auto simp: m_def q)
  obtain wn wd where w: "weight_of_remainder (m mod b) b = (wn, wd)" by force
  define hi where "hi = m div b + (if m mod b = 0 then 0 else 1)"
  have "m \<le> (n - 1) * b" using assms ab by (auto simp: m_def mult_left_mono)
  have mdb: "0 \<le> m div b" using m ab by (simp add: pos_imp_zdiv_nonneg_iff)
  have hin: "hi < n"
  proof -
    have b0: "0 < b" using ab by linarith
    have "b * (m div b) + m mod b = m" "0 \<le> m mod b" using b0 by simp_all
    then have "m mod b \<noteq> 0 \<Longrightarrow> b * (m div b) < (n - 1) * b" and "b * (m div b) \<le> (n - 1) * b"
      using \<open>m \<le> (n - 1) * b\<close> by linarith+
    then show ?thesis using b0 by (auto simp: hi_def mult.commute [of b])
  qed
  let ?r = "\<lparr>sample_count = n, quantile_numerator = a, quantile_denominator = b, low_index = m div b,
      high_index = hi, weight_numerator = wn, weight_denominator = wd\<rparr>"
  have chk: "linear_rank_check ?r = Inr ()"
    using assms ab m hin w by (simp add: linear_rank_check_Inr m_def hi_def q)
  have b: "canonical_allowed_pair (PyInt a) (PyInt b) ALLOWED_QUANTILES = Inr (a, b)"
    using ab by (auto simp: U64_MAX_def)
  have c: "checked_u64_multiply (n - 1) a = Inr m"
    using assms ab m by (auto simp: checked_u64_multiply_Inr m_def U64_MAX_def)
  have d: "(if m mod b = 0 then Inr (m div b) else checked_u64_add (m div b) 1) = Inr hi"
    using hin mdb assms(2) by (simp add: checked_u64_add_Inr hi_def split: if_splits)
  have e: "(if m mod b = 0 then (0, 1) else (m mod b div gcd (m mod b) b, b div gcd (m mod b) b)) = (wn, wd)"
    using w by (simp add: weight_of_remainder_def Let_def split: if_splits)
  have "positive_u64 (PyInt n) = Inr n" using assms by simp
  then have "linear_rank (PyInt n) (PyInt a) (PyInt b) = Inr ?r"
    unfolding linear_rank_def Let_def
    using b c d e hin chk by (simp add: mk_linear_rank_def)
  then show ?thesis using chk by (auto simp: q)
qed

end
