(* ===== verification/Timing_Math_Correct.thy ===== *)
theory Timing_Math_Correct
  imports Timing_Math
begin

text \<open>
  Correctness of the timing mathematics over the rational numbers: the quantiles are the linear
  quantiles of the sorted population, the gates decide the rational inequality, the sorting network
  sorts, every construction from valid measurements succeeds, and evidence that passes revalidation
  states the truth about the population it retains.
\<close>

section \<open>Quantiles as rational numbers\<close>

text \<open>Linear interpolation of an ordered population at a real-valued position.\<close>

definition position_value :: "int list \<Rightarrow> rat \<Rightarrow> rat" where
  "position_value xs h =
     (let w = h - of_int \<lfloor>h\<rfloor>
      in (1 - w) * of_int (xs ! nat \<lfloor>h\<rfloor>) + w * of_int (xs ! nat \<lceil>h\<rceil>))"

lemma convex_between:
  assumes "0 \<le> (w :: rat)" "w \<le> 1" "a \<le> b"
  shows "a \<le> (1 - w) * a + w * b" "(1 - w) * a + w * b \<le> b"
proof -
  have "(1 - w) * a + w * b = a + w * (b - a)" and e: "(1 - w) * a + w * b = b - (1 - w) * (b - a)"
    by (simp_all add: algebra_simps)
  moreover have "0 \<le> w * (b - a)" "0 \<le> (1 - w) * (b - a)" using assms by simp_all
  ultimately show "a \<le> (1 - w) * a + w * b" "(1 - w) * a + w * b \<le> b" by linarith+
qed

lemma position_value_bracket:
  assumes "sorted xs" "0 \<le> h" "\<lceil>h\<rceil> < int (length xs)"
  shows "of_int (xs ! nat \<lfloor>h\<rfloor>) \<le> position_value xs h" "position_value xs h \<le> of_int (xs ! nat \<lceil>h\<rceil>)"
proof -
  have "nat \<lfloor>h\<rfloor> \<le> nat \<lceil>h\<rceil>" "nat \<lceil>h\<rceil> < length xs"
    using floor_le_ceiling [of h] assms by linarith+
  then have "xs ! nat \<lfloor>h\<rfloor> \<le> xs ! nat \<lceil>h\<rceil>"
    using assms by (intro sorted_nth_mono)
  moreover have "0 \<le> h - of_int \<lfloor>h\<rfloor>" "h - of_int \<lfloor>h\<rfloor> \<le> 1"
    by linarith+
  ultimately show "of_int (xs ! nat \<lfloor>h\<rfloor>) \<le> position_value xs h"
    "position_value xs h \<le> of_int (xs ! nat \<lceil>h\<rceil>)"
    unfolding position_value_def Let_def by (auto intro: convex_between)
qed

lemma position_value_mono:
  assumes "sorted xs" "0 \<le> h" "h \<le> k" "\<lceil>k\<rceil> < int (length xs)"
  shows "position_value xs h \<le> position_value xs k"
proof (cases "\<lfloor>h\<rfloor> = \<lfloor>k\<rfloor>")
  case False
  then have "\<lfloor>h\<rfloor> < \<lfloor>k\<rfloor>" using assms(3) floor_mono [of h k] by linarith
  then have hk: "\<lceil>h\<rceil> \<le> \<lfloor>k\<rfloor>" by linarith
  have fk: "\<lfloor>k\<rfloor> \<le> \<lceil>k\<rceil>" by (rule floor_le_ceiling)
  have "position_value xs h \<le> of_int (xs ! nat \<lceil>h\<rceil>)"
    using assms hk fk by (intro position_value_bracket) linarith+
  also have "nat \<lceil>h\<rceil> \<le> nat \<lfloor>k\<rfloor>" "nat \<lfloor>k\<rfloor> < length xs"
    using assms hk fk by linarith+
  then have "of_int (xs ! nat \<lceil>h\<rceil>) \<le> (of_int (xs ! nat \<lfloor>k\<rfloor>) :: rat)"
    using assms by (simp add: sorted_nth_mono)
  also have "\<dots> \<le> position_value xs k"
    using assms by (intro position_value_bracket) linarith+
  finally show ?thesis .
next
  case True
  show ?thesis
  proof (cases "\<lceil>h\<rceil> = \<lceil>k\<rceil>")
    case c: True
    have "nat \<lfloor>k\<rfloor> \<le> nat \<lceil>k\<rceil>" "nat \<lceil>k\<rceil> < length xs"
      using floor_le_ceiling [of k] assms by linarith+
    then have le: "xs ! nat \<lfloor>k\<rfloor> \<le> xs ! nat \<lceil>k\<rceil>"
      using assms by (intro sorted_nth_mono)
    define a b where "a = (of_int (xs ! nat \<lfloor>k\<rfloor>) :: rat)" and "b = (of_int (xs ! nat \<lceil>k\<rceil>) :: rat)"
    have "position_value xs h = a + (h - of_int \<lfloor>k\<rfloor>) * (b - a)" "position_value xs k = a + (k - of_int \<lfloor>k\<rfloor>) * (b - a)"
      by (simp_all add: position_value_def Let_def True c a_def b_def algebra_simps)
    moreover have "0 \<le> b - a" using le by (simp add: a_def b_def)
    ultimately show ?thesis using assms(3) by (simp add: mult_right_mono)
  next
    case c: False
    then have "\<lceil>h\<rceil> < \<lceil>k\<rceil>" using assms(3) ceiling_mono [of h k] by linarith
    then have "\<lceil>h\<rceil> = \<lfloor>h\<rfloor>" using True by linarith
    then have "position_value xs h = of_int (xs ! nat \<lfloor>k\<rfloor>)"
      by (simp add: position_value_def Let_def True algebra_simps)
    also have "\<dots> \<le> position_value xs k"
      using assms by (intro position_value_bracket) linarith+
    finally show ?thesis .
  qed
qed

lemma rank_floor_ceiling:
  assumes "linear_rank_check r = Inr u"
  defines "h \<equiv> rank_position (sample_count r) (quantile_numerator r, quantile_denominator r)"
  shows "\<lfloor>h\<rfloor> = low_index r" "\<lceil>h\<rceil> = high_index r"
    "h - of_int (low_index r) = of_int (weight_numerator r) / of_int (weight_denominator r)"
proof -
  note P = linear_rank_check_position [OF assms(1)]
  let ?w = "of_int (weight_numerator r) / of_int (weight_denominator r) :: rat"
  have h: "h = of_int (low_index r) + ?w" using P(1) by (simp add: h_def)
  have w: "0 \<le> ?w" "?w < 1" using P(6,7) by simp_all
  show "\<lfloor>h\<rfloor> = low_index r" unfolding h using w by linarith
  have "?w = 0 \<longleftrightarrow> weight_numerator r = 0" using P(6,7) by auto
  then have "high_index r = (if ?w = 0 then low_index r else low_index r + 1)"
    using P(3,4,9) by auto
  moreover have "\<lceil>of_int (low_index r) + ?w\<rceil> = (if ?w = 0 then low_index r else low_index r + 1)"
    using w by (auto simp: ceiling_eq_iff simp del: divide_eq_0_iff)
  ultimately show "\<lceil>h\<rceil> = high_index r" unfolding h by simp
  show "h - of_int (low_index r) = ?w" by (simp add: h)
qed

section \<open>Quantile evidence\<close>

definition sample_ok :: "int \<Rightarrow> bool" where
  "sample_ok x \<longleftrightarrow> 0 \<le> x \<and> x \<le> U64_MAX"

lemma nondecreasing_u64_Inr:
  "nondecreasing_u64 prev xs = Inr u \<longleftrightarrow>
     (\<forall>x \<in> set xs. sample_ok x) \<and> sorted xs \<and> (case prev of None \<Rightarrow> True | Some p \<Rightarrow> \<forall>x \<in> set xs. p \<le> x)"
proof (induction xs arbitrary: prev)
  case Nil
  then show ?case by (cases prev) simp_all
next
  case (Cons x xs)
  then show ?case
    by (cases prev) (auto simp: sample_ok_def not_less)
qed

lemma interpolate_ok:
  assumes "linear_rank_check r = Inr ()" "0 \<le> lo" "lo \<le> hi" "hi \<le> U64_MAX"
  defines "w \<equiv> of_int (weight_numerator r) / of_int (weight_denominator r) :: rat"
  shows "\<exists>v. interpolate r lo hi = Inr v \<and> rational_ns_valid v \<and> rn_denominator v \<le> 20
           \<and> rat_ns v = (1 - w) * of_int lo + w * of_int hi"
proof -
  note P = linear_rank_check_position [OF assms(1)]
  define wn wd where "wn = weight_numerator r" and "wd = weight_denominator r"
  have wd: "0 < wd" "wd \<le> 20" "0 \<le> wn" "wn < wd" using P(6-8) by (simp_all add: wn_def wd_def)
  let ?n = "(wd - wn) * lo + wn * hi"
  have "?n \<le> (wd - wn) * hi + wn * hi" using wd assms by (simp add: mult_left_mono)
  also have "\<dots> = hi * wd" by (simp add: algebra_simps)
  also have "\<dots> \<le> U64_MAX * wd" using wd assms by (simp add: mult_right_mono)
  finally have up: "?n \<le> U64_MAX * wd" .
  have lo: "0 \<le> ?n" using wd assms by simp
  have "wd \<le> U64_MAX" using wd by (simp add: U64_MAX_def)
  from reduced_rational_ns_ok [OF lo wd(1) this up] obtain v where
    v: "reduced_rational_ns ?n wd = Inr v" "rational_ns_valid v" "rat_ns v = of_int ?n / of_int wd"
       "rn_denominator v \<le> wd" by blast
  have "(of_int ?n / of_int wd :: rat) = (1 - w) * of_int lo + w * of_int hi"
    using wd by (simp add: w_def wn_def wd_def field_simps)
  then show ?thesis using v wd by (auto simp: interpolate_def Let_def wn_def wd_def)
qed

text \<open>What a quantile of an ordered population is, on the rational numbers.\<close>

definition quantile_of :: "int list \<Rightarrow> int \<times> int \<Rightarrow> rat" where
  "quantile_of xs q = position_value xs (rank_position (int (length xs)) q)"

definition quantile_evidence :: "int list \<Rightarrow> int \<times> int \<Rightarrow> linear_quantile_ev \<Rightarrow> bool" where
  "quantile_evidence xs q Q \<longleftrightarrow>
     linear_quantile_check Q = Inr () \<and> linear_rank_check (lq_rank Q) = Inr () \<and>
     sample_count (lq_rank Q) = int (length xs) \<and> quantile_pair Q = q \<and> ordered_samples_ns Q = xs \<and>
     population_sha256 Q = population_sha256_of xs \<and> rational_ns_valid (value_ns Q) \<and>
     rn_denominator (value_ns Q) \<le> 20 \<and> rat_ns (value_ns Q) = quantile_of xs q"

definition population_ok :: "int list \<Rightarrow> bool" where
  "population_ok xs \<longleftrightarrow> xs \<noteq> [] \<and> int (length xs) \<le> MAX_TIMING_SAMPLE_COUNT \<and> (\<forall>x \<in> set xs. sample_ok x)"

lemma quantile_from_sorted_ok:
  assumes "sorted xs" "population_ok xs" "q \<in> set ALLOWED_QUANTILES"
  shows "\<exists>Q. quantile_from_sorted xs (fst q) (snd q) (population_sha256_of xs) = Inr Q \<and> quantile_evidence xs q Q"
proof -
  let ?n = "int (length xs)"
  have n: "0 < ?n" "?n \<le> MAX_TIMING_SAMPLE_COUNT" using assms(2) by (auto simp: population_ok_def)
  have "fst q \<le> 19" "0 < fst q" using assms(3) by (auto simp: frozen_pair_defs)
  then have "(?n - 1) * fst q \<le> (?n - 1) * 19" using n by (intro mult_left_mono) auto
  then have "(?n - 1) * fst q \<le> U64_MAX" "?n \<le> U64_MAX" using n by (auto simp: width_defs)
  from linear_rank_ok [OF n(1) this(2) assms(3) this(1)] obtain r where
    r: "linear_rank (PyInt ?n) (PyInt (fst q)) (PyInt (snd q)) = Inr r" "linear_rank_check r = Inr ()"
       "sample_count r = ?n" "(quantile_numerator r, quantile_denominator r) = q" by blast
  note P = linear_rank_check_position [OF r(2)]
  define lo hi where "lo = xs ! nat (low_index r)" and "hi = xs ! nat (high_index r)"
  have idx: "nat (low_index r) \<le> nat (high_index r)" "nat (high_index r) < length xs"
    using P(2,3,5) r(3) by linarith+
  have g: "py_getitem xs (low_index r) = Inr lo" "py_getitem xs (high_index r) = Inr hi"
    using P(2,3,5) r(3) by (simp_all add: lo_def hi_def)
  have mem: "lo \<in> set xs" "hi \<in> set xs" using idx by (simp_all add: lo_def hi_def)
  have le: "lo \<le> hi" using sorted_nth_mono [OF assms(1) idx] by (simp add: lo_def hi_def)
  have ok: "0 \<le> lo" "hi \<le> U64_MAX" "0 \<le> hi" "lo \<le> U64_MAX"
    using mem assms(2) by (auto simp: population_ok_def sample_ok_def)
  obtain v where v: "interpolate r lo hi = Inr v" "rational_ns_valid v" "rn_denominator v \<le> 20"
    "rat_ns v = (1 - of_int (weight_numerator r) / of_int (weight_denominator r)) * of_int lo
       + of_int (weight_numerator r) / of_int (weight_denominator r) * of_int hi"
    using interpolate_ok [OF r(2) ok(1) le ok(2)] by blast
  let ?Q = "\<lparr>lq_rank = r, low_value_ns = lo, high_value_ns = hi, value_ns = v,
      population_sha256 = population_sha256_of xs, ordered_samples_ns = xs\<rparr>"
  have sha: "0 \<le> population_sha256_of xs" "population_sha256_of xs < 2 ^ 256"
    unfolding population_sha256_of_def by (rule sha256_int_bounds)+
  have vr: "validated_linear_rank r = Inr r" using r(2) by (simp add: validated_linear_rank_def mk_linear_rank_def)
  have nd: "nondecreasing_u64 None xs = Inr ()"
    using assms by (simp add: nondecreasing_u64_Inr population_ok_def)
  have uu: "u64 (PyInt lo) = Inr lo" "u64 (PyInt hi) = Inr hi" using ok by simp_all
  have vv: "validated_rational_ns v = Inr v" using v by simp
  have lh: "low_index r = high_index r \<longrightarrow> lo = hi" by (simp add: lo_def hi_def)
  have chk: "linear_quantile_check ?Q = Inr ()"
    using n(2) sha r(3) lh le
    by (simp add: linear_quantile_check_def Let_def vr vv nd uu g v(1) not_less)
  have rf: "\<lfloor>rank_position ?n q\<rfloor> = low_index r" "\<lceil>rank_position ?n q\<rceil> = high_index r"
    "rank_position ?n q - of_int (low_index r) = of_int (weight_numerator r) / of_int (weight_denominator r)"
    using rank_floor_ceiling [OF r(2)] r(3,4) by simp_all
  have "rat_ns v = quantile_of xs q"
    by (simp add: quantile_of_def position_value_def Let_def rf v(4) flip: lo_def hi_def)
  then have "quantile_evidence xs q ?Q"
    using chk r v by (simp add: quantile_evidence_def quantile_pair_def)
  moreover have "quantile_from_sorted xs (fst q) (snd q) (population_sha256_of xs) = Inr ?Q"
    using r(1) g v(1) chk by (simp add: quantile_from_sorted_def mk_linear_quantile_def)
  ultimately show ?thesis by blast
qed

lemma mapM_u64: "mapM u64 vs = Inr ys \<longleftrightarrow> vs = map PyInt ys \<and> (\<forall>y \<in> set ys. sample_ok y)"
  by (induction vs arbitrary: ys) (auto simp: sample_ok_def)

text \<open>A sequence argument that holds exactly these integers.\<close>

definition int_seq :: "pyval \<Rightarrow> int list \<Rightarrow> bool" where
  "int_seq v xs \<longleftrightarrow> v = PyList (map PyInt xs) \<or> v = PyTuple (map PyInt xs)"

definition seq_items :: "pyval \<Rightarrow> pyval list option" where
  "seq_items v = (case v of PyList xs \<Rightarrow> Some xs | PyTuple xs \<Rightarrow> Some xs | _ \<Rightarrow> None)"

lemma int_seq_items: "int_seq v xs \<longleftrightarrow> seq_items v = Some (map PyInt xs)"
  by (cases v) (simp_all add: int_seq_def seq_items_def)

lemma snapshot_sorted_samples_items:
  "snapshot_sorted_samples v = Inr ys \<longleftrightarrow>
     (\<exists>vs xs. seq_items v = Some vs \<and> 0 < length vs \<and> int (length vs) \<le> MAX_TIMING_SAMPLE_COUNT \<and>
        mapM u64 vs = Inr xs \<and> int (length xs) = int (length vs) \<and> ys = sort xs)"
  by (cases v) (auto simp: snapshot_sorted_samples_def seq_items_def Let_def not_less simp del: length_greater_0_conv)

lemma snapshot_sorted_samples_Inr:
  "snapshot_sorted_samples v = Inr ys \<longleftrightarrow> (\<exists>xs. int_seq v xs \<and> population_ok xs \<and> ys = sort xs)"
proof -
  have "(\<exists>vs xs. seq_items v = Some vs \<and> 0 < length vs \<and> int (length vs) \<le> MAX_TIMING_SAMPLE_COUNT \<and>
        mapM u64 vs = Inr xs \<and> int (length xs) = int (length vs) \<and> ys = sort xs) \<longleftrightarrow>
     (\<exists>xs. seq_items v = Some (map PyInt xs) \<and> population_ok xs \<and> ys = sort xs)"
    unfolding mapM_u64 population_ok_def length_greater_0_conv
    by (metis length_map map_is_Nil_conv)
  then show ?thesis unfolding snapshot_sorted_samples_items int_seq_items .
qed

lemma population_ok_sort: "population_ok xs \<Longrightarrow> population_ok (sort xs)"
  by (simp add: population_ok_def flip: length_greater_0_conv)

lemma rat_ns_le_iff:
  assumes "rational_ns_valid a" "rational_ns_valid b"
  shows "rat_ns a \<le> rat_ns b \<longleftrightarrow> rn_numerator a * rn_denominator b \<le> rn_numerator b * rn_denominator a"
proof -
  have "rat_ns a \<le> rat_ns b \<longleftrightarrow>
      (of_int (rn_numerator a * rn_denominator b) :: rat) \<le> of_int (rn_numerator b * rn_denominator a)"
    using assms by (simp add: rat_ns_def rational_ns_valid_def field_simps)
  then show ?thesis by (simp only: of_int_le_iff)
qed

lemma rank_position_mono_p50_p95:
  "1 \<le> n \<Longrightarrow> rank_position n P50_QUANTILE \<le> rank_position n P95_QUANTILE"
  by (simp add: rank_position_def frozen_pair_defs field_simps)

lemma rank_position_range:
  assumes "q \<in> set ALLOWED_QUANTILES" "1 \<le> n"
  shows "0 \<le> rank_position n q" "\<lceil>rank_position n q\<rceil> < n"
proof -
  have "rank_position n q \<le> of_int (n - 1)" "0 \<le> rank_position n q"
    using assms by (auto simp: rank_position_def frozen_pair_defs field_simps)
  then show "0 \<le> rank_position n q" "\<lceil>rank_position n q\<rceil> < n" by linarith+
qed

lemma quantile_of_p50_le_p95:
  assumes "sorted xs" "xs \<noteq> []"
  shows "quantile_of xs P50_QUANTILE \<le> quantile_of xs P95_QUANTILE"
proof -
  have n: "1 \<le> int (length xs)" using assms(2) by (simp add: Suc_le_eq)
  have "P50_QUANTILE \<in> set ALLOWED_QUANTILES" "P95_QUANTILE \<in> set ALLOWED_QUANTILES"
    by (simp_all add: ALLOWED_QUANTILES_def)
  then show ?thesis
    unfolding quantile_of_def
    by (intro position_value_mono assms(1) rank_position_mono_p50_p95 rank_position_range n)
qed

lemma validated_linear_quantile_Inr [simp]:
  "validated_linear_quantile q = Inr s \<longleftrightarrow> s = q \<and> linear_quantile_check q = Inr ()"
  by (auto simp: validated_linear_quantile_def mk_linear_quantile_def)

definition quantiles_evidence :: "int list \<Rightarrow> timing_quantiles_ev \<Rightarrow> bool" where
  "quantiles_evidence xs t \<longleftrightarrow>
     quantile_evidence xs P50_QUANTILE (p50 t) \<and> quantile_evidence xs P95_QUANTILE (p95 t)
     \<and> timing_quantiles_check t = Inr ()"

lemma timing_quantiles_ns_ok:
  assumes "int_seq v xs" "population_ok xs"
  shows "\<exists>t. timing_quantiles_ns v = Inr t \<and> quantiles_evidence (sort xs) t"
proof -
  let ?ys = "sort xs"
  have s: "snapshot_sorted_samples v = Inr ?ys"
    using assms by (auto simp: snapshot_sorted_samples_Inr)
  have ok: "population_ok ?ys" using assms(2) by (rule population_ok_sort)
  obtain a where a: "quantile_from_sorted ?ys (fst P50_QUANTILE) (snd P50_QUANTILE) (population_sha256_of ?ys) = Inr a"
      "quantile_evidence ?ys P50_QUANTILE a"
    using quantile_from_sorted_ok [OF sorted_sort ok, of P50_QUANTILE] by (auto simp: ALLOWED_QUANTILES_def)
  obtain b where b: "quantile_from_sorted ?ys (fst P95_QUANTILE) (snd P95_QUANTILE) (population_sha256_of ?ys) = Inr b"
      "quantile_evidence ?ys P95_QUANTILE b"
    using quantile_from_sorted_ok [OF sorted_sort ok, of P95_QUANTILE] by (auto simp: ALLOWED_QUANTILES_def)
  have "rat_ns (value_ns a) \<le> rat_ns (value_ns b)"
    using a(2) b(2) quantile_of_p50_le_p95 [of ?ys] ok by (simp add: quantile_evidence_def population_ok_def)
  then have "rn_numerator (value_ns a) * rn_denominator (value_ns b)
      \<le> rn_numerator (value_ns b) * rn_denominator (value_ns a)"
    using a(2) b(2) by (intro rat_ns_le_iff [THEN iffD1]) (auto simp: quantile_evidence_def)
  then have chk: "timing_quantiles_check \<lparr>p50 = a, p95 = b\<rparr> = Inr ()"
    using a(2) b(2) by (simp add: timing_quantiles_check_def quantile_evidence_def not_less)
  then have "timing_quantiles_ns v = Inr \<lparr>p50 = a, p95 = b\<rparr>"
    using s a(1) b(1) by (simp add: timing_quantiles_ns_def Let_def mk_timing_quantiles_def)
  then show ?thesis using a(2) b(2) chk by (auto simp: quantiles_evidence_def)
qed

lemma timing_quantiles_ns_Inr:
  assumes "timing_quantiles_ns v = Inr t"
  shows "\<exists>xs. int_seq v xs \<and> population_ok xs \<and> quantiles_evidence (sort xs) t"
proof -
  from assms obtain ys where "snapshot_sorted_samples v = Inr ys"
    by (auto simp: timing_quantiles_ns_def)
  then obtain xs where "int_seq v xs" "population_ok xs" by (auto simp: snapshot_sorted_samples_Inr)
  with timing_quantiles_ns_ok [OF this] assms show ?thesis by auto
qed

text \<open>Retained evidence that passes the check is the true quantile of the population it retains.\<close>

lemma linear_quantile_check_sound:
  assumes "linear_quantile_check Q = Inr ()"
  shows "rat_ns (value_ns Q) = quantile_of (ordered_samples_ns Q) (quantile_pair Q)"
    and "sorted (ordered_samples_ns Q)" "population_ok (ordered_samples_ns Q)"
    and "quantile_pair Q \<in> set ALLOWED_QUANTILES"
proof -
  let ?xs = "ordered_samples_ns Q" and ?r = "lq_rank Q"
  have r: "linear_rank_check ?r = Inr ()" and n: "sample_count ?r = int (length ?xs)"
      "sample_count ?r \<le> MAX_TIMING_SAMPLE_COUNT" and nd: "nondecreasing_u64 None ?xs = Inr ()"
    using assms by (auto simp: linear_quantile_check_def Let_def validated_linear_rank_def mk_linear_rank_def)
  note P = linear_rank_check_position [OF r]
  have s: "sorted ?xs" "\<forall>x \<in> set ?xs. sample_ok x" using nd by (simp_all add: nondecreasing_u64_Inr)
  show "sorted ?xs" by (rule s)
  have "?xs \<noteq> []" using P(2,3,5) n by auto
  then show "population_ok ?xs" using n s by (simp add: population_ok_def)
  show "quantile_pair Q \<in> set ALLOWED_QUANTILES"
    using r by (simp add: linear_rank_check_Inr quantile_pair_def)
  have idx: "nat (low_index ?r) \<le> nat (high_index ?r)" "nat (high_index ?r) < length ?xs"
    using P(2,3,5) n by linarith+
  have v: "interpolate ?r (?xs ! nat (low_index ?r)) (?xs ! nat (high_index ?r)) = Inr (value_ns Q)"
    using assms P(2,3,5) n
    by (auto simp: linear_quantile_check_def Let_def validated_linear_rank_def mk_linear_rank_def)
  have le: "?xs ! nat (low_index ?r) \<le> ?xs ! nat (high_index ?r)"
    by (rule sorted_nth_mono [OF s(1) idx])
  have "?xs ! nat (low_index ?r) \<in> set ?xs" "?xs ! nat (high_index ?r) \<in> set ?xs" using idx by simp_all
  then have "0 \<le> ?xs ! nat (low_index ?r)" "?xs ! nat (high_index ?r) \<le> U64_MAX"
    using s(2) by (auto simp: sample_ok_def)
  from interpolate_ok [OF r this(1) le this(2)] v
  have "rat_ns (value_ns Q) = (1 - of_int (weight_numerator ?r) / of_int (weight_denominator ?r))
       * of_int (?xs ! nat (low_index ?r))
     + of_int (weight_numerator ?r) / of_int (weight_denominator ?r) * of_int (?xs ! nat (high_index ?r))"
    by simp
  then show "rat_ns (value_ns Q) = quantile_of ?xs (quantile_pair Q)"
    using rank_floor_ceiling [OF r] n
    by (simp add: quantile_of_def position_value_def Let_def quantile_pair_def)
qed

section \<open>Ratio gates\<close>

definition rat_limit :: "int \<times> int \<Rightarrow> rat" where
  "rat_limit l = of_int (fst l) / of_int (snd l)"

lemma ratio_of_valid:
  assumes "rational_ns_valid b" "rational_ns_valid c" "0 < rn_numerator b"
  shows "(of_int (rn_numerator c * rn_denominator b) / of_int (rn_denominator c * rn_numerator b) :: rat)
           = rat_ns c / rat_ns b"
  using assms by (simp add: rat_ns_def rational_ns_valid_def field_simps)

lemma candidate_ratio_sound:
  assumes "candidate_baseline_ratio_from_validated c b = Inr e" "rational_ns_valid b" "rational_ns_valid c"
  shows "exact_ratio_valid e" "rat_ratio e = rat_ns c / rat_ns b" "0 < rn_numerator b"
proof -
  show b: "0 < rn_numerator b"
    using assms by (auto simp: candidate_baseline_ratio_from_validated_def rational_ns_valid_def)
  have "reduced_exact_ratio (rn_numerator c * rn_denominator b) (rn_denominator c * rn_numerator b) = Inr e"
    using assms(1) by (simp add: candidate_baseline_ratio_from_validated_def Let_def)
  moreover have "0 < rn_denominator c * rn_numerator b" using assms b by (simp add: rational_ns_valid_def)
  ultimately show "exact_ratio_valid e" "rat_ratio e = rat_ns c / rat_ns b"
    using reduced_exact_ratio_sound ratio_of_valid [OF assms(2,3) b] by metis+
qed

lemma cross_products_decide:
  assumes "rational_ns_valid b" "rational_ns_valid c" "0 < rn_numerator b" "0 < lnum" "0 < lden"
  shows "rn_numerator c * rn_denominator b * lden \<le> rn_numerator b * rn_denominator c * lnum
           \<longleftrightarrow> rat_ns c / rat_ns b \<le> rat_limit (lnum, lden)"
proof -
  have "rat_ns c / rat_ns b \<le> rat_limit (lnum, lden) \<longleftrightarrow>
      (of_int (rn_numerator c * rn_denominator b * lden) :: rat)
        \<le> of_int (rn_numerator b * rn_denominator c * lnum)"
    using assms by (simp add: rat_ns_def rat_limit_def rational_ns_valid_def field_simps)
  then show ?thesis by (simp only: of_int_le_iff)
qed

lemma ratio_gate_check_sound:
  assumes "ratio_gate_check g = Inr ()"
  shows "gate_passed g \<longleftrightarrow> rat_ns (candidate_ns g) / rat_ns (baseline_ns g) \<le> rat_limit (limit_pair g)"
    and "rat_ratio (candidate_over_baseline g) = rat_ns (candidate_ns g) / rat_ns (baseline_ns g)"
    and "rational_ns_valid (baseline_ns g)" "rational_ns_valid (candidate_ns g)"
    and "exact_ratio_valid (candidate_over_baseline g)" "0 < rat_ns (baseline_ns g)"
proof -
  let ?b = "baseline_ns g" and ?c = "candidate_ns g"
  show vb: "rational_ns_valid ?b" and vc: "rational_ns_valid ?c"
    using assms by (auto simp: ratio_gate_check_def)
  have e: "candidate_baseline_ratio_from_validated ?c ?b = Inr (candidate_over_baseline g)"
    using assms by (auto simp: ratio_gate_check_def)
  note cr = candidate_ratio_sound [OF e vb vc]
  show "exact_ratio_valid (candidate_over_baseline g)"
    "rat_ratio (candidate_over_baseline g) = rat_ns ?c / rat_ns ?b" by (rule cr)+
  show "0 < rat_ns ?b" using vb cr(3) by (simp add: rat_ns_def rational_ns_valid_def)
  have l: "0 < limit_numerator g" "0 < limit_denominator g"
    and p: "gate_passed g \<longleftrightarrow> rn_numerator ?c * rn_denominator ?b * limit_denominator g
        \<le> rn_numerator ?b * rn_denominator ?c * limit_numerator g"
    using assms by (auto simp: ratio_gate_check_def Let_def)
  show "gate_passed g \<longleftrightarrow> rat_ns ?c / rat_ns ?b \<le> rat_limit (limit_pair g)"
    using cross_products_decide [OF vb vc cr(3) l] p by (simp add: limit_pair_def)
qed

text \<open>
  The retained widths never overflow on quantile values: a quantile has a denominator of at most
  20 and a value within u64.
\<close>

lemma ratio_gate_ok:
  assumes "rational_ns_valid b" "rational_ns_valid c" "rn_denominator b \<le> 20" "rn_denominator c \<le> 20"
    and "0 < rn_numerator b" "l \<in> set ALLOWED_RATIO_LIMITS"
  shows "\<exists>g. ratio_gate b c (PyInt (fst l)) (PyInt (snd l)) = Inr g \<and> ratio_gate_check g = Inr ()
           \<and> baseline_ns g = b \<and> candidate_ns g = c \<and> limit_pair g = l"
proof -
  obtain lnum lden where l: "l = (lnum, lden)" by (cases l)
  have lim: "0 < lnum" "lnum \<le> 23" "0 < lden" "lden \<le> 20" "gcd lnum lden = 1" "(lnum, lden) \<in> set ALLOWED_RATIO_LIMITS"
    using assms(6) by (auto simp: l frozen_pair_defs)
  define bn bd cn cd where "bn = rn_numerator b" and "bd = rn_denominator b"
    and "cn = rn_numerator c" and "cd = rn_denominator c"
  have v: "0 < bd" "bd \<le> 20" "0 < cd" "cd \<le> 20" "0 < bn" "bn \<le> U64_MAX * 20" "0 \<le> cn" "cn \<le> U64_MAX * 20"
    using assms mult_left_mono [of bd 20 U64_MAX] mult_left_mono [of cd 20 U64_MAX]
    by (auto simp: rational_ns_valid_def bn_def bd_def cn_def cd_def U64_MAX_def)
  have p1: "cn * bd \<le> U64_MAX * 20 * 20" "cd * bn \<le> 20 * (U64_MAX * 20)"
    using v mult_mono [of cn "U64_MAX * 20" bd 20] mult_mono [of cd 20 bn "U64_MAX * 20"] by (auto simp: U64_MAX_def)
  have p2: "cn * bd * lden \<le> U64_MAX * 20 * 20 * 20" "bn * cd * lnum \<le> U64_MAX * 20 * 20 * 23"
    using v lim p1 mult_mono [of "cn * bd" "U64_MAX * 20 * 20" lden 20]
      mult_mono [of "bn * cd" "U64_MAX * 20 * 20" lnum 23] by (auto simp: mult.commute U64_MAX_def)
  have p3: "cn * bd \<le> U128_MAX" "cd * bn \<le> U128_MAX" "cn * bd * lden \<le> U128_MAX" "bn * cd * lnum \<le> U128_MAX"
    using p1 p2 by (auto simp: width_defs)
  have "0 \<le> cn * bd" "0 < cd * bn" using v by auto
  from reduced_exact_ratio_ok [OF this p3(1,2)] obtain e where
    e: "reduced_exact_ratio (cn * bd) (cd * bn) = Inr e" "exact_ratio_valid e" by blast
  have ce: "candidate_baseline_ratio_from_validated c b = Inr e"
    using e(1) v by (simp add: candidate_baseline_ratio_from_validated_def Let_def bn_def bd_def cn_def cd_def)
  have la: "canonical_allowed_pair (PyInt lnum) (PyInt lden) ALLOWED_RATIO_LIMITS = Inr (lnum, lden)"
    using lim by (auto simp: U64_MAX_def)
  let ?g = "\<lparr>baseline_ns = b, candidate_ns = c, candidate_over_baseline = e, limit_numerator = lnum,
    limit_denominator = lden, left_cross_product = cn * bd * lden, right_cross_product = bn * cd * lnum,
    gate_passed = (cn * bd * lden \<le> bn * cd * lnum)\<rparr>"
  have vbc: "validated_rational_ns b = Inr b" "validated_rational_ns c = Inr c" "validated_exact_ratio e = Inr e"
    using assms(1,2) e(2) by simp_all
  have nn: "0 \<le> cn * bd * lden" "0 \<le> bn * cd * lnum" using v lim by auto
  have chk: "ratio_gate_check ?g = Inr ()"
    unfolding ratio_gate_check_def
    using v p3 nn by (simp add: vbc ce la Let_def not_less bn_def bd_def cn_def cd_def)
  have "ratio_gate b c (PyInt lnum) (PyInt lden) = Inr ?g"
    unfolding ratio_gate_def
    using p3 chk by (simp add: vbc ce la Let_def mk_ratio_gate_def not_less bn_def bd_def cn_def cd_def)
  then show ?thesis using chk by (auto simp: l limit_pair_def)
qed

section \<open>The median of three ratios\<close>

lemma rat_ratio_le_iff:
  assumes "exact_ratio_valid a" "exact_ratio_valid b"
  shows "er_numerator a * er_denominator b \<le> er_numerator b * er_denominator a \<longleftrightarrow> rat_ratio a \<le> rat_ratio b"
proof -
  have "rat_ratio a \<le> rat_ratio b \<longleftrightarrow>
      (of_int (er_numerator a * er_denominator b) :: rat) \<le> of_int (er_numerator b * er_denominator a)"
    using assms by (simp add: rat_ratio_def exact_ratio_valid_def field_simps)
  then show ?thesis by (simp only: of_int_le_iff)
qed

lemma ratio_cross_le_U256:
  assumes "exact_ratio_valid a" "exact_ratio_valid b"
  shows "er_numerator a * er_denominator b \<le> U256_MAX"
proof -
  have "er_numerator a * er_denominator b \<le> U128_MAX * U128_MAX"
    using assms by (intro mult_mono) (auto simp: exact_ratio_valid_def)
  then show ?thesis by (simp add: width_defs)
qed

lemma compare_exact_ratios_ok:
  assumes "exact_ratio_valid a" "exact_ratio_valid b"
  shows "compare_exact_ratios a b = Inr (if rat_ratio a < rat_ratio b then - 1 else if rat_ratio b < rat_ratio a then 1 else 0)"
  using ratio_cross_le_U256 [OF assms] ratio_cross_le_U256 [OF assms(2,1)]
    rat_ratio_le_iff [OF assms] rat_ratio_le_iff [OF assms(2,1)]
  by (simp add: compare_exact_ratios_def Let_def flip: not_le)

lemma order_pair_ok:
  assumes "exact_ratio_valid a" "exact_ratio_valid b"
  shows "order_pair a b = Inr (if rat_ratio b < rat_ratio a then (b, a) else (a, b))"
  using compare_exact_ratios_ok [OF assms] by (auto simp: order_pair_def)

lemma median_check_Inr:
  "median_check m = Inr () \<longleftrightarrow>
     (\<exists>a b c. ordered_ratios m = [a, b, c] \<and> exact_ratio_valid a \<and> exact_ratio_valid b \<and> exact_ratio_valid c \<and>
        rat_ratio a \<le> rat_ratio b \<and> rat_ratio b \<le> rat_ratio c \<and> median_ratio m = b)"
proof -
  have "median_check m = Inr () \<longleftrightarrow> exact_ratio_valid a \<and> exact_ratio_valid b \<and> exact_ratio_valid c \<and>
      rat_ratio a \<le> rat_ratio b \<and> rat_ratio b \<le> rat_ratio c \<and> median_ratio m = b"
    if "ordered_ratios m = [a, b, c]" for a b c
    using that compare_exact_ratios_ok [of a b] compare_exact_ratios_ok [of b c]
    by (auto simp: median_check_def not_less split: if_splits)
  moreover have "median_check m \<noteq> Inr ()" if "\<nexists>a b c. ordered_ratios m = [a, b, c]"
    using that by (auto simp: median_check_def split: list.splits)
  ultimately show ?thesis by blast
qed

lemma validated_median_Inr [simp]: "validated_median m = Inr n \<longleftrightarrow> n = m \<and> median_check m = Inr ()"
  by (auto simp: validated_median_def mk_median_def)

text \<open>The three-comparator network sorts, so the result depends only on the multiset of the ratios.\<close>

lemma order_pair_sorts:
  assumes "exact_ratio_valid a" "exact_ratio_valid b"
  obtains x y where "order_pair a b = Inr (x, y)" "rat_ratio x \<le> rat_ratio y" "x = a \<and> y = b \<or> x = b \<and> y = a"
  using order_pair_ok [OF assms] by (cases "rat_ratio b < rat_ratio a") (auto simp: not_less)

lemma median_of_three_ratios_ok:
  assumes v: "exact_ratio_valid a" "exact_ratio_valid b" "exact_ratio_valid c"
  shows "\<exists>m. median_of_three_ratios [a, b, c] = Inr m \<and> median_check m = Inr ()
           \<and> mset (ordered_ratios m) = {#a, b, c#} \<and> sorted (map rat_ratio (ordered_ratios m))
           \<and> median_ratio m = ordered_ratios m ! 1"
proof -
  obtain p q where pq: "order_pair a b = Inr (p, q)" "rat_ratio p \<le> rat_ratio q" "p = a \<and> q = b \<or> p = b \<and> q = a"
    using order_pair_sorts v by blast
  then have "exact_ratio_valid p" "exact_ratio_valid q" using v by auto
  then obtain q' z where qz: "order_pair q c = Inr (q', z)" "rat_ratio q' \<le> rat_ratio z" "q' = q \<and> z = c \<or> q' = c \<and> z = q"
    using order_pair_sorts v by blast
  then have "exact_ratio_valid q'" using v \<open>exact_ratio_valid q\<close> by auto
  then obtain x y where xy: "order_pair p q' = Inr (x, y)" "rat_ratio x \<le> rat_ratio y" "x = p \<and> y = q' \<or> x = q' \<and> y = p"
    using order_pair_sorts \<open>exact_ratio_valid p\<close> by blast
  have le: "rat_ratio y \<le> rat_ratio z" using pq(2) qz(2,3) xy(3) by auto
  have ms: "{#x, y, z#} = {#a, b, c#}" using pq(3) qz(3) xy(3) by (auto simp: add_mset_commute)
  let ?m = "\<lparr>ordered_ratios = [x, y, z], median_ratio = y\<rparr>"
  have vv: "validated_exact_ratio a = Inr a" "validated_exact_ratio b = Inr b" "validated_exact_ratio c = Inr c"
    using v by simp_all
  have "median_of_three_ratios [a, b, c] = mk_median ?m"
    by (simp add: median_of_three_ratios_def vv pq(1) qz(1) xy(1))
  moreover have "median_check ?m = Inr ()"
    using v pq(3) qz(3) xy(2,3) le by (auto simp: median_check_Inr)
  ultimately show ?thesis using xy(2) le ms by (simp add: mk_median_def)
qed

lemma sorted_ratios_unique:
  assumes "mset xs = mset ys" "\<forall>r \<in> set xs. exact_ratio_valid r"
    and "sorted (map rat_ratio xs)" "sorted (map rat_ratio ys)"
  shows "xs = ys"
proof -
  have "map rat_ratio xs = map rat_ratio ys"
    using assms by (metis mset_map properties_for_sort)
  moreover have "inj_on rat_ratio (set xs \<union> set ys)"
    using assms(1,2) by (metis inj_onI rat_ratio_inj mset_eq_setD sup.idem)
  ultimately show ?thesis by (rule map_inj_on)
qed

section \<open>Pair results\<close>

definition timestamps_ok :: "int list \<Rightarrow> bool" where
  "timestamps_ok ts \<longleftrightarrow> ts \<noteq> [] \<and> int (length ts) \<le> MAX_TIMING_SAMPLE_COUNT \<and> sorted_wrt (<) ts \<and> (\<forall>t \<in> set ts. sample_ok t)"

lemma increasing_u64_Inr:
  "increasing_u64 prev vs = Inr ts \<longleftrightarrow>
     vs = map PyInt ts \<and> (\<forall>t \<in> set ts. sample_ok t) \<and> sorted_wrt (<) ts \<and>
     (case prev of None \<Rightarrow> True | Some p \<Rightarrow> \<forall>t \<in> set ts. p < t)"
proof (induction vs arbitrary: prev ts)
  case Nil
  then show ?case by (cases prev) auto
next
  case (Cons v vs)
  then show ?case
    by (cases prev; cases ts) (auto simp: sample_ok_def not_le)
qed

lemma validated_common_timestamps_Inr:
  "validated_common_timestamps v = Inr ts \<longleftrightarrow> v = PyTuple (map PyInt ts) \<and> timestamps_ok ts"
  by (cases v) (auto simp: validated_common_timestamps_def increasing_u64_Inr timestamps_ok_def not_less)

lemma common_payload_sha256_of_Inr:
  assumes "0 \<le> k" "k \<le> 2" "timestamps_ok ts"
  shows "\<exists>s. common_payload_sha256_of k ts = Inr s \<and> 0 \<le> s \<and> s \<le> U256_MAX"
proof -
  have "u64 (PyInt k) = Inr k" using assms by (simp add: U64_MAX_def)
  moreover have "validated_common_timestamps (PyTuple (map PyInt ts)) = Inr ts"
    using assms by (simp add: validated_common_timestamps_Inr)
  ultimately obtain b where "canonical_common_population_payload (PyInt k) (PyTuple (map PyInt ts)) = Inr b"
    using assms by (simp add: canonical_common_population_payload_def not_less)
  then show ?thesis
    using sha256_int_bounds [of b] by (simp add: common_payload_sha256_of_def U256_MAX_def)
qed

lemma timing_quantiles_check_sound:
  assumes "timing_quantiles_check t = Inr ()"
  defines "xs \<equiv> ordered_samples_ns (p50 t)"
  shows "rat_ns (value_ns (p50 t)) = quantile_of xs P50_QUANTILE" "rat_ns (value_ns (p95 t)) = quantile_of xs P95_QUANTILE"
    "sorted xs" "population_ok xs" "sample_count (lq_rank (p50 t)) = int (length xs)"
proof -
  have c: "linear_quantile_check (p50 t) = Inr ()" "linear_quantile_check (p95 t) = Inr ()"
    and q: "quantile_pair (p50 t) = P50_QUANTILE" "quantile_pair (p95 t) = P95_QUANTILE"
    and s: "ordered_samples_ns (p95 t) = xs"
    using assms by (auto simp: timing_quantiles_check_def)
  note a = linear_quantile_check_sound [OF c(1)] and b = linear_quantile_check_sound [OF c(2)]
  show "rat_ns (value_ns (p50 t)) = quantile_of xs P50_QUANTILE" "rat_ns (value_ns (p95 t)) = quantile_of xs P95_QUANTILE"
    "sorted xs" "population_ok xs" using a b q s by (simp_all add: xs_def)
  show "sample_count (lq_rank (p50 t)) = int (length xs)"
    using c(1) by (auto simp: linear_quantile_check_def Let_def validated_linear_rank_def mk_linear_rank_def xs_def)
qed

lemma validated_timing_quantiles_Inr [simp]:
  "validated_timing_quantiles t = Inr s \<longleftrightarrow> s = t \<and> timing_quantiles_check t = Inr ()"
  by (auto simp: validated_timing_quantiles_def mk_timing_quantiles_def)

lemma validated_ratio_gate_Inr [simp]:
  "validated_ratio_gate g = Inr h \<longleftrightarrow> h = g \<and> ratio_gate_check g = Inr ()"
  by (auto simp: validated_ratio_gate_def mk_ratio_gate_def)

lemma validated_timing_pair_Inr [simp]:
  "validated_timing_pair_result p = Inr q \<longleftrightarrow> q = p \<and> timing_pair_check p = Inr ()"
  by (auto simp: validated_timing_pair_result_def mk_timing_pair_def)

text \<open>What a pair claims, over the two populations.\<close>

definition within_limits :: "int list \<Rightarrow> int list \<Rightarrow> bool" where
  "within_limits bs cs \<longleftrightarrow>
     quantile_of (sort cs) P50_QUANTILE \<le> 11 / 10 * quantile_of (sort bs) P50_QUANTILE \<and>
     quantile_of (sort cs) P95_QUANTILE \<le> 23 / 20 * quantile_of (sort bs) P95_QUANTILE"

definition pair_populations :: "timing_pair_ev \<Rightarrow> int list \<times> int list" where
  "pair_populations p = (ordered_samples_ns (p50 (baseline_quantiles p)), ordered_samples_ns (p50 (candidate_quantiles p)))"

lemma ratio_le_limit:
  "0 < (b :: rat) \<Longrightarrow> c / b \<le> rat_limit MEDIAN_RATIO_LIMIT \<longleftrightarrow> c \<le> 11 / 10 * b"
  "0 < b \<Longrightarrow> c / b \<le> rat_limit P95_RATIO_LIMIT \<longleftrightarrow> c \<le> 23 / 20 * b"
  by (simp_all add: rat_limit_def frozen_pair_defs field_simps)

lemma timing_pair_check_sound:
  assumes "timing_pair_check p = Inr ()"
  shows "pair_passed p \<longleftrightarrow> within_limits (fst (pair_populations p)) (snd (pair_populations p))"
    and "0 \<le> timing_pair_index p" "timing_pair_index p \<le> 2"
    and "timestamps_ok (common_timestamps_ns p)"
    and "length (fst (pair_populations p)) = length (common_timestamps_ns p)"
    and "length (snd (pair_populations p)) = length (common_timestamps_ns p)"
    and "exact_ratio_valid (candidate_over_baseline (p50_gate p))"
    and "exact_ratio_valid (candidate_over_baseline (p95_gate p))"
proof -
  let ?bq = "baseline_quantiles p" and ?cq = "candidate_quantiles p"
  have c: "timing_quantiles_check ?bq = Inr ()" "timing_quantiles_check ?cq = Inr ()"
    "ratio_gate_check (p50_gate p) = Inr ()" "ratio_gate_check (p95_gate p) = Inr ()"
    and ts: "timestamps_ok (common_timestamps_ns p)"
    and k: "0 \<le> timing_pair_index p" "timing_pair_index p \<le> 2"
    and n: "sample_count (lq_rank (p50 ?bq)) = int (length (common_timestamps_ns p))"
      "sample_count (lq_rank (p50 ?cq)) = int (length (common_timestamps_ns p))"
    and g: "baseline_ns (p50_gate p) = value_ns (p50 ?bq)" "candidate_ns (p50_gate p) = value_ns (p50 ?cq)"
      "limit_pair (p50_gate p) = MEDIAN_RATIO_LIMIT"
      "baseline_ns (p95_gate p) = value_ns (p95 ?bq)" "candidate_ns (p95_gate p) = value_ns (p95 ?cq)"
      "limit_pair (p95_gate p) = P95_RATIO_LIMIT"
    and pp: "pair_passed p \<longleftrightarrow> gate_passed (p50_gate p) \<and> gate_passed (p95_gate p)"
    using assms by (auto simp: timing_pair_check_def Let_def validated_common_timestamps_Inr inj_map_eq_map inj_def)
  note b = timing_quantiles_check_sound [OF c(1)] and d = timing_quantiles_check_sound [OF c(2)]
  note g50 = ratio_gate_check_sound [OF c(3)] and g95 = ratio_gate_check_sound [OF c(4)]
  show "pair_passed p \<longleftrightarrow> within_limits (fst (pair_populations p)) (snd (pair_populations p))"
    using pp g50(1,6) g95(1,6) b d
    by (simp add: g ratio_le_limit within_limits_def pair_populations_def sorted_sort_id)
  show "0 \<le> timing_pair_index p" "timing_pair_index p \<le> 2" "timestamps_ok (common_timestamps_ns p)" by fact+
  show "length (fst (pair_populations p)) = length (common_timestamps_ns p)"
    "length (snd (pair_populations p)) = length (common_timestamps_ns p)"
    using n b(5) d(5) by (simp_all add: pair_populations_def)
  show "exact_ratio_valid (candidate_over_baseline (p50_gate p))" "exact_ratio_valid (candidate_over_baseline (p95_gate p))"
    by (rule g50 g95)+
qed

lemma rat_ns_pos_iff: "rational_ns_valid r \<Longrightarrow> 0 < rat_ns r \<longleftrightarrow> 0 < rn_numerator r"
  by (simp add: rat_ns_def rational_ns_valid_def zero_less_divide_iff)

lemma timing_pair_result_ok:
  assumes k: "0 \<le> k" "k \<le> 2" and ts: "timestamps_ok ts"
    and b: "int_seq bv bs" "length bs = length ts" "\<forall>x \<in> set bs. sample_ok x"
    and c: "int_seq cv cs" "length cs = length ts" "\<forall>x \<in> set cs. sample_ok x"
    and pos: "0 < quantile_of (sort bs) P50_QUANTILE"
  shows "\<exists>p. timing_pair_result (PyInt k) (PyTuple (map PyInt ts)) bv cv = Inr p \<and> timing_pair_check p = Inr ()
    \<and> timing_pair_index p = k \<and> common_timestamps_ns p = ts \<and> pair_populations p = (sort bs, sort cs)"
proof -
  have pk: "population_ok bs" "population_ok cs"
    using b c ts by (auto simp: population_ok_def timestamps_ok_def)
  obtain bq where bq: "timing_quantiles_ns bv = Inr bq" "quantiles_evidence (sort bs) bq"
    using timing_quantiles_ns_ok [OF b(1) pk(1)] by blast
  obtain cq where cq: "timing_quantiles_ns cv = Inr cq" "quantiles_evidence (sort cs) cq"
    using timing_quantiles_ns_ok [OF c(1) pk(2)] by blast
  note ev = quantiles_evidence_def quantile_evidence_def
  have v: "rational_ns_valid (value_ns (p50 bq))" "rational_ns_valid (value_ns (p95 bq))"
    "rational_ns_valid (value_ns (p50 cq))" "rational_ns_valid (value_ns (p95 cq))"
    and d: "rn_denominator (value_ns (p50 bq)) \<le> 20" "rn_denominator (value_ns (p95 bq)) \<le> 20"
    "rn_denominator (value_ns (p50 cq)) \<le> 20" "rn_denominator (value_ns (p95 cq)) \<le> 20"
    using bq(2) cq(2) by (simp_all add: ev)
  have "0 < quantile_of (sort bs) P95_QUANTILE"
    using pos quantile_of_p50_le_p95 [of "sort bs"] population_ok_sort [OF pk(1)] by (simp add: population_ok_def)
  then have n: "0 < rn_numerator (value_ns (p50 bq))" "0 < rn_numerator (value_ns (p95 bq))"
    using pos bq(2) rat_ns_pos_iff [OF v(1)] rat_ns_pos_iff [OF v(2)] by (simp_all add: ev)
  have lim: "MEDIAN_RATIO_LIMIT \<in> set ALLOWED_RATIO_LIMITS" "P95_RATIO_LIMIT \<in> set ALLOWED_RATIO_LIMITS"
    by (simp_all add: ALLOWED_RATIO_LIMITS_def)
  from ratio_gate_ok [OF v(1,3) d(1,3) n(1) lim(1)] obtain g50 where
    g50: "ratio_gate (value_ns (p50 bq)) (value_ns (p50 cq)) (PyInt (fst MEDIAN_RATIO_LIMIT)) (PyInt (snd MEDIAN_RATIO_LIMIT)) = Inr g50"
      "ratio_gate_check g50 = Inr ()" "baseline_ns g50 = value_ns (p50 bq)" "candidate_ns g50 = value_ns (p50 cq)"
      "limit_pair g50 = MEDIAN_RATIO_LIMIT" by blast
  from ratio_gate_ok [OF v(2,4) d(2,4) n(2) lim(2)] obtain g95 where
    g95: "ratio_gate (value_ns (p95 bq)) (value_ns (p95 cq)) (PyInt (fst P95_RATIO_LIMIT)) (PyInt (snd P95_RATIO_LIMIT)) = Inr g95"
      "ratio_gate_check g95 = Inr ()" "baseline_ns g95 = value_ns (p95 bq)" "candidate_ns g95 = value_ns (p95 cq)"
      "limit_pair g95 = P95_RATIO_LIMIT" by blast
  obtain s where s: "common_payload_sha256_of k ts = Inr s" "0 \<le> s" "s \<le> U256_MAX"
    using common_payload_sha256_of_Inr [OF k ts] by blast
  have uk: "u64 (PyInt k) = Inr k" using k by (simp add: U64_MAX_def)
  have vt: "validated_common_timestamps (PyTuple (map PyInt ts)) = Inr ts" using ts by (simp add: validated_common_timestamps_Inr)
  have vq: "validated_timing_quantiles bq = Inr bq" "validated_timing_quantiles cq = Inr cq"
    "validated_ratio_gate g50 = Inr g50" "validated_ratio_gate g95 = Inr g95"
    using bq(2) cq(2) g50(2) g95(2) by (simp_all add: ev)
  have cnt: "sample_count (lq_rank (p50 bq)) = int (length ts)" "sample_count (lq_rank (p50 cq)) = int (length ts)"
    using bq(2) cq(2) b(2) c(2) by (simp_all add: ev)
  let ?p = "\<lparr>timing_pair_index = k, common_timestamps_ns = ts, common_payload_sha256 = s, baseline_quantiles = bq,
    candidate_quantiles = cq, p50_gate = g50, p95_gate = g95, pair_passed = (gate_passed g50 \<and> gate_passed g95)\<rparr>"
  have chk: "timing_pair_check ?p = Inr ()"
    using k s g50(3-5) g95(3-5) cnt
    by (simp add: timing_pair_check_def Let_def uk vt vq not_less)
  have ds: "durations_sequence bv m = Inr (map PyInt bs)" "durations_sequence cv m = Inr (map PyInt cs)" for m
    using b(1) c(1) by (auto simp: int_seq_def durations_sequence_def)
  have "timing_pair_result (PyInt k) (PyTuple (map PyInt ts)) bv cv = Inr ?p"
    using b(2) c(2) chk
    by (simp add: timing_pair_result_def uk vt ds bq(1) cq(1) g50(1) g95(1) s(1) mk_timing_pair_def)
  moreover have "pair_populations ?p = (sort bs, sort cs)"
    using bq(2) cq(2) by (simp add: pair_populations_def ev)
  ultimately show ?thesis using chk by simp
qed

section \<open>Campaign results\<close>

lemma mapM_validated_pair:
  "mapM validated_timing_pair_result ps = Inr qs \<longleftrightarrow> qs = ps \<and> (\<forall>p \<in> set ps. timing_pair_check p = Inr ())"
  by (induction ps arbitrary: qs) auto

lemma length3_cases: "length xs = 3 \<Longrightarrow> \<exists>a b c. xs = [a, b, c]"
  by (auto simp: numeral_3_eq_3 length_Suc_conv)

lemma median_of_pair_ratios:
  assumes "length ps = 3" "\<forall>p \<in> set ps. exact_ratio_valid (f p)"
  shows "\<exists>m. median_of_three_ratios (map f ps) = Inr m \<and> median_check m = Inr ()
           \<and> mset (ordered_ratios m) = mset (map f ps) \<and> sorted (map rat_ratio (ordered_ratios m))
           \<and> median_ratio m = ordered_ratios m ! 1"
proof -
  obtain a b c where "ps = [a, b, c]" using length3_cases [OF assms(1)] by blast
  then show ?thesis using median_of_three_ratios_ok [of "f a" "f b" "f c"] assms(2) by simp
qed

text \<open>The medians of a campaign and its decision.\<close>

definition campaign_medians :: "timing_campaign_ev \<Rightarrow> bool" where
  "campaign_medians c \<longleftrightarrow>
     mset (ordered_ratios (median_p50 c)) = mset (map (\<lambda>p. candidate_over_baseline (p50_gate p)) (pair_results c)) \<and>
     mset (ordered_ratios (median_p95 c)) = mset (map (\<lambda>p. candidate_over_baseline (p95_gate p)) (pair_results c)) \<and>
     sorted (map rat_ratio (ordered_ratios (median_p50 c))) \<and> sorted (map rat_ratio (ordered_ratios (median_p95 c))) \<and>
     median_ratio (median_p50 c) = ordered_ratios (median_p50 c) ! 1 \<and>
     median_ratio (median_p95 c) = ordered_ratios (median_p95 c) ! 1"

lemma timing_campaign_check_sound:
  assumes "timing_campaign_check c = Inr ()"
  shows "campaign_passed c \<longleftrightarrow>
      (\<forall>p \<in> set (pair_results c). within_limits (fst (pair_populations p)) (snd (pair_populations p)))"
    and "campaign_medians c" "map timing_pair_index (pair_results c) = [0, 1, 2]"
    and "every_pair_passed c = campaign_passed c"
proof -
  let ?ps = "pair_results c"
  have len: "length ?ps = 3" and chk: "\<forall>p \<in> set ?ps. timing_pair_check p = Inr ()"
    and idx: "map timing_pair_index ?ps = [0, 1, 2]"
    and m: "median_of_three_ratios (map (\<lambda>v. candidate_over_baseline (p50_gate v)) ?ps) = Inr (median_p50 c)"
      "median_of_three_ratios (map (\<lambda>v. candidate_over_baseline (p95_gate v)) ?ps) = Inr (median_p95 c)"
    and ev: "every_pair_passed c \<longleftrightarrow> list_all pair_passed ?ps" "campaign_passed c \<longleftrightarrow> list_all pair_passed ?ps"
    using assms by (auto simp: timing_campaign_check_def mapM_validated_pair Let_def)
  show "map timing_pair_index ?ps = [0, 1, 2]" by fact
  show "every_pair_passed c = campaign_passed c" using ev by simp
  show "campaign_passed c \<longleftrightarrow> (\<forall>p \<in> set ?ps. within_limits (fst (pair_populations p)) (snd (pair_populations p)))"
    using ev(2) chk timing_pair_check_sound(1) by (simp add: list_all_iff)
  have v: "\<forall>p \<in> set ?ps. exact_ratio_valid (candidate_over_baseline (p50_gate p))"
    "\<forall>p \<in> set ?ps. exact_ratio_valid (candidate_over_baseline (p95_gate p))"
    using chk timing_pair_check_sound(7,8) by blast+
  show "campaign_medians c"
    using median_of_pair_ratios [OF len v(1)] median_of_pair_ratios [OF len v(2)] m
    by (auto simp: campaign_medians_def)
qed

lemma timing_campaign_result_ok:
  assumes "map timing_pair_index ps = [0, 1, 2]" "\<forall>p \<in> set ps. timing_pair_check p = Inr ()"
  shows "\<exists>c. timing_campaign_result ps = Inr c \<and> timing_campaign_check c = Inr () \<and> pair_results c = ps"
proof -
  have len: "length ps = 3" using arg_cong [OF assms(1), of length] by simp
  have v: "\<forall>p \<in> set ps. exact_ratio_valid (candidate_over_baseline (p50_gate p))"
    "\<forall>p \<in> set ps. exact_ratio_valid (candidate_over_baseline (p95_gate p))"
    using assms timing_pair_check_sound(7,8) by blast+
  have vp: "mapM validated_timing_pair_result ps = Inr ps" using assms by (simp add: mapM_validated_pair)
  obtain m50 where m50: "median_of_three_ratios (map (\<lambda>v. candidate_over_baseline (p50_gate v)) ps) = Inr m50" "median_check m50 = Inr ()"
    using median_of_pair_ratios [OF len v(1)] by blast
  obtain m95 where m95: "median_of_three_ratios (map (\<lambda>v. candidate_over_baseline (p95_gate v)) ps) = Inr m95" "median_check m95 = Inr ()"
    using median_of_pair_ratios [OF len v(2)] by blast
  let ?c = "\<lparr>pair_results = ps, median_p50 = m50, median_p95 = m95,
    every_pair_passed = list_all pair_passed ps, campaign_passed = list_all pair_passed ps\<rparr>"
  have vm: "validated_median m50 = Inr m50" "validated_median m95 = Inr m95" using m50(2) m95(2) by simp_all
  have chk: "timing_campaign_check ?c = Inr ()"
    by (simp add: timing_campaign_check_def len vp assms(1) m50(1) m95(1) vm Let_def)
  then have "timing_campaign_result ps = Inr ?c"
    by (simp add: timing_campaign_result_def len vp assms(1) m50(1) m95(1) Let_def mk_timing_campaign_def)
  then show ?thesis using chk by simp
qed

section \<open>Records and payloads\<close>

lemma u128_to_hex_Inr [simp]:
  "u128_to_hex v = Inr s \<longleftrightarrow> (\<exists>n. v = PyInt n \<and> 0 \<le> n \<and> n \<le> U128_MAX \<and> s = format_hex 32 (nat n))"
  by (auto simp: u128_to_hex_def)

lemma u128_from_hex_Inr [simp]:
  "u128_from_hex v = Inr n \<longleftrightarrow> (\<exists>s. v = PyStr s \<and> lower_hex_exactly 32 s \<and> n = int (int_base16 s))"
  by (cases v) (auto simp: u128_from_hex_def)

lemma u128_hex_round_trip:
  assumes "0 \<le> n" "n \<le> U128_MAX"
  shows "u128_from_hex (PyStr (format_hex 32 (nat n))) = Inr n"
proof -
  have "int (nat n) < int (16 ^ 32)" using assms by (simp add: U128_MAX_def)
  then have "nat n < 16 ^ 32" by (simp only: of_nat_less_iff)
  then show ?thesis using assms by (simp add: format_hex_shape int_format_hex)
qed

lemma exact_rational_record_Inr:
  assumes "distinct (map fst d)"
  shows "exact_rational_record (PyDict d) = Inr (a, b) \<longleftrightarrow>
     d = [(PyStr (lit ''numerator_hex''), a), (PyStr (lit ''denominator_hex''), b)] \<or>
     d = [(PyStr (lit ''denominator_hex''), b), (PyStr (lit ''numerator_hex''), a)]"
proof
  let ?n = "PyStr (lit ''numerator_hex'')" and ?d = "PyStr (lit ''denominator_hex'')"
  have ne: "?n \<noteq> ?d" by (simp add: lit_def)
  assume "exact_rational_record (PyDict d) = Inr (a, b)"
  then have s: "set (map fst d) = {?n, ?d}" and m: "map_of d ?n = Some a" "map_of d ?d = Some b"
    by (auto simp: exact_rational_record_def split: option.splits)
  have "card (set (map fst d)) = 2" unfolding s using ne by simp
  then have "length d = 2" using distinct_card [OF assms] by simp
  then obtain p q where "d = [p, q]" by (auto simp: length_Suc_conv numeral_2_eq_2)
  then show "d = [(?n, a), (?d, b)] \<or> d = [(?d, b), (?n, a)]"
    using s m ne by (cases p; cases q) (auto simp: doubleton_eq_iff split: if_splits)
qed (auto simp: exact_rational_record_def lit_def)

lemma rational_ns_record_round_trip:
  assumes "rational_ns_valid r"
  shows "\<exists>v. rational_ns_to_record r = Inr v \<and> rational_ns_from_record v = Inr r"
proof -
  let ?v = "PyDict [(PyStr (lit ''numerator_hex''), PyStr (format_hex 32 (nat (rn_numerator r)))),
    (PyStr (lit ''denominator_hex''), PyStr (format_hex 32 (nat (rn_denominator r))))]"
  have b: "0 \<le> rn_numerator r" "rn_numerator r \<le> U128_MAX" "0 \<le> rn_denominator r" "rn_denominator r \<le> U128_MAX"
    using assms by (auto simp: rational_ns_valid_def width_defs)
  have "exact_rational_record ?v = Inr (PyStr (format_hex 32 (nat (rn_numerator r))), PyStr (format_hex 32 (nat (rn_denominator r))))"
    by (subst exact_rational_record_Inr) (simp_all add: lit_def)
  then have "rational_ns_from_record ?v = mk_rational_ns (rn_numerator r) (rn_denominator r)"
    by (simp add: rational_ns_from_record_def u128_hex_round_trip b del: u128_from_hex_Inr)
  also have "\<dots> = Inr r" using assms by (simp add: mk_rational_ns_Inr)
  finally show ?thesis using assms b by (auto simp: rational_ns_to_record_def)
qed

text \<open>Reading back determines the record up to the order of its two entries.\<close>

lemma rational_ns_from_record_canonical:
  assumes "distinct (map fst d)" "rational_ns_from_record (PyDict d) = Inr r"
  shows "\<exists>d'. rational_ns_to_record r = Inr (PyDict d') \<and> mset d' = mset d"
proof -
  from assms obtain a b where ab: "exact_rational_record (PyDict d) = Inr (PyStr a, PyStr b)"
    and h: "lower_hex_exactly 32 a" "lower_hex_exactly 32 b"
    and r: "rational_ns_valid r" "r = \<lparr>rn_numerator = int (int_base16 a), rn_denominator = int (int_base16 b)\<rparr>"
    by (auto simp: rational_ns_from_record_def mk_rational_ns_Inr)
  have "int_base16 a < 16 ^ 32" "int_base16 b < 16 ^ 32" by (rule int_base16_less [OF h(1)], rule int_base16_less [OF h(2)])
  then have "int (int_base16 a) < int (16 ^ 32)" "int (int_base16 b) < int (16 ^ 32)" by (simp_all only: of_nat_less_iff)
  then have "int (int_base16 a) \<le> U128_MAX" "int (int_base16 b) \<le> U128_MAX" by (simp_all add: U128_MAX_def)
  then have "rational_ns_to_record r = Inr (PyDict [(PyStr (lit ''numerator_hex''), PyStr a), (PyStr (lit ''denominator_hex''), PyStr b)])"
    using r h by (simp add: rational_ns_to_record_def format_int_hex)
  then show ?thesis using ab exact_rational_record_Inr [OF assms(1)] by (auto simp: add_mset_commute)
qed

lemma common_payload_inj:
  assumes "canonical_common_population_payload (PyInt k) (PyTuple (map PyInt ts)) = Inr b"
    and "canonical_common_population_payload (PyInt k') (PyTuple (map PyInt ts')) = Inr b"
  shows "k = k' \<and> ts = ts'"
proof -
  have inj: "inj PyInt" by (simp add: inj_def)
  have t: "timestamps_ok ts" "timestamps_ok ts'" and k: "0 \<le> k" "k \<le> 2" "0 \<le> k'" "k' \<le> 2"
    using assms by (auto simp: canonical_common_population_payload_def validated_common_timestamps_Inr inj_map_eq_map [OF inj])
  have "to_bytes 8 (nat k) @ to_bytes 8 (length ts) @ concat (map (to_bytes 8) (map nat ts)) @ []
      = to_bytes 8 (nat k') @ to_bytes 8 (length ts') @ concat (map (to_bytes 8) (map nat ts')) @ []"
    using assms by (auto simp: canonical_common_population_payload_def validated_common_timestamps_Inr inj_map_eq_map [OF inj] comp_def)
  moreover have len: "length ts < 2 ^ 64" "length ts' < 2 ^ 64"
    using t by (auto simp: timestamps_ok_def MAX_TIMING_SAMPLE_COUNT_def)
  moreover have "nat k < 2 ^ 64" "nat k' < 2 ^ 64" using k by auto
  ultimately have kk: "nat k = nat k'" and "length ts = length ts'"
    and cc: "concat (map (to_bytes 8) (map nat ts)) @ [] = concat (map (to_bytes 8) (map nat ts')) @ []"
    using u64_code.self_delimiting by metis+
  have ok: "\<forall>n \<in> set (map nat ts). n < 2 ^ 64" if "timestamps_ok ts" for ts
    using that by (auto simp: timestamps_ok_def sample_ok_def U64_MAX_def nat_less_iff)
  have "map nat ts = map nat ts'"
    using u64_code.concat_enc [OF _ ok [OF t(1)] ok [OF t(2)] cc] \<open>length ts = length ts'\<close> by simp
  moreover have "inj_on nat (set ts \<union> set ts')"
    using t by (auto simp: timestamps_ok_def sample_ok_def inj_on_def nat_eq_iff2)
  ultimately have "ts = ts'" by (rule map_inj_on)
  then show ?thesis using kk k by simp
qed

section \<open>Properties\<close>

text \<open>One mode pair as measured: the common timestamps and the two duration populations.\<close>

definition measurement_ok :: "int list \<Rightarrow> int list \<Rightarrow> int list \<Rightarrow> bool" where
  "measurement_ok ts bs cs \<longleftrightarrow> timestamps_ok ts \<and> length bs = length ts \<and> length cs = length ts \<and>
     (\<forall>x \<in> set bs. sample_ok x) \<and> (\<forall>x \<in> set cs. sample_ok x) \<and> 0 < quantile_of (sort bs) P50_QUANTILE"

lemma int_seq_tuple: "int_seq (PyTuple (map PyInt xs)) xs"
  by (simp add: int_seq_def)

lemma pair_of_measurement:
  assumes "measurement_ok ts bs cs" "0 \<le> k" "k \<le> 2"
  obtains p where
    "timing_pair_result (PyInt k) (PyTuple (map PyInt ts)) (PyTuple (map PyInt bs)) (PyTuple (map PyInt cs)) = Inr p"
    "timing_pair_check p = Inr ()" "timing_pair_index p = k" "common_timestamps_ns p = ts"
    "pair_populations p = (sort bs, sort cs)"
  using timing_pair_result_ok [OF assms(2,3) _ int_seq_tuple _ _ int_seq_tuple] assms(1)
  unfolding measurement_ok_def by blast

lemma within_limits_sort [simp]: "within_limits (sort bs) (sort cs) = within_limits bs cs"
  by (simp add: within_limits_def sorted_sort_id)

text \<open>
  C1. The whole campaign from raw measurements. For three well-formed measurements (strictly
  increasing u64 timestamps, u64 durations of the same count, positive baseline median) every
  construction succeeds, and the campaign passes exactly when in every pair the candidate's p50 is at
  most 11/10 and its p95 at most 23/20 of the baseline's, as inequalities between the rational
  quantiles of the sorted populations. The retained medians are the middle ratios and do not take
  part in the decision.
\<close>

theorem campaign_decision:
  assumes "measurement_ok ts0 bs0 cs0" "measurement_ok ts1 bs1 cs1" "measurement_ok ts2 bs2 cs2"
  shows "\<exists>p0 p1 p2 c.
    timing_pair_result (PyInt 0) (PyTuple (map PyInt ts0)) (PyTuple (map PyInt bs0)) (PyTuple (map PyInt cs0)) = Inr p0 \<and>
    timing_pair_result (PyInt 1) (PyTuple (map PyInt ts1)) (PyTuple (map PyInt bs1)) (PyTuple (map PyInt cs1)) = Inr p1 \<and>
    timing_pair_result (PyInt 2) (PyTuple (map PyInt ts2)) (PyTuple (map PyInt bs2)) (PyTuple (map PyInt cs2)) = Inr p2 \<and>
    timing_campaign_result [p0, p1, p2] = Inr c \<and> campaign_medians c \<and>
    (campaign_passed c \<longleftrightarrow> within_limits bs0 cs0 \<and> within_limits bs1 cs1 \<and> within_limits bs2 cs2)"
proof -
  obtain p0 where p0: "timing_pair_result (PyInt 0) (PyTuple (map PyInt ts0)) (PyTuple (map PyInt bs0)) (PyTuple (map PyInt cs0)) = Inr p0"
    "timing_pair_check p0 = Inr ()" "timing_pair_index p0 = 0" "pair_populations p0 = (sort bs0, sort cs0)"
    using pair_of_measurement [OF assms(1), of 0] by auto
  obtain p1 where p1: "timing_pair_result (PyInt 1) (PyTuple (map PyInt ts1)) (PyTuple (map PyInt bs1)) (PyTuple (map PyInt cs1)) = Inr p1"
    "timing_pair_check p1 = Inr ()" "timing_pair_index p1 = 1" "pair_populations p1 = (sort bs1, sort cs1)"
    using pair_of_measurement [OF assms(2), of 1] by auto
  obtain p2 where p2: "timing_pair_result (PyInt 2) (PyTuple (map PyInt ts2)) (PyTuple (map PyInt bs2)) (PyTuple (map PyInt cs2)) = Inr p2"
    "timing_pair_check p2 = Inr ()" "timing_pair_index p2 = 2" "pair_populations p2 = (sort bs2, sort cs2)"
    using pair_of_measurement [OF assms(3), of 2] by auto
  obtain c where c: "timing_campaign_result [p0, p1, p2] = Inr c" "timing_campaign_check c = Inr ()" "pair_results c = [p0, p1, p2]"
    using timing_campaign_result_ok [of "[p0, p1, p2]"] p0 p1 p2 by auto
  note s = timing_campaign_check_sound [OF c(2)]
  have "campaign_passed c \<longleftrightarrow> within_limits bs0 cs0 \<and> within_limits bs1 cs1 \<and> within_limits bs2 cs2"
    using s(1) p0(4) p1(4) p2(4) by (simp add: c(3))
  then show ?thesis using p0(1) p1(1) p2(1) c(1) s(2) by blast
qed

theorem campaign_decision_witness:
  "measurement_ok [10, 20, 30] [100, 200, 300] [110, 220, 330] \<and> within_limits [100, 200, 300] [110, 220, 330] \<and>
   measurement_ok [1] [100] [111] \<and> \<not> within_limits [100] [111] \<and>
   (\<exists>p0 p1 p2 c.
    timing_pair_result (PyInt 0) (PyTuple (map PyInt [10, 20, 30])) (PyTuple (map PyInt [100, 200, 300])) (PyTuple (map PyInt [110, 220, 330])) = Inr p0 \<and>
    timing_pair_result (PyInt 1) (PyTuple (map PyInt [10, 20, 30])) (PyTuple (map PyInt [100, 200, 300])) (PyTuple (map PyInt [110, 220, 330])) = Inr p1 \<and>
    timing_pair_result (PyInt 2) (PyTuple (map PyInt [1])) (PyTuple (map PyInt [100])) (PyTuple (map PyInt [111])) = Inr p2 \<and>
    timing_campaign_result [p0, p1, p2] = Inr c \<and> \<not> campaign_passed c)"
proof -
  have "\<lfloor>19 / 10 :: rat\<rfloor> = 1" "\<lceil>19 / 10 :: rat\<rceil> = 2" by (simp_all add: floor_eq_iff ceiling_eq_iff)
  then have q: "quantile_of [100, 200, 300] P50_QUANTILE = 200" "quantile_of [100, 200, 300] P95_QUANTILE = 290"
    "quantile_of [110, 220, 330] P50_QUANTILE = 220" "quantile_of [110, 220, 330] P95_QUANTILE = 319"
    "quantile_of [100] P50_QUANTILE = 100" "quantile_of [111] P50_QUANTILE = 111"
    by (simp_all add: quantile_of_def position_value_def rank_position_def frozen_pair_defs Let_def)
  have "measurement_ok [10, 20, 30] [100, 200, 300] [110, 220, 330]" "measurement_ok [1] [100] [111]"
    "within_limits [100, 200, 300] [110, 220, 330]" "\<not> within_limits [100] [111]"
    using q by (simp_all add: measurement_ok_def timestamps_ok_def sample_ok_def width_defs within_limits_def)
  then show ?thesis
    using campaign_decision [of "[10, 20, 30]" "[100, 200, 300]" "[110, 220, 330]"
        "[10, 20, 30]" "[100, 200, 300]" "[110, 220, 330]" "[1]" "[100]" "[111]"] by blast
qed

text \<open>
  C23. Retained evidence cannot lie. Any campaign record (forged or not) that passes revalidation
  holds pairs 0, 1, 2 whose decision is the truth about the populations it retains, and its medians
  are those of the retained ratios.
\<close>

theorem campaign_evidence_sound:
  assumes "timing_campaign_check c = Inr ()"
  shows "map timing_pair_index (pair_results c) = [0, 1, 2] \<and> campaign_medians c \<and>
    (campaign_passed c \<longleftrightarrow>
      (\<forall>p \<in> set (pair_results c). within_limits (fst (pair_populations p)) (snd (pair_populations p))))"
  using timing_campaign_check_sound [OF assms] by blast

lemma small_campaign:
  obtains p c where "timing_campaign_check c = Inr ()" "pair_results c = map p [0, 1, 2]"
    "\<forall>k \<in> {0, 1, 2}. timing_pair_index (p k) = k \<and> pair_populations (p k) = ([100], [110])"
proof -
  have m: "measurement_ok [1] [100] [110]"
    by (simp add: measurement_ok_def timestamps_ok_def sample_ok_def width_defs quantile_of_def
        position_value_def rank_position_def frozen_pair_defs Let_def)
  have "\<exists>p. timing_pair_check p = Inr () \<and> timing_pair_index p = k \<and> pair_populations p = ([100], [110])"
    if "0 \<le> k" "k \<le> 2" for k
    by (rule pair_of_measurement [OF m that]) auto
  then obtain p where p: "\<forall>k. 0 \<le> k \<and> k \<le> 2 \<longrightarrow>
      timing_pair_check (p k) = Inr () \<and> timing_pair_index (p k) = k \<and> pair_populations (p k) = ([100], [110])"
    by metis
  then obtain c where "timing_campaign_check c = Inr ()" "pair_results c = map p [0, 1, 2]"
    using timing_campaign_result_ok [of "map p [0, 1, 2]"] by auto
  then show thesis using p that [of c p] by simp
qed

theorem campaign_evidence_sound_witness:
  "\<exists>c. timing_campaign_check c = Inr () \<and> length (pair_results c) = 3 \<and> campaign_passed c"
proof -
  obtain p c where c: "timing_campaign_check c = Inr ()" "pair_results c = map p [0, 1, 2]"
    "\<forall>k \<in> {0, 1, 2}. timing_pair_index (p k) = k \<and> pair_populations (p k) = ([100], [110])"
    by (rule small_campaign)
  have "within_limits [100] [110]"
    by (simp add: within_limits_def quantile_of_def position_value_def rank_position_def frozen_pair_defs Let_def)
  then have "campaign_passed c" using campaign_evidence_sound [OF c(1)] c(2,3) by simp
  then show ?thesis using c(1,2) by auto
qed

text \<open>
  C27. Quantiles. On a nonempty population of at most one million u64 durations, in any order and as
  a list or a tuple, \<^verbatim>\<open>linear_quantile_ns\<close> returns evidence whose value is the exact linear
  quantile of the sorted population, a reduced fraction with denominator at most 20 between the
  bracketing samples.
\<close>

theorem linear_quantile_exact:
  assumes "int_seq v xs" "population_ok xs" "q \<in> set ALLOWED_QUANTILES"
  shows "\<exists>Q. linear_quantile_ns v (PyInt (fst q)) (PyInt (snd q)) = Inr Q
           \<and> rat_ns (value_ns Q) = quantile_of (sort xs) q \<and> rational_ns_valid (value_ns Q)
           \<and> rn_denominator (value_ns Q) \<le> 20 \<and> ordered_samples_ns Q = sort xs
           \<and> of_int (sort xs ! nat \<lfloor>rank_position (int (length xs)) q\<rfloor>) \<le> rat_ns (value_ns Q)
           \<and> rat_ns (value_ns Q) \<le> of_int (sort xs ! nat \<lceil>rank_position (int (length xs)) q\<rceil>)"
proof -
  have ok: "population_ok (sort xs)" using assms(2) by (rule population_ok_sort)
  obtain Q where Q: "quantile_from_sorted (sort xs) (fst q) (snd q) (population_sha256_of (sort xs)) = Inr Q"
    "quantile_evidence (sort xs) q Q"
    using quantile_from_sorted_ok [OF sorted_sort ok assms(3)] by blast
  have s: "snapshot_sorted_samples v = Inr (sort xs)" using assms by (auto simp: snapshot_sorted_samples_Inr)
  have p: "canonical_allowed_pair (PyInt (fst q)) (PyInt (snd q)) ALLOWED_QUANTILES = Inr q"
    using assms(3) by (auto simp: frozen_pair_defs U64_MAX_def)
  have n: "1 \<le> int (length xs)" using assms(2) by (simp add: population_ok_def Suc_le_eq)
  note r = rank_position_range [OF assms(3) n]
  have "linear_quantile_ns v (PyInt (fst q)) (PyInt (snd q)) = Inr Q"
    by (simp add: linear_quantile_ns_def p s Q(1) case_prod_beta del: canonical_allowed_pair_Inr)
  then show ?thesis
    using Q(2) position_value_bracket [OF sorted_sort r(1), of xs] r(2)
    by (auto simp: quantile_evidence_def quantile_of_def)
qed

theorem linear_quantile_exact_witness:
  "\<exists>Q. linear_quantile_ns (PyList (map PyInt [7, 3, 10, 4])) (PyInt 19) (PyInt 20) = Inr Q
     \<and> rat_ns (value_ns Q) = 191 / 20"
proof -
  have s: "sort [7, 3, 10, 4 :: int] = [3, 4, 7, 10]" by simp
  have "int_seq (PyList (map PyInt [7, 3, 10, 4])) [7, 3, 10, 4]" "population_ok [7, 3, 10, 4]"
    "P95_QUANTILE \<in> set ALLOWED_QUANTILES"
    by (simp_all add: int_seq_def population_ok_def sample_ok_def width_defs ALLOWED_QUANTILES_def)
  from linear_quantile_exact [OF this]
  have "\<exists>Q. linear_quantile_ns (PyList (map PyInt [7, 3, 10, 4])) (PyInt 19) (PyInt 20) = Inr Q
     \<and> rat_ns (value_ns Q) = quantile_of [3, 4, 7, 10] P95_QUANTILE"
    unfolding s by (auto simp: P95_QUANTILE_def)
  moreover have "\<lfloor>57 / 20 :: rat\<rfloor> = 2" "\<lceil>57 / 20 :: rat\<rceil> = 3" by (simp_all add: floor_eq_iff ceiling_eq_iff)
  then have "quantile_of [3, 4, 7, 10] P95_QUANTILE = 191 / 20"
    by (simp add: quantile_of_def position_value_def rank_position_def frozen_pair_defs Let_def)
  ultimately show ?thesis by simp
qed

text \<open>
  The median of three valid ratios always exists (no cross product leaves u256), is the middle
  of the three in rational order, and does not depend on the order of the arguments.
\<close>

theorem median_order_free:
  assumes "length rs = 3" "\<forall>r \<in> set rs. exact_ratio_valid r" "mset rs' = mset rs"
  shows "\<exists>m. median_of_three_ratios rs = Inr m \<and> median_of_three_ratios rs' = Inr m \<and>
           mset (ordered_ratios m) = mset rs \<and> sorted (map rat_ratio (ordered_ratios m)) \<and>
           median_ratio m = ordered_ratios m ! 1"
proof -
  have "length rs' = 3" "\<forall>r \<in> set rs'. exact_ratio_valid r" using assms by (metis size_mset, metis mset_eq_setD)
  from median_of_pair_ratios [OF this(1), of "\<lambda>r. r"] this(2)
  obtain m' where m': "median_of_three_ratios rs' = Inr m'" "median_check m' = Inr ()" "mset (ordered_ratios m') = mset rs'"
    "sorted (map rat_ratio (ordered_ratios m'))" "median_ratio m' = ordered_ratios m' ! 1" by auto
  obtain m where m: "median_of_three_ratios rs = Inr m" "mset (ordered_ratios m) = mset rs"
    "sorted (map rat_ratio (ordered_ratios m))" "median_ratio m = ordered_ratios m ! 1"
    using median_of_pair_ratios [OF assms(1), of "\<lambda>r. r"] assms(2) by auto
  have "\<forall>r \<in> set (ordered_ratios m). exact_ratio_valid r" using assms(2) m(2) by (metis mset_eq_setD)
  then have "ordered_ratios m = ordered_ratios m'"
    using m m' assms(3) by (intro sorted_ratios_unique) auto
  then have "m = m'" using m(4) m'(5) by (cases m; cases m') simp
  then show ?thesis using m m' by blast
qed

theorem median_order_free_witness:
  "\<exists>m. median_of_three_ratios [\<lparr>er_numerator = 3, er_denominator = 2\<rparr>, \<lparr>er_numerator = 1, er_denominator = 1\<rparr>, \<lparr>er_numerator = 4, er_denominator = 3\<rparr>] = Inr m \<and>
       median_of_three_ratios [\<lparr>er_numerator = 4, er_denominator = 3\<rparr>, \<lparr>er_numerator = 3, er_denominator = 2\<rparr>, \<lparr>er_numerator = 1, er_denominator = 1\<rparr>] = Inr m \<and>
       median_ratio m = \<lparr>er_numerator = 4, er_denominator = 3\<rparr>"
proof -
  let ?a = "\<lparr>er_numerator = 3, er_denominator = 2\<rparr>" and ?b = "\<lparr>er_numerator = 1, er_denominator = 1\<rparr>"
    and ?c = "\<lparr>er_numerator = 4, er_denominator = 3\<rparr>"
  have g: "gcd 3 2 = (1 :: int)" "gcd 4 3 = (1 :: int)" by code_simp+
  have v: "\<forall>r \<in> set [?a, ?b, ?c]. exact_ratio_valid r" by (simp add: exact_ratio_valid_def U128_MAX_def g)
  obtain m where m: "median_of_three_ratios [?a, ?b, ?c] = Inr m" "median_of_three_ratios [?c, ?a, ?b] = Inr m"
      "mset (ordered_ratios m) = {#?a, ?b, ?c#}" "sorted (map rat_ratio (ordered_ratios m))"
      "median_ratio m = ordered_ratios m ! 1"
    using median_order_free [OF _ v, of "[?c, ?a, ?b]"] by (auto simp: add_mset_commute)
  have "ordered_ratios m = [?b, ?c, ?a]"
  proof (rule sorted_ratios_unique)
    show "mset (ordered_ratios m) = mset [?b, ?c, ?a]" using m(3) by (simp add: add_mset_commute)
    show "\<forall>r \<in> set (ordered_ratios m). exact_ratio_valid r" using v m(3) by (metis mset.simps(1,2) mset_eq_setD)
    show "sorted (map rat_ratio [?b, ?c, ?a])" by (simp add: rat_ratio_def)
  qed (rule m)
  then show ?thesis using m by auto
qed

text \<open>
  The digest preimage of the common population is injective: two accepted payloads agree only
  when the pair index and every timestamp agree.
\<close>

theorem common_payload_injective:
  assumes "canonical_common_population_payload (PyInt k) (PyTuple (map PyInt ts)) = Inr b"
    and "canonical_common_population_payload (PyInt k') (PyTuple (map PyInt ts')) = Inr b"
  shows "k = k' \<and> ts = ts'"
  by (rule common_payload_inj [OF assms])

theorem common_payload_injective_witness:
  "\<exists>b. canonical_common_population_payload (PyInt 1) (PyTuple (map PyInt [5, 9])) = Inr b \<and>
       canonical_common_population_payload (PyInt 2) (PyTuple (map PyInt [5, 9])) \<noteq> Inr b"
proof -
  have "validated_common_timestamps (PyTuple (map PyInt [5, 9])) = Inr [5, 9]"
    unfolding validated_common_timestamps_Inr by (simp add: timestamps_ok_def sample_ok_def width_defs)
  moreover have "u64 (PyInt 1) = Inr 1" by (simp add: U64_MAX_def)
  ultimately obtain b where "canonical_common_population_payload (PyInt 1) (PyTuple (map PyInt [5, 9])) = Inr b"
    by (simp add: canonical_common_population_payload_def)
  then show ?thesis using common_payload_injective [of 1 "[5, 9]" b 2 "[5, 9]"] by auto
qed

text \<open>
  Serialized rationals. A valid rational survives the trip through its hexadecimal record, and a
  record that is accepted is, up to the order of its two entries, the one the serializer writes.
\<close>

theorem rational_record_round_trip:
  "(rational_ns_valid r \<longrightarrow> (\<exists>v. rational_ns_to_record r = Inr v \<and> rational_ns_from_record v = Inr r)) \<and>
   (distinct (map fst d) \<and> rational_ns_from_record (PyDict d) = Inr s \<longrightarrow>
      (\<exists>d'. rational_ns_to_record s = Inr (PyDict d') \<and> mset d' = mset d))"
  using rational_ns_record_round_trip rational_ns_from_record_canonical by blast

theorem rational_record_round_trip_witness:
  "\<exists>v. rational_ns_to_record \<lparr>rn_numerator = 191, rn_denominator = 20\<rparr> = Inr v \<and>
       rational_ns_from_record v = Inr \<lparr>rn_numerator = 191, rn_denominator = 20\<rparr>"
proof -
  have "gcd 191 20 = (1 :: int)" by code_simp
  then have "rational_ns_valid \<lparr>rn_numerator = 191, rn_denominator = 20\<rparr>"
    by (simp add: rational_ns_valid_def width_defs)
  then show ?thesis
    using rational_record_round_trip [of "\<lparr>rn_numerator = 191, rn_denominator = 20\<rparr>" "[]" "\<lparr>rn_numerator = 0, rn_denominator = 1\<rparr>"]
    by blast
qed

text \<open>
  C34. A gate is exact: revalidated gate evidence passes exactly when the rational
  candidate/baseline quotient is at most the retained limit, and the retained ratio is that quotient
  in lowest terms; a zero baseline is refused.
\<close>

theorem ratio_gate_exact:
  assumes "ratio_gate b c ln_arg ld_arg = Inr g"
  shows "rat_ratio (candidate_over_baseline g) = rat_ns c / rat_ns b \<and> exact_ratio_valid (candidate_over_baseline g) \<and>
    0 < rat_ns b \<and> limit_pair g \<in> set ALLOWED_RATIO_LIMITS \<and>
    (gate_passed g \<longleftrightarrow> rat_ns c \<le> rat_limit (limit_pair g) * rat_ns b)"
proof -
  have g: "ratio_gate_check g = Inr ()" "baseline_ns g = b" "candidate_ns g = c" "limit_pair g \<in> set ALLOWED_RATIO_LIMITS"
    using assms by (auto simp: ratio_gate_def mk_ratio_gate_def Let_def limit_pair_def)
  note s = ratio_gate_check_sound [OF g(1), unfolded g(2,3)]
  have "rat_ns c / rat_ns b \<le> rat_limit (limit_pair g) \<longleftrightarrow> rat_ns c \<le> rat_limit (limit_pair g) * rat_ns b"
    using s(6) by (rule pos_divide_le_eq)
  then show ?thesis using s g(4) by simp
qed

theorem ratio_gate_exact_witness:
  "\<exists>g. ratio_gate \<lparr>rn_numerator = 10, rn_denominator = 1\<rparr> \<lparr>rn_numerator = 11, rn_denominator = 1\<rparr> (PyInt 11) (PyInt 10) = Inr g
     \<and> gate_passed g"
proof -
  let ?b = "\<lparr>rn_numerator = 10, rn_denominator = 1\<rparr>" and ?c = "\<lparr>rn_numerator = 11, rn_denominator = 1\<rparr>"
  have "rational_ns_valid ?b" "rational_ns_valid ?c" by (simp_all add: rational_ns_valid_def width_defs)
  then obtain g where g: "ratio_gate ?b ?c (PyInt 11) (PyInt 10) = Inr g" "limit_pair g = MEDIAN_RATIO_LIMIT"
    using ratio_gate_ok [of ?b ?c MEDIAN_RATIO_LIMIT] by (auto simp: frozen_pair_defs)
  then have "gate_passed g"
    using ratio_gate_exact [OF g(1)] by (simp add: rat_ns_def rat_limit_def MEDIAN_RATIO_LIMIT_def)
  then show ?thesis using g(1) by blast
qed

end
