(* ===== verification/Utf8.thy ===== *)
theory Utf8
  imports Py_Prelude
begin

text \<open>
  The strict UTF-8 codec of \<^verbatim>\<open>str.encode("utf-8", "strict")\<close> and
  \<^verbatim>\<open>bytes.decode("utf-8", "strict")\<close>, on code points and octets. Encoding fails on surrogates;
  decoding fails on overlong forms, surrogates, values above \<open>0x10FFFF\<close> and truncated input. A
  failure is \<^term>\<open>None\<close>; the callers turn it into their own exception.
\<close>

section \<open>Codes with a decoder\<close>

text \<open>A code with a decoder that reads one value off the front of a stream.\<close>

locale decodable_code =
  fixes enc :: "'a \<Rightarrow> 'c list" and ok :: "'a \<Rightarrow> bool" and dec :: "'c list \<Rightarrow> ('a \<times> 'c list) option"
  assumes dec_enc: "ok x \<Longrightarrow> dec (enc x @ r) = Some (x, r)"
begin

lemma self_delim: "ok x \<Longrightarrow> ok y \<Longrightarrow> enc x @ r = enc y @ s \<Longrightarrow> x = y \<and> r = s"
  using dec_enc by (metis option.inject prod.inject)

lemma concat_inj:
  assumes "\<And>x. ok x \<Longrightarrow> enc x \<noteq> []"
  shows "\<forall>x \<in> set xs. ok x \<Longrightarrow> \<forall>y \<in> set ys. ok y \<Longrightarrow> concat (map enc xs) = concat (map enc ys) \<Longrightarrow> xs = ys"
proof (induction xs arbitrary: ys)
  case Nil
  then show ?case using assms by (cases ys) auto
next
  case (Cons x xs)
  have "enc x \<noteq> []" using Cons.prems(1) by (intro assms) simp
  then have "ys \<noteq> []" using Cons.prems(3) by auto
  then obtain y ys' where ys: "ys = y # ys'" by (cases ys) simp_all
  then have "x = y \<and> concat (map enc xs) = concat (map enc ys')"
    using Cons.prems by (intro self_delim) simp_all
  moreover from this have "xs = ys'" using Cons.prems ys by (intro Cons.IH) simp_all
  ultimately show ?case using ys by simp
qed

end

section \<open>One code point\<close>

definition is_scalar :: "nat \<Rightarrow> bool" where
  "is_scalar c \<longleftrightarrow> c < 0x110000 \<and> \<not> (0xD800 \<le> c \<and> c \<le> 0xDFFF)"

definition cp_octets :: "nat \<Rightarrow> nat list" where
  "cp_octets c =
     (if c < 0x80 then [c]
      else if c < 0x800 then [0xC0 + c div 64, 0x80 + c mod 64]
      else if c < 0x10000 then [0xE0 + c div 4096, 0x80 + c div 64 mod 64, 0x80 + c mod 64]
      else [0xF0 + c div 262144, 0x80 + c div 4096 mod 64, 0x80 + c div 64 mod 64, 0x80 + c mod 64])"

definition is_cont :: "nat \<Rightarrow> bool" where
  "is_cont b \<longleftrightarrow> 0x80 \<le> b \<and> b < 0xC0"

fun next_cp :: "nat list \<Rightarrow> (nat \<times> nat list) option" where
  "next_cp [] = None"
| "next_cp (a # r) =
     (if a < 0x80 then Some (a, r)
      else if a < 0xC2 then None
      else if a < 0xE0 then
        (case r of
           b # r' \<Rightarrow> if is_cont b then Some ((a - 0xC0) * 64 + (b - 0x80), r') else None
         | _ \<Rightarrow> None)
      else if a < 0xF0 then
        (case r of
           b # c # r' \<Rightarrow>
             (let v = (a - 0xE0) * 4096 + (b - 0x80) * 64 + (c - 0x80)
              in if is_cont b \<and> is_cont c \<and> 0x800 \<le> v \<and> is_scalar v then Some (v, r') else None)
         | _ \<Rightarrow> None)
      else if a < 0xF5 then
        (case r of
           b # c # d # r' \<Rightarrow>
             (let v = (a - 0xF0) * 262144 + (b - 0x80) * 4096 + (c - 0x80) * 64 + (d - 0x80)
              in if is_cont b \<and> is_cont c \<and> is_cont d \<and> 0x10000 \<le> v \<and> is_scalar v then Some (v, r') else None)
         | _ \<Rightarrow> None)
      else None)"

lemma is_cont_mod [simp]: "is_cont (128 + n mod 64)"
  by (simp add: is_cont_def)

lemma split3: "c div 4096 * 4096 + c div 64 mod 64 * 64 + c mod 64 = (c :: nat)"
proof -
  have "c div 4096 = c div 64 div 64" by (simp add: div_mult2_eq [symmetric])
  then show ?thesis using div_mult_mod_eq [of "c div 64" 64] div_mult_mod_eq [of c 64] by linarith
qed

lemma split4: "c div 262144 * 262144 + c div 4096 mod 64 * 4096 + c div 64 mod 64 * 64 + c mod 64 = (c :: nat)"
proof -
  have "c div 262144 = c div 4096 div 64" by (simp add: div_mult2_eq [symmetric])
  then show ?thesis using div_mult_mod_eq [of "c div 4096" 64] split3 [of c] by linarith
qed

lemma join2: "y < 64 \<Longrightarrow> (x * 64 + y) div 64 = x \<and> (x * 64 + y) mod 64 = (y :: nat)"
  by simp

lemma join3:
  fixes x y z v :: nat
  assumes "y < 64" "z < 64" "v = x * 4096 + y * 64 + z"
  shows "v div 4096 = x" "v div 64 mod 64 = y" "v mod 64 = z"
proof -
  have v: "v = (x * 64 + y) * 64 + z" using assms(3) by simp
  have "v div 64 = x * 64 + y" and z: "v mod 64 = z" unfolding v using join2 [OF assms(2)] by blast+
  moreover have "v div 4096 = v div 64 div 64" by (simp add: div_mult2_eq [symmetric])
  ultimately show "v div 4096 = x" "v div 64 mod 64 = y" using join2 [OF assms(1)] by simp_all
  show "v mod 64 = z" by (rule z)
qed

lemma join4:
  fixes x y z w v :: nat
  assumes "y < 64" "z < 64" "w < 64" "v = x * 262144 + y * 4096 + z * 64 + w"
  shows "v div 262144 = x" "v div 4096 mod 64 = y" "v div 64 mod 64 = z" "v mod 64 = w"
proof -
  have "v = (x * 64 + y) * 4096 + z * 64 + w" using assms(4) by simp
  note j = join3 [OF assms(2,3) this]
  have "v div 262144 = v div 4096 div 64" by (simp add: div_mult2_eq [symmetric])
  then show "v div 262144 = x" "v div 4096 mod 64 = y" using j(1) join2 [OF assms(1)] by simp_all
  show "v div 64 mod 64 = z" "v mod 64 = w" by (rule j)+
qed

lemma next_cp_octets: "is_scalar c \<Longrightarrow> next_cp (cp_octets c @ r) = Some (c, r)"
proof -
  assume s: "is_scalar c"
  consider "c < 0x80" | "0x80 \<le> c" "c < 0x800" | "0x800 \<le> c" "c < 0x10000" | "0x10000 \<le> c" "c < 0x110000"
    using s by (force simp: is_scalar_def)
  then show ?thesis
  proof cases
    case 1
    then show ?thesis by (simp add: cp_octets_def)
  next
    case 2
    then have "2 \<le> c div 64" "c div 64 < 32" by (auto simp: div_le_mono less_mult_imp_div_less)
    then show ?thesis using 2 by (simp add: cp_octets_def)
  next
    case 3
    then have "c div 4096 < 16" by (simp add: less_mult_imp_div_less)
    then show ?thesis using 3 s split3 [of c] by (simp add: cp_octets_def Let_def)
  next
    case 4
    then have "c div 262144 < 5" by (simp add: less_mult_imp_div_less)
    then show ?thesis using 4 s split4 [of c] by (simp add: cp_octets_def Let_def)
  qed
qed

interpretation cp_code: decodable_code cp_octets is_scalar next_cp
  by unfold_locales (rule next_cp_octets)

lemma next_cp_shorter: "next_cp bs = Some (c, r) \<Longrightarrow> length r < length bs"
  by (cases bs) (auto simp: Let_def split: if_splits list.splits)

lemma cp_octets2:
  assumes "2 \<le> x" "x < 32" "y < 64" "v = x * 64 + y"
  shows "cp_octets v = [0xC0 + x, 0x80 + y]" "is_scalar v"
proof -
  have "\<not> v < 0x80" "v < 0x800" using assms by linarith+
  then show "cp_octets v = [0xC0 + x, 0x80 + y]" "is_scalar v"
    using join2 [OF assms(3), of x] by (simp_all add: cp_octets_def is_scalar_def assms(4) [symmetric])
qed

lemma cp_octets3:
  assumes "x < 16" "y < 64" "z < 64" "v = x * 4096 + y * 64 + z" "0x800 \<le> v"
  shows "cp_octets v = [0xE0 + x, 0x80 + y, 0x80 + z]"
proof -
  have "\<not> v < 0x80" "\<not> v < 0x800" "v < 0x10000" using assms by linarith+
  then show ?thesis by (simp add: cp_octets_def join3 [OF assms(2-4)])
qed

lemma cp_octets4:
  assumes "x < 5" "y < 64" "z < 64" "w < 64" "v = x * 262144 + y * 4096 + z * 64 + w" "0x10000 \<le> v"
  shows "cp_octets v = [0xF0 + x, 0x80 + y, 0x80 + z, 0x80 + w]"
proof -
  have "\<not> v < 0x80" "\<not> v < 0x800" "\<not> v < 0x10000" using assms(6) by linarith+
  then show ?thesis by (simp add: cp_octets_def join4 [OF assms(2-5)])
qed

lemma is_cont_sub: "is_cont b \<Longrightarrow> b - 0x80 < 64 \<and> 0x80 + (b - 0x80) = b"
  by (auto simp: is_cont_def)

lemma next_cp_sound: "next_cp bs = Some (c, r) \<Longrightarrow> is_scalar c \<and> bs = cp_octets c @ r"
proof (cases bs)
  case (Cons a q)
  assume n: "next_cp bs = Some (c, r)"
  consider "a < 0x80" | "0xC2 \<le> a" "a < 0xE0" | "0xE0 \<le> a" "a < 0xF0" | "0xF0 \<le> a" "a < 0xF5"
    using n Cons by (auto split: if_splits simp: not_less)
  then show ?thesis
  proof cases
    case 1
    then show ?thesis using n Cons by (simp add: cp_octets_def is_scalar_def)
  next
    case 2
    then obtain b where q: "q = b # r" "is_cont b" "c = (a - 0xC0) * 64 + (b - 0x80)"
      using n Cons by (auto split: list.splits if_splits)
    have "2 \<le> a - 0xC0" "a - 0xC0 < 32" "0xC0 + (a - 0xC0) = a" using 2 by linarith+
    then show ?thesis using cp_octets2 [OF _ _ _ q(3)] is_cont_sub [OF q(2)] by (simp add: Cons q(1))
  next
    case 3
    then obtain b d where q: "q = b # d # r" "is_cont b" "is_cont d" "c = (a - 0xE0) * 4096 + (b - 0x80) * 64 + (d - 0x80)"
      "0x800 \<le> c" "is_scalar c"
      using n Cons by (auto simp: Let_def split: list.splits if_splits)
    have "a - 0xE0 < 16" "0xE0 + (a - 0xE0) = a" using 3 by linarith+
    then show ?thesis using cp_octets3 [OF _ _ _ q(4,5)] is_cont_sub [OF q(2)] is_cont_sub [OF q(3)] q(6)
      by (simp add: Cons q(1))
  next
    case 4
    then obtain b d e where q: "q = b # d # e # r" "is_cont b" "is_cont d" "is_cont e"
      "c = (a - 0xF0) * 262144 + (b - 0x80) * 4096 + (d - 0x80) * 64 + (e - 0x80)" "0x10000 \<le> c" "is_scalar c"
      using n Cons by (auto simp: Let_def split: list.splits if_splits)
    have "a - 0xF0 < 5" "0xF0 + (a - 0xF0) = a" using 4 by linarith+
    then show ?thesis using cp_octets4 [OF _ _ _ _ q(5,6)] is_cont_sub [OF q(2)] is_cont_sub [OF q(3)] is_cont_sub [OF q(4)] q(7)
      by (simp add: Cons q(1))
  qed
qed simp

section \<open>Strings\<close>

definition utf8_encode :: "pystr \<Rightarrow> bytes option" where
  "utf8_encode s = (if list_all is_scalar s then Some (map word_of_nat (concat (map cp_octets s))) else None)"

function decode_octets :: "nat list \<Rightarrow> pystr option" where
  "decode_octets bs =
     (if bs = [] then Some []
      else case next_cp bs of
             None \<Rightarrow> None
           | Some (c, r) \<Rightarrow> map_option (\<lambda>s. c # s) (decode_octets r))"
  by pat_completeness auto
termination
  by (relation "measure length") (auto dest: next_cp_shorter)

declare decode_octets.simps [simp del]

definition utf8_decode :: "bytes \<Rightarrow> pystr option" where
  "utf8_decode bs = decode_octets (map unat bs)"

lemma cp_octets_nonempty [simp]: "cp_octets c \<noteq> []"
  by (simp add: cp_octets_def)

lemma cp_octets_bytes: "is_scalar c \<Longrightarrow> b \<in> set (cp_octets c) \<Longrightarrow> b < 256"
proof -
  assume s: "is_scalar c" "b \<in> set (cp_octets c)"
  have "c < 0x800 \<Longrightarrow> c div 64 < 32" "c < 0x10000 \<Longrightarrow> c div 4096 < 16" "c < 0x110000 \<Longrightarrow> c div 262144 < 5"
    by (simp_all add: less_mult_imp_div_less)
  moreover have "n mod 64 < 64" for n :: nat by simp
  ultimately show "b < 256" using s unfolding cp_octets_def is_scalar_def
    by (auto split: if_splits intro: less_le_trans [of _ 64, THEN add_strict_left_mono, THEN less_le_trans])
qed

lemma decode_concat: "list_all is_scalar s \<Longrightarrow> decode_octets (concat (map cp_octets s)) = Some s"
proof (induction s)
  case (Cons c s)
  then show ?case by (subst decode_octets.simps) (simp add: next_cp_octets)
qed (simp add: decode_octets.simps)

lemma utf8_decode_encode: "utf8_encode s = Some bs \<Longrightarrow> utf8_decode bs = Some s"
proof -
  assume "utf8_encode s = Some bs"
  then have s: "list_all is_scalar s" and bs: "bs = map word_of_nat (concat (map cp_octets s))"
    by (auto simp: utf8_encode_def split: if_splits)
  have "map unat bs = concat (map cp_octets s)"
    unfolding bs map_map comp_def using s
    by (intro map_idI) (auto simp: unat_of_nat list_all_iff dest!: cp_octets_bytes)
  then show ?thesis by (simp add: utf8_decode_def decode_concat [OF s])
qed

lemma utf8_encode_inj: "utf8_encode s = Some bs \<Longrightarrow> utf8_encode t = Some bs \<Longrightarrow> s = t"
  by (metis option.inject utf8_decode_encode)

lemma decode_octets_sound: "decode_octets bs = Some s \<Longrightarrow> list_all is_scalar s \<and> concat (map cp_octets s) = bs"
proof (induction bs arbitrary: s rule: decode_octets.induct)
  case (1 bs)
  then show ?case
    by (subst (asm) decode_octets.simps [of bs])
      (auto split: if_splits option.splits dest: next_cp_sound)
qed

lemma utf8_encode_decode: "utf8_decode bs = Some s \<Longrightarrow> utf8_encode s = Some bs"
  using decode_octets_sound [of "map unat bs" s]
  by (simp add: utf8_decode_def utf8_encode_def map_idI)

end
