(* ===== verification/Binary64.thy ===== *)
theory Binary64
  imports Complex_Main Py_Prelude
begin

text \<open>
  IEEE-754 binary64 as the scripts use it: a float is its bit pattern, \<^verbatim>\<open>math.isfinite\<close> reads the
  exponent field, and a conversion or an arithmetic result is rounded to nearest, ties to even.
  Rounding works on a fraction of naturals: the significand is scaled so that its last bit has the
  weight of the result's unit in the last place, and adding it to the shifted exponent carries into
  the next binade by itself.
\<close>

definition f64_exponent :: "f64 \<Rightarrow> nat" where
  "f64_exponent x = unat x div 2 ^ 52 mod 2048"

definition f64_fraction :: "f64 \<Rightarrow> nat" where
  "f64_fraction x = unat x mod 2 ^ 52"

definition f64_negative :: "f64 \<Rightarrow> bool" where
  "f64_negative x \<longleftrightarrow> 2 ^ 63 \<le> unat x"

definition f64_finite :: "f64 \<Rightarrow> bool" where
  "f64_finite x \<longleftrightarrow> f64_exponent x \<noteq> 2047"

text \<open>The rational number of a finite pattern: significand and power of two.\<close>

definition f64_significand :: "f64 \<Rightarrow> nat" where
  "f64_significand x = (if f64_exponent x = 0 then f64_fraction x else 2 ^ 52 + f64_fraction x)"

definition f64_scale :: "f64 \<Rightarrow> int" where
  "f64_scale x = (if f64_exponent x = 0 then - 1074 else int (f64_exponent x) - 1075)"

definition f64_rat :: "f64 \<Rightarrow> rat" where
  "f64_rat x = (if f64_negative x then - 1 else 1) * of_nat (f64_significand x) * 2 powi f64_scale x"

fun bit_length :: "nat \<Rightarrow> nat" where
  "bit_length n = (if n = 0 then 0 else Suc (bit_length (n div 2)))"

declare bit_length.simps [simp del]

definition round_half_even :: "nat \<Rightarrow> nat \<Rightarrow> nat" where
  "round_half_even num den =
     (let q = num div den; r = num mod den
      in if 2 * r < den \<or> 2 * r = den \<and> even q then q else q + 1)"

text \<open>\<open>scaled a b s\<close> is the fraction \<open>(a / b) / 2 ^ s\<close>.\<close>

definition scaled :: "nat \<Rightarrow> nat \<Rightarrow> int \<Rightarrow> nat \<times> nat" where
  "scaled a b s = (if s \<le> 0 then (a * 2 ^ nat (- s), b) else (a, b * 2 ^ nat s))"

definition floor_log2_frac :: "nat \<Rightarrow> nat \<Rightarrow> int" where
  "floor_log2_frac a b =
     (let e = int (bit_length a) - int (bit_length b); (n, d) = scaled a b e
      in if d \<le> n then e else e - 1)"

definition round_magnitude :: "nat \<Rightarrow> nat \<Rightarrow> nat" where
  "round_magnitude a b =
     (if a = 0 then 0
      else let e = max (floor_log2_frac a b) (- 1022); (n, d) = scaled a b (e - 52)
           in nat (e + 1022) * 2 ^ 52 + round_half_even n d)"

text \<open>\<^verbatim>\<open>float(n)\<close> of an integer: \<^term>\<open>None\<close> is the \<^verbatim>\<open>OverflowError\<close>.\<close>

definition f64_of_int :: "int \<Rightarrow> f64 option" where
  "f64_of_int n =
     (let m = round_magnitude (nat \<bar>n\<bar>) 1
      in if 2047 * 2 ^ 52 \<le> m then None
         else Some (word_of_nat ((if n < 0 then 2 ^ 63 else 0) + m)))"

section \<open>Exactness on small integers\<close>

lemma bit_length_bounds: "0 < n \<Longrightarrow> 2 ^ (bit_length n - 1) \<le> n \<and> n < 2 ^ bit_length n \<and> 0 < bit_length n"
proof (induction n rule: bit_length.induct)
  case (1 n)
  show ?case
  proof (cases "n div 2 = 0")
    case True
    then have "n = 1" using 1(2) by linarith
    then show ?thesis by (simp add: bit_length.simps)
  next
    case False
    then have ih: "2 ^ (bit_length (n div 2) - 1) \<le> n div 2 \<and> n div 2 < 2 ^ bit_length (n div 2) \<and> 0 < bit_length (n div 2)"
      using 1(1) 1(2) by blast
    have bl: "bit_length n = Suc (bit_length (n div 2))" using 1(2) by (subst bit_length.simps) simp
    have "2 ^ bit_length (n div 2) = 2 * (2 :: nat) ^ (bit_length (n div 2) - 1)"
      using ih by (cases "bit_length (n div 2)") simp_all
    moreover have "2 ^ (bit_length n - 1) = (2 :: nat) ^ bit_length (n div 2)"
      "2 ^ bit_length n = 2 * (2 :: nat) ^ bit_length (n div 2)" by (simp_all add: bl)
    ultimately have "2 ^ (bit_length n - 1) \<le> n" "n < 2 ^ bit_length n" using ih by linarith+
    then show ?thesis by (simp add: bl)
  qed
qed

lemma round_half_even_exact: "0 < d \<Longrightarrow> round_half_even (q * d) d = q"
  by (simp add: round_half_even_def)

lemma floor_log2_one:
  assumes "0 < n"
  shows "floor_log2_frac n 1 = int (bit_length n) - 1"
proof -
  have "bit_length 1 = 1" by (simp add: bit_length.simps)
  moreover have "2 ^ (bit_length n - 1) \<le> n" "0 < bit_length n" using bit_length_bounds [OF assms] by blast+
  ultimately show ?thesis
    using assms by (auto simp: floor_log2_frac_def scaled_def Let_def nat_diff_distrib)
qed

lemma round_magnitude_int:
  assumes "0 < n" "n < 2 ^ 53"
  defines "k \<equiv> bit_length n - 1"
  shows "round_magnitude n 1 = (k + 1022) * 2 ^ 52 + n * 2 ^ (52 - k)" "k \<le> 52" "2 ^ k \<le> n" "n < 2 * 2 ^ k"
proof -
  note b = bit_length_bounds [OF assms(1)]
  have l: "floor_log2_frac n 1 = int k" using floor_log2_one [OF assms(1)] b by (simp add: k_def of_nat_diff)
  show k: "k \<le> 52"
  proof (rule ccontr)
    assume "\<not> k \<le> 52"
    then have "(2 :: nat) ^ 53 \<le> 2 ^ k" by (intro power_increasing) auto
    then show False using b assms(2) by (simp add: k_def)
  qed
  show "2 ^ k \<le> n" using b by (simp add: k_def)
  show "n < 2 * 2 ^ k" using b by (metis Suc_pred k_def diff_Suc_1 power_Suc One_nat_def)
  have "scaled n 1 (int k - 52) = (n * 2 ^ (52 - k), 1)"
    using k by (auto simp: scaled_def nat_diff_distrib)
  then show "round_magnitude n 1 = (k + 1022) * 2 ^ 52 + n * 2 ^ (52 - k)"
    using assms(1) round_half_even_exact [of 1 "n * 2 ^ (52 - k)"] by (simp add: round_magnitude_def l Let_def nat_add_distrib del: One_nat_def)
qed

text \<open>Integers of at most 53 bits convert exactly.\<close>

lemma f64_of_nat_exact:
  assumes "n < 2 ^ 53"
  shows "\<exists>x. f64_of_int (int n) = Some x \<and> f64_finite x \<and> f64_rat x = of_nat n"
proof (cases "n = 0")
  case True
  then show ?thesis
    by (simp add: f64_of_int_def round_magnitude_def f64_finite_def f64_exponent_def f64_rat_def f64_significand_def f64_fraction_def)
next
  case False
  define k where "k = bit_length n - 1"
  have p: "0 < n" using False by simp
  note r = round_magnitude_int [OF p assms, folded k_def]
  define f where "f = n * 2 ^ (52 - k) - 2 ^ 52"
  have pw: "(2 :: nat) ^ k * 2 ^ (52 - k) = 2 ^ 52" using r(2) by (simp flip: power_add)
  have lo: "2 ^ 52 \<le> n * 2 ^ (52 - k)" using mult_right_mono [OF r(3), of "2 ^ (52 - k)"] pw by simp
  have hi: "n * 2 ^ (52 - k) < 2 * 2 ^ 52"
    using mult_strict_right_mono [OF r(4), of "2 ^ (52 - k)"] pw by (simp add: mult.assoc)
  have f: "f < 2 ^ 52" using hi by (simp add: f_def)
  define m where "m = (k + 1023) * 2 ^ 52 + f"
  have m: "round_magnitude n 1 = m" using lo by (simp add: r(1) m_def f_def del: One_nat_def)
  have "m < 2047 * 2 ^ 52" "m < 2 ^ 63" using f r(2) by (simp_all add: m_def)
  then have x: "f64_of_int (int n) = Some (word_of_nat m)" and u: "unat (word_of_nat m :: f64) = m"
    by (simp_all add: f64_of_int_def m unat_of_nat del: One_nat_def)
  have "m div 2 ^ 52 = k + 1023" "m mod 2 ^ 52 = f" unfolding m_def mod_mult_self3 using f by simp_all
  then have e: "f64_exponent (word_of_nat m) = k + 1023" "f64_fraction (word_of_nat m) = f"
    using r(2) by (simp_all add: f64_exponent_def f64_fraction_def u)
  have "f64_rat (word_of_nat m) = of_nat (n * 2 ^ (52 - k)) * 2 powi (int k - 52)"
    using \<open>m < 2 ^ 63\<close> lo by (simp add: f64_rat_def f64_negative_def u f64_significand_def f64_scale_def e f_def)
  also have "\<dots> = of_nat n * (2 ^ (52 - k) * 2 powi (int k - 52))" by simp
  also have "int k - 52 = - int (52 - k)" using r(2) by simp
  also have "2 ^ (52 - k) * 2 powi (- int (52 - k)) = (1 :: rat)" by (simp add: power_int_minus)
  finally have "f64_rat (word_of_nat m) = of_nat n" by simp
  then show ?thesis using x e(1) r(2) by (simp add: f64_finite_def)
qed

end
