(* ===== verification/Cp2_Schema.thy ===== *)
theory Cp2_Schema
  imports Sha256 Utf8 Binary64
begin

text \<open>
  The schema primitives of \<^verbatim>\<open>src/scripts/cp2/cp2_schema.py\<close>: scalar validators and checked u64
  arithmetic, safe identifiers and relative paths, exact decimal timestamps, the 99.9% agreement
  gate, and the byte encodings behind every retained digest (manifests, accepted feature sets and
  sequences, command environments, typed ROS parameters). The JSON layer is \<^verbatim>\<open>Schema_Json\<close>;
  the tree validation applied to its result is here.
\<close>

section \<open>Constants\<close>

definition U64_LIMIT :: int where "U64_LIMIT = 2 ^ 64 - 1"
definition I64_MIN :: int where "I64_MIN = - (2 ^ 63)"
definition I64_MAX :: int where "I64_MAX = 2 ^ 63 - 1"
definition EXACT_BINARY64_INTEGER_MAX :: int where "EXACT_BINARY64_INTEGER_MAX = 2 ^ 53 - 1"

definition ACCEPTED_SET_DOMAIN :: bytes where
  "ACCEPTED_SET_DOMAIN = blit ''SchurVIO-CP2-accepted-set-v1'' @ [0]"
definition ACCEPTED_SEQUENCE_DOMAIN :: bytes where
  "ACCEPTED_SEQUENCE_DOMAIN = blit ''SchurVIO-CP2-accepted-sequence-v1'' @ [0]"
definition COMMAND_ENVIRONMENT_DOMAIN :: bytes where
  "COMMAND_ENVIRONMENT_DOMAIN = blit ''SchurVIO-CP2-command-environment-v1'' @ [0]"
definition RESOLVED_PARAMETERS_DOMAIN :: bytes where
  "RESOLVED_PARAMETERS_DOMAIN = blit ''SchurVIO-CP2-ros-params-v1'' @ [0]"
definition RESOLVED_PARAMETER_PREFIX :: pystr where
  "RESOLVED_PARAMETER_PREFIX = lit ''/cp2_vio/''"

definition ALLOWED_COMMAND_ENVIRONMENT_NAMES :: "pystr list" where
  "ALLOWED_COMMAND_ENVIRONMENT_NAMES = map lit [
     ''CC'', ''BLIS_NUM_THREADS'', ''CFLAGS'', ''CMAKE_PREFIX_PATH'', ''CP2_FORBID_BAG_ACCESS'',
     ''CP2_POSTAUTH_PAIR_INDEX'', ''CP2_SELF_TEST'', ''CPATH'', ''CXX'', ''CXXFLAGS'',
     ''GIT_ALLOW_PROTOCOL'', ''GIT_ATTR_NOSYSTEM'', ''GIT_CONFIG_NOSYSTEM'',
     ''GIT_LITERAL_PATHSPECS'', ''GIT_NO_LAZY_FETCH'', ''GIT_NO_REPLACE_OBJECTS'',
     ''GIT_OPTIONAL_LOCKS'', ''GIT_PAGER'', ''GIT_PROTOCOL_FROM_USER'', ''GIT_TERMINAL_PROMPT'',
     ''HOME'', ''LANG'', ''LC_ALL'', ''LD_LIBRARY_PATH'', ''LDFLAGS'', ''LIBRARY_PATH'',
     ''LOGNAME'', ''MKL_DYNAMIC'', ''MKL_NUM_THREADS'', ''MPLCONFIGDIR'',
     ''NPY_DISABLE_CPU_FEATURES'', ''NUMEXPR_NUM_THREADS'', ''OMP_DYNAMIC'', ''OMP_NUM_THREADS'',
     ''OPENBLAS_CORETYPE'', ''OPENBLAS_NUM_THREADS'', ''PATH'', ''PKG_CONFIG_PATH'',
     ''PYTHONDONTWRITEBYTECODE'', ''PYTHONNOUSERSITE'', ''PYTHONPATH'', ''ROS_DISTRO'',
     ''ROS_ETC_DIR'', ''ROS_HOSTNAME'', ''ROS_IP'', ''ROS_MASTER_URI'', ''ROS_PACKAGE_PATH'',
     ''ROS_PYTHON_VERSION'', ''ROS_ROOT'', ''ROS_VERSION'', ''SOURCE_DATE_EPOCH'', ''TMPDIR'',
     ''TZ'', ''USER'', ''VECLIB_MAXIMUM_THREADS'', ''XDG_CACHE_HOME'', ''XDG_CONFIG_HOME'']"

section \<open>Scalars\<close>

definition schema_fail :: "string \<Rightarrow> 'a py" where
  "schema_fail message = Inl (SchemaError message)"

lemma schema_fail_not_Inr [simp]: "schema_fail m \<noteq> Inr x" "Inr x \<noteq> schema_fail m"
  by (simp_all add: schema_fail_def)

definition utf8_of :: "bool \<Rightarrow> pyval \<Rightarrow> bytes py" where
  "utf8_of forbid_nul value =
     (case value of
        PyStr s \<Rightarrow>
          if forbid_nul \<and> 0 \<in> set s then schema_fail ''must not contain NUL''
          else (case utf8_encode s of
                  None \<Rightarrow> schema_fail ''is not valid UTF-8''
                | Some encoded \<Rightarrow> Inr encoded)
      | _ \<Rightarrow> schema_fail ''must be a string'')"

definition validate_u64 :: "pyval \<Rightarrow> int py" where
  "validate_u64 value =
     (case value of
        PyInt n \<Rightarrow> if 0 \<le> n \<and> n \<le> U64_LIMIT then Inr n
                   else schema_fail ''must be an integer in [0,2^64-1] and not Boolean''
      | _ \<Rightarrow> schema_fail ''must be an integer in [0,2^64-1] and not Boolean'')"

definition validate_i64 :: "pyval \<Rightarrow> int py" where
  "validate_i64 value =
     (case value of
        PyInt n \<Rightarrow> if I64_MIN \<le> n \<and> n \<le> I64_MAX then Inr n
                   else schema_fail ''must be an integer in [-2^63,2^63-1] and not Boolean''
      | _ \<Rightarrow> schema_fail ''must be an integer in [-2^63,2^63-1] and not Boolean'')"

definition validate_f64 :: "pyval \<Rightarrow> f64 py" where
  "validate_f64 value =
     and_then
       (case value of
          PyInt n \<Rightarrow> (case f64_of_int n of
                        None \<Rightarrow> schema_fail ''is not representable as binary64''
                      | Some x \<Rightarrow> Inr x)
        | PyFloat x \<Rightarrow> Inr x
        | _ \<Rightarrow> schema_fail ''must be a JSON number and not Boolean'') (\<lambda>converted.
     if \<not> f64_finite converted then schema_fail ''must be finite binary64'' else Inr converted)"

definition u64_bytes :: "pyval \<Rightarrow> bytes py" where
  "u64_bytes value = and_then (validate_u64 value) (\<lambda>n. Inr (to_bytes 8 (nat n)))"

text \<open>Two's complement on eight bytes.\<close>

definition i64_bytes :: "pyval \<Rightarrow> bytes py" where
  "i64_bytes value = and_then (validate_i64 value) (\<lambda>n. Inr (to_bytes 8 (nat (n mod 2 ^ 64))))"

definition length_prefixed :: "bytes \<Rightarrow> bytes py" where
  "length_prefixed encoded =
     and_then (u64_bytes (PyInt (int (length encoded)))) (\<lambda>count. Inr (count @ encoded))"

definition length_prefixed_utf8 :: "bool \<Rightarrow> pyval \<Rightarrow> bytes py" where
  "length_prefixed_utf8 forbid_nul value = and_then (utf8_of forbid_nul value) length_prefixed"

definition schema_u64_add :: "pyval \<Rightarrow> pyval \<Rightarrow> int py" where
  "schema_u64_add left right =
     and_then (validate_u64 left) (\<lambda>lhs. and_then (validate_u64 right) (\<lambda>rhs.
       if U64_LIMIT - rhs < lhs then schema_fail ''overflows u64'' else Inr (lhs + rhs)))"

definition schema_u64_multiply :: "pyval \<Rightarrow> pyval \<Rightarrow> int py" where
  "schema_u64_multiply left right =
     and_then (validate_u64 left) (\<lambda>lhs. and_then (validate_u64 right) (\<lambda>rhs.
       if lhs \<noteq> 0 \<and> U64_LIMIT div lhs < rhs then schema_fail ''overflows u64'' else Inr (lhs * rhs)))"

text \<open>
  Iteration over an argument annotated \<^verbatim>\<open>Iterable\<close>: lists and tuples give their items, a mapping
  its keys; strings and byte strings are refused first, every other value is not iterable.
\<close>

definition iterate_values :: "pyval \<Rightarrow> pyval list py" where
  "iterate_values values =
     (case values of
        PyStr _ \<Rightarrow> schema_fail ''must be an iterable of integers''
      | PyBytes _ \<Rightarrow> schema_fail ''must be an iterable of integers''
      | PyByteArray _ \<Rightarrow> schema_fail ''must be an iterable of integers''
      | PyList xs \<Rightarrow> Inr xs
      | PyTuple xs \<Rightarrow> Inr xs
      | PyDict d \<Rightarrow> Inr (map fst d)
      | _ \<Rightarrow> schema_fail ''must be iterable'')"

definition checked_u64_sum :: "pyval \<Rightarrow> int py" where
  "checked_u64_sum values =
     and_then (iterate_values values) (\<lambda>xs. foldM (\<lambda>total value. schema_u64_add (PyInt total) value) 0 xs)"

text \<open>
  The diagnostic ratio: both operands convert exactly, the quotient of the two floats is the
  rational quotient rounded once.
\<close>

definition exact_count_ratio :: "pyval \<Rightarrow> pyval \<Rightarrow> f64 py" where
  "exact_count_ratio numerator denominator =
     and_then (validate_u64 numerator) (\<lambda>num. and_then (validate_u64 denominator) (\<lambda>den.
     if den = 0 then schema_fail ''denominator must be nonzero''
     else if EXACT_BINARY64_INTEGER_MAX < num \<or> EXACT_BINARY64_INTEGER_MAX < den
     then schema_fail ''operand exceeds the exact binary64 integer range''
     else
     let ratio = word_of_nat (round_magnitude (nat num) (nat den)) :: f64 in
     if \<not> f64_finite ratio then schema_fail ''is not finite'' else Inr ratio))"

definition agreement_gate_999_per_1000 :: "pyval \<Rightarrow> pyval \<Rightarrow> bool py" where
  "agreement_gate_999_per_1000 numerator denominator =
     and_then (validate_u64 numerator) (\<lambda>num. and_then (validate_u64 denominator) (\<lambda>den.
       if den = 0 \<or> den < num then Inr False else Inr (999 * den \<le> 1000 * num)))"

section \<open>Decimal timestamps\<close>

definition int_base10 :: "pystr \<Rightarrow> int" where
  "int_base10 s = int (of_digits 10 (map (\<lambda>c. c - 48) s))"

text \<open>\<^verbatim>\<open>str.partition(".")\<close>.\<close>

definition partition_dot :: "pystr \<Rightarrow> pystr \<times> bool \<times> pystr" where
  "partition_dot s =
     (let w = takeWhile (\<lambda>c. c \<noteq> 46) s; r = dropWhile (\<lambda>c. c \<noteq> 46) s in (w, r \<noteq> [], tl r))"

text \<open>The pattern \<^verbatim>\<open>[0-9]+(?:\.[0-9]{1,9})?\<close> on the whole string.\<close>

definition decimal_seconds_pattern :: "pystr \<Rightarrow> bool" where
  "decimal_seconds_pattern s =
     (let (w, sep, f) = partition_dot s
      in w \<noteq> [] \<and> list_all is_digit w
         \<and> (sep \<longrightarrow> 1 \<le> length f \<and> length f \<le> 9 \<and> list_all is_digit f))"

definition ljust_zero :: "nat \<Rightarrow> pystr \<Rightarrow> pystr" where
  "ljust_zero k s = s @ replicate (k - length s) 48"

definition decimal_seconds_to_ns :: "pyval \<Rightarrow> int py" where
  "decimal_seconds_to_ns value =
     (case value of
        PyStr s \<Rightarrow>
          (if \<not> decimal_seconds_pattern s
           then schema_fail ''must be nonnegative decimal seconds with at most nine fractional digits''
           else
           let (whole_text, separator, fractional_text) = partition_dot s;
               whole = int_base10 whole_text;
               padded = ljust_zero 9 (if separator then fractional_text else []);
               fractional = int_base10 (if padded = [] then lit ''0'' else padded) in
           and_then (schema_u64_multiply (PyInt whole) (PyInt 1000000000)) (\<lambda>whole_ns.
             schema_u64_add (PyInt whole_ns) (PyInt fractional)))
      | _ \<Rightarrow> schema_fail ''must be nonnegative decimal seconds with at most nine fractional digits'')"

section \<open>Identifiers and paths\<close>

definition is_alnum :: "nat \<Rightarrow> bool" where
  "is_alnum c \<longleftrightarrow> is_digit c \<or> 65 \<le> c \<and> c \<le> 90 \<or> 97 \<le> c \<and> c \<le> 122"

text \<open>\<^verbatim>\<open>[A-Za-z0-9][A-Za-z0-9._-]{0,127}\<close>\<close>

definition safe_id_pattern :: "pystr \<Rightarrow> bool" where
  "safe_id_pattern s =
     (case s of [] \<Rightarrow> False
      | c # r \<Rightarrow> is_alnum c \<and> length r \<le> 127 \<and> list_all (\<lambda>c. is_alnum c \<or> c \<in> set (lit ''._-'')) r)"

definition validate_safe_id :: "pyval \<Rightarrow> pystr py" where
  "validate_safe_id value =
     (case value of
        PyStr s \<Rightarrow> if safe_id_pattern s then Inr s else schema_fail ''does not match the safe identifier pattern''
      | _ \<Rightarrow> schema_fail ''does not match the safe identifier pattern'')"

text \<open>\<^verbatim>\<open>PurePosixPath\<close>: empty and dot components disappear, the root is kept apart.\<close>

fun split_on :: "nat \<Rightarrow> pystr \<Rightarrow> pystr list" where
  "split_on sep [] = [[]]"
| "split_on sep (c # s) =
     (if c = sep then [] # split_on sep s
      else case split_on sep s of [] \<Rightarrow> [[c]] | p # ps \<Rightarrow> (c # p) # ps)"

definition join_with :: "nat \<Rightarrow> pystr list \<Rightarrow> pystr" where
  "join_with sep ps = (case ps of [] \<Rightarrow> [] | p # rest \<Rightarrow> p @ concat (map (\<lambda>q. sep # q) rest))"

definition posix_root :: "pystr \<Rightarrow> pystr" where
  "posix_root s =
     (case s of
        c # d # e # _ \<Rightarrow> if c = 47 then (if d = 47 \<and> e \<noteq> 47 then lit ''//'' else lit ''/'') else []
      | [c, d] \<Rightarrow> if c = 47 then (if d = 47 then lit ''//'' else lit ''/'') else []
      | [c] \<Rightarrow> if c = 47 then lit ''/'' else []
      | [] \<Rightarrow> [])"

definition posix_tail :: "pystr \<Rightarrow> pystr list" where
  "posix_tail s = filter (\<lambda>p. p \<noteq> [] \<and> p \<noteq> lit ''.'') (split_on 47 s)"

definition posix_str :: "pystr \<Rightarrow> pystr" where
  "posix_str s =
     (if posix_root s = [] \<and> posix_tail s = [] then lit ''.''
      else posix_root s @ join_with 47 (posix_tail s))"

definition validate_relpath :: "pyval \<Rightarrow> pystr py" where
  "validate_relpath value =
     and_then (utf8_of True value) (\<lambda>_.
     case value of
       PyStr s \<Rightarrow>
         (if s = [] \<or> 92 \<in> set s then schema_fail ''must be a nonempty POSIX relative path''
          else
          let parts = (if posix_root s = [] then [] else [posix_root s]) @ posix_tail s in
          if parts = [] \<or> posix_root s \<noteq> [] \<or> posix_str s \<noteq> s
          then schema_fail ''must be normalized and relative''
          else if list_ex (\<lambda>p. p = [] \<or> p = lit ''.'' \<or> p = lit ''..'') parts
          then schema_fail ''contains a forbidden path component''
          else Inr s)
     | _ \<Rightarrow> schema_fail ''must be a string'')"

definition validate_sha256 :: "pyval \<Rightarrow> pystr py" where
  "validate_sha256 value =
     (case value of
        PyStr s \<Rightarrow> if lower_hex_exactly 64 s then Inr s
                   else schema_fail ''must be 64 lowercase hexadecimal characters''
      | _ \<Rightarrow> schema_fail ''must be 64 lowercase hexadecimal characters'')"

definition exact_object_keys :: "pyval \<Rightarrow> pyval list \<Rightarrow> pyval py" where
  "exact_object_keys value expected =
     (case value of
        PyDict d \<Rightarrow>
          (if list_ex (\<lambda>k. case k of PyStr _ \<Rightarrow> False | _ \<Rightarrow> True) expected \<or> card (set expected) \<noteq> length expected
           then schema_fail ''expected keys must be unique strings''
           else if set (map fst d) \<noteq> set expected then schema_fail ''key inventory differs''
           else Inr value)
      | _ \<Rightarrow> schema_fail ''must be an object'')"

section \<open>JSON trees\<close>

text \<open>Duplicate keys of one JSON object are refused, in the order they are read.\<close>

definition object_without_duplicates :: "(pystr \<times> pyval) list \<Rightarrow> (pystr \<times> pyval) list py" where
  "object_without_duplicates pairs =
     foldM (\<lambda>result item.
       if fst item \<in> set (map fst result) then schema_fail ''duplicate JSON object key''
       else Inr (dict_put result (fst item) (snd item))) [] pairs"

fun validate_json_tree :: "pyval \<Rightarrow> unit py"
  and validate_json_list :: "pyval list \<Rightarrow> unit py"
  and validate_json_items :: "(pyval \<times> pyval) list \<Rightarrow> unit py" where
  "validate_json_tree PyNone = Inr ()"
| "validate_json_tree (PyBool _) = Inr ()"
| "validate_json_tree (PyInt _) = Inr ()"
| "validate_json_tree (PyFloat x) =
     (if \<not> f64_finite x then schema_fail ''contains a non-finite number'' else Inr ())"
| "validate_json_tree (PyStr s) = and_then (utf8_of False (PyStr s)) (\<lambda>_. Inr ())"
| "validate_json_tree (PyList xs) = validate_json_list xs"
| "validate_json_tree (PyDict d) = validate_json_items d"
| "validate_json_tree _ = schema_fail ''contains a non-JSON value''"
| "validate_json_list [] = Inr ()"
| "validate_json_list (x # xs) = and_then (validate_json_tree x) (\<lambda>_. validate_json_list xs)"
| "validate_json_items [] = Inr ()"
| "validate_json_items ((k, v) # d) =
     and_then (utf8_of False k) (\<lambda>_. and_then (validate_json_tree v) (\<lambda>_. validate_json_items d))"

section \<open>Digests of streams\<close>

text \<open>
  A stream is the list of values its successive \<^verbatim>\<open>read\<close> calls return before the final empty
  one; the digest is updated block by block.
\<close>

fun sha256_blocks :: "bytes \<Rightarrow> pyval list \<Rightarrow> pystr py" where
  "sha256_blocks digest [] = Inr (hexdigest (sha256 digest))"
| "sha256_blocks digest (block # rest) =
     (case block of
        PyBytes bs \<Rightarrow> if bs = [] then Inr (hexdigest (sha256 digest)) else sha256_blocks (digest @ bs) rest
      | _ \<Rightarrow> schema_fail ''SHA-256 stream read() must return bytes'')"

definition sha256_stream :: "pyval list \<Rightarrow> pyval \<Rightarrow> pystr py" where
  "sha256_stream reads chunk_size =
     (case chunk_size of
        PyInt n \<Rightarrow> if n \<le> 0 then schema_fail ''chunk_size must be a positive integer'' else sha256_blocks [] reads
      | _ \<Rightarrow> schema_fail ''chunk_size must be a positive integer'')"

section \<open>Manifests\<close>

definition SHA256SUMS :: pystr where
  "SHA256SUMS = lit ''SHA256SUMS''"

definition ascii_bytes :: "pystr \<Rightarrow> bytes" where
  "ascii_bytes s = map word_of_nat s"

definition manifest_record :: "pyval \<times> pyval \<Rightarrow> (bytes \<times> bytes) py" where
  "manifest_record entry =
     and_then (validate_relpath (fst entry)) (\<lambda>normalized.
     if normalized = SHA256SUMS then schema_fail ''SHA256SUMS must not list itself''
     else
     and_then (validate_sha256 (snd entry)) (\<lambda>digest_value.
     and_then (utf8_of True (PyStr normalized)) (\<lambda>encoded_path.
     if 10 \<in> set encoded_path \<or> 13 \<in> set encoded_path then schema_fail ''manifest path contains a newline''
     else Inr (encoded_path, ascii_bytes digest_value))))"

definition manifest_line :: "bytes \<times> bytes \<Rightarrow> bytes" where
  "manifest_line record_arg = snd record_arg @ [32, 32] @ fst record_arg @ [10]"

definition manifest_bytes :: "pyval \<Rightarrow> bytes py" where
  "manifest_bytes entries =
     (case entries of
        PyDict d \<Rightarrow> and_then (mapM manifest_record d) (\<lambda>records.
                      Inr (concat (map manifest_line (sort_key fst records))))
      | _ \<Rightarrow> schema_fail ''manifest entries must be a mapping'')"

text \<open>\<^verbatim>\<open>bytes.splitlines(keepends=True)\<close>: LF, CR and CR LF end a line.\<close>

fun splitlines_keep :: "bytes \<Rightarrow> bytes list" where
  "splitlines_keep [] = []"
| "splitlines_keep (b # r) =
     (if b = 10 then [b] # splitlines_keep r
      else if b = 13 then
        (case r of c # r' \<Rightarrow> if c = 10 then [b, c] # splitlines_keep r' else [b] # splitlines_keep r
         | [] \<Rightarrow> [[b]])
      else case splitlines_keep r of [] \<Rightarrow> [[b]] | l # ls \<Rightarrow> (b # l) # ls)"

text \<open>The line pattern \<^verbatim>\<open>([0-9a-f]{64})  ([^\r\n]+)\n\<close>: digest and path bytes.\<close>

definition match_manifest_line :: "bytes \<Rightarrow> (bytes \<times> bytes) option" where
  "match_manifest_line line =
     (let digest = take 64 line; rest = drop 64 line; path = butlast (drop 2 rest)
      in if length digest = 64 \<and> list_all (\<lambda>b. is_lower_hex (unat b)) digest \<and> take 2 rest = [32, 32]
            \<and> path \<noteq> [] \<and> 10 \<notin> set path \<and> 13 \<notin> set path \<and> last rest = 10
         then Some (digest, path) else None)"

definition parse_manifest_step ::
    "bytes option \<times> (pyval \<times> pyval) list \<Rightarrow> bytes \<Rightarrow> (bytes option \<times> (pyval \<times> pyval) list) py" where
  "parse_manifest_step state line =
     (case match_manifest_line line of
        None \<Rightarrow> schema_fail ''manifest line does not have the exact format''
      | Some (digest_bytes, path_bytes) \<Rightarrow>
          (case utf8_decode path_bytes of
             None \<Rightarrow> schema_fail ''manifest path is not UTF-8''
           | Some path \<Rightarrow>
               and_then (validate_relpath (PyStr path)) (\<lambda>_.
               if path = SHA256SUMS then schema_fail ''SHA256SUMS must not list itself''
               else if (case fst state of None \<Rightarrow> False | Some previous \<Rightarrow> path_bytes \<le> previous)
               then schema_fail ''manifest paths are duplicated or not strictly bytewise sorted''
               else Inr (Some path_bytes,
                         dict_put (snd state) (PyStr path) (PyStr (map unat digest_bytes))))))"

definition parse_manifest_bytes :: "pyval \<Rightarrow> pyval py" where
  "parse_manifest_bytes document =
     and_then
       (case document of
          PyBytes raw \<Rightarrow> Inr raw
        | PyByteArray raw \<Rightarrow> Inr raw
        | _ \<Rightarrow> schema_fail ''manifest document must be bytes or bytearray'') (\<lambda>raw.
     if raw \<noteq> [] \<and> last raw \<noteq> 10 then schema_fail ''nonempty manifest must end with LF''
     else
     and_then (foldM parse_manifest_step (None, []) (splitlines_keep raw)) (\<lambda>state.
     and_then (manifest_bytes (PyDict (snd state))) (\<lambda>canonical.
     if canonical \<noteq> raw then schema_fail ''manifest bytes are not canonical''
     else Inr (PyDict (snd state)))))"

section \<open>Accepted features\<close>

definition accepted_id_list :: "pyval \<Rightarrow> int list py" where
  "accepted_id_list feature_ids =
     and_then (iterate_values feature_ids) (\<lambda>xs.
     and_then (mapM validate_u64 xs) (\<lambda>values.
     if card (set values) \<noteq> length values then schema_fail ''feature IDs must be unique'' else Inr values))"

definition encode_ids :: "bytes \<Rightarrow> int list \<Rightarrow> bytes py" where
  "encode_ids domain values =
     and_then (u64_bytes (PyInt (int (length values)))) (\<lambda>count.
     and_then (mapM (\<lambda>v. u64_bytes (PyInt v)) values) (\<lambda>encoded.
       Inr (domain @ count @ concat encoded)))"

definition encode_accepted_set :: "pyval \<Rightarrow> bytes py" where
  "encode_accepted_set feature_ids =
     and_then (accepted_id_list feature_ids) (\<lambda>values. encode_ids ACCEPTED_SET_DOMAIN (sort values))"

definition encode_accepted_sequence :: "pyval \<Rightarrow> bytes py" where
  "encode_accepted_sequence feature_ids =
     and_then (accepted_id_list feature_ids) (\<lambda>values. encode_ids ACCEPTED_SEQUENCE_DOMAIN values)"

definition accepted_set_sha256 :: "pyval \<Rightarrow> pystr py" where
  "accepted_set_sha256 feature_ids =
     and_then (encode_accepted_set feature_ids) (\<lambda>b. Inr (hexdigest (sha256 b)))"

definition accepted_sequence_sha256 :: "pyval \<Rightarrow> pystr py" where
  "accepted_sequence_sha256 feature_ids =
     and_then (encode_accepted_sequence feature_ids) (\<lambda>b. Inr (hexdigest (sha256 b)))"

section \<open>Command environments\<close>

definition environment_record :: "pyval \<times> pyval \<Rightarrow> (bytes \<times> bytes) py" where
  "environment_record entry =
     and_then (utf8_of True (fst entry)) (\<lambda>name_bytes.
     if fst entry \<notin> PyStr ` set ALLOWED_COMMAND_ENVIRONMENT_NAMES
     then schema_fail ''environment name is not allowlisted''
     else
     and_then (utf8_of True (snd entry)) (\<lambda>value_bytes. Inr (name_bytes, value_bytes)))"

definition length_prefixed_pair :: "bytes \<times> bytes \<Rightarrow> bytes py" where
  "length_prefixed_pair p =
     and_then (length_prefixed (fst p)) (\<lambda>a. and_then (length_prefixed (snd p)) (\<lambda>b. Inr (a @ b)))"

definition encode_command_environment :: "pyval \<Rightarrow> bytes py" where
  "encode_command_environment variables =
     (case variables of
        PyDict d \<Rightarrow>
          and_then (mapM environment_record d) (\<lambda>encoded_records.
          let records = sort_key fst encoded_records in
          and_then (u64_bytes (PyInt (int (length records)))) (\<lambda>count.
          and_then (mapM length_prefixed_pair records) (\<lambda>payload.
            Inr (COMMAND_ENVIRONMENT_DOMAIN @ count @ concat payload))))
      | _ \<Rightarrow> schema_fail ''command environment must be a mapping'')"

definition command_environment_sha256 :: "pyval \<Rightarrow> pystr py" where
  "command_environment_sha256 variables =
     and_then (encode_command_environment variables) (\<lambda>b. Inr (hexdigest (sha256 b)))"

section \<open>Typed parameters\<close>

definition parameter_item :: "pyval \<times> pyval \<Rightarrow> (bytes \<times> pyval \<times> pyval) py" where
  "parameter_item entry = and_then (utf8_of True (fst entry)) (\<lambda>name_bytes. Inr (name_bytes, entry))"

definition sorted_parameter_items :: "(pyval \<times> pyval) list \<Rightarrow> (bytes \<times> pyval \<times> pyval) list py" where
  "sorted_parameter_items d = and_then (mapM parameter_item d) (\<lambda>items. Inr (sort_key fst items))"

lemma sorted_parameter_items_set:
  "sorted_parameter_items d = Inr items \<Longrightarrow> (nb, e) \<in> set items \<Longrightarrow> e \<in> set d"
proof -
  assume "sorted_parameter_items d = Inr items" "(nb, e) \<in> set items"
  then obtain xs where "mapM parameter_item d = Inr xs" "(nb, e) \<in> set xs"
    by (auto simp: sorted_parameter_items_def)
  then show ?thesis by (induction d arbitrary: xs) (auto simp: parameter_item_def)
qed

lemma size_item: "(k, v) \<in> set d \<Longrightarrow> size v < size (PyDict d)"
  by (induction d) auto

lemma size_elem: "v \<in> set xs \<Longrightarrow> size v < size (PyList xs)"
  by (induction xs) auto

function encode_parameter_value :: "pyval \<Rightarrow> bytes py" where
  "encode_parameter_value (PyBool b) = Inr (blit ''b'' @ [if b then 1 else 0])"
| "encode_parameter_value (PyInt n) = and_then (i64_bytes (PyInt n)) (\<lambda>b. Inr (blit ''i'' @ b))"
| "encode_parameter_value (PyFloat x) =
     and_then (validate_f64 (PyFloat x)) (\<lambda>finite. Inr (blit ''f'' @ to_bytes 8 (unat finite)))"
| "encode_parameter_value (PyStr s) =
     and_then (length_prefixed_utf8 True (PyStr s)) (\<lambda>b. Inr (blit ''s'' @ b))"
| "encode_parameter_value (PyList xs) =
     and_then (u64_bytes (PyInt (int (length xs)))) (\<lambda>count.
     and_then (mapM encode_parameter_value xs) (\<lambda>payload.
       Inr (blit ''l'' @ count @ concat payload)))"
| "encode_parameter_value (PyDict d) =
     and_then (sorted_parameter_items d) (\<lambda>items.
     and_then (u64_bytes (PyInt (int (length items)))) (\<lambda>count.
     and_then (mapM (\<lambda>item.
         and_then (length_prefixed (fst item)) (\<lambda>a.
         and_then (encode_parameter_value (snd (snd item))) (\<lambda>b. Inr (a @ b)))) items) (\<lambda>payload.
       Inr (blit ''m'' @ count @ concat payload))))"
| "encode_parameter_value PyNone = schema_fail ''must not be null''"
| "encode_parameter_value (PyBytes _) = schema_fail ''has forbidden type''"
| "encode_parameter_value (PyByteArray _) = schema_fail ''has forbidden type''"
| "encode_parameter_value (PyTuple _) = schema_fail ''has forbidden type''"
| "encode_parameter_value PyOther = schema_fail ''has forbidden type''"
  by pat_completeness auto
termination
  by (relation "measure size")
    (use size_item size_elem sorted_parameter_items_set in fastforce)+

text \<open>\<^verbatim>\<open>bytes.hex()\<close> of the eight big-endian bytes is the 16-digit pattern.\<close>

function typed_parameter_value :: "pyval \<Rightarrow> pyval py" where
  "typed_parameter_value (PyBool b) =
     Inr (PyDict [(PyStr (lit ''type''), PyStr (lit ''bool'')), (PyStr (lit ''value''), PyBool b)])"
| "typed_parameter_value (PyInt n) =
     and_then (validate_i64 (PyInt n)) (\<lambda>i.
       Inr (PyDict [(PyStr (lit ''type''), PyStr (lit ''int'')), (PyStr (lit ''value''), PyInt i)]))"
| "typed_parameter_value (PyFloat x) =
     and_then (validate_f64 (PyFloat x)) (\<lambda>finite.
       Inr (PyDict [(PyStr (lit ''type''), PyStr (lit ''double'')),
                    (PyStr (lit ''bits''), PyStr (hexdigest (to_bytes 8 (unat finite))))]))"
| "typed_parameter_value (PyStr s) =
     and_then (utf8_of True (PyStr s)) (\<lambda>_.
       Inr (PyDict [(PyStr (lit ''type''), PyStr (lit ''string'')), (PyStr (lit ''value''), PyStr s)]))"
| "typed_parameter_value (PyList xs) =
     and_then (mapM typed_parameter_value xs) (\<lambda>items.
       Inr (PyDict [(PyStr (lit ''type''), PyStr (lit ''list'')), (PyStr (lit ''value''), PyList items)]))"
| "typed_parameter_value (PyDict d) =
     and_then (sorted_parameter_items d) (\<lambda>items.
     and_then (mapM (\<lambda>item.
         and_then (typed_parameter_value (snd (snd item))) (\<lambda>t.
           Inr (PyDict [(PyStr (lit ''name''), fst (snd item)), (PyStr (lit ''value''), t)]))) items) (\<lambda>entries.
       Inr (PyDict [(PyStr (lit ''type''), PyStr (lit ''map'')), (PyStr (lit ''value''), PyList entries)])))"
| "typed_parameter_value PyNone = schema_fail ''must not be null''"
| "typed_parameter_value (PyBytes _) = schema_fail ''has forbidden type''"
| "typed_parameter_value (PyByteArray _) = schema_fail ''has forbidden type''"
| "typed_parameter_value (PyTuple _) = schema_fail ''has forbidden type''"
| "typed_parameter_value PyOther = schema_fail ''has forbidden type''"
  by pat_completeness auto
termination
  by (relation "measure size")
    (use size_item size_elem sorted_parameter_items_set in fastforce)+

definition starts_with :: "pystr \<Rightarrow> pystr \<Rightarrow> bool" where
  "starts_with p s \<longleftrightarrow> take (length p) s = p"

definition resolved_name_check :: "pyval \<Rightarrow> unit py" where
  "resolved_name_check name =
     and_then (utf8_of True name) (\<lambda>_.
     case name of
       PyStr s \<Rightarrow>
         if \<not> starts_with RESOLVED_PARAMETER_PREFIX s \<or> length s = length RESOLVED_PARAMETER_PREFIX
         then schema_fail ''resolved parameter name must be a leaf below /cp2_vio/'' else Inr ()
     | _ \<Rightarrow> schema_fail ''must be a string'')"

definition validate_resolved_parameter_map :: "pyval \<Rightarrow> pyval py" where
  "validate_resolved_parameter_map parameters =
     (case parameters of
        PyDict d \<Rightarrow> and_then (mapM resolved_name_check (map fst d)) (\<lambda>_. Inr parameters)
      | _ \<Rightarrow> schema_fail ''resolved parameters must be a top-level map'')"

definition encode_resolved_parameters :: "pyval \<Rightarrow> bytes py" where
  "encode_resolved_parameters parameters =
     and_then (validate_resolved_parameter_map parameters) (\<lambda>validated.
     and_then (encode_parameter_value validated) (\<lambda>b. Inr (RESOLVED_PARAMETERS_DOMAIN @ b)))"

definition typed_resolved_parameters :: "pyval \<Rightarrow> pyval py" where
  "typed_resolved_parameters parameters =
     and_then (validate_resolved_parameter_map parameters) typed_parameter_value"

definition resolved_parameters_sha256 :: "pyval \<Rightarrow> pystr py" where
  "resolved_parameters_sha256 parameters =
     and_then (encode_resolved_parameters parameters) (\<lambda>b. Inr (hexdigest (sha256 b)))"

end
