(* ===== verification/Timing_Publication.thy ===== *)
theory Timing_Publication
  imports Cp2_Schema
begin

text \<open>
  Failure-atomic publication, \<^verbatim>\<open>src/scripts/cp2/cp2_timing_publication.py\<close>. The file system is an
  inode table with a cached and a durable image; a descriptor is the inode it holds open. Reads are
  functions of the world, operations that change it are state transformers that may raise, and a
  raised exception keeps the changes made before it. The seams of the publication (rename, fsync,
  boundary hook, validator) are arguments that may change the world in any way, so every interference
  at a seam is covered. Between two seams the module runs alone. Recursion over directories stops at
  the interpreter's recursion limit, the depth argument.
\<close>

section \<open>The file system\<close>

type_synonym inode = "nat \<times> nat"

datatype node_kind = KDir | KReg | KOther

record node =
  n_kind :: node_kind
  n_uid :: nat
  n_mode :: nat
  n_nlink :: nat
  n_entries :: "(pystr \<times> inode) list"
  n_data :: bytes

record world =
  w_fs :: "inode \<Rightarrow> node option"
  w_disk :: "inode \<Rightarrow> node option"
  w_abs :: "pystr \<Rightarrow> inode option"
  w_euid :: nat
  w_next :: inode

type_synonym 'a io = "world \<Rightarrow> 'a py \<times> world"

definition io_return :: "'a \<Rightarrow> 'a io" where
  "io_return x w = (Inr x, w)"

definition io_raise :: "exn \<Rightarrow> 'a io" where
  "io_raise e w = (Inl e, w)"

definition io_bind :: "'a io \<Rightarrow> ('a \<Rightarrow> 'b io) \<Rightarrow> 'b io" where
  "io_bind m f w = (case m w of (Inl e, w') \<Rightarrow> (Inl e, w') | (Inr x, w') \<Rightarrow> f x w')"

text \<open>A read: the world stays as it is.\<close>

definition io_read :: "(world \<Rightarrow> 'a py) \<Rightarrow> 'a io" where
  "io_read f w = (f w, w)"

definition io_try :: "'a io \<Rightarrow> (exn \<Rightarrow> 'a io) \<Rightarrow> 'a io" where
  "io_try m h w = (case m w of (Inl e, w') \<Rightarrow> h e w' | (Inr x, w') \<Rightarrow> (Inr x, w'))"

lemma io_simps [simp]:
  "io_return x w = (Inr x, w)" "io_raise e w = (Inl e, w)" "io_read f w = (f w, w)"
  by (simp_all add: io_return_def io_raise_def io_read_def)

definition publication_fail :: "string \<Rightarrow> 'a py" where
  "publication_fail message = Inl (TimingPublicationError message)"

definition ENOENT :: nat where "ENOENT = 2"
definition EEXIST :: nat where "EEXIST = 17"
definition ENOTDIR :: nat where "ENOTDIR = 20"
definition EBADF :: nat where "EBADF = 9"
definition ENOTEMPTY :: nat where "ENOTEMPTY = 39"

definition fstat :: "inode \<Rightarrow> world \<Rightarrow> node py" where
  "fstat fd w = (case w_fs w fd of None \<Rightarrow> Inl (OSError EBADF) | Some n \<Rightarrow> Inr n)"

definition dir_lookup :: "inode \<Rightarrow> pystr \<Rightarrow> world \<Rightarrow> inode option" where
  "dir_lookup fd name w = (case w_fs w fd of None \<Rightarrow> None | Some n \<Rightarrow> map_of (n_entries n) name)"

text \<open>\<^verbatim>\<open>os.stat(name, dir_fd=fd, follow_symlinks=False)\<close> gives the inode with its node.\<close>

definition stat_at :: "inode \<Rightarrow> pystr \<Rightarrow> world \<Rightarrow> (inode \<times> node) option" where
  "stat_at fd name w =
     (case dir_lookup fd name w of
        None \<Rightarrow> None
      | Some i \<Rightarrow> map_option (\<lambda>n. (i, n)) (w_fs w i))"

definition os_stat :: "inode \<Rightarrow> pystr \<Rightarrow> world \<Rightarrow> (inode \<times> node) py" where
  "os_stat fd name w = (case stat_at fd name w of None \<Rightarrow> Inl (OSError ENOENT) | Some x \<Rightarrow> Inr x)"

definition open_directory_at :: "inode \<Rightarrow> pystr \<Rightarrow> world \<Rightarrow> inode py" where
  "open_directory_at fd name w =
     and_then (os_stat fd name w) (\<lambda>(i, n). if n_kind n \<noteq> KDir then Inl (OSError ENOTDIR) else Inr i)"

text \<open>Opening a regular member read-only with \<^verbatim>\<open>O_NOFOLLOW\<close>.\<close>

definition open_file_at :: "inode \<Rightarrow> pystr \<Rightarrow> world \<Rightarrow> inode py" where
  "open_file_at fd name w = and_then (os_stat fd name w) (\<lambda>(i, n). Inr i)"

definition update_node :: "inode \<Rightarrow> (node \<Rightarrow> node) \<Rightarrow> world \<Rightarrow> world" where
  "update_node fd f w = w\<lparr>w_fs := (w_fs w)(fd := map_option f (w_fs w fd))\<rparr>"

definition fchmod :: "inode \<Rightarrow> nat \<Rightarrow> unit io" where
  "fchmod fd mode w =
     (case w_fs w fd of
        None \<Rightarrow> (Inl (OSError EBADF), w)
      | Some n \<Rightarrow> (Inr (), update_node fd (\<lambda>n. n\<lparr>n_mode := mode\<rparr>) w))"

text \<open>\<^verbatim>\<open>os.fsync\<close> makes the current node durable.\<close>

definition os_fsync :: "inode \<Rightarrow> unit io" where
  "os_fsync fd w =
     (case w_fs w fd of
        None \<Rightarrow> (Inl (OSError EBADF), w)
      | Some n \<Rightarrow> (Inr (), w\<lparr>w_disk := (w_disk w)(fd \<mapsto> n)\<rparr>))"

text \<open>\<^verbatim>\<open>renameat2\<close> with \<^verbatim>\<open>RENAME_NOREPLACE\<close> inside one directory: the entry changes its name.\<close>

fun rename_entry :: "pystr \<Rightarrow> pystr \<Rightarrow> (pystr \<times> inode) list \<Rightarrow> (pystr \<times> inode) list" where
  "rename_entry old new [] = []"
| "rename_entry old new ((k, i) # es) = (if k = old then (new, i) # es else (k, i) # rename_entry old new es)"

definition renameat2_noreplace :: "inode \<Rightarrow> pystr \<Rightarrow> pystr \<Rightarrow> unit io" where
  "renameat2_noreplace parent_fd old_name new_name w =
     (if dir_lookup parent_fd old_name w = None then (Inl (OSError ENOENT), w)
      else if dir_lookup parent_fd new_name w \<noteq> None then (Inl (OSError EEXIST), w)
      else (Inr (), update_node parent_fd (\<lambda>n. n\<lparr>n_entries := rename_entry old_name new_name (n_entries n)\<rparr>) w))"

definition remove_entry :: "pystr \<Rightarrow> (pystr \<times> inode) list \<Rightarrow> (pystr \<times> inode) list" where
  "remove_entry name es = filter (\<lambda>e. fst e \<noteq> name) es"

definition os_unlink :: "inode \<Rightarrow> pystr \<Rightarrow> unit io" where
  "os_unlink fd name w =
     (case dir_lookup fd name w of
        None \<Rightarrow> (Inl (OSError ENOENT), w)
      | Some i \<Rightarrow>
          (Inr (), update_node i (\<lambda>n. n\<lparr>n_nlink := n_nlink n - 1\<rparr>)
             (update_node fd (\<lambda>n. n\<lparr>n_entries := remove_entry name (n_entries n)\<rparr>) w)))"

definition os_rmdir :: "inode \<Rightarrow> pystr \<Rightarrow> unit io" where
  "os_rmdir fd name w =
     (case stat_at fd name w of
        None \<Rightarrow> (Inl (OSError ENOENT), w)
      | Some (i, n) \<Rightarrow>
          if n_kind n \<noteq> KDir then (Inl (OSError ENOTDIR), w)
          else if n_entries n \<noteq> [] then (Inl (OSError ENOTEMPTY), w)
          else (Inr (), update_node fd (\<lambda>n. n\<lparr>n_entries := remove_entry name (n_entries n)\<rparr>) w))"

definition os_mkdir :: "inode \<Rightarrow> pystr \<Rightarrow> nat \<Rightarrow> unit io" where
  "os_mkdir fd name mode w =
     (if dir_lookup fd name w \<noteq> None then (Inl (OSError EEXIST), w)
      else
        let i = w_next w;
            fresh = \<lparr>n_kind = KDir, n_uid = w_euid w, n_mode = mode, n_nlink = 2, n_entries = [], n_data = []\<rparr>;
            w' = w\<lparr>w_fs := (w_fs w)(i \<mapsto> fresh), w_next := (fst i, Suc (snd i))\<rparr>
        in (Inr (), update_node fd (\<lambda>n. n\<lparr>n_entries := n_entries n @ [(name, i)]\<rparr>) w'))"

section \<open>Paths\<close>

definition SAFE_NAME :: "pystr \<Rightarrow> bool" where
  "SAFE_NAME s \<longleftrightarrow> 1 \<le> length s \<and> length s \<le> 255 \<and> list_all (\<lambda>c. is_alnum c \<or> c \<in> set (lit ''._-'')) s"

text \<open>\<^verbatim>\<open>os.path.normpath\<close>: dots disappear, double dots remove the component before them.\<close>

definition norm_step :: "bool \<Rightarrow> pystr list \<Rightarrow> pystr \<Rightarrow> pystr list" where
  "norm_step absolute comps c =
     (if c = [] \<or> c = lit ''.'' then comps
      else if c \<noteq> lit ''..'' \<or> \<not> absolute \<and> comps = [] \<or> comps \<noteq> [] \<and> last comps = lit ''..''
      then comps @ [c]
      else butlast comps)"

definition normpath :: "pystr \<Rightarrow> pystr" where
  "normpath s =
     (let root = posix_root s; comps = foldl (norm_step (root \<noteq> [])) [] (split_on 47 s);
          text = root @ join_with 47 comps
      in if text = [] then lit ''.'' else text)"

text \<open>A checked absolute path, as its text, its parent's text and its last component.\<close>

record norm_path =
  np_text :: pystr
  np_parent :: pystr
  np_name :: pystr

definition absolute_normal :: "pyval \<Rightarrow> norm_path py" where
  "absolute_normal value =
     (case value of
        PyStr text \<Rightarrow>
          (if text = [] \<or> 0 \<in> set text \<or> posix_root text = [] \<or> normpath text \<noteq> text \<or> text = lit ''/''
           then publication_fail ''is not normalized absolute non-root''
           else
           let name = (if posix_tail text = [] then [] else last (posix_tail text));
               parent = posix_root text @ join_with 47 (butlast (posix_tail text)) in
           if \<not> SAFE_NAME name \<or> name = lit ''.'' \<or> name = lit ''..''
           then publication_fail ''basename is unsafe''
           else Inr \<lparr>np_text = text, np_parent = parent, np_name = name\<rparr>)
      | _ \<Rightarrow> publication_fail ''is not a path'')"

definition open_parent :: "pystr \<Rightarrow> world \<Rightarrow> inode py" where
  "open_parent path w =
     (case w_abs w path of
        None \<Rightarrow> Inl (OSError ENOENT)
      | Some descriptor \<Rightarrow>
          and_then (fstat descriptor w) (\<lambda>status.
          if n_kind status \<noteq> KDir then Inl (OSError ENOTDIR)
          else if n_kind status \<noteq> KDir \<or> n_uid status \<noteq> w_euid w
          then publication_fail ''publication parent is not an effective-user-owned real directory''
          else if n_mode status div 16 mod 2 = 1 \<or> n_mode status div 2 mod 2 = 1
          then publication_fail ''publication parent is group/world writable''
          else Inr descriptor))"

definition revalidate_parent_path :: "pystr \<Rightarrow> inode \<Rightarrow> world \<Rightarrow> unit py" where
  "revalidate_parent_path parent held_fd w =
     and_then (open_parent parent w) (\<lambda>fresh.
       if fresh \<noteq> held_fd then publication_fail ''publication parent path no longer names the held directory''
       else Inr ())"

section \<open>Sealing and validating a tree\<close>

text \<open>The modes 292, 365 and 448 are octal 0444, 0555 and 0700.\<close>

primrec io_each :: "('a \<Rightarrow> unit io) \<Rightarrow> 'a list \<Rightarrow> unit io" where
  "io_each f [] = io_return ()"
| "io_each f (x # xs) = io_bind (f x) (\<lambda>_. io_each f xs)"

definition sorted_names :: "node \<Rightarrow> pystr list" where
  "sorted_names n = sort (map fst (n_entries n))"

definition unsafe_member_name :: "pystr \<Rightarrow> bool" where
  "unsafe_member_name name \<longleftrightarrow> \<not> SAFE_NAME name \<or> name = lit ''.'' \<or> name = lit ''..''"

definition seal_regular :: "inode \<Rightarrow> pystr \<Rightarrow> inode \<times> node \<Rightarrow> unit io" where
  "seal_regular directory_fd name before =
     (if n_nlink (snd before) \<noteq> 1 then io_read (\<lambda>_. publication_fail ''artifact contains a multiply linked regular file'')
      else
      io_bind (io_read (open_file_at directory_fd name)) (\<lambda>file_fd.
      io_bind (io_read (fstat file_fd)) (\<lambda>opened.
      if file_fd \<noteq> fst before \<or> n_kind opened \<noteq> KReg \<or> n_nlink opened \<noteq> 1
      then io_read (\<lambda>_. publication_fail ''artifact regular member changed while opening'')
      else
      io_bind (os_fsync file_fd) (\<lambda>_.
      io_bind (fchmod file_fd 292) (\<lambda>_.
        os_fsync file_fd)))))"

definition seal_member :: "(inode \<Rightarrow> unit io) \<Rightarrow> inode \<Rightarrow> pystr \<Rightarrow> unit io" where
  "seal_member walk directory_fd name =
     (if unsafe_member_name name then io_read (\<lambda>_. publication_fail ''artifact contains an unsafe path component'')
      else
      io_bind (io_read (os_stat directory_fd name)) (\<lambda>before.
      io_bind (io_read (\<lambda>w. Inr (w_euid w))) (\<lambda>euid.
      if n_uid (snd before) \<noteq> euid
      then io_read (\<lambda>_. publication_fail ''artifact member is not owned by the effective user'')
      else if n_kind (snd before) = KDir then
        io_bind (io_read (open_directory_at directory_fd name)) (\<lambda>child_fd.
        if child_fd \<noteq> fst before
        then io_read (\<lambda>_. publication_fail ''artifact directory member changed while opening'')
        else walk child_fd)
      else if n_kind (snd before) = KReg then seal_regular directory_fd name before
      else io_read (\<lambda>_. publication_fail ''artifact contains a symlink or nonregular member''))))"

primrec walk_and_seal :: "nat \<Rightarrow> inode \<Rightarrow> unit io" where
  "walk_and_seal 0 = (\<lambda>directory_fd. io_raise RecursionError)"
| "walk_and_seal (Suc depth) = (\<lambda>directory_fd.
     io_bind (io_read (fstat directory_fd)) (\<lambda>root_status.
     io_bind (io_read (\<lambda>w. Inr (w_euid w))) (\<lambda>euid.
     if n_kind root_status \<noteq> KDir \<or> n_uid root_status \<noteq> euid
     then io_read (\<lambda>_. publication_fail ''artifact directory is not an effective-user-owned directory'')
     else
     let names = sorted_names root_status in
     if 4096 < length names
     then io_read (\<lambda>_. publication_fail ''artifact directory entry count exceeds the publication bound'')
     else
     io_bind (io_each (seal_member (walk_and_seal depth) directory_fd) names) (\<lambda>_.
     io_bind (fchmod directory_fd 365) (\<lambda>_.
       os_fsync directory_fd)))))"

definition validate_sealed_member :: "(inode \<Rightarrow> world \<Rightarrow> unit py) \<Rightarrow> inode \<Rightarrow> pystr \<Rightarrow> world \<Rightarrow> unit py" where
  "validate_sealed_member walk directory_fd name w =
     (if unsafe_member_name name then publication_fail ''sealed artifact contains an unsafe path component''
      else
      and_then (os_stat directory_fd name w) (\<lambda>before.
      if n_uid (snd before) \<noteq> w_euid w then publication_fail ''sealed artifact member has the wrong owner''
      else if n_kind (snd before) = KDir then
        and_then (open_directory_at directory_fd name w) (\<lambda>child_fd.
        if child_fd \<noteq> fst before then publication_fail ''sealed artifact directory changed while opening''
        else walk child_fd w)
      else if n_kind (snd before) = KReg then
        (if n_nlink (snd before) \<noteq> 1 \<or> n_mode (snd before) \<noteq> 292
         then publication_fail ''sealed artifact regular member mode/link count differs''
         else
         and_then (open_file_at directory_fd name w) (\<lambda>file_fd.
         if file_fd \<noteq> fst before
         then publication_fail ''sealed artifact regular member changed while opening'' else Inr ()))
      else publication_fail ''sealed artifact contains a symlink or nonregular member''))"

primrec walk_and_validate_sealed :: "nat \<Rightarrow> inode \<Rightarrow> world \<Rightarrow> unit py" where
  "walk_and_validate_sealed 0 = (\<lambda>directory_fd w. Inl RecursionError)"
| "walk_and_validate_sealed (Suc depth) = (\<lambda>directory_fd w.
     and_then (fstat directory_fd w) (\<lambda>root_status.
     if n_kind root_status \<noteq> KDir \<or> n_uid root_status \<noteq> w_euid w \<or> n_mode root_status \<noteq> 365
     then publication_fail ''artifact directory is not sealed 0555''
     else
     let names = sorted_names root_status in
     if 4096 < length names
     then publication_fail ''artifact directory entry count exceeds the publication bound''
     else
     and_then (mapM (\<lambda>name. validate_sealed_member (walk_and_validate_sealed depth) directory_fd name w) names)
       (\<lambda>_. Inr ())))"

definition seal_artifact_directory :: "nat \<Rightarrow> pyval \<Rightarrow> inode io" where
  "seal_artifact_directory depth path =
     io_bind (io_read (\<lambda>_. absolute_normal path)) (\<lambda>staging.
     io_bind (io_read (open_parent (np_parent staging))) (\<lambda>parent_fd.
     io_bind (io_read (revalidate_parent_path (np_parent staging) parent_fd)) (\<lambda>_.
     io_bind (io_read (open_directory_at parent_fd (np_name staging))) (\<lambda>root_fd.
     io_bind (io_read (os_stat parent_fd (np_name staging))) (\<lambda>by_name.
     if root_fd \<noteq> fst by_name
     then io_read (\<lambda>_. publication_fail ''artifact staging name differs from the held directory'')
     else
     io_bind (walk_and_seal depth root_fd) (\<lambda>_.
     io_bind (io_read (walk_and_validate_sealed depth root_fd)) (\<lambda>_.
     io_bind (io_read (os_stat parent_fd (np_name staging))) (\<lambda>rebound.
     if fst rebound \<noteq> root_fd
     then io_read (\<lambda>_. publication_fail ''artifact staging name changed during sealing'')
     else
     io_bind (os_fsync parent_fd) (\<lambda>_. io_return root_fd)))))))))"

section \<open>Staging\<close>

definition has_substring :: "pystr \<Rightarrow> pystr \<Rightarrow> bool" where
  "has_substring p s \<longleftrightarrow> list_ex (\<lambda>k. take (length p) (drop k s) = p) [0..<Suc (length s)]"

definition create_staging_directory :: "pyval \<Rightarrow> inode io" where
  "create_staging_directory path =
     io_bind (io_read (\<lambda>_. absolute_normal path)) (\<lambda>staging.
     if \<not> starts_with (lit ''.'') (np_name staging) \<or> \<not> has_substring (lit ''.partial.'') (np_name staging)
     then io_read (\<lambda>_. publication_fail ''artifact staging basename is not a hidden partial name'')
     else
     io_bind (io_read (open_parent (np_parent staging))) (\<lambda>parent_fd.
     io_bind (io_read (revalidate_parent_path (np_parent staging) parent_fd)) (\<lambda>_.
     io_bind (io_read (\<lambda>w. Inr (stat_at parent_fd (np_name staging) w))) (\<lambda>present.
     if present \<noteq> None then io_read (\<lambda>_. publication_fail ''artifact staging path already exists'')
     else
     io_bind (os_mkdir parent_fd (np_name staging) 448) (\<lambda>_.
     io_bind (io_read (open_directory_at parent_fd (np_name staging))) (\<lambda>root_fd.
     io_bind (io_read (fstat root_fd)) (\<lambda>held.
     io_bind (io_read (os_stat parent_fd (np_name staging))) (\<lambda>named.
     io_bind (io_read (\<lambda>w. Inr (w_euid w))) (\<lambda>euid.
     if root_fd \<noteq> fst named \<or> n_uid held \<noteq> euid \<or> n_mode held \<noteq> 448
     then io_read (\<lambda>_. publication_fail ''artifact staging creation identity or mode differs'')
     else
     io_bind (os_fsync parent_fd) (\<lambda>_. io_return root_fd))))))))))"

section \<open>Publication\<close>

datatype location = LPartial | LFinal | LCollision | LFinalWithObstruction | LIrreconcilable

definition held_location :: "inode \<Rightarrow> pystr \<Rightarrow> pystr \<Rightarrow> inode \<Rightarrow> world \<Rightarrow> location" where
  "held_location parent_fd partial_name final_name held_identity w =
     (let partial = map_option fst (stat_at parent_fd partial_name w);
          final = map_option fst (stat_at parent_fd final_name w);
          partial_exact = (partial = Some held_identity); final_exact = (final = Some held_identity) in
      if partial_exact \<and> final = None then LPartial
      else if final_exact \<and> partial = None then LFinal
      else if partial_exact \<and> final \<noteq> None \<and> \<not> final_exact then LCollision
      else if final_exact \<and> partial \<noteq> None \<and> \<not> partial_exact then LFinalWithObstruction
      else LIrreconcilable)"

text \<open>The arguments of a publication that are code of the caller.\<close>

record seams =
  rename_operation :: "inode \<Rightarrow> pystr \<Rightarrow> pystr \<Rightarrow> unit io"
  fsync_operation :: "inode \<Rightarrow> unit io"
  boundary_hook :: "string \<Rightarrow> unit io"
  published_validator :: "(pystr \<Rightarrow> unit io) option"
  expected_staging_identity :: "inode option"

definition production_seams :: seams where
  "production_seams = \<lparr>rename_operation = renameat2_noreplace, fsync_operation = os_fsync,
     boundary_hook = (\<lambda>_. io_return ()), published_validator = None, expected_staging_identity = None\<rparr>"

definition run_validator :: "seams \<Rightarrow> pystr \<Rightarrow> unit io" where
  "run_validator env destination =
     (case published_validator env of None \<Rightarrow> io_return () | Some v \<Rightarrow> v destination)"

definition is_publication_error :: "exn \<Rightarrow> bool" where
  "is_publication_error e =
     (case e of TimingPublicationError _ \<Rightarrow> True | TimingPublicationCollision _ \<Rightarrow> True
      | TimingPublicationIndeterminate _ \<Rightarrow> True | _ \<Rightarrow> False)"

definition is_indeterminate :: "exn \<Rightarrow> bool" where
  "is_indeterminate e = (case e of TimingPublicationIndeterminate _ \<Rightarrow> True | _ \<Rightarrow> False)"

record published_artifact =
  pa_path :: pystr
  pa_identity :: inode

text \<open>Everything before the forward rename.\<close>

definition publish_prepare :: "nat \<Rightarrow> seams \<Rightarrow> norm_path \<Rightarrow> norm_path \<Rightarrow> inode \<Rightarrow> inode io" where
  "publish_prepare depth env staging destination parent_fd =
     io_bind (io_read (revalidate_parent_path (np_parent staging) parent_fd)) (\<lambda>_.
     io_bind (io_read (open_directory_at parent_fd (np_name staging))) (\<lambda>held.
     if expected_staging_identity env \<noteq> None \<and> expected_staging_identity env \<noteq> Some held
     then io_read (\<lambda>_. publication_fail ''staging inode differs from the caller-held assembly identity'')
     else
     io_bind (io_read (walk_and_validate_sealed depth held)) (\<lambda>_.
     io_bind (io_read (os_stat parent_fd (np_name staging))) (\<lambda>named.
     if fst named \<noteq> held
     then io_read (\<lambda>_. publication_fail ''staging name differs from the held sealed inode'')
     else
     io_bind (io_read (\<lambda>w. Inr (stat_at parent_fd (np_name destination) w))) (\<lambda>present.
     if present \<noteq> None then io_raise (TimingPublicationCollision ''artifact destination already exists'')
     else
     io_bind (boundary_hook env ''before_parent_fsync'') (\<lambda>_.
     io_bind (fsync_operation env parent_fd) (\<lambda>_.
     io_bind (boundary_hook env ''after_parent_fsync'') (\<lambda>_.
     io_bind (io_read (revalidate_parent_path (np_parent staging) parent_fd)) (\<lambda>_.
     io_bind (boundary_hook env ''before_forward_rename'') (\<lambda>_.
       io_return held))))))))))"

text \<open>
  One round of checks of the published name: the parent path, the binding of both names, the opened
  inode and its sealed tree, and on request the held tree once more.
\<close>

definition confirm_final ::
    "nat \<Rightarrow> norm_path \<Rightarrow> norm_path \<Rightarrow> inode \<Rightarrow> inode \<Rightarrow> bool \<Rightarrow> string \<Rightarrow> string \<Rightarrow> string \<Rightarrow> world \<Rightarrow> unit py" where
  "confirm_final depth staging destination parent_fd held also_held parent_msg name_msg inode_msg w =
     and_then
       (case revalidate_parent_path (np_parent staging) parent_fd w of
          Inl e \<Rightarrow> if is_publication_error e then Inl (TimingPublicationIndeterminate parent_msg) else Inl e
        | Inr u \<Rightarrow> Inr u) (\<lambda>_.
     if held_location parent_fd (np_name staging) (np_name destination) held w \<noteq> LFinal
     then Inl (TimingPublicationIndeterminate name_msg)
     else
     and_then (open_directory_at parent_fd (np_name destination) w) (\<lambda>final_fd.
     if final_fd \<noteq> held then Inl (TimingPublicationIndeterminate inode_msg)
     else
     and_then (walk_and_validate_sealed depth final_fd w) (\<lambda>_.
       if also_held then walk_and_validate_sealed depth held w else Inr ())))"

text \<open>The forward rename and what follows it.\<close>

definition publish_confirm ::
    "nat \<Rightarrow> seams \<Rightarrow> norm_path \<Rightarrow> norm_path \<Rightarrow> inode \<Rightarrow> inode \<Rightarrow> published_artifact io" where
  "publish_confirm depth env staging destination parent_fd held =
     io_bind (boundary_hook env ''after_forward_rename'') (\<lambda>_.
     io_bind (fsync_operation env parent_fd) (\<lambda>_.
     io_bind (boundary_hook env ''after_forward_fsync'') (\<lambda>_.
     io_bind (io_read (confirm_final depth staging destination parent_fd held True
        ''publication parent absolute path changed after rename''
        ''forward publication left an irreconcilable held-inode binding''
        ''published name differs from the held artifact inode'')) (\<lambda>_.
     io_bind (boundary_hook env ''after_final_identity_validation'') (\<lambda>_.
     io_bind (run_validator env (np_text destination)) (\<lambda>_.
     io_bind (io_read (confirm_final depth staging destination parent_fd held False
        ''publication parent absolute path changed during verification''
        ''published name changed during detached verification''
        ''published inode changed during detached verification'')) (\<lambda>_.
     io_bind (boundary_hook env ''after_published_validation'') (\<lambda>_.
     io_bind (io_read (confirm_final depth staging destination parent_fd held True
        ''publication parent absolute path changed at the final return boundary''
        ''published name changed at the final return boundary''
        ''published inode changed at the final return boundary'')) (\<lambda>_.
     io_bind (run_validator env (np_text destination)) (\<lambda>_.
     io_bind (io_read (confirm_final depth staging destination parent_fd held False
        ''publication parent path changed during final detached verification''
        ''published name changed during final detached verification''
        ''published inode changed during final detached verification'')) (\<lambda>_.
       io_return \<lparr>pa_path = np_text destination, pa_identity = held\<rparr>)))))))))))"

definition publish_forward ::
    "nat \<Rightarrow> seams \<Rightarrow> norm_path \<Rightarrow> norm_path \<Rightarrow> inode \<Rightarrow> inode \<Rightarrow> published_artifact io" where
  "publish_forward depth env staging destination parent_fd held =
     io_bind (rename_operation env parent_fd (np_name staging) (np_name destination)) (\<lambda>_.
       publish_confirm depth env staging destination parent_fd held)"

definition publish_rollback :: "seams \<Rightarrow> norm_path \<Rightarrow> norm_path \<Rightarrow> inode \<Rightarrow> unit io" where
  "publish_rollback env staging destination parent_fd =
     io_bind (boundary_hook env ''before_rollback_rename'') (\<lambda>_.
     io_bind (rename_operation env parent_fd (np_name destination) (np_name staging)) (\<lambda>_.
     io_bind (boundary_hook env ''after_rollback_rename'') (\<lambda>_.
     io_bind (fsync_operation env parent_fd) (\<lambda>_.
       boundary_hook env ''after_rollback_fsync''))))"

text \<open>The handler for every exception after the forward rename was attempted.\<close>

fun location_text :: "location \<Rightarrow> string" where
  "location_text LPartial = ''partial''"
| "location_text LFinal = ''final''"
| "location_text LCollision = ''collision''"
| "location_text LFinalWithObstruction = ''final_with_obstruction''"
| "location_text LIrreconcilable = ''irreconcilable''"

definition publish_handler ::
    "seams \<Rightarrow> norm_path \<Rightarrow> norm_path \<Rightarrow> inode \<Rightarrow> inode \<Rightarrow> exn \<Rightarrow> published_artifact io" where
  "publish_handler env staging destination parent_fd held original w =
     (case held_location parent_fd (np_name staging) (np_name destination) held w of
        LCollision \<Rightarrow>
          (if original = OSError EEXIST
           then (Inl (TimingPublicationCollision ''artifact destination already exists''), w)
           else (Inl original, w))
      | LPartial \<Rightarrow> (Inl original, w)
      | LFinal \<Rightarrow>
          (case publish_rollback env staging destination parent_fd w of
             (Inl rollback_error, w') \<Rightarrow>
               (let location_after = held_location parent_fd (np_name staging) (np_name destination) held w' in
                (Inl (TimingPublicationIndeterminate
                  (''publication rollback failed; exact durable state is indeterminate (observed '' @
                   location_text location_after @ '')'')), w'))
           | (Inr _, w') \<Rightarrow>
               if held_location parent_fd (np_name staging) (np_name destination) held w' \<noteq> LPartial
               then (Inl (TimingPublicationIndeterminate ''publication rollback did not restore the exact partial inode''), w')
               else (Inl original, w'))
      | _ \<Rightarrow> (Inl (TimingPublicationIndeterminate ''publication failure left an irreconcilable exact held inode''), w))"

definition publish_artifact_noreplace ::
    "nat \<Rightarrow> seams \<Rightarrow> pyval \<Rightarrow> pyval \<Rightarrow> published_artifact io" where
  "publish_artifact_noreplace depth env staging_path destination_path =
     io_bind (io_read (\<lambda>_. absolute_normal staging_path)) (\<lambda>staging.
     io_bind (io_read (\<lambda>_. absolute_normal destination_path)) (\<lambda>destination.
     if np_parent staging \<noteq> np_parent destination \<or> np_text staging = np_text destination
     then io_read (\<lambda>_. publication_fail ''publication paths are not distinct siblings'')
     else
     io_bind (io_read (open_parent (np_parent staging))) (\<lambda>parent_fd.
     io_bind (publish_prepare depth env staging destination parent_fd) (\<lambda>held.
       io_try (publish_forward depth env staging destination parent_fd held)
         (publish_handler env staging destination parent_fd held)))))"

section \<open>Cleanup\<close>

definition remove_regular :: "inode \<Rightarrow> pystr \<Rightarrow> inode \<times> node \<Rightarrow> unit io" where
  "remove_regular directory_fd name before =
     io_bind (io_read (open_file_at directory_fd name)) (\<lambda>file_fd.
     if file_fd \<noteq> fst before
     then io_read (\<lambda>_. publication_fail ''cleanup regular member changed while opening'')
     else
     io_bind (os_unlink directory_fd name) (\<lambda>_.
     io_bind (io_read (fstat file_fd)) (\<lambda>after.
     if n_nlink after \<noteq> 0
     then io_read (\<lambda>_. publication_fail ''cleanup unlink did not detach the held regular inode'')
     else io_return ())))"

definition remove_member :: "(inode \<Rightarrow> unit io) \<Rightarrow> inode \<Rightarrow> pystr \<Rightarrow> unit io" where
  "remove_member walk directory_fd name =
     io_bind (io_read (os_stat directory_fd name)) (\<lambda>before.
     io_bind (io_read (\<lambda>w. Inr (w_euid w))) (\<lambda>euid.
     if n_uid (snd before) \<noteq> euid then io_read (\<lambda>_. publication_fail ''cleanup member ownership is unsafe'')
     else if n_kind (snd before) = KDir then
       io_bind (io_read (open_directory_at directory_fd name)) (\<lambda>child_fd.
       if child_fd \<noteq> fst before
       then io_read (\<lambda>_. publication_fail ''cleanup directory member changed while opening'')
       else
       io_bind (walk child_fd) (\<lambda>_.
       io_bind (io_read (os_stat directory_fd name)) (\<lambda>rebound.
       if fst rebound \<noteq> fst before
       then io_read (\<lambda>_. publication_fail ''cleanup directory member was substituted'')
       else os_rmdir directory_fd name)))
     else if n_kind (snd before) = KReg \<and> n_nlink (snd before) = 1 then remove_regular directory_fd name before
     else io_read (\<lambda>_. publication_fail ''cleanup encountered an unsafe artifact member'')))"

primrec remove_tree :: "nat \<Rightarrow> inode \<Rightarrow> unit io" where
  "remove_tree 0 = (\<lambda>directory_fd. io_raise RecursionError)"
| "remove_tree (Suc depth) = (\<lambda>directory_fd.
     io_bind (io_read (fstat directory_fd)) (\<lambda>status.
     io_bind (io_read (\<lambda>w. Inr (w_euid w))) (\<lambda>euid.
     if n_kind status \<noteq> KDir \<or> n_uid status \<noteq> euid
     then io_read (\<lambda>_. publication_fail ''cleanup root identity is unsafe'')
     else
     io_bind (fchmod directory_fd 448) (\<lambda>_.
     io_bind (io_each (remove_member (remove_tree depth) directory_fd) (sorted_names status)) (\<lambda>_.
       os_fsync directory_fd)))))"

definition cleanup_unpublished_artifact :: "nat \<Rightarrow> pyval \<Rightarrow> inode \<Rightarrow> unit io" where
  "cleanup_unpublished_artifact depth staging_path expected_identity =
     io_bind (io_read (\<lambda>_. absolute_normal staging_path)) (\<lambda>staging.
     io_bind (io_read (open_parent (np_parent staging))) (\<lambda>parent_fd.
     io_bind (io_read (revalidate_parent_path (np_parent staging) parent_fd)) (\<lambda>_.
     io_bind (io_read (\<lambda>w. Inr (stat_at parent_fd (np_name staging) w))) (\<lambda>named.
     if map_option fst named \<noteq> Some expected_identity
     then io_read (\<lambda>_. publication_fail ''refusing to clean a missing or substituted artifact staging name'')
     else
     io_bind (io_read (open_directory_at parent_fd (np_name staging))) (\<lambda>root_fd.
     if root_fd \<noteq> expected_identity
     then io_read (\<lambda>_. publication_fail ''cleanup path differs from the held artifact inode'')
     else
     io_bind (remove_tree depth root_fd) (\<lambda>_.
     io_bind (io_read (os_stat parent_fd (np_name staging))) (\<lambda>rebound.
     if fst rebound \<noteq> expected_identity
     then io_read (\<lambda>_. publication_fail ''cleanup root was substituted before removal'')
     else
     io_bind (os_rmdir parent_fd (np_name staging)) (\<lambda>_.
     io_bind (io_read (\<lambda>w. Inr (stat_at parent_fd (np_name staging) w))) (\<lambda>survivor.
     if survivor \<noteq> None then io_read (\<lambda>_. publication_fail ''cleanup staging name survived removal'')
     else os_fsync parent_fd)))))))))"

end
