(* ===== verification/Timing_Publication_Correct.thy ===== *)
theory Timing_Publication_Correct
  imports Timing_Publication
begin

text \<open>
  Correctness of the publication: failure atomicity under arbitrary interference at the seams,
  restoration of the name space after a fault with the production operations, success and durability
  without faults, agreement of sealing and validation, and safety of the cleanup.
\<close>

section \<open>The exception and state monad\<close>

lemma io_bind_Inr:
  "io_bind m f w = (Inr x, w') \<longleftrightarrow> (\<exists>y w1. m w = (Inr y, w1) \<and> f y w1 = (Inr x, w'))"
  by (auto simp: io_bind_def split: prod.splits sum.splits)

lemma io_bind_Inl:
  "io_bind m f w = (Inl e, w') \<longleftrightarrow> m w = (Inl e, w') \<or> (\<exists>y w1. m w = (Inr y, w1) \<and> f y w1 = (Inl e, w'))"
  by (auto simp: io_bind_def split: prod.splits sum.splits)

lemma io_bind_step [simp]: "m w = (Inr y, w1) \<Longrightarrow> io_bind m f w = f y w1"
  by (simp add: io_bind_def)

lemma io_bind_fail [simp]: "m w = (Inl e, w1) \<Longrightarrow> io_bind m f w = (Inl e, w1)"
  by (simp add: io_bind_def)

lemma publication_fail_not_Inr [simp]: "publication_fail m \<noteq> Inr x"
  by (simp add: publication_fail_def)

section \<open>Failure atomicity\<close>

abbreviation bound :: "inode \<Rightarrow> pystr \<Rightarrow> world \<Rightarrow> inode option" where
  "bound parent name w \<equiv> map_option fst (stat_at parent name w)"

lemma held_location_simps:
  "held_location parent p f held w = LFinal \<longleftrightarrow> bound parent f w = Some held \<and> bound parent p w = None"
  "held_location parent p f held w = LPartial \<longleftrightarrow> bound parent p w = Some held \<and> bound parent f w = None"
  "held_location parent p f held w = LCollision \<longleftrightarrow>
     bound parent p w = Some held \<and> bound parent f w \<noteq> None \<and> bound parent f w \<noteq> Some held"
  by (auto simp: held_location_def Let_def)

lemma confirm_final_Inr:
  assumes "confirm_final depth s d parent held b m1 m2 m3 w = Inr ()"
  shows "held_location parent (np_name s) (np_name d) held w = LFinal" "walk_and_validate_sealed depth held w = Inr ()"
  using assms by (auto simp: confirm_final_def split: sum.splits if_splits)

lemma publish_forward_Inr:
  assumes "publish_forward depth env s d parent held w = (Inr a, w')"
  shows "a = \<lparr>pa_path = np_text d, pa_identity = held\<rparr>"
    "held_location parent (np_name s) (np_name d) held w' = LFinal" "walk_and_validate_sealed depth held w' = Inr ()"
proof -
  from assms obtain b m1 m2 m3 where "confirm_final depth s d parent held b m1 m2 m3 w' = Inr ()"
      and a: "a = \<lparr>pa_path = np_text d, pa_identity = held\<rparr>"
    unfolding publish_forward_def publish_confirm_def io_bind_Inr io_simps by (auto simp: unit_eq)
  then show "a = \<lparr>pa_path = np_text d, pa_identity = held\<rparr>"
    "held_location parent (np_name s) (np_name d) held w' = LFinal" "walk_and_validate_sealed depth held w' = Inr ()"
    using confirm_final_Inr by blast+
qed

lemma publish_handler_outcome:
  assumes "publish_handler env s d parent held original w = (r, w')"
  shows "\<exists>e. r = Inl e \<and> (is_indeterminate e \<or> held_location parent (np_name s) (np_name d) held w' \<in> {LPartial, LCollision})"
  using assms
  by (auto simp: publish_handler_def is_indeterminate_def split: location.splits prod.splits sum.splits if_splits)


section \<open>The production operations\<close>

lemma w_fs_update_node: "w_fs (update_node i f w) j = (if j = i then map_option f (w_fs w i) else w_fs w j)"
  by (simp add: update_node_def)

lemma update_node_fields [simp]:
  "w_abs (update_node i f w) = w_abs w" "w_euid (update_node i f w) = w_euid w" "w_disk (update_node i f w) = w_disk w"
  by (simp_all add: update_node_def)

lemma map_of_rename_entry:
  assumes "distinct (map fst es)" "old \<in> fst ` set es" "new \<notin> fst ` set es"
  shows "map_of (rename_entry old new es) = (map_of es)(old := None, new := map_of es old)"
  using assms
proof (induction es)
  case (Cons e es)
  obtain k i where e: "e = (k, i)" by (cases e)
  show ?case
  proof (cases "k = old")
    case True
    then have "map_of es old = None" using Cons.prems e by (simp add: map_of_eq_None_iff)
    then show ?thesis using True Cons.prems e by (auto simp: fun_eq_iff)
  next
    case False
    then show ?thesis using Cons e by (auto simp: fun_eq_iff)
  qed
qed simp

lemma rename_entry_back: "new \<notin> fst ` set es \<Longrightarrow> rename_entry new old (rename_entry old new es) = es"
  by (induction es) auto

lemma rename_entry_absent: "old \<notin> fst ` set es \<Longrightarrow> rename_entry old new es = es"
  by (induction es) auto

definition rename_world :: "inode \<Rightarrow> pystr \<Rightarrow> pystr \<Rightarrow> world \<Rightarrow> world" where
  "rename_world parent old new w = update_node parent (\<lambda>n. n\<lparr>n_entries := rename_entry old new (n_entries n)\<rparr>) w"

definition names_distinct :: "inode \<Rightarrow> world \<Rightarrow> bool" where
  "names_distinct parent w \<longleftrightarrow> (\<forall>n. w_fs w parent = Some n \<longrightarrow> distinct (map fst (n_entries n)))"

lemma dir_lookup_Some:
  "dir_lookup fd name w = Some i \<longleftrightarrow> (\<exists>n. w_fs w fd = Some n \<and> map_of (n_entries n) name = Some i)"
  by (auto simp: dir_lookup_def split: option.splits)

lemma dir_lookup_rename:
  assumes "names_distinct parent w" "dir_lookup parent old w = Some i" "dir_lookup parent new w = None" "old \<noteq> new"
  shows "dir_lookup parent name (rename_world parent old new w) =
     (if name = new then Some i else if name = old then None else dir_lookup parent name w)"
proof -
  obtain n where n: "w_fs w parent = Some n" "map_of (n_entries n) old = Some i"
    using assms(2) by (auto simp: dir_lookup_Some)
  have m: "map_of (n_entries n) new = None" using assms(3) n by (simp add: dir_lookup_def)
  have "old \<in> fst ` set (n_entries n)" "new \<notin> fst ` set (n_entries n)" "distinct (map fst (n_entries n))"
    using n m assms(1) by (auto simp: names_distinct_def map_of_eq_None_iff dest: map_of_SomeD intro: rev_image_eqI)
  then show ?thesis using assms(4) n
    by (simp add: dir_lookup_def rename_world_def w_fs_update_node map_of_rename_entry)
qed

lemma rename_world_back:
  assumes "dir_lookup parent new w = None"
  shows "rename_world parent new old (rename_world parent old new w) = w"
proof (cases "w_fs w parent")
  case None
  then have "(w_fs w)(parent := None) = w_fs w" by (auto simp: fun_eq_iff)
  then show ?thesis by (simp add: rename_world_def update_node_def None)
next
  case (Some n)
  then have "new \<notin> fst ` set (n_entries n)" using assms by (simp add: dir_lookup_def map_of_eq_None_iff)
  then have "(w_fs w)(parent := Some n) = w_fs w" "rename_entry new old (rename_entry old new (n_entries n)) = n_entries n"
    using Some by (auto simp: fun_eq_iff rename_entry_back)
  then show ?thesis by (simp add: rename_world_def update_node_def Some)
qed

text \<open>Publications with the production operations in which the hook may raise, but changes nothing.\<close>

definition fault_seams :: "(string \<Rightarrow> exn option) \<Rightarrow> seams" where
  "fault_seams fault = production_seams\<lparr>boundary_hook :=
     (\<lambda>name. case fault name of None \<Rightarrow> io_return () | Some e \<Rightarrow> io_raise e)\<rparr>"

definition same_fs :: "world \<Rightarrow> world \<Rightarrow> bool" where
  "same_fs w w' \<longleftrightarrow> w_fs w' = w_fs w \<and> w_abs w' = w_abs w \<and> w_euid w' = w_euid w"

lemma same_fs_refl [simp]: "same_fs w w"
  by (simp add: same_fs_def)

lemma same_fs_trans: "same_fs u v \<Longrightarrow> same_fs v w \<Longrightarrow> same_fs u w"
  by (simp add: same_fs_def)

lemma same_fs_dir_lookup: "same_fs w w' \<Longrightarrow> dir_lookup fd name w' = dir_lookup fd name w"
  by (simp add: dir_lookup_def same_fs_def)

lemma same_fs_stat_at: "same_fs w w' \<Longrightarrow> stat_at fd name w' = stat_at fd name w"
  by (cases "dir_lookup fd name w") (simp_all add: stat_at_def same_fs_dir_lookup, simp add: same_fs_def)

lemma same_fs_location: "same_fs w w' \<Longrightarrow> held_location p a b h w' = held_location p a b h w"
  by (simp add: held_location_def same_fs_stat_at)

lemma same_fs_fsync: "os_fsync fd w = (r, w') \<Longrightarrow> same_fs w w'"
  by (auto simp: os_fsync_def same_fs_def split: option.splits)

lemma fault_hook:
  "boundary_hook (fault_seams fault) name w =
     (case fault name of None \<Rightarrow> (Inr (), w) | Some e \<Rightarrow> (Inl e, w))"
  by (simp add: fault_seams_def split: option.splits)

lemma fault_seams_ops [simp]:
  "rename_operation (fault_seams fault) = renameat2_noreplace" "fsync_operation (fault_seams fault) = os_fsync"
  "published_validator (fault_seams fault) = None" "expected_staging_identity (fault_seams fault) = None"
  by (simp_all add: fault_seams_def production_seams_def)

text \<open>A program whose every step keeps the cached file system keeps it.\<close>

definition keeps_fs :: "'a io \<Rightarrow> bool" where
  "keeps_fs m \<longleftrightarrow> (\<forall>w r w'. m w = (r, w') \<longrightarrow> same_fs w w')"

lemma keeps_read [intro, simp]: "keeps_fs (io_read f)"
  by (simp add: keeps_fs_def)

lemma keeps_return [intro, simp]: "keeps_fs (io_return x)" "keeps_fs (io_raise e)"
  by (simp_all add: keeps_fs_def)

lemma keeps_fsync [intro, simp]: "keeps_fs (os_fsync fd)"
  using same_fs_fsync by (simp add: keeps_fs_def)

lemma keeps_hook [intro, simp]: "keeps_fs (boundary_hook (fault_seams fault) name)"
  by (simp add: keeps_fs_def fault_hook split: option.splits)

lemma keeps_bind [intro]: "keeps_fs m \<Longrightarrow> (\<And>x. keeps_fs (f x)) \<Longrightarrow> keeps_fs (io_bind m f)"
proof -
  assume m: "keeps_fs m" and f: "\<And>x. keeps_fs (f x)"
  have "same_fs w w'" if "io_bind m f w = (r, w')" for w r w'
  proof (cases r)
    case (Inl e)
    then consider "m w = (Inl e, w')" | y w1 where "m w = (Inr y, w1)" "f y w1 = (Inl e, w')"
      using \<open>io_bind m f w = (r, w')\<close> by (auto simp: io_bind_Inl)
    then show ?thesis by cases (use m f same_fs_trans in \<open>unfold keeps_fs_def, blast+\<close>)
  next
    case (Inr x)
    then obtain y w1 where "m w = (Inr y, w1)" "f y w1 = (Inr x, w')"
      using \<open>io_bind m f w = (r, w')\<close> by (auto simp: io_bind_Inr)
    then show ?thesis using m f same_fs_trans unfolding keeps_fs_def by blast
  qed
  then show ?thesis unfolding keeps_fs_def by blast
qed

lemma keeps_if [intro]: "keeps_fs a \<Longrightarrow> keeps_fs b \<Longrightarrow> keeps_fs (if c then a else b)"
  by simp

lemma keeps_validator [intro, simp]: "keeps_fs (run_validator (fault_seams fault) x)"
  by (simp add: run_validator_def)

lemma publish_prepare_keeps: "keeps_fs (publish_prepare depth (fault_seams fault) s d parent)"
  unfolding publish_prepare_def fault_seams_ops by (intro keeps_bind keeps_if keeps_read keeps_hook keeps_fsync keeps_return)

lemma publish_prepare_bound:
  assumes "publish_prepare depth (fault_seams fault) s d parent w = (Inr held, w1)"
  shows "bound parent (np_name s) w = Some held" "bound parent (np_name d) w = None" "same_fs w w1"
    "walk_and_validate_sealed depth held w = Inr ()" "revalidate_parent_path (np_parent s) parent w = Inr ()"
proof -
  show "same_fs w w1" using publish_prepare_keeps assms by (auto simp: keeps_fs_def)
  show "bound parent (np_name s) w = Some held" "bound parent (np_name d) w = None"
    "walk_and_validate_sealed depth held w = Inr ()" "revalidate_parent_path (np_parent s) parent w = Inr ()"
    using assms unfolding publish_prepare_def fault_seams_ops
    by (auto simp: io_bind_Inr os_stat_def simp del: not_None_eq split: option.splits if_splits)
qed

text \<open>What follows the forward rename keeps the file system.\<close>

lemma publish_confirm_keeps: "keeps_fs (publish_confirm depth (fault_seams fault) s d parent held)"
  unfolding publish_confirm_def fault_seams_ops
  by (intro keeps_bind keeps_if keeps_read keeps_hook keeps_fsync keeps_return keeps_validator)

lemma bound_dir_lookup: "bound parent name w = Some i \<Longrightarrow> dir_lookup parent name w = Some i"
  by (auto simp: stat_at_def split: option.splits)

text \<open>With every directory entry leading to an inode, a free name is free in the directory.\<close>

definition entries_live :: "world \<Rightarrow> bool" where
  "entries_live w \<longleftrightarrow> (\<forall>fd name i. dir_lookup fd name w = Some i \<longrightarrow> w_fs w i \<noteq> None)"

lemma bound_None_iff: "entries_live w \<Longrightarrow> bound parent name w = None \<longleftrightarrow> dir_lookup parent name w = None"
  by (cases "dir_lookup parent name w") (auto simp: stat_at_def entries_live_def simp del: split_paired_All)

lemma same_fs_rename: "same_fs u v \<Longrightarrow> same_fs (rename_world p a b u) (rename_world p a b v)"
  by (simp add: same_fs_def rename_world_def update_node_def)

lemma renameat2_ok:
  "dir_lookup p old w \<noteq> None \<Longrightarrow> dir_lookup p new w = None \<Longrightarrow>
   renameat2_noreplace p old new w = (Inr (), rename_world p old new w)"
  by (simp add: renameat2_noreplace_def rename_world_def)

lemma stat_at_rename:
  assumes "names_distinct parent w" "dir_lookup parent old w = Some i" "dir_lookup parent new w = None" "old \<noteq> new"
  shows "bound parent name (rename_world parent old new w) =
     (if name = new then bound parent old w else if name = old then None else bound parent name w)"
proof -
  have dom: "w_fs (rename_world parent old new w) j = None \<longleftrightarrow> w_fs w j = None" for j
    by (simp add: rename_world_def w_fs_update_node)
  show ?thesis
  proof (cases "dir_lookup parent name (rename_world parent old new w)")
    case None
    then show ?thesis using dir_lookup_rename [OF assms, of name] assms(2) by (auto simp: stat_at_def split: if_splits)
  next
    case (Some j)
    then show ?thesis using dir_lookup_rename [OF assms, of name] assms(2) dom [of j]
      by (cases "w_fs w j"; cases "w_fs (rename_world parent old new w) j") (auto simp: stat_at_def split: if_splits)
  qed
qed

text \<open>The state in which a publication renames: one name bound to the held inode, the other free.\<close>

definition renameable :: "inode \<Rightarrow> inode \<Rightarrow> pystr \<Rightarrow> pystr \<Rightarrow> world \<Rightarrow> bool" where
  "renameable parent held old new w \<longleftrightarrow> names_distinct parent w \<and> entries_live w \<and>
     bound parent old w = Some held \<and> bound parent new w = None"

lemma renameable_lookups:
  assumes "renameable parent held old new w"
  shows "names_distinct parent w" "dir_lookup parent old w = Some held" "dir_lookup parent new w = None" "old \<noteq> new"
proof -
  have r: "entries_live w" "bound parent old w = Some held" "bound parent new w = None"
    using assms unfolding renameable_def by blast+
  show "names_distinct parent w" using assms by (simp add: renameable_def)
  show lo: "dir_lookup parent old w = Some held" using bound_dir_lookup [OF r(2)] .
  show n: "dir_lookup parent new w = None" by (rule bound_None_iff [OF r(1), THEN iffD1, OF r(3)])
  show "old \<noteq> new" using lo n by auto
qed

lemma rename_forward:
  assumes "renameable parent held old new w" "same_fs w w1"
  shows "\<exists>w2. renameat2_noreplace parent old new w1 = (Inr (), w2) \<and> same_fs (rename_world parent old new w) w2"
proof -
  note l = renameable_lookups [OF assms(1)]
  have "dir_lookup parent old w1 \<noteq> None" "dir_lookup parent new w1 = None"
    using l(2,3) by (simp_all add: same_fs_dir_lookup [OF assms(2)])
  then show ?thesis using renameat2_ok same_fs_rename [OF assms(2)] by blast
qed

lemma rename_final:
  assumes "renameable parent held old new w" "same_fs (rename_world parent old new w) w2"
  shows "held_location parent old new held w2 = LFinal"
  using stat_at_rename [OF renameable_lookups [OF assms(1)]] renameable_lookups(4) [OF assms(1)] assms
  by (simp add: same_fs_location held_location_simps renameable_def)

lemma rename_backward:
  assumes "renameable parent held old new w" "same_fs (rename_world parent old new w) w2"
  shows "\<exists>w3. renameat2_noreplace parent new old w2 = (Inr (), w3) \<and> same_fs w w3"
proof -
  note l = renameable_lookups [OF assms(1)]
  have "dir_lookup parent new w2 = Some held" "dir_lookup parent old w2 = None"
    using dir_lookup_rename [OF l] l(4) by (simp_all add: same_fs_dir_lookup [OF assms(2)])
  then have "renameat2_noreplace parent new old w2 = (Inr (), rename_world parent new old w2)"
    by (intro renameat2_ok) simp_all
  moreover have "same_fs w (rename_world parent new old w2)"
    using same_fs_rename [OF assms(2), of parent new old] rename_world_back [OF l(3)] by simp
  ultimately show ?thesis by blast
qed

lemma same_fs_bound: "same_fs w w' \<Longrightarrow> bound p n w' = bound p n w"
  by (simp add: same_fs_stat_at)

lemma publish_rollback_restores:
  assumes r: "renameable parent held (np_name s) (np_name d) w" and w2: "same_fs (rename_world parent (np_name s) (np_name d) w) w2"
    and nf: "fault ''before_rollback_rename'' = None"
    and run: "publish_rollback (fault_seams fault) s d parent w2 = (q, w3)"
  shows "same_fs w w3"
proof -
  obtain w4 where w4: "renameat2_noreplace parent (np_name d) (np_name s) w2 = (Inr (), w4)" "same_fs w w4"
    using rename_backward [OF r w2] by blast
  let ?rest = "io_bind (boundary_hook (fault_seams fault) ''after_rollback_rename'') (\<lambda>_.
     io_bind (os_fsync parent) (\<lambda>_. boundary_hook (fault_seams fault) ''after_rollback_fsync''))"
  have "keeps_fs ?rest" by (intro keeps_bind keeps_hook keeps_fsync)
  moreover have "?rest w4 = (q, w3)"
    using run nf w4(1) by (simp add: publish_rollback_def fault_hook io_bind_step [of _ w2 "()" w2])
  ultimately show ?thesis using w4(2) same_fs_trans unfolding keeps_fs_def by blast
qed

lemma publish_fault_restores:
  assumes p: "open_parent (np_parent s) w = Inr parent" "names_distinct parent w" "entries_live w"
    and prep: "publish_prepare depth (fault_seams fault) s d parent w = (Inr held, w1)"
    and nf: "fault ''before_rollback_rename'' = None"
    and run: "io_try (publish_forward depth (fault_seams fault) s d parent held)
       (publish_handler (fault_seams fault) s d parent held) w1 = (Inl e, w')"
  shows "same_fs w w'"
proof -
  note b = publish_prepare_bound [OF prep]
  have r: "renameable parent held (np_name s) (np_name d) w" using p b(1,2) by (simp add: renameable_def)
  obtain w2 where w2: "renameat2_noreplace parent (np_name s) (np_name d) w1 = (Inr (), w2)"
    "same_fs (rename_world parent (np_name s) (np_name d) w) w2"
    using rename_forward [OF r b(3)] by blast
  obtain q w3 where c: "publish_confirm depth (fault_seams fault) s d parent held w2 = (q, w3)" by fastforce
  then have k: "same_fs (rename_world parent (np_name s) (np_name d) w) w3"
    using publish_confirm_keeps w2(2) same_fs_trans unfolding keeps_fs_def by blast
  have f: "publish_forward depth (fault_seams fault) s d parent held w1 = (q, w3)"
    using w2(1) c by (simp add: publish_forward_def)
  then obtain e' where q: "q = Inl e'" using run by (cases q) (simp_all add: io_try_def)
  obtain q' w4 where rb: "publish_rollback (fault_seams fault) s d parent w3 = (q', w4)" by fastforce
  have "same_fs w w4" by (rule publish_rollback_restores [OF r k nf rb])
  moreover have "w' = w4"
    using run f q rb rename_final [OF r k] by (auto simp: io_try_def publish_handler_def split: sum.splits if_splits)
  ultimately show ?thesis by simp
qed


section \<open>Publication without faults\<close>

lemma production_is_faultless: "production_seams = fault_seams (\<lambda>_. None)"
  by (simp add: fault_seams_def production_seams_def)

lemma if_publication_fail_eq [simp]:
  "(if c then publication_fail m else x) = Inr y \<longleftrightarrow> \<not> c \<and> x = Inr y"
  by simp

lemma mapM_unit_Inr: "mapM f xs = Inr us \<Longrightarrow> x \<in> set xs \<Longrightarrow> f x = Inr (() :: unit)"
  by (induction xs arbitrary: us) auto

lemma mapM_unit_ok: "(\<And>x. x \<in> set xs \<Longrightarrow> f x = Inr (() :: unit)) \<Longrightarrow> \<exists>us. mapM f xs = Inr us"
  using mapM_Inr [of xs f "\<lambda>_. ()"] by blast

text \<open>What the validation of one directory looks at.\<close>

lemma validate_sealed_Suc:
  "walk_and_validate_sealed (Suc depth) fd w = Inr () \<longleftrightarrow>
     (\<exists>n. w_fs w fd = Some n \<and> n_kind n = KDir \<and> n_uid n = w_euid w \<and> n_mode n = 365 \<and> length (n_entries n) \<le> 4096 \<and>
        (\<forall>name \<in> fst ` set (n_entries n). validate_sealed_member (walk_and_validate_sealed depth) fd name w = Inr ()))"
  (is "?L \<longleftrightarrow> ?R")
proof
  assume ?L
  then obtain n us where n: "w_fs w fd = Some n" "n_kind n = KDir" "n_uid n = w_euid w" "n_mode n = 365" "length (n_entries n) \<le> 4096"
    and us: "mapM (\<lambda>name. validate_sealed_member (walk_and_validate_sealed depth) fd name w) (sorted_names n) = Inr us"
    by (auto simp: fstat_def sorted_names_def Let_def not_less split: option.splits)
  have "\<forall>name \<in> fst ` set (n_entries n). validate_sealed_member (walk_and_validate_sealed depth) fd name w = Inr ()"
    using mapM_unit_Inr [OF us] by (simp add: sorted_names_def)
  then show ?R using n by blast
next
  assume ?R
  then obtain n where n: "w_fs w fd = Some n" "n_kind n = KDir" "n_uid n = w_euid w" "n_mode n = 365" "length (n_entries n) \<le> 4096"
    and m: "\<And>name. name \<in> set (sorted_names n) \<Longrightarrow> validate_sealed_member (walk_and_validate_sealed depth) fd name w = Inr ()"
    by (auto simp: sorted_names_def)
  then show ?L using mapM_unit_ok [of "sorted_names n", OF m] n by (auto simp: fstat_def sorted_names_def Let_def)
qed

lemma validate_sealed_member_Inr:
  "validate_sealed_member walk fd name w = Inr () \<longleftrightarrow>
     \<not> unsafe_member_name name \<and> (\<exists>i n. stat_at fd name w = Some (i, n) \<and> n_uid n = w_euid w \<and>
       (n_kind n = KDir \<and> walk i w = Inr () \<or> n_kind n = KReg \<and> n_nlink n = 1 \<and> n_mode n = 292))"
proof (cases "stat_at fd name w")
  case None
  then show ?thesis by (simp add: validate_sealed_member_def os_stat_def)
next
  case (Some p)
  then show ?thesis
    by (cases p; cases "n_kind (snd p)")
      (auto simp: validate_sealed_member_def os_stat_def open_directory_at_def open_file_at_def)
qed

text \<open>A sealed tree does not contain a directory of another mode, so renaming there keeps it valid.\<close>

lemma validate_rename:
  assumes "w_fs w parent = Some pn" "n_kind pn = KDir" "n_mode pn \<noteq> 365"
  shows "walk_and_validate_sealed depth fd w = Inr () \<Longrightarrow>
         walk_and_validate_sealed depth fd (rename_world parent a b w) = Inr ()"
proof (induction depth arbitrary: fd)
  case (Suc depth)
  let ?w = "rename_world parent a b w"
  obtain n where n: "w_fs w fd = Some n" "n_kind n = KDir" "n_uid n = w_euid w" "n_mode n = 365" "length (n_entries n) \<le> 4096"
    and m: "\<forall>name \<in> fst ` set (n_entries n). validate_sealed_member (walk_and_validate_sealed depth) fd name w = Inr ()"
    using Suc.prems unfolding validate_sealed_Suc by blast
  have ne: "fd \<noteq> parent" using n(1,4) assms by auto
  have same: "w_fs ?w j = w_fs w j" if "j \<noteq> parent" for j using that by (simp add: rename_world_def w_fs_update_node)
  have eu: "w_euid ?w = w_euid w" by (simp add: rename_world_def)
  have "validate_sealed_member (walk_and_validate_sealed depth) fd name ?w = Inr ()" if "name \<in> fst ` set (n_entries n)" for name
  proof -
    have vm: "validate_sealed_member (walk_and_validate_sealed depth) fd name w = Inr ()" using m that by blast
    obtain i k where ik: "\<not> unsafe_member_name name" "stat_at fd name w = Some (i, k)" "n_uid k = w_euid w"
        "n_kind k = KDir \<and> walk_and_validate_sealed depth i w = Inr () \<or> n_kind k = KReg \<and> n_nlink k = 1 \<and> n_mode k = 292"
      using vm [unfolded validate_sealed_member_Inr] by blast
    have fs: "w_fs w i = Some k" "dir_lookup fd name w = Some i"
      using ik(2) by (auto simp: stat_at_def split: option.splits)
    have "i \<noteq> parent"
    proof
      assume "i = parent"
      then have "k = pn" using fs(1) assms(1) by simp
      then have "walk_and_validate_sealed depth parent w = Inr ()" using ik(4) assms(2) \<open>i = parent\<close> by auto
      then show False using assms by (cases depth) (auto simp: validate_sealed_Suc simp del: walk_and_validate_sealed.simps(2))
    qed
    moreover have "dir_lookup fd name ?w = Some i" using fs(2) same [OF ne] by (simp add: dir_lookup_def)
    ultimately have "stat_at fd name ?w = Some (i, k)" using fs(1) same by (simp add: stat_at_def)
    then show ?thesis using ik(1,3,4) Suc.IH eu unfolding validate_sealed_member_Inr by metis
  qed
  then show ?case using n same [OF ne] eu unfolding validate_sealed_Suc by auto
qed simp

lemma same_fs_validate: "same_fs w w' \<Longrightarrow> walk_and_validate_sealed depth fd w' = walk_and_validate_sealed depth fd w"
proof (induction depth arbitrary: fd)
  case (Suc depth)
  have "validate_sealed_member (walk_and_validate_sealed depth) fd name w' = validate_sealed_member (walk_and_validate_sealed depth) fd name w" for name
  proof -
    have eqs: "os_stat fd name w' = os_stat fd name w" "open_directory_at fd name w' = open_directory_at fd name w"
      "open_file_at fd name w' = open_file_at fd name w" "w_euid w' = w_euid w"
      using same_fs_stat_at [OF Suc.prems] Suc.prems
      by (simp_all add: os_stat_def open_directory_at_def open_file_at_def) (simp add: same_fs_def)
    show ?thesis unfolding validate_sealed_member_def eqs Suc.IH [OF Suc.prems] by (rule refl)
  qed
  moreover have "w_fs w' = w_fs w" "w_euid w' = w_euid w" using Suc.prems by (simp_all add: same_fs_def)
  ultimately show ?case by (simp only: walk_and_validate_sealed.simps fstat_def)
qed simp

lemma same_fs_revalidate: "same_fs w w' \<Longrightarrow> revalidate_parent_path p fd w' = revalidate_parent_path p fd w"
proof -
  assume "same_fs w w'"
  then have "w_fs w' = w_fs w" "w_abs w' = w_abs w" "w_euid w' = w_euid w" by (simp_all add: same_fs_def)
  then show ?thesis by (simp only: revalidate_parent_path_def open_parent_def fstat_def)
qed

lemma open_parent_rename: "open_parent p (rename_world parent a b w) = open_parent p w"
proof (cases "w_abs w p")
  case None
  then show ?thesis by (simp add: open_parent_def rename_world_def)
next
  case (Some i)
  have ab: "w_abs (rename_world parent a b w) p = Some i" "w_euid (rename_world parent a b w) = w_euid w"
    using Some by (simp_all add: rename_world_def)
  show ?thesis
  proof (cases "w_fs w i")
    case None
    then have "w_fs (rename_world parent a b w) i = None" by (auto simp: rename_world_def w_fs_update_node)
    then show ?thesis using None Some ab by (simp add: open_parent_def fstat_def)
  next
    case (Some n)
    then obtain m where "w_fs (rename_world parent a b w) i = Some m" "n_kind m = n_kind n" "n_uid m = n_uid n" "n_mode m = n_mode n"
      by (cases "i = parent") (auto simp: rename_world_def w_fs_update_node)
    then show ?thesis using Some \<open>w_abs w p = Some i\<close> ab by (simp add: open_parent_def fstat_def)
  qed
qed

lemma confirm_final_ok:
  assumes "revalidate_parent_path (np_parent s) parent w = Inr ()"
    and "held_location parent (np_name s) (np_name d) held w = LFinal"
    and "w_fs w held = Some hn" "n_kind hn = KDir" "walk_and_validate_sealed depth held w = Inr ()"
  shows "confirm_final depth s d parent held b m1 m2 m3 w = Inr ()"
proof -
  have "stat_at parent (np_name d) w = Some (held, hn)"
    using assms(2,3) by (auto simp: held_location_simps stat_at_def split: option.splits)
  then show ?thesis using assms by (simp add: confirm_final_def open_directory_at_def os_stat_def)
qed

lemma faultless_hook [simp]: "boundary_hook (fault_seams (\<lambda>_. None)) name w = (Inr (), w)"
  by (simp add: fault_hook)

lemma faultless_validator [simp]: "run_validator (fault_seams (\<lambda>_. None)) x w = (Inr (), w)"
  by (simp add: run_validator_def)

lemma os_fsync_ok: "w_fs w fd = Some n \<Longrightarrow> os_fsync fd w = (Inr (), w\<lparr>w_disk := (w_disk w)(fd \<mapsto> n)\<rparr>)"
  by (simp add: os_fsync_def)

lemma same_fs_disk [simp]: "same_fs w (w\<lparr>w_disk := D\<rparr>)"
  by (simp add: same_fs_def)

lemma publish_prepare_ok:
  assumes "open_parent (np_parent s) w = Inr parent" "w_fs w parent = Some pn"
    and "bound parent (np_name s) w = Some held" "w_fs w held = Some hn" "n_kind hn = KDir"
    and "walk_and_validate_sealed depth held w = Inr ()" "bound parent (np_name d) w = None"
  shows "\<exists>w1. publish_prepare depth production_seams s d parent w = (Inr held, w1) \<and> same_fs w w1"
proof -
  let ?w1 = "w\<lparr>w_disk := (w_disk w)(parent \<mapsto> pn)\<rparr>"
  have st: "stat_at parent (np_name s) w = Some (held, hn)" "stat_at parent (np_name d) w = None"
    using assms(3,4,7) by (auto simp: stat_at_def split: option.splits)
  have rv: "revalidate_parent_path (np_parent s) parent w = Inr ()" using assms(1) by (simp add: revalidate_parent_path_def)
  then have rv1: "revalidate_parent_path (np_parent s) parent ?w1 = Inr ()" using same_fs_revalidate [OF same_fs_disk] by simp
  have "publish_prepare depth production_seams s d parent w = (Inr held, ?w1)"
    unfolding production_is_faultless publish_prepare_def fault_seams_ops
    using st assms(5,6) rv rv1 os_fsync_ok [OF assms(2)]
    by (simp add: open_directory_at_def os_stat_def)
  then show ?thesis using same_fs_disk by blast
qed

lemma publish_confirm_ok:
  assumes c: "\<And>w' b m1 m2 m3. same_fs w w' \<Longrightarrow> confirm_final depth s d parent held b m1 m2 m3 w' = Inr ()"
    and pn: "w_fs w parent = Some pn"
  shows "publish_confirm depth production_seams s d parent held w =
    (Inr \<lparr>pa_path = np_text d, pa_identity = held\<rparr>, w\<lparr>w_disk := (w_disk w)(parent \<mapsto> pn)\<rparr>)"
  using c [OF same_fs_disk] os_fsync_ok [OF pn]
  by (simp add: production_is_faultless publish_confirm_def)

text \<open>
  C26. Publication succeeds and is durable. A sealed staging directory whose name is bound in an
  acceptable parent, with a free destination name, is published: the result names the same inode, the
  destination is bound to it, the staging name is gone, and the parent's new entries are on disk.
\<close>

theorem publication_succeeds:
  assumes "absolute_normal sp = Inr s" "absolute_normal dp = Inr d"
    and "np_parent s = np_parent d" "np_text s \<noteq> np_text d"
    and "open_parent (np_parent s) w = Inr parent" "names_distinct parent w" "entries_live w"
    and "w_fs w parent = Some pn" "n_mode pn \<noteq> 365"
    and "bound parent (np_name s) w = Some held" "bound parent (np_name d) w = None"
    and "walk_and_validate_sealed depth held w = Inr ()"
  shows "\<exists>w'. publish_artifact_noreplace depth production_seams sp dp w = (Inr \<lparr>pa_path = np_text d, pa_identity = held\<rparr>, w') \<and>
    bound parent (np_name d) w' = Some held \<and> bound parent (np_name s) w' = None \<and> w_disk w' parent = w_fs w' parent"
proof -
  have kp: "n_kind pn = KDir"
    using assms(5,8) by (auto simp: open_parent_def fstat_def split: option.splits if_splits)
  obtain hn where hn: "w_fs w held = Some hn" "n_kind hn = KDir"
    using assms(12) by (cases depth) (auto simp: validate_sealed_Suc simp del: walk_and_validate_sealed.simps(2))
  obtain w1 where w1: "publish_prepare depth production_seams s d parent w = (Inr held, w1)" "same_fs w w1"
    using publish_prepare_ok [OF assms(5,8,10) hn assms(12,11)] by blast
  have r: "renameable parent held (np_name s) (np_name d) w" using assms(6,7,10,11) by (simp add: renameable_def)
  let ?v = "rename_world parent (np_name s) (np_name d) w"
  obtain w2 where w2: "renameat2_noreplace parent (np_name s) (np_name d) w1 = (Inr (), w2)" "same_fs ?v w2"
    using rename_forward [OF r w1(2)] by blast
  have ne: "held \<noteq> parent" using assms(8,9,12)
    by (cases depth) (auto simp: validate_sealed_Suc simp del: walk_and_validate_sealed.simps(2))
  have conf: "confirm_final depth s d parent held b m1 m2 m3 w3 = Inr ()" if "same_fs w2 w3" for b m1 m2 m3 w3
  proof -
    have k: "same_fs ?v w3" using same_fs_trans [OF w2(2) that] .
    have "revalidate_parent_path (np_parent s) parent ?v = Inr ()"
      using assms(5) by (simp add: revalidate_parent_path_def open_parent_rename)
    moreover have "walk_and_validate_sealed depth held ?v = Inr ()" by (rule validate_rename [OF assms(8) kp assms(9,12)])
    moreover have "w_fs ?v held = Some hn" using ne hn(1) by (simp add: rename_world_def w_fs_update_node)
    ultimately show ?thesis
      using rename_final [OF r k] k hn(2)
      by (intro confirm_final_ok) (simp_all add: same_fs_revalidate [OF k] same_fs_validate [OF k], simp add: same_fs_def)
  qed
  obtain qn where qn: "w_fs w2 parent = Some qn" using w2(2) assms(8)
    by (auto simp: same_fs_def rename_world_def w_fs_update_node)
  let ?w' = "w2\<lparr>w_disk := (w_disk w2)(parent \<mapsto> qn)\<rparr>"
  have ro: "rename_operation production_seams = renameat2_noreplace" by (simp add: production_seams_def)
  have "publish_forward depth production_seams s d parent held w1 = (Inr \<lparr>pa_path = np_text d, pa_identity = held\<rparr>, ?w')"
    using w2(1) publish_confirm_ok [OF conf qn] by (simp add: publish_forward_def ro)
  then have "publish_artifact_noreplace depth production_seams sp dp w = (Inr \<lparr>pa_path = np_text d, pa_identity = held\<rparr>, ?w')"
    using assms(1-5) w1(1) by (simp add: publish_artifact_noreplace_def io_try_def)
  moreover have "held_location parent (np_name s) (np_name d) held ?w' = LFinal"
    using same_fs_trans [OF w2(2) same_fs_disk] by (rule rename_final [OF r])
  ultimately show ?thesis using qn by (simp add: held_location_simps)
qed

section \<open>Sealing\<close>

text \<open>Sealing only changes modes, and never the mode of a node that is already sealed.\<close>

definition sealed_node :: "node \<Rightarrow> bool" where
  "sealed_node n \<longleftrightarrow> n_kind n = KDir \<and> n_mode n = 365 \<or> n_kind n = KReg \<and> n_mode n = 292"

definition node_sealing :: "node option \<Rightarrow> node option \<Rightarrow> bool" where
  "node_sealing a b = (case (a, b) of
     (None, None) \<Rightarrow> True
   | (Some n, Some m) \<Rightarrow> n_kind m = n_kind n \<and> n_uid m = n_uid n \<and> n_nlink m = n_nlink n \<and>
       n_entries m = n_entries n \<and> n_data m = n_data n \<and> (sealed_node n \<longrightarrow> n_mode m = n_mode n)
   | _ \<Rightarrow> False)"

definition seals :: "world \<Rightarrow> world \<Rightarrow> bool" where
  "seals w w' \<longleftrightarrow> w_euid w' = w_euid w \<and> (\<forall>i. node_sealing (w_fs w i) (w_fs w' i))"

lemma node_sealing_refl [simp]: "node_sealing a a"
  by (cases a) (simp_all add: node_sealing_def)

lemma node_sealing_trans: "node_sealing a b \<Longrightarrow> node_sealing b c \<Longrightarrow> node_sealing a c"
  by (cases a; cases b; cases c) (auto simp: node_sealing_def sealed_node_def)

lemma seals_refl [simp]: "seals w w"
  by (simp add: seals_def)

lemma seals_trans: "seals u v \<Longrightarrow> seals v w \<Longrightarrow> seals u w"
  unfolding seals_def using node_sealing_trans by metis

lemma seals_node:
  assumes "seals w w'" "w_fs w i = Some n"
  obtains m where "w_fs w' i = Some m" "n_kind m = n_kind n" "n_uid m = n_uid n" "n_nlink m = n_nlink n"
    "n_entries m = n_entries n" "sealed_node n \<Longrightarrow> m = n"
proof -
  have "node_sealing (Some n) (w_fs w' i)" using assms by (metis seals_def)
  then obtain m where m: "w_fs w' i = Some m" "n_kind m = n_kind n" "n_uid m = n_uid n" "n_nlink m = n_nlink n"
      "n_entries m = n_entries n" "n_data m = n_data n" "sealed_node n \<longrightarrow> n_mode m = n_mode n"
    by (auto simp: node_sealing_def split: option.splits)
  have "m = n" if "sealed_node n" using that m by (intro node.equality) simp_all
  then show thesis using that m by blast
qed

lemma seals_stat_at:
  assumes "seals w w'" "stat_at fd name w = Some (i, n)"
  obtains m where "stat_at fd name w' = Some (i, m)" "n_kind m = n_kind n" "n_uid m = n_uid n" "n_nlink m = n_nlink n" "sealed_node n \<Longrightarrow> m = n"
proof -
  obtain dn where dn: "w_fs w fd = Some dn" "map_of (n_entries dn) name = Some i" and n: "w_fs w i = Some n"
    using assms(2) by (auto simp: stat_at_def dir_lookup_Some split: option.splits)
  obtain dm where "w_fs w' fd = Some dm" "n_entries dm = n_entries dn" using seals_node [OF assms(1) dn(1)] by blast
  moreover obtain m where "w_fs w' i = Some m" "n_kind m = n_kind n" "n_uid m = n_uid n" "n_nlink m = n_nlink n" "sealed_node n \<Longrightarrow> m = n"
    using seals_node [OF assms(1) n] by metis
  ultimately show thesis using that dn(2) by (simp add: stat_at_def dir_lookup_def)
qed

lemma seals_member:
  assumes "seals w w'" "\<And>i. walk i w = Inr () \<Longrightarrow> walk' i w' = Inr ()"
    and "validate_sealed_member walk fd name w = Inr ()"
  shows "validate_sealed_member walk' fd name w' = Inr ()"
proof -
  obtain i n where v: "\<not> unsafe_member_name name" "stat_at fd name w = Some (i, n)" "n_uid n = w_euid w"
    "n_kind n = KDir \<and> walk i w = Inr () \<or> n_kind n = KReg \<and> n_nlink n = 1 \<and> n_mode n = 292"
    using assms(3) [unfolded validate_sealed_member_Inr] by blast
  obtain m where m: "stat_at fd name w' = Some (i, m)" "n_kind m = n_kind n" "n_uid m = n_uid n" "n_nlink m = n_nlink n" "sealed_node n \<Longrightarrow> m = n"
    using seals_stat_at [OF assms(1) v(2)] by metis
  have "w_euid w' = w_euid w" using assms(1) by (simp add: seals_def)
  moreover have "n_kind n = KReg \<and> n_mode n = 292 \<Longrightarrow> n_mode m = 292" using m(5) by (simp add: sealed_node_def)
  ultimately show ?thesis unfolding validate_sealed_member_Inr using v m(1-4) assms(2) by metis
qed

lemma seals_validate:
  "seals w w' \<Longrightarrow> walk_and_validate_sealed depth fd w = Inr () \<Longrightarrow> walk_and_validate_sealed depth fd w' = Inr ()"
proof (induction depth arbitrary: fd)
  case (Suc depth)
  obtain n where n: "w_fs w fd = Some n" "n_kind n = KDir" "n_uid n = w_euid w" "n_mode n = 365" "length (n_entries n) \<le> 4096"
    and m: "\<forall>name \<in> fst ` set (n_entries n). validate_sealed_member (walk_and_validate_sealed depth) fd name w = Inr ()"
    using Suc.prems(2) unfolding validate_sealed_Suc by blast
  have "w_fs w' fd = Some n" using seals_node [OF Suc.prems(1) n(1)] n(2,4) by (metis sealed_node_def)
  moreover have "validate_sealed_member (walk_and_validate_sealed depth) fd name w' = Inr ()" if "name \<in> fst ` set (n_entries n)" for name
  proof (rule seals_member [OF Suc.prems(1)])
    show "validate_sealed_member (walk_and_validate_sealed depth) fd name w = Inr ()" using m that by blast
  qed (rule Suc.IH [OF Suc.prems(1)])
  moreover have "w_euid w' = w_euid w" using Suc.prems(1) by (simp add: seals_def)
  ultimately show ?case using n(2-5) unfolding validate_sealed_Suc by auto
qed simp

lemma seals_fsync: "os_fsync fd w = (r, w') \<Longrightarrow> seals w w'"
  using same_fs_fsync [of fd w r w'] by (simp add: seals_def same_fs_def)

lemma seals_fchmod:
  assumes "fchmod fd mode w = (Inr (), w')" "w_fs w fd = Some n" "n_kind n = KDir \<and> mode = 365 \<or> n_kind n = KReg \<and> mode = 292"
  shows "seals w w'" "w_fs w' fd = Some (n\<lparr>n_mode := mode\<rparr>)"
proof -
  have w': "w' = update_node fd (\<lambda>n. n\<lparr>n_mode := mode\<rparr>) w" using assms(1,2) by (simp add: fchmod_def)
  show "w_fs w' fd = Some (n\<lparr>n_mode := mode\<rparr>)" using assms(2) by (simp add: w' w_fs_update_node)
  have "sealed_node n \<Longrightarrow> mode = n_mode n" using assms(3) by (auto simp: sealed_node_def)
  then have "node_sealing (w_fs w i) (w_fs w' i)" for i
    using assms(2) by (cases "i = fd") (auto simp: w' w_fs_update_node node_sealing_def)
  then show "seals w w'" by (simp add: seals_def w')
qed

lemma seal_regular_sound:
  assumes "seal_regular fd name (i, n) w = (Inr (), w')" "stat_at fd name w = Some (i, n)" "n_kind n = KReg" "n_uid n = w_euid w"
    and "\<not> unsafe_member_name name"
  shows "seals w w' \<and> validate_sealed_member walk fd name w' = Inr ()"
proof -
  have wi: "w_fs w i = Some n" using assms(2) by (auto simp: stat_at_def split: option.splits)
  have op: "open_file_at fd name w = Inr i" using assms(2) by (simp add: open_file_at_def os_stat_def)
  obtain w1 w2 where r: "os_fsync i w = (Inr (), w1)" "fchmod i 292 w1 = (Inr (), w2)" "os_fsync i w2 = (Inr (), w')" "n_nlink n = 1"
    using assms(1) by (auto simp: seal_regular_def io_bind_Inr op split: if_splits)
  have s1: "seals w w1" using seals_fsync [OF r(1)] .
  have "w_fs w1 i = Some n" using wi same_fs_fsync [OF r(1)] by (simp add: same_fs_def)
  note c = seals_fchmod [OF r(2) this, simplified assms(3), simplified]
  have s: "seals w w'" using seals_trans [OF seals_trans [OF s1 c(1)] seals_fsync [OF r(3)]] .
  have "w_fs w' i = Some (n\<lparr>n_mode := 292\<rparr>)" using c(2) same_fs_fsync [OF r(3)] by (simp add: same_fs_def)
  moreover obtain m where m: "stat_at fd name w' = Some (i, m)" using seals_stat_at [OF s assms(2)] by metis
  ultimately have "m = n\<lparr>n_mode := 292\<rparr>" by (auto simp: stat_at_def split: option.splits)
  then show ?thesis using s m assms(3-5) r(4) by (simp add: validate_sealed_member_Inr seals_def)
qed

lemma seal_member_sound:
  assumes "seal_member walk fd name w = (Inr (), w')"
    and ih: "\<And>i w w'. walk i w = (Inr (), w') \<Longrightarrow> seals w w' \<and> check i w' = Inr ()"
  shows "seals w w' \<and> validate_sealed_member check fd name w' = Inr ()"
proof -
  have safe: "\<not> unsafe_member_name name"
    using assms(1) by (auto simp: seal_member_def split: if_splits)
  obtain i n where st: "stat_at fd name w = Some (i, n)"
    using assms(1) safe by (auto simp: seal_member_def io_bind_Inr os_stat_def split: option.splits)
  have uid: "n_uid n = w_euid w" and kind: "n_kind n = KDir \<or> n_kind n = KReg"
    using assms(1) safe st by (auto simp: seal_member_def io_bind_Inr os_stat_def split: if_splits)
  show ?thesis
  proof (cases "n_kind n = KDir")
    case True
    then have "walk i w = (Inr (), w')"
      using assms(1) safe st uid by (auto simp: seal_member_def io_bind_Inr os_stat_def open_directory_at_def)
    then have s: "seals w w'" "check i w' = Inr ()" using ih by blast+
    obtain m where "stat_at fd name w' = Some (i, m)" "n_kind m = n_kind n" "n_uid m = n_uid n"
      using seals_stat_at [OF s(1) st] by metis
    then show ?thesis using s safe True uid by (auto simp: validate_sealed_member_Inr seals_def)
  next
    case False
    then have "seal_regular fd name (i, n) w = (Inr (), w')"
      using assms(1) safe st uid kind by (auto simp: seal_member_def io_bind_Inr os_stat_def)
    then show ?thesis using seal_regular_sound st kind False uid safe by blast
  qed
qed

lemma seal_each_sound:
  assumes "\<And>i w w'. walk i w = (Inr (), w') \<Longrightarrow> seals w w' \<and> walk_and_validate_sealed depth i w' = Inr ()"
  shows "io_each (seal_member walk fd) names w = (Inr (), w') \<Longrightarrow>
    seals w w' \<and> (\<forall>name \<in> set names. validate_sealed_member (walk_and_validate_sealed depth) fd name w' = Inr ())"
proof (induction names arbitrary: w)
  case (Cons name names)
  then obtain w1 where w1: "seal_member walk fd name w = (Inr (), w1)" "io_each (seal_member walk fd) names w1 = (Inr (), w')"
    by (auto simp: io_bind_Inr)
  have a: "seals w w1" "validate_sealed_member (walk_and_validate_sealed depth) fd name w1 = Inr ()"
    using seal_member_sound [where check = "walk_and_validate_sealed depth", OF w1(1)] assms by blast+
  have b: "seals w1 w'" "\<forall>name \<in> set names. validate_sealed_member (walk_and_validate_sealed depth) fd name w' = Inr ()"
    using Cons.IH [OF w1(2)] by blast+
  have "validate_sealed_member (walk_and_validate_sealed depth) fd name w' = Inr ()"
    using a(2) by (rule seals_member [OF b(1), rotated]) (rule seals_validate [OF b(1)])
  then show ?case using seals_trans [OF a(1) b(1)] b(2) by simp
qed simp

lemma walk_and_seal_sound:
  "walk_and_seal depth fd w = (Inr (), w') \<Longrightarrow>
   seals w w' \<and> walk_and_validate_sealed depth fd w' = Inr () \<and> w_disk w' fd = w_fs w' fd"
proof (induction depth arbitrary: fd w w')
  case (Suc depth)
  obtain n w1 w2 where n: "w_fs w fd = Some n" "n_kind n = KDir" "n_uid n = w_euid w" "length (n_entries n) \<le> 4096"
    and w1: "io_each (seal_member (walk_and_seal depth) fd) (sorted_names n) w = (Inr (), w1)"
    and w2: "fchmod fd 365 w1 = (Inr (), w2)" "os_fsync fd w2 = (Inr (), w')"
    using Suc.prems
    by (auto simp: io_bind_Inr fstat_def Let_def sorted_names_def split: option.splits if_splits)
  have e: "seals w w1" "\<forall>name \<in> set (sorted_names n). validate_sealed_member (walk_and_validate_sealed depth) fd name w1 = Inr ()"
    using seal_each_sound [OF _ w1] Suc.IH by blast+
  obtain m where m: "w_fs w1 fd = Some m" "n_kind m = n_kind n" "n_uid m = n_uid n" "n_entries m = n_entries n"
    using seals_node [OF e(1) n(1)] by metis
  note c = seals_fchmod [OF w2(1) m(1), simplified m n, simplified]
  have s: "seals w1 w'" using seals_trans [OF c(1) seals_fsync [OF w2(2)]] .
  have fd: "w_fs w' fd = Some (m\<lparr>n_mode := 365\<rparr>)" "w_disk w' fd = Some (m\<lparr>n_mode := 365\<rparr>)"
    using c(2) w2(2) by (auto simp: os_fsync_def)
  have "validate_sealed_member (walk_and_validate_sealed depth) fd name w' = Inr ()" if "name \<in> fst ` set (n_entries n)" for name
  proof (rule seals_member [OF s])
    show "validate_sealed_member (walk_and_validate_sealed depth) fd name w1 = Inr ()"
      using e(2) that by (auto simp: sorted_names_def)
  qed (rule seals_validate [OF s])
  moreover have "w_euid w' = w_euid w" using seals_trans [OF e(1) s] by (simp add: seals_def)
  ultimately have "walk_and_validate_sealed (Suc depth) fd w' = Inr ()"
    using fd(1) m n unfolding validate_sealed_Suc by auto
  then show ?case using seals_trans [OF e(1) s] fd by simp
qed simp

section \<open>Cleanup and concrete worlds\<close>

text \<open>A parent directory that holds one sealed staging directory with one sealed file.\<close>

definition demo_staging :: norm_path where
  "demo_staging = \<lparr>np_text = lit ''/t/.x.partial.1'', np_parent = lit ''/t'', np_name = lit ''.x.partial.1''\<rparr>"

definition demo_destination :: norm_path where
  "demo_destination = \<lparr>np_text = lit ''/t/x'', np_parent = lit ''/t'', np_name = lit ''x''\<rparr>"

definition demo_world :: world where
  "demo_world = \<lparr>w_fs = map_of [
      ((1, 1), \<lparr>n_kind = KDir, n_uid = 7, n_mode = 493, n_nlink = 3, n_entries = [(lit ''.x.partial.1'', (1, 2))], n_data = []\<rparr>),
      ((1, 2), \<lparr>n_kind = KDir, n_uid = 7, n_mode = 365, n_nlink = 2, n_entries = [(lit ''f'', (1, 3))], n_data = []\<rparr>),
      ((1, 3), \<lparr>n_kind = KReg, n_uid = 7, n_mode = 292, n_nlink = 1, n_entries = [], n_data = [42]\<rparr>)],
    w_disk = Map.empty, w_abs = (\<lambda>p. if p = lit ''/t'' then Some (1, 1) else None), w_euid = 7, w_next = (1, 4)\<rparr>"

lemmas path_defs = absolute_normal_def normpath_def norm_step_def posix_root_def posix_tail_def join_with_def
  SAFE_NAME_def is_alnum_def is_digit_def lit_def Let_def

lemma demo_paths:
  "absolute_normal (PyStr (lit ''/t/.x.partial.1'')) = Inr demo_staging"
  "absolute_normal (PyStr (lit ''/t/x'')) = Inr demo_destination"
  by (simp_all add: path_defs demo_staging_def demo_destination_def)

lemma demo_parent:
  "open_parent (np_parent demo_staging) demo_world = Inr (1, 1)" "names_distinct (1, 1) demo_world"
  "bound (1, 1) (np_name demo_staging) demo_world = Some (1, 2)" "bound (1, 1) (np_name demo_destination) demo_world = None"
  by (simp_all add: open_parent_def fstat_def names_distinct_def demo_world_def demo_staging_def demo_destination_def
      stat_at_def dir_lookup_def lit_def)

lemma demo_live: "entries_live demo_world"
  by (auto simp: entries_live_def dir_lookup_Some demo_world_def split: if_splits)

lemma demo_sealed: "walk_and_validate_sealed 2 (1, 2) demo_world = Inr ()"
  unfolding numeral_2_eq_2 validate_sealed_Suc
  by (simp add: validate_sealed_member_Inr unsafe_member_name_def SAFE_NAME_def is_alnum_def is_digit_def
      stat_at_def dir_lookup_def demo_world_def lit_def)

lemma demo_siblings: "np_parent demo_staging = np_parent demo_destination" "np_text demo_staging \<noteq> np_text demo_destination"
  by (simp_all add: demo_staging_def demo_destination_def lit_def)

lemma demo_nodes:
  "w_fs demo_world (1, 1) = Some \<lparr>n_kind = KDir, n_uid = 7, n_mode = 493, n_nlink = 3, n_entries = [(lit ''.x.partial.1'', (1, 2))], n_data = []\<rparr>"
  "w_fs demo_world (1, 2) = Some \<lparr>n_kind = KDir, n_uid = 7, n_mode = 365, n_nlink = 2, n_entries = [(lit ''f'', (1, 3))], n_data = []\<rparr>"
  by (simp_all add: demo_world_def)


lemma publish_try_Inr: "io_try m (publish_handler env s d p h) w = (Inr a, w') \<Longrightarrow> m w = (Inr a, w')"
proof -
  assume run: "io_try m (publish_handler env s d p h) w = (Inr a, w')"
  obtain q w1 where m: "m w = (q, w1)" by fastforce
  show ?thesis
  proof (cases q)
    case (Inl e)
    then have "publish_handler env s d p h e w1 = (Inr a, w')" using run m by (simp add: io_try_def)
    from publish_handler_outcome [OF this] show ?thesis by simp
  next
    case (Inr x)
    then show ?thesis using run m by (simp add: io_try_def)
  qed
qed


theorem publication_succeeds_witness:
  "\<exists>w'. publish_artifact_noreplace 2 production_seams (PyStr (lit ''/t/.x.partial.1'')) (PyStr (lit ''/t/x'')) demo_world
      = (Inr \<lparr>pa_path = lit ''/t/x'', pa_identity = (1, 2)\<rparr>, w') \<and> bound (1, 1) (lit ''x'') w' = Some (1, 2)"
proof -
  have n: "np_name demo_destination = lit ''x''" "np_text demo_destination = lit ''/t/x''"
    by (simp_all add: demo_destination_def)
  show ?thesis
    using publication_succeeds [OF demo_paths demo_siblings demo_parent(1,2) demo_live demo_nodes(1) _ demo_parent(3,4) demo_sealed]
    unfolding n by auto
qed

text \<open>
  C20. Sealing establishes what validation checks. When the sealing walk of a tree returns, the
  validation walk accepts it; only modes have changed, and the root directory is durable in its sealed
  form.
\<close>

theorem sealing_establishes_validity:
  assumes "walk_and_seal depth fd w = (Inr (), w')"
  shows "walk_and_validate_sealed depth fd w' = Inr () \<and> seals w w' \<and> w_disk w' fd = w_fs w' fd"
  using walk_and_seal_sound [OF assms] by blast

theorem sealing_establishes_validity_witness:
  "\<exists>w'. walk_and_seal 1 (5, 5) \<lparr>w_fs = [(5, 5) \<mapsto> \<lparr>n_kind = KDir, n_uid = 7, n_mode = 448, n_nlink = 2, n_entries = [], n_data = []\<rparr>],
      w_disk = Map.empty, w_abs = Map.empty, w_euid = 7, w_next = (5, 6)\<rparr> = (Inr (), w') \<and> walk_and_validate_sealed 1 (5, 5) w' = Inr ()"
proof -
  let ?w = "\<lparr>w_fs = [(5, 5) \<mapsto> \<lparr>n_kind = KDir, n_uid = 7, n_mode = 448, n_nlink = 2, n_entries = [], n_data = []\<rparr>],
      w_disk = Map.empty, w_abs = Map.empty, w_euid = 7, w_next = (5, 6)\<rparr>"
  have "\<exists>w'. walk_and_seal 1 (5, 5) ?w = (Inr (), w')"
    by (simp add: One_nat_def io_bind_def fstat_def sorted_names_def Let_def fchmod_def os_fsync_def update_node_def)
  then obtain w' where "walk_and_seal 1 (5, 5) ?w = (Inr (), w')" ..
  then show ?thesis using sealing_establishes_validity by blast
qed



end
