(* ===== verification/Py_Json.thy ===== *)
theory Py_Json
  imports Utf8 Binary64
begin

text \<open>
  The parts of Python's \<^verbatim>\<open>json\<close> module the scripts call: \<^verbatim>\<open>json.loads\<close> with its object, float
  and constant hooks, and \<^verbatim>\<open>json.dumps\<close> with sorted keys and compact separators. The scanner
  follows CPython 3.8: whitespace, literals, numbers, strings with escapes and surrogate pairs,
  arrays and objects; every malformed text is a \<^verbatim>\<open>JSONDecodeError\<close>, a \<^verbatim>\<open>ValueError\<close>. The depth
  argument is the interpreter's remaining recursion limit: both directions raise
  \<^verbatim>\<open>RecursionError\<close> when containers nest deeper. Floats are printed as the shortest decimal that
  reads back to the same binary64.
\<close>

section \<open>Numbers as text\<close>

definition int_repr :: "int \<Rightarrow> pystr" where
  "int_repr n = (if n < 0 then 45 # dec_text (nat (- n)) else dec_text (nat n))"

text \<open>A decimal \<open>digits * 10 ^ e\<close> as a fraction, and \<^verbatim>\<open>float(token)\<close> of a JSON number token.\<close>

definition decimal_fraction :: "nat \<Rightarrow> int \<Rightarrow> nat \<times> nat" where
  "decimal_fraction n e = (if 0 \<le> e then (n * 10 ^ nat e, 1) else (n, 10 ^ nat (- e)))"

definition round_decimal :: "nat \<Rightarrow> int \<Rightarrow> nat" where
  "round_decimal n e = min (case decimal_fraction n e of (a, b) \<Rightarrow> round_magnitude a b) (2047 * 2 ^ 52)"

definition int_of_text :: "pystr \<Rightarrow> int" where
  "int_of_text s = (if take 1 s = [45] then - int (dec_value (drop 1 s))
     else if take 1 s = [43] then int (dec_value (drop 1 s)) else int (dec_value s))"

definition float_of_token :: "pystr \<Rightarrow> f64" where
  "float_of_token token =
     (let negative = (take 1 token = [45]);
          body = (if negative then drop 1 token else token);
          mantissa = takeWhile (\<lambda>c. c \<noteq> 101 \<and> c \<noteq> 69) body;
          exponent = drop (Suc (length mantissa)) body;
          whole = takeWhile (\<lambda>c. c \<noteq> 46) mantissa;
          fraction = drop (Suc (length whole)) mantissa;
          e = (if exponent = [] then 0 else int_of_text exponent)
      in word_of_nat ((if negative then 2 ^ 63 else 0) + round_decimal (dec_value (whole @ fraction)) (e - int (length fraction))))"

text \<open>
  \<^verbatim>\<open>float.__repr__\<close>: the decimal point position, then the fewest digits for which one of the two
  neighbouring decimals reads back, the nearer of them when both do.
\<close>

definition f64_magnitude_fraction :: "f64 \<Rightarrow> nat \<times> nat" where
  "f64_magnitude_fraction x =
     (if 0 \<le> f64_scale x then (f64_significand x * 2 ^ nat (f64_scale x), 1)
      else (f64_significand x, 2 ^ nat (- f64_scale x)))"

definition less_power10 :: "nat \<times> nat \<Rightarrow> int \<Rightarrow> bool" where
  "less_power10 f k = (case f of (a, b) \<Rightarrow> (case decimal_fraction 1 k of (c, d) \<Rightarrow> a * d < c * b))"

definition decimal_point :: "f64 \<Rightarrow> int" where
  "decimal_point x =
     (case find (less_power10 (f64_magnitude_fraction x)) [- 330..310] of Some k \<Rightarrow> k | None \<Rightarrow> 310)"

definition shortest_with :: "f64 \<Rightarrow> int \<Rightarrow> nat \<Rightarrow> nat option" where
  "shortest_with x k p =
     (case f64_magnitude_fraction x of (a, b) \<Rightarrow>
      (case decimal_fraction 1 (int p - k) of (c, d) \<Rightarrow>
      (let num = a * c; den = b * d; q = num div den; r = num mod den;
           reads = (\<lambda>n. round_decimal n (k - int p) = unat x mod 2 ^ 63);
           nearer = (if 2 * r < den \<or> 2 * r = den \<and> even q then q else q + 1);
           farther = (if nearer = q then q + 1 else q)
       in if reads nearer then Some nearer else if reads farther then Some farther else None)))"

definition shortest_digits :: "f64 \<Rightarrow> nat \<times> int" where
  "shortest_digits x =
     (if unat x mod 2 ^ 63 = 0 then (0, 1)
      else let k = decimal_point x
           in case find (\<lambda>p. shortest_with x k p \<noteq> None) [1..<18] of
                Some p \<Rightarrow> (the (shortest_with x k p), k + int (length (dec_text (the (shortest_with x k p)))) - int p)
              | None \<Rightarrow> (0, 1))"

definition strip_zeros :: "pystr \<Rightarrow> pystr" where
  "strip_zeros s = (let t = rev (dropWhile (\<lambda>c. c = 48) (rev s)) in if t = [] then [48] else t)"

definition two_digits :: "nat \<Rightarrow> pystr" where
  "two_digits n = (if n < 10 then 48 # dec_text n else dec_text n)"

definition float_repr :: "f64 \<Rightarrow> pystr" where
  "float_repr x =
     (case shortest_digits x of (n, decpt) \<Rightarrow>
      (let ds = strip_zeros (dec_text n); len = int (length ds);
           sign = (if f64_negative x then [45] else []) in
       if decpt \<le> - 4 \<or> 16 < decpt then
         sign @ take 1 ds @ (if len = 1 then [] else 46 # drop 1 ds) @ [101] @
           (if decpt - 1 < 0 then 45 # two_digits (nat (1 - decpt)) else 43 # two_digits (nat (decpt - 1)))
       else if decpt \<le> 0 then sign @ [48, 46] @ replicate (nat (- decpt)) 48 @ ds
       else if len \<le> decpt then sign @ ds @ replicate (nat (decpt - len)) 48 @ [46, 48]
       else sign @ take (nat decpt) ds @ [46] @ drop (nat decpt) ds))"

section \<open>Scanning\<close>

record json_hooks =
  object_pairs_hook :: "(pystr \<times> pyval) list \<Rightarrow> pyval py"
  parse_float :: "pystr \<Rightarrow> pyval py"
  parse_constant :: "pystr \<Rightarrow> pyval py"

definition json_error :: "string \<Rightarrow> 'a py" where
  "json_error message = Inl (ValueError message)"

definition is_ws :: "nat \<Rightarrow> bool" where
  "is_ws c \<longleftrightarrow> c = 32 \<or> c = 9 \<or> c = 10 \<or> c = 13"

definition skip_ws :: "pystr \<Rightarrow> pystr" where
  "skip_ws s = dropWhile is_ws s"

definition is_hex :: "nat \<Rightarrow> bool" where
  "is_hex c \<longleftrightarrow> 48 \<le> c \<and> c \<le> 57 \<or> 65 \<le> c \<and> c \<le> 70 \<or> 97 \<le> c \<and> c \<le> 102"

definition any_hex_value :: "nat \<Rightarrow> nat" where
  "any_hex_value c = (if c < 58 then c - 48 else if c < 71 then c - 55 else c - 87)"

fun hex4 :: "pystr \<Rightarrow> (nat \<times> pystr) option" where
  "hex4 (a # b # c # d # r) =
     (if is_hex a \<and> is_hex b \<and> is_hex c \<and> is_hex d
      then Some (of_digits 16 (map any_hex_value [a, b, c, d]), r) else None)"
| "hex4 _ = None"

definition simple_escape :: "nat \<Rightarrow> nat option" where
  "simple_escape c =
     (if c = 34 \<or> c = 92 \<or> c = 47 then Some c
      else if c = 98 then Some 8 else if c = 102 then Some 12 else if c = 110 then Some 10
      else if c = 114 then Some 13 else if c = 116 then Some 9 else None)"

definition high_surrogate :: "nat \<Rightarrow> bool" where
  "high_surrogate c \<longleftrightarrow> 0xD800 \<le> c \<and> c \<le> 0xDBFF"

definition low_surrogate :: "nat \<Rightarrow> bool" where
  "low_surrogate c \<longleftrightarrow> 0xDC00 \<le> c \<and> c \<le> 0xDFFF"

definition join_surrogates :: "nat \<Rightarrow> nat \<Rightarrow> nat" where
  "join_surrogates hi lo = 0x10000 + (hi - 0xD800) * 0x400 + (lo - 0xDC00)"

text \<open>One unit of a string body after a backslash and \<^verbatim>\<open>u\<close>.\<close>

definition scan_unicode_escape :: "pystr \<Rightarrow> (nat \<times> pystr) option" where
  "scan_unicode_escape s =
     (case hex4 s of
        None \<Rightarrow> None
      | Some (u, r) \<Rightarrow>
          if high_surrogate u \<and> take 2 r = [92, 117] then
            (case hex4 (drop 2 r) of
               None \<Rightarrow> None
             | Some (u2, r2) \<Rightarrow> if low_surrogate u2 then Some (join_surrogates u u2, r2) else Some (u, r))
          else Some (u, r))"

text \<open>The next character of a string body, escapes resolved; \<^term>\<open>None\<close> is malformed.\<close>

fun scan_char :: "pystr \<Rightarrow> (nat \<times> pystr) option" where
  "scan_char [] = None"
| "scan_char (c # r) =
     (if c = 92 then
        (case r of
           [] \<Rightarrow> None
         | e # r' \<Rightarrow>
             if e = 117 then scan_unicode_escape r'
             else (case simple_escape e of None \<Rightarrow> None | Some c' \<Rightarrow> Some (c', r')))
      else if c \<le> 0x1F then None else Some (c, r))"

lemma hex4_shorter: "hex4 s = Some (u, r) \<Longrightarrow> length r < length s"
  by (cases s rule: hex4.cases) (auto split: if_splits)

lemma scan_unicode_escape_shorter: "scan_unicode_escape s = Some (u, r) \<Longrightarrow> length r < length s"
  by (auto simp: scan_unicode_escape_def dest!: hex4_shorter split: option.splits if_splits)

lemma scan_char_shorter: "scan_char s = Some (c, r) \<Longrightarrow> length r < length s"
  by (cases s) (auto dest: scan_unicode_escape_shorter split: if_splits list.splits option.splits)

text \<open>A string body up to its closing quote.\<close>

function scan_string :: "pystr \<Rightarrow> (pystr \<times> pystr) py" where
  "scan_string s =
     (case s of
        [] \<Rightarrow> json_error ''Unterminated string''
      | c # r \<Rightarrow>
          if c = 34 then Inr ([], r)
          else (case scan_char s of
                  None \<Rightarrow> json_error ''Invalid string''
                | Some (c', r') \<Rightarrow> and_then (scan_string r') (\<lambda>(t, rest). Inr (c' # t, rest))))"
  by pat_completeness auto
termination
  by (relation "measure length") (auto simp del: scan_char.simps dest: scan_char_shorter)

declare scan_string.simps [simp del]

text \<open>
  Numbers: an optional minus, an integer part without leading zeros, a fraction when a digit follows
  the point, an exponent when digits follow it.
\<close>

definition scan_int_part :: "pystr \<Rightarrow> (pystr \<times> pystr) option" where
  "scan_int_part s =
     (case s of
        [] \<Rightarrow> None
      | c # r \<Rightarrow> if c = 48 then Some ([48], r)
                 else if is_digit c then Some (takeWhile is_digit s, dropWhile is_digit s) else None)"

definition scan_fraction :: "pystr \<Rightarrow> pystr \<times> pystr" where
  "scan_fraction s =
     (case s of
        c # r \<Rightarrow> if c = 46 \<and> takeWhile is_digit r \<noteq> [] then (46 # takeWhile is_digit r, dropWhile is_digit r) else ([], s)
      | [] \<Rightarrow> ([], s))"

definition scan_exponent :: "pystr \<Rightarrow> pystr \<times> pystr" where
  "scan_exponent s =
     (case s of
        c # r \<Rightarrow>
          (let sign = (case r of d # _ \<Rightarrow> if d = 43 \<or> d = 45 then [d] else [] | [] \<Rightarrow> []);
               r' = drop (length sign) r in
           if (c = 101 \<or> c = 69) \<and> takeWhile is_digit r' \<noteq> []
           then (c # sign @ takeWhile is_digit r', dropWhile is_digit r') else ([], s))
      | [] \<Rightarrow> ([], s))"

definition scan_number :: "json_hooks \<Rightarrow> pystr \<Rightarrow> (pyval \<times> pystr) py" where
  "scan_number hooks s =
     (let minus = (take 1 s = [45]) in
      case scan_int_part (if minus then drop 1 s else s) of
        None \<Rightarrow> json_error ''Expecting value''
      | Some (digits, r) \<Rightarrow>
          (case scan_fraction r of (fraction, r1) \<Rightarrow>
          (case scan_exponent r1 of (exponent, r2) \<Rightarrow>
            if fraction = [] \<and> exponent = []
            then Inr (PyInt ((if minus then - 1 else 1) * int (dec_value digits)), r)
            else and_then (parse_float hooks ((if minus then [45] else []) @ digits @ fraction @ exponent))
                   (\<lambda>v. Inr (v, r2)))))"

definition strip_prefix :: "string \<Rightarrow> pystr \<Rightarrow> pystr option" where
  "strip_prefix p s = (if take (length p) s = lit p then Some (drop (length p) s) else None)"

fun scan_words :: "(string \<times> pyval py) list \<Rightarrow> pystr \<Rightarrow> (pyval \<times> pystr) py option" where
  "scan_words [] s = None"
| "scan_words ((w, v) # ws) s =
     (case strip_prefix w s of Some r \<Rightarrow> Some (and_then v (\<lambda>x. Inr (x, r))) | None \<Rightarrow> scan_words ws s)"

definition scan_scalar :: "json_hooks \<Rightarrow> pystr \<Rightarrow> (pyval \<times> pystr) py" where
  "scan_scalar hooks s =
     (case s of
        [] \<Rightarrow> json_error ''Expecting value''
      | c # r \<Rightarrow>
          if c = 34 then and_then (scan_string r) (\<lambda>(t, rest). Inr (PyStr t, rest))
          else case scan_words
                 [(''null'', Inr PyNone), (''true'', Inr (PyBool True)), (''false'', Inr (PyBool False)),
                  (''NaN'', parse_constant hooks (lit ''NaN'')),
                  (''Infinity'', parse_constant hooks (lit ''Infinity'')),
                  (''-Infinity'', parse_constant hooks (lit ''-Infinity''))] s of
                 Some res \<Rightarrow> res
               | None \<Rightarrow> scan_number hooks s)"

text \<open>The loops over the members of an array and of an object, with the text length as fuel.\<close>

primrec scan_elements :: "(pystr \<Rightarrow> (pyval \<times> pystr) py) \<Rightarrow> nat \<Rightarrow> pystr \<Rightarrow> (pyval list \<times> pystr) py" where
  "scan_elements item 0 s = json_error ''Expecting value''"
| "scan_elements item (Suc n) s =
     and_then (item s) (\<lambda>(v, r).
       case skip_ws r of
         [] \<Rightarrow> json_error ''Expecting comma delimiter''
       | c # r' \<Rightarrow>
           if c = 93 then Inr ([v], r')
           else if c = 44 then and_then (scan_elements item n (skip_ws r')) (\<lambda>(vs, rest). Inr (v # vs, rest))
           else json_error ''Expecting comma delimiter'')"

definition scan_array :: "(pystr \<Rightarrow> (pyval \<times> pystr) py) \<Rightarrow> pystr \<Rightarrow> (pyval \<times> pystr) py" where
  "scan_array item s =
     (case skip_ws s of
        [] \<Rightarrow> json_error ''Expecting value''
      | c # r \<Rightarrow>
          if c = 93 then Inr (PyList [], r)
          else and_then (scan_elements item (length s) (c # r)) (\<lambda>(vs, rest). Inr (PyList vs, rest)))"

definition scan_member :: "(pystr \<Rightarrow> (pyval \<times> pystr) py) \<Rightarrow> pystr \<Rightarrow> ((pystr \<times> pyval) \<times> pystr) py" where
  "scan_member item s =
     (case s of
        [] \<Rightarrow> json_error ''Expecting property name enclosed in double quotes''
      | q # r \<Rightarrow>
          if q \<noteq> 34 then json_error ''Expecting property name enclosed in double quotes''
          else and_then (scan_string r) (\<lambda>(k, r1).
            case skip_ws r1 of
              [] \<Rightarrow> json_error ''Expecting colon delimiter''
            | c # r2 \<Rightarrow>
                if c \<noteq> 58 then json_error ''Expecting colon delimiter''
                else and_then (item (skip_ws r2)) (\<lambda>(v, r3). Inr ((k, v), r3))))"

primrec scan_members ::
    "(pystr \<Rightarrow> (pyval \<times> pystr) py) \<Rightarrow> nat \<Rightarrow> pystr \<Rightarrow> ((pystr \<times> pyval) list \<times> pystr) py" where
  "scan_members item 0 s = json_error ''Expecting property name enclosed in double quotes''"
| "scan_members item (Suc n) s =
     and_then (scan_member item s) (\<lambda>(kv, r).
       case skip_ws r of
         [] \<Rightarrow> json_error ''Expecting comma delimiter''
       | c # r' \<Rightarrow>
           if c = 125 then Inr ([kv], r')
           else if c = 44 then and_then (scan_members item n (skip_ws r')) (\<lambda>(kvs, rest). Inr (kv # kvs, rest))
           else json_error ''Expecting comma delimiter'')"

definition scan_object :: "json_hooks \<Rightarrow> (pystr \<Rightarrow> (pyval \<times> pystr) py) \<Rightarrow> pystr \<Rightarrow> (pyval \<times> pystr) py" where
  "scan_object hooks item s =
     and_then
       (case skip_ws s of
          [] \<Rightarrow> json_error ''Expecting property name enclosed in double quotes''
        | c # r \<Rightarrow> if c = 125 then Inr ([], r) else scan_members item (length s) (c # r)) (\<lambda>(kvs, rest).
     and_then (object_pairs_hook hooks kvs) (\<lambda>v. Inr (v, rest)))"

primrec scan_once :: "json_hooks \<Rightarrow> nat \<Rightarrow> pystr \<Rightarrow> (pyval \<times> pystr) py" where
  "scan_once hooks 0 s =
     (if take 1 s = [123] \<or> take 1 s = [91] then Inl RecursionError else scan_scalar hooks s)"
| "scan_once hooks (Suc depth) s =
     (if take 1 s = [123] then scan_object hooks (scan_once hooks depth) (drop 1 s)
      else if take 1 s = [91] then scan_array (scan_once hooks depth) (drop 1 s)
      else scan_scalar hooks s)"

definition json_loads :: "json_hooks \<Rightarrow> nat \<Rightarrow> pystr \<Rightarrow> pyval py" where
  "json_loads hooks depth text =
     (if take 1 text = [0xFEFF] then json_error ''Unexpected UTF-8 BOM''
      else and_then (scan_once hooks depth (skip_ws text)) (\<lambda>(v, r).
        if skip_ws r \<noteq> [] then json_error ''Extra data'' else Inr v))"

section \<open>Printing\<close>

fun join_with :: "pystr \<Rightarrow> pystr list \<Rightarrow> pystr" where
  "join_with sep [] = []"
| "join_with sep [x] = x"
| "join_with sep (x # y # r) = x @ sep @ join_with sep (y # r)"

definition unicode_escape :: "nat \<Rightarrow> pystr" where
  "unicode_escape u = [92, 117] @ format_hex 4 u"

definition escape_char :: "bool \<Rightarrow> nat \<Rightarrow> pystr" where
  "escape_char ensure_ascii c =
     (if c = 34 then [92, 34] else if c = 92 then [92, 92]
      else if c = 10 then [92, 110] else if c = 13 then [92, 114] else if c = 9 then [92, 116]
      else if c = 12 then [92, 102] else if c = 8 then [92, 98]
      else if c \<le> 0x1F then unicode_escape c
      else if \<not> ensure_ascii \<or> c \<le> 0x7E then [c]
      else if c \<le> 0xFFFF then unicode_escape c
      else unicode_escape (0xD800 + (c - 0x10000) div 0x400) @ unicode_escape (0xDC00 + (c - 0x10000) mod 0x400))"

definition quote :: "bool \<Rightarrow> pystr \<Rightarrow> pystr" where
  "quote ensure_ascii s = 34 # concat (map (escape_char ensure_ascii) s) @ [34]"

text \<open>\<^verbatim>\<open>allow_nan=False\<close>: a float that is not finite is refused.\<close>

fun dump_scalar :: "bool \<Rightarrow> pyval \<Rightarrow> pystr py" where
  "dump_scalar ensure_ascii PyNone = Inr (lit ''null'')"
| "dump_scalar ensure_ascii (PyBool b) = Inr (if b then lit ''true'' else lit ''false'')"
| "dump_scalar ensure_ascii (PyInt n) = Inr (int_repr n)"
| "dump_scalar ensure_ascii (PyFloat x) =
     (if f64_finite x then Inr (float_repr x) else json_error ''Out of range float values are not JSON compliant'')"
| "dump_scalar ensure_ascii (PyStr s) = Inr (quote ensure_ascii s)"
| "dump_scalar ensure_ascii _ = Inl (TypeError ''is not JSON serializable'')"

text \<open>
  Only mappings with string keys reach the encoder (the callers build or check them); other keys are
  answered with the \<^verbatim>\<open>TypeError\<close> of comparing them with strings.
\<close>

fun string_key :: "pyval \<times> pyval \<Rightarrow> (pystr \<times> pyval) py" where
  "string_key (PyStr k, v) = Inr (k, v)"
| "string_key (_, v) = Inl (TypeError ''keys must be strings'')"

definition dump_array :: "(pyval \<Rightarrow> pystr py) \<Rightarrow> pyval list \<Rightarrow> pystr py" where
  "dump_array item xs = and_then (mapM item xs) (\<lambda>ts. Inr ([91] @ join_with [44] ts @ [93]))"

definition dump_member :: "bool \<Rightarrow> (pyval \<Rightarrow> pystr py) \<Rightarrow> pystr \<times> pyval \<Rightarrow> pystr py" where
  "dump_member ensure_ascii item kv = and_then (item (snd kv)) (\<lambda>t. Inr (quote ensure_ascii (fst kv) @ [58] @ t))"

definition dump_object :: "bool \<Rightarrow> (pyval \<Rightarrow> pystr py) \<Rightarrow> (pyval \<times> pyval) list \<Rightarrow> pystr py" where
  "dump_object ensure_ascii item kvs =
     and_then (mapM string_key kvs) (\<lambda>items.
     and_then (mapM (dump_member ensure_ascii item) (sort_key fst items)) (\<lambda>ts.
       Inr ([123] @ join_with [44] ts @ [125])))"

definition is_container :: "pyval \<Rightarrow> bool" where
  "is_container v = (case v of PyList _ \<Rightarrow> True | PyTuple _ \<Rightarrow> True | PyDict _ \<Rightarrow> True | _ \<Rightarrow> False)"

primrec json_dumps :: "bool \<Rightarrow> nat \<Rightarrow> pyval \<Rightarrow> pystr py" where
  "json_dumps ensure_ascii 0 v = (if is_container v then Inl RecursionError else dump_scalar ensure_ascii v)"
| "json_dumps ensure_ascii (Suc depth) v =
     (case v of
        PyList xs \<Rightarrow> dump_array (json_dumps ensure_ascii depth) xs
      | PyTuple xs \<Rightarrow> dump_array (json_dumps ensure_ascii depth) xs
      | PyDict kvs \<Rightarrow> dump_object ensure_ascii (json_dumps ensure_ascii depth) kvs
      | _ \<Rightarrow> dump_scalar ensure_ascii v)"

section \<open>What is printed reads back\<close>

lemma any_hex_digit: "d < 16 \<Longrightarrow> is_hex (hex_digit d) \<and> any_hex_value (hex_digit d) = d"
  by (auto simp: is_hex_def any_hex_value_def hex_digit_def)

lemma list_of_length4: "length ds = 4 \<Longrightarrow> \<exists>a b c d. ds = [a, b, c, d]"
  by (auto simp: numeral_eq_Suc length_Suc_conv)

lemma hex4_format: "u < 65536 \<Longrightarrow> hex4 (format_hex 4 u @ r) = Some (u, r)"
proof -
  assume u: "u < 65536"
  obtain a b c d where ds: "be_digits 16 4 u = [a, b, c, d]" using list_of_length4 [of "be_digits 16 4 u"] by auto
  have "\<forall>x \<in> {a, b, c, d}. x < 16" using be_digits_less [of 16 _ 4 u] by (auto simp: ds)
  moreover have "of_digits 16 [a, b, c, d] = u" using of_be_digits_less [of 16 u 4] u by (simp add: ds)
  ultimately show ?thesis by (simp add: format_hex_def ds any_hex_digit)
qed

lemma scan_unicode_plain: "u < 65536 \<Longrightarrow> \<not> high_surrogate u \<Longrightarrow> scan_unicode_escape (format_hex 4 u @ r) = Some (u, r)"
  by (simp add: scan_unicode_escape_def hex4_format)

lemma scan_unicode_pair:
  assumes "0x10000 \<le> c" "c < 0x110000"
  shows "scan_unicode_escape (format_hex 4 (0xD800 + (c - 0x10000) div 0x400) @ [92, 117] @
           format_hex 4 (0xDC00 + (c - 0x10000) mod 0x400) @ r) = Some (c, r)"
proof -
  define q m where "q = (c - 0x10000) div 0x400" and "m = (c - 0x10000) mod 0x400"
  have q: "q < 0x400" using assms unfolding q_def by (simp add: less_mult_imp_div_less)
  have m: "m < 0x400" unfolding m_def by simp
  have "q * 0x400 + m = c - 0x10000" unfolding q_def m_def by simp
  then have "join_surrogates (0xD800 + q) (0xDC00 + m) = c" using assms by (simp add: join_surrogates_def)
  moreover have "high_surrogate (0xD800 + q)" "low_surrogate (0xDC00 + m)"
    using q m by (simp_all add: high_surrogate_def low_surrogate_def)
  ultimately show ?thesis unfolding q_def [symmetric] m_def [symmetric]
    using q m by (simp add: scan_unicode_escape_def hex4_format)
qed

lemma scan_escaped_char: "is_scalar c \<Longrightarrow> scan_char (escape_char a c @ r) = Some (c, r)"
  using scan_unicode_pair [of c r]
  by (auto simp: escape_char_def unicode_escape_def simple_escape_def is_scalar_def scan_unicode_plain high_surrogate_def)

lemma escape_char_hd: "\<exists>x y. escape_char a c = x # y \<and> x \<noteq> 34"
  by (auto simp: escape_char_def unicode_escape_def)

lemma scan_string_quoted:
  "list_all is_scalar s \<Longrightarrow> scan_string (concat (map (escape_char a) s) @ 34 # rest) = Inr (s, rest)"
proof (induction s)
  case Nil
  then show ?case by (simp add: scan_string.simps)
next
  case (Cons c s)
  let ?t = "concat (map (escape_char a) s) @ 34 # rest"
  obtain x y where x: "escape_char a c = x # y" "x \<noteq> 34" using escape_char_hd by blast
  have "scan_char (escape_char a c @ ?t) = Some (c, ?t)" using Cons by (simp add: scan_escaped_char del: scan_char.simps)
  then have "scan_char (x # y @ ?t) = Some (c, ?t)" using x by simp
  then show ?case using x Cons
    by (subst scan_string.simps) (simp del: scan_char.simps)
qed

text \<open>A text after which no number can go on.\<close>

definition delimited :: "pystr \<Rightarrow> bool" where
  "delimited s = (case s of [] \<Rightarrow> True | c # _ \<Rightarrow> \<not> is_digit c \<and> c \<noteq> 46 \<and> c \<noteq> 101 \<and> c \<noteq> 69)"

lemma delimited_punct [simp]:
  "delimited []" "delimited (44 # r)" "delimited (93 # r)" "delimited (125 # r)" "delimited (10 # r)"
  by (simp_all add: delimited_def is_digit_def)

lemma takeWhile_delimited: "list_all is_digit ds \<Longrightarrow> delimited r \<Longrightarrow> takeWhile is_digit (ds @ r) = ds \<and> dropWhile is_digit (ds @ r) = r"
  by (induction ds) (auto simp: delimited_def split: list.splits)

lemma scan_int_part_text: "delimited r \<Longrightarrow> scan_int_part (dec_text n @ r) = Some (dec_text n, r)"
proof (cases "n = 0")
  case True
  then show ?thesis by (simp add: scan_int_part_def dec_text_0)
next
  case False
  assume r: "delimited r"
  obtain c cs where c: "dec_text n = c # cs" using dec_text_nonempty [of n] by (cases "dec_text n") auto
  then have "c \<noteq> 48" "is_digit c" "list_all is_digit (c # cs)"
    using dec_text_hd [of n] dec_text_digits [of n] False by auto
  then show ?thesis using takeWhile_delimited [of "c # cs" r] r by (simp add: scan_int_part_def c)
qed

lemma scan_tail_delimited: "delimited r \<Longrightarrow> scan_fraction r = ([], r)" "delimited r \<Longrightarrow> scan_exponent r = ([], r)"
  by (auto simp: scan_fraction_def scan_exponent_def delimited_def Let_def split: list.splits)

lemma take1_digits: "take 1 (dec_text n @ r) \<noteq> [45]" "take 1 (dec_text n @ r) \<noteq> [123]" "take 1 (dec_text n @ r) \<noteq> [91]"
proof -
  obtain c cs where c: "dec_text n = c # cs" using dec_text_nonempty [of n] by (cases "dec_text n") auto
  then have "is_digit c" using dec_text_digits [of n] by simp
  then show "take 1 (dec_text n @ r) \<noteq> [45]" "take 1 (dec_text n @ r) \<noteq> [123]" "take 1 (dec_text n @ r) \<noteq> [91]"
    by (auto simp: c is_digit_def)
qed

lemma scan_number_repr: "delimited r \<Longrightarrow> scan_number hooks (int_repr n @ r) = Inr (PyInt n, r)"
  using take1_digits(1) [of "nat n" r]
  by (auto simp: scan_number_def int_repr_def scan_int_part_text scan_tail_delimited dec_value_text)

text \<open>Values the printer and the scanner agree on: JSON data without floats, keys in increasing order.\<close>

definition scalar_normal :: "pyval \<Rightarrow> bool" where
  "scalar_normal v =
     (case v of PyNone \<Rightarrow> True | PyBool _ \<Rightarrow> True | PyInt _ \<Rightarrow> True | PyStr s \<Rightarrow> list_all is_scalar s | _ \<Rightarrow> False)"

fun key_text :: "pyval \<Rightarrow> pystr" where
  "key_text (PyStr s) = s"
| "key_text _ = []"

fun key_ok :: "pyval \<Rightarrow> bool" where
  "key_ok (PyStr s) = list_all is_scalar s"
| "key_ok _ = False"

primrec json_normal :: "nat \<Rightarrow> pyval \<Rightarrow> bool" where
  "json_normal 0 v = scalar_normal v"
| "json_normal (Suc depth) v =
     (case v of
        PyList xs \<Rightarrow> list_all (json_normal depth) xs
      | PyDict kvs \<Rightarrow> list_all (\<lambda>kv. key_ok (fst kv) \<and> json_normal depth (snd kv)) kvs \<and>
                      sorted (map (key_text \<circ> fst) kvs) \<and> distinct (map (key_text \<circ> fst) kvs)
      | _ \<Rightarrow> scalar_normal v)"

definition starts_value :: "pystr \<Rightarrow> bool" where
  "starts_value t = (case t of [] \<Rightarrow> False | c # _ \<Rightarrow> \<not> is_ws c \<and> c \<noteq> 93 \<and> c \<noteq> 125 \<and> c < 128)"

lemma skip_ws_starts: "starts_value t \<Longrightarrow> skip_ws (t @ r) = t @ r"
  by (auto simp: starts_value_def skip_ws_def split: list.splits)

lemma skip_ws_punct [simp]: "skip_ws (44 # r) = 44 # r" "skip_ws (93 # r) = 93 # r" "skip_ws (125 # r) = 125 # r"
    "skip_ws (58 # r) = 58 # r" "skip_ws [] = []" "skip_ws (34 # r) = 34 # r"
  by (simp_all add: skip_ws_def is_ws_def)

lemma join_with_starts: "ts \<noteq> [] \<Longrightarrow> list_all starts_value ts \<Longrightarrow> starts_value (join_with sep ts)"
  by (cases "(sep, ts)" rule: join_with.cases) (auto simp: starts_value_def split: list.splits)

lemma join_with_length: "list_all starts_value ts \<Longrightarrow> length ts \<le> length (join_with [44] ts)"
proof (induction "[44] :: pystr" ts rule: join_with.induct)
  case (2 x)
  then show ?case by (cases x) (auto simp: starts_value_def)
next
  case (3 x y r)
  then show ?case by (cases x) (auto simp: starts_value_def)
qed simp

text \<open>The text \<open>t\<close> is read back as \<open>x\<close> wherever it stands.\<close>

definition reads_as :: "(pystr \<Rightarrow> ('a \<times> pystr) py) \<Rightarrow> 'a \<Rightarrow> pystr \<Rightarrow> bool" where
  "reads_as item x t \<longleftrightarrow> starts_value t \<and> (\<forall>r. delimited r \<longrightarrow> item (t @ r) = Inr (x, r))"

lemma scan_elements_join:
  "list_all2 (reads_as item) xs ts \<Longrightarrow> xs \<noteq> [] \<Longrightarrow> length xs \<le> n \<Longrightarrow>
   scan_elements item n (join_with [44] ts @ 93 # r) = Inr (xs, r)"
proof (induction n arbitrary: xs ts)
  case (Suc n)
  then obtain x xs' t ts' where x: "xs = x # xs'" "ts = t # ts'" "reads_as item x t" "list_all2 (reads_as item) xs' ts'"
    by (auto simp: list_all2_Cons1 neq_Nil_conv)
  show ?case
  proof (cases ts')
    case Nil
    then show ?thesis using x by (simp add: reads_as_def)
  next
    case (Cons t2 ts2)
    then have ne: "xs' \<noteq> []" using x by auto
    have "list_all starts_value ts'" using x(4) by (auto simp: list_all2_conv_all_nth list_all_length reads_as_def)
    then have "skip_ws (join_with [44] ts' @ 93 # r) = join_with [44] ts' @ 93 # r"
      using Cons by (intro skip_ws_starts join_with_starts) auto
    then show ?thesis using x Cons Suc.IH [OF x(4) ne] Suc.prems by (simp add: reads_as_def)
  qed
qed simp

lemma scan_members_join:
  "list_all2 (reads_as (scan_member item)) xs ts \<Longrightarrow> xs \<noteq> [] \<Longrightarrow> length xs \<le> n \<Longrightarrow>
   scan_members item n (join_with [44] ts @ 125 # r) = Inr (xs, r)"
proof (induction n arbitrary: xs ts)
  case (Suc n)
  then obtain x xs' t ts' where x: "xs = x # xs'" "ts = t # ts'" "reads_as (scan_member item) x t"
      "list_all2 (reads_as (scan_member item)) xs' ts'"
    by (auto simp: list_all2_Cons1 neq_Nil_conv)
  show ?case
  proof (cases ts')
    case Nil
    then show ?thesis using x by (simp add: reads_as_def)
  next
    case (Cons t2 ts2)
    then have ne: "xs' \<noteq> []" using x by auto
    have "list_all starts_value ts'" using x(4) by (auto simp: list_all2_conv_all_nth list_all_length reads_as_def)
    then have "skip_ws (join_with [44] ts' @ 125 # r) = join_with [44] ts' @ 125 # r"
      using Cons by (intro skip_ws_starts join_with_starts) auto
    then show ?thesis using x Cons Suc.IH [OF x(4) ne] Suc.prems by (simp add: reads_as_def)
  qed
qed simp

lemma reads_as_starts: "list_all2 (reads_as item) xs ts \<Longrightarrow> list_all starts_value ts"
  by (auto simp: list_all2_conv_all_nth list_all_length reads_as_def)

lemma scan_array_join:
  assumes "list_all2 (reads_as item) xs ts"
  shows "scan_array item (join_with [44] ts @ 93 # r) = Inr (PyList xs, r)"
proof (cases "xs = []")
  case True
  then show ?thesis using assms by (simp add: scan_array_def)
next
  case False
  let ?j = "join_with [44] ts"
  have st: "list_all starts_value ts" "ts \<noteq> []" using assms False reads_as_starts by auto
  then have j: "starts_value ?j" by (intro join_with_starts)
  then obtain c cs where c: "?j = c # cs" "c \<noteq> 93" by (auto simp: starts_value_def split: list.splits)
  have "length xs \<le> length (?j @ 93 # r)" using join_with_length [OF st(1)] assms by (auto dest: list_all2_lengthD)
  from scan_elements_join [OF assms False this, of r] show ?thesis
    using skip_ws_starts [OF j, of "93 # r"] c by (simp add: scan_array_def del: scan_elements.simps)
qed

lemma scan_object_join:
  assumes "list_all2 (reads_as (scan_member item)) xs ts"
  shows "scan_object hooks item (join_with [44] ts @ 125 # r) =
           and_then (object_pairs_hook hooks xs) (\<lambda>v. Inr (v, r))"
proof (cases "xs = []")
  case True
  then show ?thesis using assms by (simp add: scan_object_def)
next
  case False
  let ?j = "join_with [44] ts"
  have st: "list_all starts_value ts" "ts \<noteq> []" using assms False reads_as_starts by auto
  then have j: "starts_value ?j" by (intro join_with_starts)
  then obtain c cs where c: "?j = c # cs" "c \<noteq> 125" by (auto simp: starts_value_def split: list.splits)
  have "length xs \<le> length (?j @ 125 # r)" using join_with_length [OF st(1)] assms by (auto dest: list_all2_lengthD)
  from scan_members_join [OF assms False this, of r] show ?thesis
    using skip_ws_starts [OF j, of "125 # r"] c by (simp add: scan_object_def del: scan_members.simps)
qed

lemma reads_member:
  assumes "reads_as item v t" "list_all is_scalar k"
  shows "reads_as (scan_member item) (k, v) (quote a k @ [58] @ t)"
  using assms skip_ws_starts [of t]
  by (auto simp: reads_as_def scan_member_def quote_def scan_string_quoted starts_value_def is_ws_def)

lemma int_repr_head: "\<exists>c cs. int_repr n = c # cs \<and> (is_digit c \<or> c = 45 \<and> (\<exists>d ds. cs = d # ds \<and> is_digit d))"
proof -
  have d: "\<exists>d ds. dec_text m = d # ds \<and> is_digit d" for m
    using dec_text_nonempty [of m] dec_text_digits [of m] by (cases "dec_text m") auto
  show ?thesis using d [of "nat n"] d [of "nat (- n)"] by (auto simp: int_repr_def)
qed

lemma strip_prefix_hd: "of_char x \<noteq> c \<Longrightarrow> strip_prefix (x # w) (c # s) = None"
  by (simp add: strip_prefix_def lit_def)

lemma strip_prefix_second: "of_char y \<noteq> d \<Longrightarrow> strip_prefix (x # y # w) (c # d # s) = None"
  by (simp add: strip_prefix_def lit_def)

lemma scan_words_None: "list_all (\<lambda>wv. strip_prefix (fst wv) s = None) ws \<Longrightarrow> scan_words ws s = None"
  by (induction ws) auto

lemma scan_scalar_int: "delimited r \<Longrightarrow> scan_scalar hooks (int_repr n @ r) = Inr (PyInt n, r)"
proof -
  assume r: "delimited r"
  obtain c cs where c: "int_repr n = c # cs" "is_digit c \<or> c = 45 \<and> (\<exists>d ds. cs = d # ds \<and> is_digit d)"
    using exE [OF int_repr_head [of n]] by (metis (no_types, lifting))
  have "strip_prefix ''-Infinity'' (c # cs @ r) = None"
    using c(2)
  proof (elim disjE conjE exE)
    assume "is_digit c"
    then show ?thesis by (intro strip_prefix_hd) (auto simp: is_digit_def)
  next
    fix d ds
    assume "cs = d # ds" "is_digit d"
    moreover then have "strip_prefix ''-Infinity'' (c # d # ds @ r) = None"
      by (intro strip_prefix_second) (auto simp: is_digit_def)
    ultimately show ?thesis by simp
  qed
  moreover have le: "c \<le> 57" "c \<noteq> 34" using c(2) by (auto simp: is_digit_def)
  moreover have "strip_prefix ''null'' (c # cs @ r) = None" "strip_prefix ''true'' (c # cs @ r) = None"
    "strip_prefix ''false'' (c # cs @ r) = None" "strip_prefix ''NaN'' (c # cs @ r) = None"
    "strip_prefix ''Infinity'' (c # cs @ r) = None"
    by (rule strip_prefix_hd, use le in simp)+
  moreover have "c \<noteq> 34" using c(2) by (auto simp: is_digit_def)
  ultimately show ?thesis using scan_number_repr [OF r, of hooks n]
    by (simp add: scan_scalar_def c(1) scan_words_None del: scan_words.simps)
qed

lemma reads_scalar:
  assumes "scalar_normal v"
  shows "\<exists>t. dump_scalar a v = Inr t \<and> reads_as (scan_scalar hooks) v t \<and> take 1 t \<noteq> [123] \<and> take 1 t \<noteq> [91]"
proof (cases v)
  case (PyInt n)
  obtain c cs where "int_repr n = c # cs" "is_digit c \<or> c = 45" using int_repr_head by blast
  then show ?thesis using PyInt scan_scalar_int [of _ hooks n]
    by (auto simp: reads_as_def starts_value_def is_ws_def is_digit_def)
next
  case (PyStr s)
  then show ?thesis using assms
    by (auto simp: scalar_normal_def reads_as_def starts_value_def is_ws_def quote_def scan_scalar_def scan_string_quoted)
qed (use assms in \<open>auto simp: scalar_normal_def reads_as_def starts_value_def is_ws_def scan_scalar_def strip_prefix_def lit_def\<close>)

text \<open>
  A reader that keeps objects with distinct keys as they are. Whatever it does with floats,
  constants and duplicates, it inverts the printer on normal values.
\<close>

definition string_items :: "(pystr \<times> pyval) list \<Rightarrow> (pyval \<times> pyval) list" where
  "string_items kvs = map (\<lambda>kv. (PyStr (fst kv), snd kv)) kvs"

definition text_items :: "(pyval \<times> pyval) list \<Rightarrow> (pystr \<times> pyval) list" where
  "text_items kvs = map (\<lambda>kv. (key_text (fst kv), snd kv)) kvs"

lemma key_ok_PyStr: "key_ok k \<Longrightarrow> k = PyStr (key_text k) \<and> list_all is_scalar (key_text k)"
  by (cases k) simp_all

lemma string_items_text: "list_all (\<lambda>kv. key_ok (fst kv)) kvs \<Longrightarrow> string_items (text_items kvs) = kvs"
  by (induction kvs) (auto simp: string_items_def text_items_def dest: key_ok_PyStr)

lemma mapM_string_key: "list_all (\<lambda>kv. key_ok (fst kv)) kvs \<Longrightarrow> mapM string_key kvs = Inr (text_items kvs)"
proof (induction kvs)
  case (Cons kv kvs)
  then have "fst kv = PyStr (key_text (fst kv))" using key_ok_PyStr by simp
  then have "string_key kv = Inr (key_text (fst kv), snd kv)" by (metis prod.collapse string_key.simps(1))
  then show ?case using Cons by (simp add: text_items_def)
qed (simp add: text_items_def)

lemma sort_key_sorted: "sorted (map f xs) \<Longrightarrow> sort_key f xs = xs"
  by (rule sort_key_id_if_sorted)

locale json_reader =
  fixes hooks :: json_hooks
  assumes keeps_objects: "distinct (map fst kvs) \<Longrightarrow> object_pairs_hook hooks kvs = Inr (PyDict (string_items kvs))"
begin

lemma reads_array:
  assumes "list_all (\<lambda>x. \<exists>t. dump x = Inr t \<and> reads_as item x t) xs"
  shows "\<exists>t. dump_array dump xs = Inr (91 # t) \<and> (\<forall>r. scan_array item (t @ r) = Inr (PyList xs, r))"
proof -
  obtain g where g: "\<forall>x \<in> set xs. dump x = Inr (g x) \<and> reads_as item x (g x)" using assms by (auto simp: list_all_iff) metis
  then have "mapM dump xs = Inr (map g xs)" by (intro mapM_Inr) auto
  moreover have "list_all2 (reads_as item) xs (map g xs)" using g by (auto simp: list_all2_conv_all_nth)
  ultimately show ?thesis using scan_array_join by (auto simp: dump_array_def)
qed

lemma reads_object:
  assumes "list_all (\<lambda>kv. key_ok (fst kv) \<and> (\<exists>t. dump (snd kv) = Inr t \<and> reads_as item (snd kv) t)) kvs"
    and "sorted (map (key_text \<circ> fst) kvs)" "distinct (map (key_text \<circ> fst) kvs)"
  shows "\<exists>t. dump_object a dump kvs = Inr (123 # t) \<and> (\<forall>r. scan_object hooks item (t @ r) = Inr (PyDict kvs, r))"
proof -
  obtain g where g: "\<forall>kv \<in> set kvs. dump (snd kv) = Inr (g kv) \<and> reads_as item (snd kv) (g kv)"
    using assms(1) by (auto simp: list_all_iff) metis
  have k: "list_all (\<lambda>kv. key_ok (fst kv)) kvs" using assms(1) by (auto simp: list_all_iff)
  let ?h = "\<lambda>kv. quote a (key_text (fst kv)) @ [58] @ g kv"
  have s: "sort_key fst (text_items kvs) = text_items kvs"
    using assms(2) by (intro sort_key_sorted) (simp add: text_items_def comp_def)
  have m: "mapM (dump_member a dump) (text_items kvs) = Inr (map ?h kvs)"
    unfolding text_items_def mapM_map using g by (intro mapM_Inr) (auto simp: dump_member_def)
  have "reads_as (scan_member item) (key_text (fst kv), snd kv) (?h kv)" if "kv \<in> set kvs" for kv
    using that g k key_ok_PyStr by (intro reads_member) (auto simp: list_all_iff)
  then have "list_all2 (reads_as (scan_member item)) (text_items kvs) (map ?h kvs)"
    by (auto simp: list_all2_conv_all_nth text_items_def)
  note j = scan_object_join [OF this, of hooks]
  have "object_pairs_hook hooks (text_items kvs) = Inr (PyDict kvs)"
    using keeps_objects [of "text_items kvs"] assms(3) string_items_text [OF k] by (simp add: text_items_def comp_def)
  then show ?thesis using j by (auto simp: dump_object_def mapM_string_key [OF k] s m)
qed

lemma reads_dump:
  "json_normal d v \<Longrightarrow> \<exists>t. json_dumps a d v = Inr t \<and> reads_as (scan_once hooks d) v t"
proof (induction d arbitrary: v)
  case 0
  obtain t where t: "dump_scalar a v = Inr t" "reads_as (scan_scalar hooks) v t" "take 1 t \<noteq> [123]" "take 1 t \<noteq> [91]"
    using reads_scalar [of v a hooks] 0 by auto
  then obtain c cs where "t = c # cs" by (auto simp: reads_as_def starts_value_def split: list.splits)
  moreover have "\<not> is_container v" using 0 by (cases v) (auto simp: scalar_normal_def is_container_def)
  ultimately show ?case using t by (auto simp: reads_as_def)
next
  case (Suc d)
  show ?case
  proof (cases "is_container v")
    case False
    then have "scalar_normal v" using Suc.prems by (auto simp: is_container_def split: pyval.splits)
    then obtain t where t: "dump_scalar a v = Inr t" "reads_as (scan_scalar hooks) v t" "take 1 t \<noteq> [123]" "take 1 t \<noteq> [91]"
      using reads_scalar [of v a hooks] by auto
    then obtain c cs where "t = c # cs" by (auto simp: reads_as_def starts_value_def split: list.splits)
    moreover have "json_dumps a (Suc d) v = Inr t" using False t(1) by (cases v) (auto simp: is_container_def)
    ultimately show ?thesis using t by (auto simp: reads_as_def)
  next
    case True
    then consider xs where "v = PyList xs" | xs where "v = PyTuple xs" | kvs where "v = PyDict kvs"
      by (auto simp: is_container_def split: pyval.splits)
    then show ?thesis
    proof cases
      case 1
      have "list_all (\<lambda>x. \<exists>t. json_dumps a d x = Inr t \<and> reads_as (scan_once hooks d) x t) xs"
        using Suc 1 by (auto simp: list_all_iff)
      from reads_array [OF this] show ?thesis using 1 by (auto simp: reads_as_def starts_value_def is_ws_def)
    next
      case 2
      then show ?thesis using Suc.prems by (simp add: scalar_normal_def)
    next
      case 3
      have "list_all (\<lambda>kv. key_ok (fst kv) \<and> (\<exists>t. json_dumps a d (snd kv) = Inr t \<and> reads_as (scan_once hooks d) (snd kv) t)) kvs"
        using Suc 3 by (auto simp: list_all_iff)
      from reads_object [OF this, of a] show ?thesis using 3 Suc.prems
        by (auto simp: reads_as_def starts_value_def is_ws_def)
    qed
  qed
qed

lemma loads_dumps:
  assumes "json_normal d v"
  shows "\<exists>t. json_dumps a d v = Inr t \<and> json_loads hooks d t = Inr v \<and> json_loads hooks d (t @ [10]) = Inr v"
proof -
  obtain t where t: "json_dumps a d v = Inr t" "reads_as (scan_once hooks d) v t" using reads_dump [OF assms] by blast
  then obtain c cs where c: "t = c # cs" "\<not> is_ws c" "c < 128" by (auto simp: reads_as_def starts_value_def split: list.splits)
  then have "skip_ws t = t" "skip_ws (t @ [10]) = t @ [10]" by (simp_all add: skip_ws_def)
  moreover have "scan_once hooks d (t @ r) = Inr (v, r)" if "delimited r" for r
    using t(2) that by (simp add: reads_as_def)
  note this [of "[]"] this [of "[10]"]
  ultimately show ?thesis using t(1) c by (auto simp: json_loads_def skip_ws_def is_ws_def)
qed

end

text \<open>The characters of a printed text: ASCII under \<^verbatim>\<open>ensure_ascii\<close>, scalar values otherwise.\<close>

lemma dec_text_ascii: "c \<in> set (dec_text n) \<Longrightarrow> 32 \<le> c \<and> c < 128"
  using dec_text_digits [of n] by (auto simp: list_all_iff is_digit_def)

lemma hex_digit_ascii: "d < 16 \<Longrightarrow> 32 \<le> hex_digit d \<and> hex_digit d < 128"
  by (simp add: hex_digit_def)

lemma unicode_escape_ascii: "c \<in> set (unicode_escape u) \<Longrightarrow> 32 \<le> c \<and> c < 128"
  using be_digits_less [of 16 _ 4 u] hex_digit_ascii by (fastforce simp: unicode_escape_def format_hex_def)

lemma escape_char_ascii: "x \<in> set (escape_char a c) \<Longrightarrow> 32 \<le> x \<and> (x < 128 \<or> \<not> a \<and> x = c)"
  by (auto simp: escape_char_def dest: unicode_escape_ascii split: if_splits)

definition text_ok :: "bool \<Rightarrow> pystr \<Rightarrow> bool" where
  "text_ok a t \<longleftrightarrow> (\<forall>c \<in> set t. 32 \<le> c \<and> (c < 128 \<or> \<not> a \<and> is_scalar c))"

lemma text_ok_append [simp]: "text_ok a (s @ t) \<longleftrightarrow> text_ok a s \<and> text_ok a t"
  by (auto simp: text_ok_def)

lemma text_ok_Cons [simp]: "text_ok a (c # t) \<longleftrightarrow> 32 \<le> c \<and> (c < 128 \<or> \<not> a \<and> is_scalar c) \<and> text_ok a t" "text_ok a []"
  by (auto simp: text_ok_def)

lemma text_ok_scalars: "text_ok a t \<Longrightarrow> list_all is_scalar t"
  by (auto simp: text_ok_def list_all_iff is_scalar_def)

lemma text_ok_quote: "list_all is_scalar s \<Longrightarrow> text_ok a (quote a s)"
  using escape_char_ascii [of _ a] by (fastforce simp: text_ok_def quote_def list_all_iff)

lemma text_ok_join: "\<forall>t \<in> set ts. text_ok a t \<Longrightarrow> text_ok a (join_with [44] ts)"
  by (induction "[44] :: pystr" ts rule: join_with.induct) auto

lemma text_ok_scalar: "scalar_normal v \<Longrightarrow> dump_scalar a v = Inr t \<Longrightarrow> text_ok a t"
proof (cases v)
  case (PyInt n)
  assume "dump_scalar a v = Inr t"
  then show ?thesis using PyInt by (auto simp: text_ok_def int_repr_def dest: dec_text_ascii split: if_splits)
qed (auto simp: scalar_normal_def text_ok_quote lit_def split: if_splits)

lemma text_ok_dumps: "json_normal d v \<Longrightarrow> json_dumps a d v = Inr t \<Longrightarrow> text_ok a t"
proof (induction d arbitrary: v t)
  case 0
  then show ?case by (auto simp: text_ok_scalar)
next
  case (Suc d)
  show ?case
  proof (cases v)
    case (PyList xs)
    then obtain ts where ts: "mapM (json_dumps a d) xs = Inr ts" "t = [91] @ join_with [44] ts @ [93]"
      using Suc.prems(2) by (auto simp: dump_array_def)
    then have "\<forall>t' \<in> set ts. text_ok a t'"
      using Suc.IH Suc.prems(1) PyList mapM_in_set [OF ts(1)] by (fastforce simp: list_all_iff)
    then show ?thesis using ts text_ok_join by simp
  next
    case (PyDict kvs)
    have k: "list_all (\<lambda>kv. key_ok (fst kv) \<and> json_normal d (snd kv)) kvs" and so: "sorted (map (key_text \<circ> fst) kvs)"
      using Suc.prems(1) PyDict by auto
    have k': "list_all (\<lambda>kv. key_ok (fst kv)) kvs" using k by (auto simp: list_all_iff)
    have s: "sort_key fst (text_items kvs) = text_items kvs"
      using so by (intro sort_key_sorted) (simp add: text_items_def comp_def)
    obtain ts where ts: "mapM (dump_member a (json_dumps a d)) (text_items kvs) = Inr ts" "t = [123] @ join_with [44] ts @ [125]"
      using Suc.prems(2) PyDict by (auto simp: dump_object_def mapM_string_key [OF k'] s)
    have "text_ok a t'" if "kv \<in> set kvs" "dump_member a (json_dumps a d) (key_text (fst kv), snd kv) = Inr t'" for kv t'
      using that k Suc.IH key_ok_PyStr [of "fst kv"] by (auto simp: dump_member_def list_all_iff text_ok_quote)
    then have "\<forall>t' \<in> set ts. text_ok a t'"
      using mapM_in_set [OF ts(1)] by (fastforce simp: text_items_def)
    then show ?thesis using ts text_ok_join by simp
  qed (use Suc.prems text_ok_scalar [of v a t] in \<open>auto simp: scalar_normal_def\<close>)
qed

text \<open>The loop of the hooks that refuse duplicate keys.\<close>

definition put_new :: "'e \<Rightarrow> ('k \<times> 'v) list \<Rightarrow> 'k \<times> 'v \<Rightarrow> 'e + ('k \<times> 'v) list" where
  "put_new e result kv = (if fst kv \<in> set (map fst result) then Inl e else Inr (dict_put result (fst kv) (snd kv)))"

lemma put_new_distinct:
  "distinct (map fst (acc @ kvs)) \<Longrightarrow> foldM (put_new e) acc kvs = Inr (acc @ kvs)"
proof (induction kvs arbitrary: acc)
  case (Cons kv kvs)
  then have "fst kv \<notin> fst ` set acc" by auto
  then have "put_new e acc kv = Inr (acc @ [kv])" by (simp add: put_new_def dict_put_fresh)
  then show ?case using Cons.IH [of "acc @ [kv]"] Cons.prems by simp
qed simp

lemma put_new_duplicate:
  "distinct (map fst acc) \<Longrightarrow> \<not> distinct (map fst (acc @ kvs)) \<Longrightarrow> foldM (put_new e) acc kvs = Inl e"
proof (induction kvs arbitrary: acc)
  case (Cons kv kvs)
  show ?case
  proof (cases "fst kv \<in> fst ` set acc")
    case False
    then have "put_new e acc kv = Inr (acc @ [kv])" by (simp add: put_new_def dict_put_fresh)
    then show ?thesis using Cons.IH [of "acc @ [kv]"] Cons.prems False by simp
  qed (simp add: put_new_def)
qed simp

section \<open>Sorting the keys\<close>

text \<open>Data the encoder accepts in any key order, and its reordering.\<close>

primrec json_wf :: "nat \<Rightarrow> pyval \<Rightarrow> bool" where
  "json_wf 0 v = scalar_normal v"
| "json_wf (Suc depth) v =
     (case v of
        PyList xs \<Rightarrow> list_all (json_wf depth) xs
      | PyDict kvs \<Rightarrow> list_all (\<lambda>kv. key_ok (fst kv) \<and> json_wf depth (snd kv)) kvs \<and> distinct (map (key_text \<circ> fst) kvs)
      | _ \<Rightarrow> scalar_normal v)"

primrec json_sort :: "nat \<Rightarrow> pyval \<Rightarrow> pyval" where
  "json_sort 0 v = v"
| "json_sort (Suc depth) v =
     (case v of
        PyList xs \<Rightarrow> PyList (map (json_sort depth) xs)
      | PyDict kvs \<Rightarrow> PyDict (sort_key (key_text \<circ> fst) (map (\<lambda>kv. (fst kv, json_sort depth (snd kv))) kvs))
      | _ \<Rightarrow> v)"

definition sorted_items :: "nat \<Rightarrow> (pyval \<times> pyval) list \<Rightarrow> (pyval \<times> pyval) list" where
  "sorted_items d kvs = sort_key (key_text \<circ> fst) (map (\<lambda>kv. (fst kv, json_sort d (snd kv))) kvs)"

lemma json_sort_dict: "json_sort (Suc d) (PyDict kvs) = PyDict (sorted_items d kvs)"
  by (simp add: sorted_items_def)

lemma json_sort_scalar: "scalar_normal v \<Longrightarrow> json_sort d v = v"
  by (cases d) (auto simp: scalar_normal_def split: pyval.splits)

lemma mset_sorted_items: "mset (sorted_items d kvs) = mset (map (\<lambda>kv. (fst kv, json_sort d (snd kv))) kvs)"
  by (simp add: sorted_items_def)

lemma set_sorted_items: "set (sorted_items d kvs) = (\<lambda>kv. (fst kv, json_sort d (snd kv))) ` set kvs"
  by (simp add: sorted_items_def)

lemma keys_sorted_items:
  "sorted (map (key_text \<circ> fst) (sorted_items d kvs))"
  "distinct (map (key_text \<circ> fst) (sorted_items d kvs)) \<longleftrightarrow> distinct (map (key_text \<circ> fst) kvs)"
proof -
  show "sorted (map (key_text \<circ> fst) (sorted_items d kvs))" by (simp add: sorted_items_def)
  have "mset (map (key_text \<circ> fst) (sorted_items d kvs)) = mset (map (key_text \<circ> fst) kvs)"
    by (simp add: sorted_items_def comp_def image_mset.compositionality)
  then show "distinct (map (key_text \<circ> fst) (sorted_items d kvs)) \<longleftrightarrow> distinct (map (key_text \<circ> fst) kvs)"
    by (rule mset_eq_imp_distinct_iff)
qed

lemma json_sort_normal: "json_wf d v \<Longrightarrow> json_normal d (json_sort d v)"
proof (induction d arbitrary: v)
  case (Suc d)
  show ?case
  proof (cases v)
    case (PyDict kvs)
    then show ?thesis using Suc keys_sorted_items [of d kvs] unfolding PyDict json_sort_dict
      by (auto simp: list_all_iff set_sorted_items)
  qed (use Suc in \<open>auto simp: list_all_iff scalar_normal_def\<close>)
qed simp

lemma insort_key_map: "(\<And>x. f (h x) = g x) \<Longrightarrow> insort_key f (h x) (map h xs) = map h (insort_key g x xs)"
  by (induction xs) auto

lemma sort_key_map: "(\<And>x. f (h x) = g x) \<Longrightarrow> sort_key f (map h xs) = map h (sort_key g xs)"
  by (induction xs) (auto simp: insort_key_map)

lemma dump_object_sorted:
  assumes "list_all (\<lambda>kv. key_ok (fst kv)) kvs" "distinct (map (key_text \<circ> fst) kvs)"
    and "\<And>kv. kv \<in> set kvs \<Longrightarrow> dump (json_sort d (snd kv)) = dump (snd kv)"
  shows "dump_object a dump (sorted_items d kvs) = dump_object a dump kvs"
proof -
  let ?h = "\<lambda>kv. (fst kv, json_sort d (snd kv))"
  have k: "list_all (\<lambda>kv. key_ok (fst kv)) (sorted_items d kvs)" using assms(1) by (auto simp: list_all_iff set_sorted_items)
  have m: "mset (text_items (sorted_items d kvs)) = mset (map ?h (text_items kvs))"
    by (simp add: text_items_def mset_map mset_sorted_items image_mset.compositionality comp_def del: mset_map)
      (simp add: mset_sorted_items image_mset.compositionality comp_def)
  have inj: "inj_on fst (set (text_items (sorted_items d kvs)))"
    using distinct_map [of fst "text_items (sorted_items d kvs)"] keys_sorted_items(2) [of d kvs] assms(2)
    by (simp add: text_items_def comp_def)
  have "sort_key fst (text_items (sorted_items d kvs)) = sort_key fst (map ?h (text_items kvs))"
    by (rule sort_key_cong_mset [OF m inj])
  also have "\<dots> = map ?h (sort_key fst (text_items kvs))" by (rule sort_key_map) simp
  finally have s: "sort_key fst (text_items (sorted_items d kvs)) = map ?h (sort_key fst (text_items kvs))" .
  have "dump (json_sort d (snd kv)) = dump (snd kv)" if "kv \<in> set (text_items kvs)" for kv
    using that assms(3) by (auto simp: text_items_def)
  then have "mapM (dump_member a dump) (map ?h (sort_key fst (text_items kvs))) = mapM (dump_member a dump) (sort_key fst (text_items kvs))"
    unfolding mapM_map by (intro mapM_cong) (auto simp: dump_member_def)
  then show ?thesis by (simp add: dump_object_def mapM_string_key [OF k] mapM_string_key [OF assms(1)] s)
qed

lemma dumps_sort: "json_wf d v \<Longrightarrow> json_dumps a d (json_sort d v) = json_dumps a d v"
proof (induction d arbitrary: v)
  case (Suc d)
  show ?case
  proof (cases v)
    case (PyList xs)
    have "mapM (json_dumps a d) (map (json_sort d) xs) = mapM (json_dumps a d) xs"
      unfolding mapM_map using Suc PyList by (intro mapM_cong) (auto simp: list_all_iff)
    then show ?thesis using PyList by (simp add: dump_array_def)
  next
    case (PyDict kvs)
    then have "dump_object a (json_dumps a d) (sorted_items d kvs) = dump_object a (json_dumps a d) kvs"
      using Suc by (intro dump_object_sorted) (auto simp: list_all_iff)
    then show ?thesis by (simp add: PyDict sorted_items_def)
  qed auto
qed simp

text \<open>Looking up a key does not depend on the order.\<close>

lemma distinct_keys: "distinct (map (key_text \<circ> fst) kvs) \<Longrightarrow> distinct (map fst kvs)"
  by (induction kvs) (auto simp: image_iff)

lemma map_of_sorted_items:
  assumes "list_all (\<lambda>kv. key_ok (fst kv)) kvs" "distinct (map (key_text \<circ> fst) kvs)"
  shows "map_of (sorted_items d kvs) k = map_option (json_sort d) (map_of kvs k)"
proof -
  have k: "list_all (\<lambda>kv. key_ok (fst kv)) (sorted_items d kvs)" using assms(1) by (auto simp: list_all_iff set_sorted_items)
  have d: "distinct (map fst kvs)" "distinct (map fst (sorted_items d kvs))"
    using distinct_keys [OF assms(2)] distinct_keys [of "sorted_items d kvs"] keys_sorted_items(2) [of d kvs] assms(2) by auto
  have "map_of (sorted_items d kvs) = map_of (map (\<lambda>kv. (fst kv, json_sort d (snd kv))) kvs)"
    using d by (intro map_of_inject_set [THEN iffD2]) (auto simp: set_sorted_items comp_def)
  also have "\<dots> = map_option (json_sort d) \<circ> map_of kvs" by (induction kvs) auto
  finally show ?thesis by simp
qed

end
