(* ===== verification/F64_Codec.thy ===== *)
theory F64_Codec
  imports Sha256 Py_Json
begin

text \<open>
  The canonical array codec of \<^verbatim>\<open>src/scripts/cp2/cp2_f64_codec.py\<close>: a shape of u64 dimensions and
  the row-major elements as 16-digit binary64 patterns, in one canonical JSON line. Decoding parses
  the JSON with duplicate, float and constant hooks, validates every field, re-encodes and compares
  the bytes. \<open>depth\<close> is the interpreter's remaining recursion limit for the JSON calls.
\<close>

section \<open>Constants and scalars\<close>

definition F64_U64_MAX :: int where "F64_U64_MAX = 2 ^ 64 - 1"
definition MAX_DOCUMENT_BYTES :: nat where "MAX_DOCUMENT_BYTES = 2 ^ 20"
definition MAX_RANK :: nat where "MAX_RANK = 8"
definition MAX_ELEMENTS :: int where "MAX_ELEMENTS = 32768"

definition f64_fail :: "string \<Rightarrow> 'a py" where
  "f64_fail message = Inl (F64CodecError message)"

lemma f64_fail_not_Inr [simp]: "f64_fail m \<noteq> Inr x"
  by (simp add: f64_fail_def)

lemma if_f64_fail_eq [simp]: "(if b then f64_fail m else r) = Inr y \<longleftrightarrow> \<not> b \<and> r = Inr y"
  by (simp add: f64_fail_def)

definition validate_dimension :: "pyval \<Rightarrow> int py" where
  "validate_dimension value =
     (case value of
        PyInt n \<Rightarrow> if n < 0 \<or> F64_U64_MAX < n then f64_fail ''is outside unsigned 64-bit range'' else Inr n
      | _ \<Rightarrow> f64_fail ''must be an unsigned 64-bit integer'')"

definition sequence_items :: "pyval \<Rightarrow> pyval list option" where
  "sequence_items v = (case v of PyList xs \<Rightarrow> Some xs | PyTuple xs \<Rightarrow> Some xs | _ \<Rightarrow> None)"

definition normalize_shape :: "pyval \<Rightarrow> int list py" where
  "normalize_shape shape =
     (case sequence_items shape of
        None \<Rightarrow> f64_fail ''shape must be a list or tuple''
      | Some xs \<Rightarrow> and_then (mapM validate_dimension xs) (\<lambda>dimensions.
          if MAX_RANK < length dimensions then f64_fail ''shape rank exceeds the frozen resource bound''
          else Inr dimensions))"

definition count_step :: "int \<Rightarrow> int \<Rightarrow> int py" where
  "count_step elements dimension =
     (if elements \<noteq> 0 \<and> F64_U64_MAX div elements < dimension
      then f64_fail ''shape element count overflows unsigned 64-bit'' else Inr (elements * dimension))"

definition checked_element_count :: "pyval \<Rightarrow> int py" where
  "checked_element_count shape =
     and_then (normalize_shape shape) (\<lambda>dimensions.
     and_then (foldM count_step 1 dimensions) (\<lambda>elements.
       if MAX_ELEMENTS < elements then f64_fail ''shape element count exceeds the frozen resource bound'' else Inr elements))"

text \<open>\<^verbatim>\<open>struct.pack(">d", x).hex()\<close> and \<^verbatim>\<open>struct.unpack(">d", bytes.fromhex(s))\<close>.\<close>

definition pack_f64 :: "f64 \<Rightarrow> bytes" where
  "pack_f64 x = to_bytes 8 (unat x)"

definition unpack_f64 :: "bytes \<Rightarrow> f64" where
  "unpack_f64 bs = word_of_nat (from_bytes bs)"

fun bytes_fromhex :: "pystr \<Rightarrow> bytes" where
  "bytes_fromhex (a # b # r) = word_of_nat (hex_value a * 16 + hex_value b) # bytes_fromhex r"
| "bytes_fromhex _ = []"

definition f64_to_bits_hex :: "pyval \<Rightarrow> pystr py" where
  "f64_to_bits_hex value =
     (case value of
        PyFloat x \<Rightarrow> if \<not> f64_finite x then f64_fail ''binary64 scalar must be finite'' else Inr (hexdigest (pack_f64 x))
      | _ \<Rightarrow> f64_fail ''binary64 scalar must be a native Python float'')"

definition bits_hex_to_f64 :: "pyval \<Rightarrow> f64 py" where
  "bits_hex_to_f64 bits =
     (case bits of
        PyStr s \<Rightarrow>
          if \<not> lower_hex_exactly 16 s then f64_fail ''binary64 bits must be exactly 16 lowercase hexadecimal digits''
          else let value = unpack_f64 (bytes_fromhex s) in
               if \<not> f64_finite value then f64_fail ''binary64 bits encode a non-finite value'' else Inr value
      | _ \<Rightarrow> f64_fail ''binary64 bits must be exactly 16 lowercase hexadecimal digits'')"

text \<open>
  The loop that validates and keeps each pattern; an accepted pattern is a string. The code re-raises
  the codec error with the index put in front.
\<close>

definition checked_bits :: "pyval \<Rightarrow> pystr py" where
  "checked_bits item = and_then (bits_hex_to_f64 item) (\<lambda>_. Inr (key_text item))"

definition normalize_bits :: "pyval \<Rightarrow> int \<Rightarrow> pystr list py" where
  "normalize_bits bits expected_count =
     (case sequence_items bits of
        None \<Rightarrow> f64_fail ''bits must be a list or tuple''
      | Some xs \<Rightarrow>
          if int (length xs) \<noteq> expected_count then f64_fail ''bits count does not match shape element count''
          else mapM checked_bits xs)"

section \<open>Encoding\<close>

definition array_document :: "int list \<Rightarrow> pystr list \<Rightarrow> pyval" where
  "array_document shape bits =
     PyDict [(PyStr (lit ''shape''), PyList (map PyInt shape)), (PyStr (lit ''bits''), PyList (map PyStr bits))]"

definition canonical_bytes_from_bits :: "nat \<Rightarrow> int list \<Rightarrow> pystr list \<Rightarrow> bytes py" where
  "canonical_bytes_from_bits depth shape bits =
     and_then (json_dumps False depth (array_document shape bits)) (\<lambda>text.
       case utf8_encode text of
         None \<Rightarrow> Inl (ValueError ''surrogates not allowed'')
       | Some encoded \<Rightarrow> Inr (encoded @ [10]))"

definition encode_f64_bits_array :: "nat \<Rightarrow> pyval \<Rightarrow> pyval \<Rightarrow> bytes py" where
  "encode_f64_bits_array depth shape bits =
     and_then (normalize_shape shape) (\<lambda>normalized_shape.
     and_then (checked_element_count (PyTuple (map PyInt normalized_shape))) (\<lambda>elements.
     and_then (normalize_bits bits elements) (\<lambda>normalized_bits.
       canonical_bytes_from_bits depth normalized_shape normalized_bits)))"

definition encode_f64_array :: "nat \<Rightarrow> pyval \<Rightarrow> pyval \<Rightarrow> bytes py" where
  "encode_f64_array depth shape values =
     and_then (normalize_shape shape) (\<lambda>normalized_shape.
     and_then (checked_element_count (PyTuple (map PyInt normalized_shape))) (\<lambda>elements.
     case sequence_items values of
       None \<Rightarrow> f64_fail ''values must be a list or tuple in flattened C-row-major order''
     | Some xs \<Rightarrow>
         if int (length xs) \<noteq> elements then f64_fail ''values count does not match shape element count''
         else and_then (mapM f64_to_bits_hex xs) (\<lambda>bits. canonical_bytes_from_bits depth normalized_shape bits)))"

section \<open>Decoding\<close>

definition f64_object_without_duplicates :: "(pystr \<times> pyval) list \<Rightarrow> pyval py" where
  "f64_object_without_duplicates pairs =
     and_then (foldM (put_new (F64CodecError ''duplicate JSON object key'')) [] pairs)
       (\<lambda>result. Inr (PyDict (string_items result)))"

definition f64_hooks :: json_hooks where
  "f64_hooks = \<lparr>object_pairs_hook = f64_object_without_duplicates,
     parse_float = (\<lambda>token. f64_fail ''JSON floating-point numbers are forbidden''),
     parse_constant = (\<lambda>token. f64_fail ''non-JSON numeric constants are forbidden'')\<rparr>"

text \<open>\<^verbatim>\<open>except (TypeError, ValueError)\<close> around \<^verbatim>\<open>json.loads\<close>; codec errors pass through.\<close>

definition rewrap_json_error :: "'a py \<Rightarrow> 'a py" where
  "rewrap_json_error m =
     (case m of
        Inl (ValueError _) \<Rightarrow> f64_fail ''invalid JSON document''
      | Inl (TypeError _) \<Rightarrow> f64_fail ''invalid JSON document''
      | _ \<Rightarrow> m)"

definition parse_document :: "nat \<Rightarrow> pyval \<Rightarrow> (bytes \<times> (pyval \<times> pyval) list) py" where
  "parse_document depth document =
     and_then (case document of PyBytes raw \<Rightarrow> Inr raw | PyByteArray raw \<Rightarrow> Inr raw
               | _ \<Rightarrow> f64_fail ''document must be UTF-8 bytes or bytearray'') (\<lambda>raw.
     if length raw = 0 \<or> MAX_DOCUMENT_BYTES < length raw
     then f64_fail ''document size is outside the frozen resource bound''
     else if take 3 raw = [0xEF, 0xBB, 0xBF] then f64_fail ''UTF-8 BOM is forbidden''
     else if last raw \<noteq> 10 \<or> (2 \<le> length raw \<and> last (butlast raw) = 10)
     then f64_fail ''document must have exactly one terminal LF''
     else case utf8_decode raw of
       None \<Rightarrow> f64_fail ''document is not strict UTF-8''
     | Some text \<Rightarrow>
         and_then (rewrap_json_error (json_loads f64_hooks depth text)) (\<lambda>value.
         case value of
           PyDict kvs \<Rightarrow> Inr (raw, kvs)
         | _ \<Rightarrow> f64_fail ''top-level JSON value must be an object''))"

record f64_array =
  fa_shape :: "int list"
  fa_bits :: "pystr list"

text \<open>\<^verbatim>\<open>F64Array.__post_init__\<close>.\<close>

definition make_f64_array :: "pyval \<Rightarrow> pyval \<Rightarrow> f64_array py" where
  "make_f64_array shape bits =
     and_then (normalize_shape shape) (\<lambda>normalized.
     and_then (checked_element_count (PyTuple (map PyInt normalized))) (\<lambda>elements.
     and_then (normalize_bits bits elements) (\<lambda>kept. Inr \<lparr>fa_shape = normalized, fa_bits = kept\<rparr>)))"

definition fa_values :: "f64_array \<Rightarrow> f64 list py" where
  "fa_values a = mapM bits_hex_to_f64 (map PyStr (fa_bits a))"

definition fa_canonical_bytes :: "nat \<Rightarrow> f64_array \<Rightarrow> bytes py" where
  "fa_canonical_bytes depth a = canonical_bytes_from_bits depth (fa_shape a) (fa_bits a)"

definition fa_sha256 :: "nat \<Rightarrow> f64_array \<Rightarrow> pystr py" where
  "fa_sha256 depth a = and_then (fa_canonical_bytes depth a) (\<lambda>b. Inr (hexdigest (sha256 b)))"

definition get_field :: "(pyval \<times> pyval) list \<Rightarrow> string \<Rightarrow> pyval py" where
  "get_field kvs key = (case map_of kvs (PyStr (lit key)) of None \<Rightarrow> Inl (KeyError key) | Some v \<Rightarrow> Inr v)"

definition is_list :: "pyval \<Rightarrow> bool" where
  "is_list v = (case v of PyList _ \<Rightarrow> True | _ \<Rightarrow> False)"

definition decode_f64_array :: "nat \<Rightarrow> pyval \<Rightarrow> f64_array py" where
  "decode_f64_array depth document =
     and_then (parse_document depth document) (\<lambda>(raw, value).
     if set (map fst value) \<noteq> {PyStr (lit ''bits''), PyStr (lit ''shape'')} \<or> length value \<noteq> 2
     then f64_fail ''array object must have exactly the keys bits and shape''
     else
     and_then (get_field value ''shape'') (\<lambda>shape_value.
     if \<not> is_list shape_value then f64_fail ''shape must be a JSON array''
     else
     and_then (get_field value ''bits'') (\<lambda>bits_value.
     if \<not> is_list bits_value then f64_fail ''bits must be a JSON array''
     else
     and_then (normalize_shape shape_value) (\<lambda>shape.
     and_then (checked_element_count (PyTuple (map PyInt shape))) (\<lambda>elements.
     and_then (normalize_bits bits_value elements) (\<lambda>bits.
     and_then (make_f64_array (PyTuple (map PyInt shape)) (PyTuple (map PyStr bits))) (\<lambda>decoded.
     and_then (fa_canonical_bytes depth decoded) (\<lambda>canonical.
     if raw \<noteq> canonical then f64_fail ''document is valid JSON but is not the canonical encoding''
     else Inr decoded))))))))"

definition canonical_f64_array_sha256 :: "nat \<Rightarrow> pyval \<Rightarrow> pystr py" where
  "canonical_f64_array_sha256 depth document = and_then (decode_f64_array depth document) (fa_sha256 depth)"

definition encode_f64_array_with_sha256 :: "nat \<Rightarrow> pyval \<Rightarrow> pyval \<Rightarrow> (bytes \<times> pystr) py" where
  "encode_f64_array_with_sha256 depth shape values =
     and_then (encode_f64_array depth shape values) (\<lambda>document. Inr (document, hexdigest (sha256 document)))"

end
