(* ===== verification/F64_Codec_Correct.thy ===== *)
theory F64_Codec_Correct
  imports F64_Codec
begin

text \<open>
  Correctness of the binary64 array codec: patterns and values correspond one to one, element counts
  are exact, encoded arrays decode to themselves and every accepted document is the canonical one.
  The JSON round trip is an instance of \<^verbatim>\<open>json_reader\<close>.
\<close>

section \<open>Hexadecimal patterns\<close>

lemma f64_hooks_pairs: "distinct (map fst kvs) \<Longrightarrow> object_pairs_hook f64_hooks kvs = Inr (PyDict (string_items kvs))"
  using put_new_distinct [of "[]" kvs] by (simp add: f64_hooks_def f64_object_without_duplicates_def)

interpretation f64_reader: json_reader f64_hooks
  by unfold_locales (rule f64_hooks_pairs)

lemma format_hex_2: "format_hex 2 n = [hex_digit (n div 16 mod 16), hex_digit (n mod 16)]"
  by (simp add: format_hex_def numeral_2_eq_2)

lemma fromhex_hexdigest: "bytes_fromhex (hexdigest bs) = bs"
proof (induction bs)
  case (Cons b bs)
  have "unat b div 16 mod 16 * 16 + unat b mod 16 = unat b"
    using unat_byte_less [of b] div_mult_mod_eq [of "unat b" 16] by simp
  then show ?case using Cons by (simp add: hexdigest_def format_hex_2 hex_value_digit)
qed (simp add: hexdigest_def)

lemma unpack_pack: "unpack_f64 (pack_f64 x) = x"
proof -
  have "unat x < 256 ^ 8" using unsigned_less [of x, where 'a = nat] by simp
  then show ?thesis by (simp add: unpack_f64_def pack_f64_def from_to_bytes)
qed

lemma pack_unpack: "length bs = 8 \<Longrightarrow> pack_f64 (unpack_f64 bs) = bs"
proof -
  assume b: "length bs = 8"
  then have "from_bytes bs < 2 ^ 64" using from_bytes_less [of bs] by simp
  then have "unat (word_of_nat (from_bytes bs) :: f64) = from_bytes bs" by (simp add: unat_of_nat)
  then show ?thesis using to_from_bytes [of bs] b by (simp add: pack_f64_def unpack_f64_def)
qed

lemma hexdigest_fromhex: "lower_hex_exactly (2 * k) s \<Longrightarrow> hexdigest (bytes_fromhex s) = s \<and> length (bytes_fromhex s) = k"
proof (induction k arbitrary: s)
  case 0
  then show ?case by (simp add: lower_hex_exactly_def hexdigest_def)
next
  case (Suc k)
  then obtain a b r where s: "s = a # b # r" "is_lower_hex a" "is_lower_hex b" "lower_hex_exactly (2 * k) r"
    by (auto simp: lower_hex_exactly_def length_Suc_conv)
  have v: "hex_value a < 16" "hex_value b < 16" using s hex_value_less by auto
  then have "unat (word_of_nat (hex_value a * 16 + hex_value b) :: byte) = hex_value a * 16 + hex_value b"
    by (subst unat_of_nat) simp
  then have "format_hex 2 (unat (word_of_nat (hex_value a * 16 + hex_value b) :: byte)) = [a, b]"
    using v s by (simp add: format_hex_2 hex_digit_value)
  then show ?case using Suc.IH [OF s(4)] s(1) by (simp add: hexdigest_def)
qed

lemma length_pack_f64 [simp]: "length (pack_f64 x) = 8"
  by (simp add: pack_f64_def)

lemma bits_hex_iff:
  "bits_hex_to_f64 v = Inr x \<longleftrightarrow> v = PyStr (hexdigest (pack_f64 x)) \<and> f64_finite x"
proof
  assume "bits_hex_to_f64 v = Inr x"
  then obtain s where s: "v = PyStr s" "lower_hex_exactly 16 s" "x = unpack_f64 (bytes_fromhex s)" "f64_finite x"
    by (auto simp: bits_hex_to_f64_def f64_fail_def Let_def split: pyval.splits if_splits)
  then have "hexdigest (bytes_fromhex s) = s" "length (bytes_fromhex s) = 8"
    using hexdigest_fromhex [of 8 s] by auto
  then show "v = PyStr (hexdigest (pack_f64 x)) \<and> f64_finite x" using s by (simp add: pack_unpack)
next
  assume "v = PyStr (hexdigest (pack_f64 x)) \<and> f64_finite x"
  moreover have "lower_hex_exactly 16 (hexdigest (pack_f64 x))" using hexdigest_shape [of "pack_f64 x"] by simp
  ultimately show "bits_hex_to_f64 v = Inr x"
    by (simp add: bits_hex_to_f64_def fromhex_hexdigest unpack_pack)
qed

lemma f64_to_bits_iff: "f64_to_bits_hex v = Inr s \<longleftrightarrow> (\<exists>x. v = PyFloat x \<and> f64_finite x \<and> s = hexdigest (pack_f64 x))"
  by (auto simp: f64_to_bits_hex_def f64_fail_def split: pyval.splits if_splits)

lemma checked_bits_iff: "checked_bits v = Inr s \<longleftrightarrow> v = PyStr s \<and> (\<exists>x. s = hexdigest (pack_f64 x) \<and> f64_finite x)"
  by (auto simp: checked_bits_def bits_hex_iff)

section \<open>Shapes\<close>

lemma validate_dimension_iff: "validate_dimension v = Inr n \<longleftrightarrow> v = PyInt n \<and> 0 \<le> n \<and> n \<le> F64_U64_MAX"
  by (auto simp: validate_dimension_def f64_fail_def split: pyval.splits if_splits)

lemma normalize_shape_iff:
  "normalize_shape v = Inr ds \<longleftrightarrow>
   sequence_items v = Some (map PyInt ds) \<and> (\<forall>d \<in> set ds. 0 \<le> d \<and> d \<le> F64_U64_MAX) \<and> length ds \<le> MAX_RANK"
proof -
  have "mapM validate_dimension xs = Inr ds \<longleftrightarrow> xs = map PyInt ds \<and> (\<forall>d \<in> set ds. 0 \<le> d \<and> d \<le> F64_U64_MAX)" for xs
    by (induction xs arbitrary: ds) (auto simp: validate_dimension_iff)
  then show ?thesis by (auto simp: normalize_shape_def not_less split: option.splits)
qed

lemma sequence_items_simps [simp]: "sequence_items (PyList xs) = Some xs" "sequence_items (PyTuple xs) = Some xs"
  by (simp_all add: sequence_items_def)

lemma count_step_iff:
  assumes "0 \<le> p" "0 \<le> d" "p \<le> F64_U64_MAX"
  shows "count_step p d = Inr n \<longleftrightarrow> n = p * d \<and> p * d \<le> F64_U64_MAX"
proof (cases "p = 0")
  case True
  then show ?thesis by (auto simp: count_step_def F64_U64_MAX_def)
next
  case False
  then have "d \<le> F64_U64_MAX div p \<longleftrightarrow> p * d \<le> F64_U64_MAX"
    using div_less_product [of p F64_U64_MAX d] assms by (simp add: mult.commute not_less [symmetric])
  then show ?thesis using False by (auto simp: count_step_def f64_fail_def)
qed

lemma count_fold_iff:
  assumes "0 \<le> p" "p \<le> F64_U64_MAX" "\<forall>d \<in> set ds. 0 \<le> d"
  shows "foldM count_step p ds = Inr n \<longleftrightarrow> n = p * prod_list ds \<and> (\<forall>k \<le> length ds. p * prod_list (take k ds) \<le> F64_U64_MAX)"
  using assms
proof (induction ds arbitrary: p)
  case Nil
  then show ?case by auto
next
  case (Cons d ds)
  have "(\<forall>k \<le> length (d # ds). p * prod_list (take k (d # ds)) \<le> F64_U64_MAX) \<longleftrightarrow>
        p * d \<le> F64_U64_MAX \<and> (\<forall>k \<le> length ds. p * d * prod_list (take k ds) \<le> F64_U64_MAX)"
    (is "?l \<longleftrightarrow> ?r")
  proof
    assume l: ?l
    have "p * d * prod_list (take k ds) \<le> F64_U64_MAX" if "k \<le> length ds" for k
      using l [rule_format, of "Suc k"] that by (simp add: mult.assoc)
    then show ?r using l [rule_format, of 1] by simp
  next
    assume r: ?r
    show ?l
    proof (intro allI impI)
      fix k assume "k \<le> length (d # ds)"
      then show "p * prod_list (take k (d # ds)) \<le> F64_U64_MAX"
        using r Cons.prems(2) by (cases k) (auto simp: mult.assoc)
    qed
  qed
  moreover have "foldM count_step p (d # ds) = Inr n \<longleftrightarrow> p * d \<le> F64_U64_MAX \<and> foldM count_step (p * d) ds = Inr n"
    using count_step_iff [of p d] Cons.prems by auto
  ultimately show ?case using Cons.IH [of "p * d"] Cons.prems by (auto simp: mult.assoc)
qed

text \<open>
  C35. The element count of a shape is the product of its dimensions, and it is given exactly for a list
  or tuple of at most eight u64 dimensions none of whose leading products overflows u64 and whose
  product is within the resource bound.
\<close>

theorem element_count_exact:
  "checked_element_count shape = Inr n \<longleftrightarrow>
   (\<exists>ds. sequence_items shape = Some (map PyInt ds) \<and> (\<forall>d \<in> set ds. 0 \<le> d \<and> d \<le> F64_U64_MAX) \<and> length ds \<le> MAX_RANK \<and>
         (\<forall>k \<le> length ds. prod_list (take k ds) \<le> F64_U64_MAX) \<and> n = prod_list ds \<and> n \<le> MAX_ELEMENTS)"
proof -
  have "foldM count_step 1 ds = Inr m \<longleftrightarrow> m = prod_list ds \<and> (\<forall>k \<le> length ds. prod_list (take k ds) \<le> F64_U64_MAX)"
    if "\<forall>d \<in> set ds. 0 \<le> d \<and> d \<le> F64_U64_MAX" for ds m
    using count_fold_iff [of 1 ds m] that by (auto simp: F64_U64_MAX_def)
  then show ?thesis
    by (simp add: checked_element_count_def normalize_shape_iff not_less) blast
qed

theorem element_count_exact_witness:
  "checked_element_count (PyList [PyInt 2, PyInt 3]) = Inr 6"
proof -
  have "\<forall>k \<le> length [2, 3 :: int]. prod_list (take k [2, 3]) \<le> F64_U64_MAX"
    by (auto simp: le_Suc_eq F64_U64_MAX_def)
  then have "\<exists>ds. sequence_items (PyList [PyInt 2, PyInt 3]) = Some (map PyInt ds) \<and> (\<forall>d \<in> set ds. 0 \<le> d \<and> d \<le> F64_U64_MAX) \<and>
      length ds \<le> MAX_RANK \<and> (\<forall>k \<le> length ds. prod_list (take k ds) \<le> F64_U64_MAX) \<and> 6 = prod_list ds \<and> 6 \<le> MAX_ELEMENTS"
    by (intro exI [of _ "[2, 3]"]) (simp add: sequence_items_def F64_U64_MAX_def MAX_RANK_def MAX_ELEMENTS_def)
  then show ?thesis using element_count_exact by blast
qed

section \<open>The canonical text\<close>

lemma dump_strings: "dump_array (json_dumps a d) (map PyStr ss) = Inr ([91] @ join_with [44] (map (quote a) ss) @ [93])"
proof -
  have "mapM (json_dumps a d) (map PyStr ss) = Inr (map (quote a) ss)"
    unfolding mapM_map by (intro mapM_Inr) (cases d; simp add: is_container_def)
  then show ?thesis by (simp add: dump_array_def)
qed

lemma dump_ints: "dump_array (json_dumps a d) (map PyInt ns) = Inr ([91] @ join_with [44] (map int_repr ns) @ [93])"
proof -
  have "mapM (json_dumps a d) (map PyInt ns) = Inr (map int_repr ns)"
    unfolding mapM_map by (intro mapM_Inr) (cases d; simp add: is_container_def)
  then show ?thesis by (simp add: dump_array_def)
qed

definition sorted_document :: "int list \<Rightarrow> pystr list \<Rightarrow> pyval" where
  "sorted_document shape bits =
     PyDict [(PyStr (lit ''bits''), PyList (map PyStr bits)), (PyStr (lit ''shape''), PyList (map PyInt shape))]"

lemma dumps_document_sorted: "json_dumps a d (array_document shape bits) = json_dumps a d (sorted_document shape bits)"
  by (cases d) (simp_all add: array_document_def sorted_document_def dump_object_def lit_def is_container_def)

definition array_text :: "int list \<Rightarrow> pystr list \<Rightarrow> pystr" where
  "array_text shape bits =
     [123] @ quote False (lit ''bits'') @ [58] @ [91] @ join_with [44] (map (quote False) bits) @ [93] @ [44] @
     quote False (lit ''shape'') @ [58] @ [91] @ join_with [44] (map int_repr shape) @ [93] @ [125]"

lemma dumps_document: "json_dumps False (Suc (Suc d)) (sorted_document shape bits) = Inr (array_text shape bits)"
  by (simp add: sorted_document_def dump_object_def dump_member_def dump_strings dump_ints array_text_def lit_def)

lemma dumps_document_shallow: "json_dumps False d (sorted_document shape bits) = Inr t \<Longrightarrow> \<exists>d'. d = Suc (Suc d')"
proof (cases d)
  case (Suc d1)
  assume "json_dumps False d (sorted_document shape bits) = Inr t"
  then show ?thesis using Suc by (cases d1) (auto simp: sorted_document_def dump_object_def dump_member_def is_container_def lit_def)
qed (simp add: sorted_document_def is_container_def)

lemma normal_document: "\<forall>b \<in> set bits. list_all is_scalar b \<Longrightarrow> json_normal (Suc (Suc d)) (sorted_document shape bits)"
proof -
  assume b: "\<forall>b \<in> set bits. list_all is_scalar b"
  have "list_all (json_normal d) (map PyStr bits)" "list_all (json_normal d) (map PyInt shape)"
    using b by (cases d; auto simp: list_all_iff scalar_normal_def)+
  then show ?thesis by (simp add: sorted_document_def lit_def is_scalar_def)
qed

lemma lower_hex_scalar: "lower_hex_exactly k s \<Longrightarrow> list_all is_scalar s"
  by (auto simp: lower_hex_exactly_def list_all_iff is_lower_hex_def is_scalar_def)

lemma hexdigest_scalar: "list_all is_scalar (hexdigest bs)"
  using hexdigest_shape lower_hex_scalar by blast

text \<open>ASCII text has one byte per character.\<close>

lemma utf8_encode_ascii: "\<forall>c \<in> set t. c < 128 \<Longrightarrow> utf8_encode t = Some (map word_of_nat t)"
proof -
  assume "\<forall>c \<in> set t. c < 128"
  then have "list_all is_scalar t" and "concat (map cp_octets t) = t"
    by (induction t) (auto simp: is_scalar_def cp_octets_def)
  then show ?thesis by (simp add: utf8_encode_def)
qed

lemma escape_hex: "is_lower_hex c \<Longrightarrow> escape_char a c = [c]"
  by (auto simp: escape_char_def is_lower_hex_def)

lemma quote_hex: "lower_hex_exactly k s \<Longrightarrow> quote a s = 34 # s @ [34]"
proof -
  assume "lower_hex_exactly k s"
  then have "concat (map (escape_char a) s) = s"
    by (induction s arbitrary: k) (auto simp: lower_hex_exactly_def escape_hex)
  then show ?thesis by (simp add: quote_def)
qed

lemma array_text_ascii:
  assumes "\<forall>b \<in> set bits. lower_hex_exactly 16 b"
  shows "\<forall>c \<in> set (array_text shape bits). c < 128"
proof -
  have "text_ok True t" if "t \<in> set (map (quote False) bits)" for t
    using that assms by (fastforce simp: quote_hex text_ok_def lower_hex_exactly_def is_lower_hex_def)
  moreover have "text_ok True (int_repr n)" for n
    by (auto simp: text_ok_def int_repr_def dest: dec_text_ascii)
  moreover have "text_ok True (quote False (lit ''bits''))" "text_ok True (quote False (lit ''shape''))"
    by (simp_all add: quote_def lit_def escape_char_def)
  ultimately have "text_ok True (array_text shape bits)"
    by (auto simp: array_text_def intro!: text_ok_join)
  then show ?thesis by (auto simp: text_ok_def)
qed

text \<open>Every document the encoder can produce is within the decoder's size bound.\<close>

lemma length_join_with: "length (join_with [44] ts) \<le> sum_list (map length ts) + length ts"
  by (induction "[44] :: pystr" ts rule: join_with.induct) auto

lemma length_dec_text: "n < 10 ^ k \<Longrightarrow> 0 < k \<Longrightarrow> length (dec_text n) \<le> k"
proof (induction k arbitrary: n)
  case (Suc k)
  show ?case
  proof (cases "n < 10")
    case True
    then show ?thesis by (simp add: dec_text.simps)
  next
    case False
    then have "n div 10 < 10 ^ k" "0 < k" using Suc.prems by (auto simp: less_mult_imp_div_less intro: ccontr)
    then show ?thesis using Suc.IH [of "n div 10"] False by (subst dec_text.simps) simp
  qed
qed simp

lemma length_array_text:
  assumes "\<forall>b \<in> set bits. lower_hex_exactly 16 b" "\<forall>d \<in> set shape. 0 \<le> d \<and> d \<le> F64_U64_MAX"
    and "length shape \<le> 8" "length bits \<le> 32768"
  shows "length (array_text shape bits) \<le> 2 ^ 20 - 1"
proof -
  have "map length (map (quote False) bits) = map (\<lambda>_. 18) bits"
    using assms(1) by (auto simp: quote_hex lower_hex_exactly_def)
  then have b: "sum_list (map length (map (quote False) bits)) = 18 * length bits"
    by (simp only: sum_list_triv) (simp add: mult.commute)
  have "length (int_repr d) \<le> 20" if "d \<in> set shape" for d
    using assms(2) that by (auto simp: int_repr_def F64_U64_MAX_def intro!: length_dec_text)
  then have "sum_list (map length (map int_repr shape)) \<le> sum_list (map (\<lambda>_. 20) shape)"
    unfolding map_map comp_def by (intro sum_list_mono) auto
  then have s: "sum_list (map length (map int_repr shape)) \<le> 20 * length shape" by (simp add: sum_list_triv)
  have k: "length (quote False (lit ''bits'')) = 6" "length (quote False (lit ''shape'')) = 7"
    by (simp_all add: quote_def lit_def escape_char_def)
  show ?thesis
    using length_join_with [of "map (quote False) bits"] length_join_with [of "map int_repr shape"] b s k assms(3,4)
    by (simp add: array_text_def)
qed

section \<open>Round trips\<close>

definition hex_patterns :: "pystr list \<Rightarrow> bool" where
  "hex_patterns bits \<longleftrightarrow> (\<forall>b \<in> set bits. \<exists>x. b = hexdigest (pack_f64 x) \<and> f64_finite x)"

lemma hex_patterns_lower: "hex_patterns bits \<Longrightarrow> \<forall>b \<in> set bits. lower_hex_exactly 16 b"
proof
  fix b assume "hex_patterns bits" "b \<in> set bits"
  then obtain x where "b = hexdigest (pack_f64 x)" by (auto simp: hex_patterns_def)
  then show "lower_hex_exactly 16 b" using hexdigest_shape [of "pack_f64 x"] by simp
qed

lemma mapM_checked_bits: "mapM checked_bits xs = Inr bits \<longleftrightarrow> xs = map PyStr bits \<and> hex_patterns bits"
  by (induction xs arbitrary: bits) (auto simp: checked_bits_iff hex_patterns_def)

lemma normalize_bits_iff:
  "normalize_bits v n = Inr bits \<longleftrightarrow> sequence_items v = Some (map PyStr bits) \<and> int (length bits) = n \<and> hex_patterns bits"
  by (auto simp: normalize_bits_def mapM_checked_bits split: option.splits)

lemma canonical_bytes_iff:
  assumes "hex_patterns bits"
  shows "canonical_bytes_from_bits depth shape bits = Inr doc \<longleftrightarrow>
           2 \<le> depth \<and> doc = map word_of_nat (array_text shape bits @ [10])"
proof -
  have a: "utf8_encode (array_text shape bits) = Some (map word_of_nat (array_text shape bits))"
    by (rule utf8_encode_ascii [OF array_text_ascii [OF hex_patterns_lower [OF assms]]])
  show ?thesis
  proof (cases "2 \<le> depth")
    case True
    then obtain d where "depth = Suc (Suc d)" by (metis add_2_eq_Suc le_Suc_ex)
    then show ?thesis using a True
      by (auto simp: canonical_bytes_from_bits_def dumps_document_sorted dumps_document simp del: json_dumps.simps)
  next
    case False
    then show ?thesis
      by (auto simp: canonical_bytes_from_bits_def dumps_document_sorted dest: dumps_document_shallow)
  qed
qed

text \<open>The parsing phase on a canonical document.\<close>

lemma map_ascii_inj: "\<forall>c \<in> set t. c < 128 \<Longrightarrow> map unat (map word_of_nat t :: bytes) = t"
  by (induction t) (auto simp: unat_of_nat)

lemma utf8_decode_ascii: "\<forall>c \<in> set t. c < 128 \<Longrightarrow> utf8_decode (map word_of_nat t) = Some t"
  by (rule utf8_decode_encode [OF utf8_encode_ascii])

lemma loads_array_text:
  assumes "hex_patterns bits" "2 \<le> depth"
  shows "json_loads f64_hooks depth (array_text shape bits @ [10]) = Inr (sorted_document shape bits)"
proof -
  obtain d where d: "depth = Suc (Suc d)" using assms(2) by (metis add_2_eq_Suc le_Suc_ex)
  have "\<forall>b \<in> set bits. list_all is_scalar b" using hex_patterns_lower [OF assms(1)] lower_hex_scalar by blast
  from f64_reader.loads_dumps [OF normal_document [OF this, of d shape], of False]
  show ?thesis by (simp add: d dumps_document del: json_dumps.simps)
qed

lemma array_text_ends: "\<exists>m. array_text shape bits = 123 # m @ [125]"
  by (simp add: array_text_def)

lemma parse_canonical:
  assumes "hex_patterns bits" "2 \<le> depth" "length bits \<le> 32768" "length shape \<le> 8"
    and "\<forall>d \<in> set shape. 0 \<le> d \<and> d \<le> F64_U64_MAX"
  shows "parse_document depth (PyBytes (map word_of_nat (array_text shape bits @ [10]))) =
    Inr (map word_of_nat (array_text shape bits @ [10]),
         [(PyStr (lit ''bits''), PyList (map PyStr bits)), (PyStr (lit ''shape''), PyList (map PyInt shape))])"
proof -
  let ?t = "array_text shape bits"
  have ascii: "\<forall>c \<in> set (?t @ [10]). c < 128" using array_text_ascii [OF hex_patterns_lower [OF assms(1)]] by auto
  have len: "length (?t @ [10]) \<le> MAX_DOCUMENT_BYTES"
    using length_array_text [OF hex_patterns_lower [OF assms(1)] assms(5,4,3)] by (simp add: MAX_DOCUMENT_BYTES_def)
  obtain m where m: "?t = 123 # m @ [125]" using array_text_ends by blast
  have ends: "last (?t @ [10]) = 10" "last (butlast (map word_of_nat (?t @ [10]) :: bytes)) \<noteq> 10"
    "take 3 (map word_of_nat (?t @ [10]) :: bytes) \<noteq> [0xEF, 0xBB, 0xBF]"
    using m by (simp_all add: butlast_append take_Cons')
  have "utf8_decode (map word_of_nat (?t @ [10])) = Some (?t @ [10])" by (rule utf8_decode_ascii [OF ascii])
  then show ?thesis using len ends loads_array_text [OF assms(1,2), of shape]
    by (simp add: parse_document_def rewrap_json_error_def sorted_document_def)
qed

lemma element_count_tuple:
  "checked_element_count shape = Inr n \<Longrightarrow> normalize_shape shape = Inr ds \<Longrightarrow> checked_element_count (PyTuple (map PyInt ds)) = Inr n"
  by (auto simp: checked_element_count_def normalize_shape_iff)

lemma normalize_tuple:
  "normalize_shape shape = Inr ds \<Longrightarrow> normalize_shape (PyTuple (map PyInt ds)) = Inr ds \<and> normalize_shape (PyList (map PyInt ds)) = Inr ds"
  by (simp add: normalize_shape_iff)

definition admissible :: "int list \<Rightarrow> pystr list \<Rightarrow> bool" where
  "admissible shape bits \<longleftrightarrow> normalize_shape (PyTuple (map PyInt shape)) = Inr shape \<and>
     checked_element_count (PyTuple (map PyInt shape)) = Inr (int (length bits)) \<and> hex_patterns bits"

lemma admissible_bounds:
  assumes "admissible shape bits"
  shows "length bits \<le> 32768" "length shape \<le> 8" "\<forall>d \<in> set shape. 0 \<le> d \<and> d \<le> F64_U64_MAX" "hex_patterns bits"
  using assms by (auto simp: admissible_def normalize_shape_iff MAX_RANK_def checked_element_count_def MAX_ELEMENTS_def not_less)

lemma normalize_shape_list: "normalize_shape (PyList xs) = normalize_shape (PyTuple xs)"
  by (simp add: normalize_shape_def)

lemma normalize_bits_list: "normalize_bits (PyList xs) n = normalize_bits (PyTuple xs) n"
  by (simp add: normalize_bits_def)

lemma make_admissible:
  "admissible shape bits \<Longrightarrow>
   make_f64_array (PyTuple (map PyInt shape)) (PyTuple (map PyStr bits)) = Inr \<lparr>fa_shape = shape, fa_bits = bits\<rparr>"
  by (simp add: make_f64_array_def admissible_def normalize_bits_iff)

lemma decode_canonical:
  assumes "admissible shape bits" "2 \<le> depth"
  shows "decode_f64_array depth (PyBytes (map word_of_nat (array_text shape bits @ [10]))) = Inr \<lparr>fa_shape = shape, fa_bits = bits\<rparr>"
proof -
  note b = admissible_bounds [OF assms(1)]
  have s: "normalize_shape (PyTuple (map PyInt shape)) = Inr shape"
    and c: "checked_element_count (PyTuple (map PyInt shape)) = Inr (int (length bits))"
    using assms(1) by (simp_all add: admissible_def)
  have n: "normalize_bits (PyTuple (map PyStr bits)) (int (length bits)) = Inr bits" using b(4) by (simp add: normalize_bits_iff)
  have f: "fa_canonical_bytes depth \<lparr>fa_shape = shape, fa_bits = bits\<rparr> = Inr (map word_of_nat (array_text shape bits @ [10]))"
    using canonical_bytes_iff [OF b(4)] assms(2) by (simp add: fa_canonical_bytes_def)
  show ?thesis
    unfolding decode_f64_array_def parse_canonical [OF b(4) assms(2) b(1,2,3)]
    by (simp add: get_field_def lit_def is_list_def normalize_shape_list normalize_bits_list s c n f make_admissible [OF assms(1)] insert_commute)
qed

lemma f64_bits_map:
  "mapM f64_to_bits_hex vs = Inr bits \<longleftrightarrow> (\<exists>xs. vs = map PyFloat xs \<and> list_all f64_finite xs \<and> bits = map (hexdigest \<circ> pack_f64) xs)"
proof (induction vs arbitrary: bits)
  case (Cons v vs)
  show ?case
  proof
    assume "mapM f64_to_bits_hex (v # vs) = Inr bits"
    then obtain x xs where "v = PyFloat x" "f64_finite x" "vs = map PyFloat xs" "list_all f64_finite xs"
      "bits = map (hexdigest \<circ> pack_f64) (x # xs)"
      by (auto simp: f64_to_bits_iff Cons.IH)
    then show "\<exists>xs. v # vs = map PyFloat xs \<and> list_all f64_finite xs \<and> bits = map (hexdigest \<circ> pack_f64) xs"
      by (intro exI [of _ "x # xs"]) simp
  next
    assume "\<exists>xs. v # vs = map PyFloat xs \<and> list_all f64_finite xs \<and> bits = map (hexdigest \<circ> pack_f64) xs"
    then show "mapM f64_to_bits_hex (v # vs) = Inr bits"
      by (auto simp: map_eq_Cons_conv f64_to_bits_iff Cons.IH comp_def)
  qed
qed auto

lemma values_of_patterns:
  "list_all f64_finite xs \<Longrightarrow> mapM bits_hex_to_f64 (map PyStr (map (hexdigest \<circ> pack_f64) xs)) = Inr xs"
  by (induction xs) (auto simp: bits_hex_iff)

text \<open>
  C9. Every encoded array decodes to itself: whenever the encoder returns a document, the decoder
  accepts it, with the caller's dimensions and bit for bit the caller's binary64 values. In particular
  the resource bounds of the encoder keep every document within the decoder's size bound.
\<close>

theorem f64_array_round_trip:
  assumes "encode_f64_array depth shape values = Inr doc"
  shows "\<exists>a xs. decode_f64_array depth (PyBytes doc) = Inr a \<and> sequence_items shape = Some (map PyInt (fa_shape a)) \<and>
    sequence_items values = Some (map PyFloat xs) \<and> fa_values a = Inr xs"
proof -
  obtain ds n vs bits where e: "normalize_shape shape = Inr ds" "checked_element_count (PyTuple (map PyInt ds)) = Inr n"
      "sequence_items values = Some vs" "int (length vs) = n" "mapM f64_to_bits_hex vs = Inr bits"
      "canonical_bytes_from_bits depth ds bits = Inr doc"
    using assms by (auto simp: encode_f64_array_def split: option.splits)
  obtain xs where xs: "vs = map PyFloat xs" "list_all f64_finite xs" "bits = map (hexdigest \<circ> pack_f64) xs"
    using e(5) by (auto simp: f64_bits_map)
  have "hex_patterns bits" using xs by (auto simp: hex_patterns_def list_all_iff)
  then have adm: "admissible ds bits" and doc: "2 \<le> depth" "doc = map word_of_nat (array_text ds bits @ [10])"
    using e xs canonical_bytes_iff [of bits depth ds doc] normalize_tuple [OF e(1)] by (auto simp: admissible_def)
  have "fa_values \<lparr>fa_shape = ds, fa_bits = bits\<rparr> = Inr xs" using values_of_patterns [OF xs(2)] by (simp add: fa_values_def xs)
  then show ?thesis using decode_canonical [OF adm doc(1)] doc(2) e(1,3) xs(1)
    by (auto simp: normalize_shape_iff)
qed

theorem f64_array_round_trip_witness:
  "\<exists>doc a. encode_f64_array 2 (PyList [PyInt 1]) (PyTuple [PyFloat 0x3FF0000000000000]) = Inr doc \<and>
     decode_f64_array 2 (PyBytes doc) = Inr a \<and> fa_values a = Inr [0x3FF0000000000000]"
proof -
  let ?x = "0x3FF0000000000000 :: f64"
  have f: "f64_finite ?x" by (simp add: f64_finite_def f64_exponent_def)
  have "hex_patterns [hexdigest (pack_f64 ?x)]" using f by (auto simp: hex_patterns_def)
  then have c: "\<exists>doc. canonical_bytes_from_bits 2 [1] [hexdigest (pack_f64 ?x)] = Inr doc" using canonical_bytes_iff by auto
  have "normalize_shape (PyList [PyInt 1]) = Inr [1]" "checked_element_count (PyTuple [PyInt 1]) = Inr 1"
    by (simp_all add: checked_element_count_def normalize_shape_def validate_dimension_def F64_U64_MAX_def MAX_RANK_def
        count_step_def MAX_ELEMENTS_def)
  then obtain doc where d: "encode_f64_array 2 (PyList [PyInt 1]) (PyTuple [PyFloat ?x]) = Inr doc"
    using c f by (auto simp: encode_f64_array_def f64_to_bits_hex_def)
  from f64_array_round_trip [OF this] show ?thesis using d by (auto simp: Cons_eq_map_conv)
qed

lemma case_dict_f64_fail:
  "(case v of PyDict kvs \<Rightarrow> f kvs | _ \<Rightarrow> f64_fail m) = Inr y \<longleftrightarrow> (\<exists>kvs. v = PyDict kvs \<and> f kvs = Inr y)"
  by (cases v) auto

lemma parse_document_raw: "parse_document depth (PyBytes doc) = Inr (raw, kvs) \<Longrightarrow> raw = doc"
  by (auto simp: parse_document_def case_dict_f64_fail split: option.splits)

text \<open>
  C29. The wire form is unique. A document is accepted exactly when it is the canonical encoding of the
  array it decodes to, so two different documents never decode to the same array.
\<close>

theorem f64_document_canonical:
  "decode_f64_array depth (PyBytes doc) = Inr a \<longleftrightarrow>
   encode_f64_bits_array depth (PyTuple (map PyInt (fa_shape a))) (PyTuple (map PyStr (fa_bits a))) = Inr doc"
proof
  assume "decode_f64_array depth (PyBytes doc) = Inr a"
  then obtain shape bits v1 v2 n where d: "normalize_shape v1 = Inr shape" "checked_element_count (PyTuple (map PyInt shape)) = Inr n"
      "normalize_bits v2 n = Inr bits" "make_f64_array (PyTuple (map PyInt shape)) (PyTuple (map PyStr bits)) = Inr a"
      "fa_canonical_bytes depth a = Inr doc"
    by (auto simp: decode_f64_array_def dest!: parse_document_raw)
  then have "admissible shape bits" using normalize_tuple by (auto simp: admissible_def normalize_bits_iff)
  with d(4) have a: "a = \<lparr>fa_shape = shape, fa_bits = bits\<rparr>" by (simp add: make_admissible)
  with \<open>admissible shape bits\<close> d(5)
  show "encode_f64_bits_array depth (PyTuple (map PyInt (fa_shape a))) (PyTuple (map PyStr (fa_bits a))) = Inr doc"
    by (auto simp: encode_f64_bits_array_def admissible_def normalize_bits_iff fa_canonical_bytes_def)
next
  assume e: "encode_f64_bits_array depth (PyTuple (map PyInt (fa_shape a))) (PyTuple (map PyStr (fa_bits a))) = Inr doc"
  then have adm: "admissible (fa_shape a) (fa_bits a)" and c: "canonical_bytes_from_bits depth (fa_shape a) (fa_bits a) = Inr doc"
    by (auto simp: encode_f64_bits_array_def admissible_def normalize_bits_iff normalize_shape_iff)
  have "2 \<le> depth" "doc = map word_of_nat (array_text (fa_shape a) (fa_bits a) @ [10])"
    using canonical_bytes_iff [OF admissible_bounds(4) [OF adm]] c by auto
  then show "decode_f64_array depth (PyBytes doc) = Inr a" using decode_canonical [OF adm] by simp
qed

end
