(* ===== verification/Cp2_Schema_Correct.thy ===== *)
theory Cp2_Schema_Correct
  imports Cp2_Schema
begin

text \<open>
  Correctness of the schema primitives: what the validators accept, exactness and overflow of the
  checked arithmetic and of decimal timestamps, safety of relative paths, and injectivity and
  round trips of the byte encodings.
\<close>

section \<open>Success of the validators\<close>

lemma validate_u64_Inr [simp]: "validate_u64 v = Inr n \<longleftrightarrow> v = PyInt n \<and> 0 \<le> n \<and> n \<le> U64_LIMIT"
  by (cases v) (auto simp: validate_u64_def)

lemma validate_i64_Inr [simp]: "validate_i64 v = Inr n \<longleftrightarrow> v = PyInt n \<and> I64_MIN \<le> n \<and> n \<le> I64_MAX"
  by (cases v) (auto simp: validate_i64_def)

lemma utf8_of_Inr [simp]:
  "utf8_of f v = Inr b \<longleftrightarrow> (\<exists>s. v = PyStr s \<and> (f \<longrightarrow> 0 \<notin> set s) \<and> utf8_encode s = Some b)"
  by (cases v) (auto simp: utf8_of_def split: option.splits)

lemma u64_bytes_Inr [simp]:
  "u64_bytes v = Inr b \<longleftrightarrow> (\<exists>n. v = PyInt n \<and> 0 \<le> n \<and> n \<le> U64_LIMIT \<and> b = to_bytes 8 (nat n))"
  by (auto simp: u64_bytes_def)

lemma nat_le_U64_LIMIT: "int n \<le> U64_LIMIT \<longleftrightarrow> n < 2 ^ 64"
  by (auto simp: U64_LIMIT_def)

lemma length_prefixed_Inr [simp]:
  "length_prefixed b = Inr c \<longleftrightarrow> length b < 2 ^ 64 \<and> c = length_prefix b"
  by (auto simp: length_prefixed_def length_prefix_def nat_le_U64_LIMIT)

lemma schema_u64_add_Inr:
  "schema_u64_add v w = Inr c \<longleftrightarrow> (\<exists>a b. v = PyInt a \<and> w = PyInt b \<and> 0 \<le> a \<and> 0 \<le> b \<and> a + b \<le> U64_LIMIT \<and> c = a + b)"
proof -
  have "schema_u64_add v w = Inr c \<longleftrightarrow> (\<exists>a b. v = PyInt a \<and> w = PyInt b \<and> 0 \<le> a \<and> 0 \<le> b
      \<and> a \<le> U64_LIMIT \<and> b \<le> U64_LIMIT \<and> \<not> U64_LIMIT - b < a \<and> c = a + b)"
    unfolding schema_u64_add_def and_then_eq_Inr validate_u64_Inr by auto
  also have "\<dots> \<longleftrightarrow> (\<exists>a b. v = PyInt a \<and> w = PyInt b \<and> 0 \<le> a \<and> 0 \<le> b \<and> a + b \<le> U64_LIMIT \<and> c = a + b)"
  proof -
    have "(0 \<le> a \<and> 0 \<le> b \<and> a \<le> U64_LIMIT \<and> b \<le> U64_LIMIT \<and> \<not> U64_LIMIT - b < a) = (0 \<le> a \<and> 0 \<le> b \<and> a + b \<le> U64_LIMIT)" for a b
      by linarith
    then show ?thesis by blast
  qed
  finally show ?thesis .
qed

lemma schema_u64_multiply_Inr:
  "schema_u64_multiply v w = Inr c \<longleftrightarrow>
     (\<exists>a b. v = PyInt a \<and> w = PyInt b \<and> 0 \<le> a \<and> a \<le> U64_LIMIT \<and> 0 \<le> b \<and> b \<le> U64_LIMIT \<and> a * b \<le> U64_LIMIT \<and> c = a * b)"
proof -
  have "schema_u64_multiply v w = Inr c \<longleftrightarrow> (\<exists>a b. v = PyInt a \<and> w = PyInt b \<and> 0 \<le> a \<and> 0 \<le> b
      \<and> a \<le> U64_LIMIT \<and> b \<le> U64_LIMIT \<and> \<not> (a \<noteq> 0 \<and> U64_LIMIT div a < b) \<and> c = a * b)"
    unfolding schema_u64_multiply_def and_then_eq_Inr validate_u64_Inr by auto
  moreover have "(0 \<le> a \<and> \<not> (a \<noteq> 0 \<and> U64_LIMIT div a < b)) = (0 \<le> a \<and> a * b \<le> U64_LIMIT)" for a b
    using div_less_product [of a U64_LIMIT b] by (cases "a = 0") (auto simp: mult.commute U64_LIMIT_def)
  ultimately show ?thesis by blast
qed

lemma iterate_list [simp]: "iterate_values (PyList xs) = Inr xs"
  by (simp add: iterate_values_def)

lemma checked_u64_sum_fold:
  "0 \<le> t \<Longrightarrow> t \<le> U64_LIMIT \<Longrightarrow>
   foldM (\<lambda>total value. schema_u64_add (PyInt total) value) t (map PyInt xs) = Inr n \<longleftrightarrow>
     (\<forall>x \<in> set xs. 0 \<le> x) \<and> t + sum_list xs \<le> U64_LIMIT \<and> n = t + sum_list xs"
proof (induction xs arbitrary: t)
  case (Cons x xs)
  have nn: "(\<forall>y \<in> set xs. 0 \<le> y) \<Longrightarrow> 0 \<le> sum_list xs" by (simp add: sum_list_nonneg)
  show ?case
  proof (cases "0 \<le> x \<and> t + x \<le> U64_LIMIT")
    case True
    then have "schema_u64_add (PyInt t) (PyInt x) = Inr (t + x)" using Cons.prems by (simp add: schema_u64_add_Inr)
    then show ?thesis using Cons True by (auto simp: add.assoc)
  next
    case False
    then have "\<nexists>c. schema_u64_add (PyInt t) (PyInt x) = Inr c" using Cons.prems by (auto simp: schema_u64_add_Inr)
    then show ?thesis using False nn by auto
  qed
qed auto

section \<open>Decimal timestamps\<close>

text \<open>The rational number a decimal text denotes.\<close>

definition decimal_value :: "pystr \<Rightarrow> rat" where
  "decimal_value s =
     (let (w, sep, f) = partition_dot s
      in of_int (int_base10 w) + (if sep then of_int (int_base10 f) / 10 ^ length f else 0))"

lemma int_base10_nonneg [simp]: "0 \<le> int_base10 s"
  by (simp add: int_base10_def)

lemma int_base10_snoc: "int_base10 (s @ [c]) = int_base10 s * 10 + int (c - 48)"
  by (simp add: int_base10_def)

lemma int_base10_pad: "int_base10 (s @ replicate k 48) = int_base10 s * 10 ^ k"
proof (induction k)
  case (Suc k)
  have "s @ replicate (Suc k) 48 = (s @ replicate k 48) @ [48]" by (simp flip: replicate_append_same)
  then have "int_base10 (s @ replicate (Suc k) 48) = int_base10 (s @ replicate k 48) * 10 + int (48 - 48)"
    by (simp only: int_base10_snoc)
  then show ?case using Suc by simp
qed simp

lemma int_base10_less: "list_all is_digit s \<Longrightarrow> int_base10 s < 10 ^ length s"
proof -
  assume "list_all is_digit s"
  then have "of_digits 10 (map (\<lambda>c. c - 48) s) < 10 ^ length (map (\<lambda>c. c - 48) s)"
    by (intro of_digits_less) (auto simp: list_all_iff is_digit_def)
  then have "int (of_digits 10 (map (\<lambda>c. c - 48) s)) < int (10 ^ length s)"
    by (simp only: of_nat_less_iff length_map)
  then show ?thesis by (simp add: int_base10_def)
qed

lemma ljust_zero_value:
  assumes "length f \<le> 9"
  shows "of_int (int_base10 (ljust_zero 9 f)) = (of_int (int_base10 f) / 10 ^ length f * 10 ^ 9 :: rat)"
proof -
  have "(10 :: rat) ^ (9 - length f) * 10 ^ length f = 10 ^ 9" using assms by (simp flip: power_add)
  then show ?thesis by (simp add: ljust_zero_def int_base10_pad field_simps)
qed

lemma seconds_plus_fraction:
  assumes "0 \<le> w" "0 \<le> f"
  shows "and_then (schema_u64_multiply (PyInt w) (PyInt 1000000000)) (\<lambda>x. schema_u64_add (PyInt x) (PyInt f)) = Inr n
     \<longleftrightarrow> w * 1000000000 + f \<le> U64_LIMIT \<and> n = w * 1000000000 + f"
proof -
  have "1000000000 \<le> U64_LIMIT" by (simp add: U64_LIMIT_def)
  moreover have "w * 1000000000 + f \<le> U64_LIMIT \<Longrightarrow> w * 1000000000 \<le> U64_LIMIT \<and> w \<le> U64_LIMIT"
    using assms by linarith
  ultimately show ?thesis using assms
    unfolding and_then_eq_Inr schema_u64_multiply_Inr schema_u64_add_Inr by auto
qed

lemma decimal_seconds_exact:
  assumes "decimal_seconds_pattern s"
  shows "decimal_seconds_to_ns (PyStr s) = Inr n \<longleftrightarrow>
           of_int n = decimal_value s * 10 ^ 9 \<and> n \<le> U64_LIMIT"
proof -
  obtain w sep f where p: "partition_dot s = (w, sep, f)" by (cases "partition_dot s")
  let ?g = "if sep then f else []"
  have g: "length ?g \<le> 9" "list_all is_digit ?g" using assms p by (auto simp: decimal_seconds_pattern_def)
  let ?whole = "int_base10 w" and ?frac = "int_base10 (ljust_zero 9 ?g)"
  have ne: "ljust_zero 9 ?g \<noteq> []" using g(1) by (auto simp: ljust_zero_def)
  have v: "decimal_value s * 10 ^ 9 = of_int (?whole * 1000000000 + ?frac)"
    using ljust_zero_value [OF g(1)] by (simp add: decimal_value_def p int_base10_def algebra_simps)
  have fr: "0 \<le> ?frac" by simp
  have "decimal_seconds_to_ns (PyStr s) =
      and_then (schema_u64_multiply (PyInt ?whole) (PyInt 1000000000)) (\<lambda>whole_ns.
             schema_u64_add (PyInt whole_ns) (PyInt ?frac))"
    using assms ne by (simp add: decimal_seconds_to_ns_def p)
  also have "\<dots> = Inr n \<longleftrightarrow> ?whole * 1000000000 + ?frac \<le> U64_LIMIT \<and> n = ?whole * 1000000000 + ?frac"
    by (rule seconds_plus_fraction) simp_all
  also have "\<dots> \<longleftrightarrow> of_int n = decimal_value s * 10 ^ 9 \<and> n \<le> U64_LIMIT"
    unfolding v by (simp only: of_int_eq_iff) auto
  finally show ?thesis .
qed

section \<open>Relative paths\<close>

lemma split_on_nonempty: "split_on sep s \<noteq> []"
  by (cases s) (auto split: list.splits)

lemma join_split: "join_with sep (split_on sep s) = s"
proof (induction s)
  case (Cons c s)
  show ?case
  proof (cases "split_on sep s")
    case Nil
    then show ?thesis using split_on_nonempty by blast
  next
    case (Cons p ps)
    then show ?thesis using Cons.IH \<open>join_with sep (split_on sep s) = s\<close> by (auto simp: join_with_def)
  qed
qed (simp add: join_with_def)

lemma split_on_free: "p \<in> set (split_on sep s) \<Longrightarrow> sep \<notin> set p"
proof (induction s arbitrary: p)
  case (Cons c s)
  then show ?case
    by (cases "split_on sep s") (auto split: if_splits)
qed simp

lemma split_on_append: "sep \<notin> set p \<Longrightarrow> split_on sep (p @ sep # s) = p # split_on sep s"
  by (induction p) auto

lemma split_on_single: "sep \<notin> set p \<Longrightarrow> split_on sep p = [p]"
  by (induction p) auto

lemma split_join: "ps \<noteq> [] \<Longrightarrow> \<forall>p \<in> set ps. sep \<notin> set p \<Longrightarrow> split_on sep (join_with sep ps) = ps"
proof (induction ps)
  case (Cons p ps)
  show ?case
  proof (cases ps)
    case Nil
    then show ?thesis using Cons.prems by (simp add: join_with_def split_on_single)
  next
    case c: (Cons q qs)
    then have "join_with sep (p # ps) = p @ sep # join_with sep ps" by (simp add: join_with_def)
    then show ?thesis using Cons c by (simp add: split_on_append)
  qed
qed simp

definition safe_component :: "pystr \<Rightarrow> bool" where
  "safe_component p \<longleftrightarrow> p \<noteq> [] \<and> p \<noteq> lit ''.'' \<and> p \<noteq> lit ''..''"

lemma posix_root_Nil: "posix_root s = [] \<longleftrightarrow> s = [] \<or> hd s \<noteq> 47"
  by (auto simp: posix_root_def lit_def split: list.splits)

lemma safe_component_root: "\<forall>p \<in> set (split_on 47 s). safe_component p \<Longrightarrow> posix_root s = []"
  by (cases s) (auto simp: posix_root_Nil safe_component_def)

lemma validate_relpath_Inr:
  "validate_relpath v = Inr t \<longleftrightarrow>
     v = PyStr t \<and> list_all is_scalar t \<and> 0 \<notin> set t \<and> 92 \<notin> set t \<and> (\<forall>p \<in> set (split_on 47 t). safe_component p)"
  (is "_ \<longleftrightarrow> ?R")
proof
  assume v: "validate_relpath v = Inr t"
  then obtain s where s: "v = PyStr s" by (auto simp: validate_relpath_def)
  have t: "t = s" and u: "0 \<notin> set s" "92 \<notin> set s" "list_all is_scalar s" and r: "posix_root s = []" and n: "s \<noteq> []"
    and ps: "posix_str s = s" and tn: "posix_tail s \<noteq> []" and ok: "\<forall>p \<in> set (posix_tail s). safe_component p"
    using v unfolding s by (auto simp: validate_relpath_def utf8_encode_def Let_def list_ex_iff safe_component_def split: if_splits)
  have "join_with 47 (posix_tail s) = s" using ps r tn by (simp add: posix_str_def)
  moreover have "\<forall>p \<in> set (posix_tail s). 47 \<notin> set p" using split_on_free by (auto simp: posix_tail_def)
  ultimately have "split_on 47 s = posix_tail s" using split_join [OF tn] by metis
  then show ?R using t u ok s by simp
next
  assume R: ?R
  have r: "posix_root t = []" using R safe_component_root by blast
  have pt: "posix_tail t = split_on 47 t"
    using R by (auto simp: posix_tail_def safe_component_def intro!: filter_True)
  then have "posix_str t = t" using r split_on_nonempty by (simp add: posix_str_def join_split)
  moreover have "t \<noteq> []" using R by (auto simp: safe_component_def)
  ultimately show "validate_relpath v = Inr t"
    using R r pt split_on_nonempty [of 47 t]
    by (auto simp: validate_relpath_def utf8_encode_def Let_def list_ex_iff safe_component_def)
qed

section \<open>Encodings that may fail\<close>

text \<open>
  An encoder that may raise is self-delimiting up to \<open>same\<close> on the \<open>good\<close> values when such a
  value and any accepted value whose codes start the same stream are the same and leave the same rest.
\<close>

locale raising_code =
  fixes enc :: "'a \<Rightarrow> bytes py" and same :: "'a \<Rightarrow> 'a \<Rightarrow> bool" and good :: "'a \<Rightarrow> bool"
  assumes delim: "good x \<Longrightarrow> enc x = Inr b \<Longrightarrow> enc y = Inr c \<Longrightarrow> b @ r = c @ s \<Longrightarrow> same x y \<and> r = s"
begin

lemma mapM_delim:
  "\<forall>x \<in> set xs. good x \<Longrightarrow> mapM enc xs = Inr bs \<Longrightarrow> mapM enc ys = Inr cs \<Longrightarrow> length xs = length ys \<Longrightarrow>
   concat bs @ r = concat cs @ s \<Longrightarrow> list_all2 same xs ys \<and> r = s"
proof (induction xs arbitrary: ys bs cs)
  case (Cons x xs)
  then obtain y ys' where ys: "ys = y # ys'" by (cases ys) auto
  obtain b bs' where b: "enc x = Inr b" "mapM enc xs = Inr bs'" "bs = b # bs'" using Cons.prems(2) by auto
  obtain c cs' where c: "enc y = Inr c" "mapM enc ys' = Inr cs'" "cs = c # cs'" using Cons.prems(3) ys by auto
  have "b @ (concat bs' @ r) = c @ (concat cs' @ s)" using Cons.prems(5) b(3) c(3) by simp
  then have "same x y" "concat bs' @ r = concat cs' @ s" using delim [OF _ b(1) c(1)] Cons.prems(1) by simp_all
  then show ?case using Cons.IH [OF _ b(2) c(2)] Cons.prems(1,4) ys by simp
qed auto

lemma counted_delim:
  assumes "\<forall>x \<in> set xs. good x"
    and "u64_bytes (PyInt (int (length xs))) = Inr n" "u64_bytes (PyInt (int (length ys))) = Inr m"
    and "mapM enc xs = Inr bs" "mapM enc ys = Inr cs" "n @ concat bs @ r = m @ concat cs @ s"
  shows "list_all2 same xs ys \<and> r = s"
proof -
  have l: "length xs < 2 ^ 64" "length ys < 2 ^ 64" using assms(2,3) by (auto simp: nat_le_U64_LIMIT)
  have "to_bytes 8 (length xs) @ (concat bs @ r) = to_bytes 8 (length ys) @ (concat cs @ s)"
    using assms(2,3,6) by auto
  then have "length xs = length ys" "concat bs @ r = concat cs @ s"
    using u64_code.self_delimiting [OF l] by blast+
  then show ?thesis using mapM_delim [OF assms(1,4,5)] by blast
qed

end

interpretation u64_raising: raising_code "\<lambda>v. u64_bytes (PyInt v)" "(=)" "\<lambda>_. True"
proof
  fix x y :: int and b c r s :: bytes
  assume h: "u64_bytes (PyInt x) = Inr b" "u64_bytes (PyInt y) = Inr c" "b @ r = c @ s"
  then have nn: "0 \<le> x" "0 \<le> y" "nat x < 2 ^ 64" "nat y < 2 ^ 64" by (auto simp: U64_LIMIT_def nat_less_iff)
  have "to_bytes 8 (nat x) @ r = to_bytes 8 (nat y) @ s" using h by simp
  from u64_code.self_delimiting [OF nn(3,4) this] have "nat x = nat y" "r = s" by blast+
  then show "x = y \<and> r = s" using nn(1,2) by (simp only: eq_nat_nat_iff simp_thms)
qed

interpretation lp_raising: raising_code length_prefixed "(=)" "\<lambda>_. True"
proof
  fix x y b c r s :: bytes
  assume h: "length_prefixed x = Inr b" "length_prefixed y = Inr c" "b @ r = c @ s"
  then have l: "length x < 2 ^ 64" "length y < 2 ^ 64" and e: "length_prefix x @ r = length_prefix y @ s" by simp_all
  show "x = y \<and> r = s" by (rule lp_code.self_delimiting [OF l e])
qed

interpretation pair_raising: raising_code length_prefixed_pair "(=)" "\<lambda>_. True"
proof
  fix x y :: "bytes \<times> bytes" and b c r s :: bytes
  assume h: "length_prefixed_pair x = Inr b" "length_prefixed_pair y = Inr c" "b @ r = c @ s"
  then have l: "length (fst x) < 2 ^ 64" "length (snd x) < 2 ^ 64" "length (fst y) < 2 ^ 64" "length (snd y) < 2 ^ 64"
    and e: "length_prefix (fst x) @ (length_prefix (snd x) @ r) = length_prefix (fst y) @ (length_prefix (snd y) @ s)"
    by (auto simp: length_prefixed_pair_def)
  from lp_code.self_delimiting [OF l(1,3) e] have f: "fst x = fst y" "length_prefix (snd x) @ r = length_prefix (snd y) @ s" by blast+
  from lp_code.self_delimiting [OF l(2,4) f(2)] f(1) show "x = y \<and> r = s" by (simp add: prod_eq_iff)
qed

section \<open>Accepted features\<close>

lemma accepted_id_list_Inr:
  "accepted_id_list (PyList (map PyInt xs)) = Inr ys \<longleftrightarrow>
     ys = xs \<and> distinct xs \<and> (\<forall>x \<in> set xs. 0 \<le> x \<and> x \<le> U64_LIMIT)"
proof -
  have "mapM validate_u64 (map PyInt xs) = Inr ys \<longleftrightarrow> ys = xs \<and> (\<forall>x \<in> set xs. 0 \<le> x \<and> x \<le> U64_LIMIT)" for ys
    by (induction xs arbitrary: ys) auto
  then show ?thesis by (auto simp: accepted_id_list_def card_distinct distinct_card)
qed

lemma encode_ids_inj:
  assumes "encode_ids d xs = Inr b" "encode_ids d ys = Inr b"
  shows "xs = ys"
proof -
  from assms obtain n m bs cs where "u64_bytes (PyInt (int (length xs))) = Inr n" "u64_bytes (PyInt (int (length ys))) = Inr m"
    "mapM (\<lambda>v. u64_bytes (PyInt v)) xs = Inr bs" "mapM (\<lambda>v. u64_bytes (PyInt v)) ys = Inr cs"
    "n @ concat bs @ [] = m @ concat cs @ []"
    unfolding encode_ids_def and_then_eq_Inr by fastforce
  from u64_raising.counted_delim [OF _ this] show ?thesis by (simp add: list.rel_eq)
qed

lemma encode_ids_ok:
  "\<forall>x \<in> set xs. 0 \<le> x \<and> x \<le> U64_LIMIT \<Longrightarrow> length xs < 2 ^ 64 \<Longrightarrow> \<exists>b. encode_ids d xs = Inr b"
proof -
  assume h: "\<forall>x \<in> set xs. 0 \<le> x \<and> x \<le> U64_LIMIT" "length xs < 2 ^ 64"
  then have "mapM (\<lambda>v. u64_bytes (PyInt v)) xs = Inr (map (\<lambda>v. to_bytes 8 (nat v)) xs)"
    by (intro mapM_Inr) simp
  then show ?thesis using h(2) by (simp add: encode_ids_def nat_le_U64_LIMIT del: u64_bytes_Inr)
      (simp add: nat_le_U64_LIMIT)
qed

section \<open>Command environments\<close>

lemma environment_record_Inr:
  "environment_record e = Inr (a, b) \<longleftrightarrow>
     (\<exists>n v. e = (PyStr n, PyStr v) \<and> n \<in> set ALLOWED_COMMAND_ENVIRONMENT_NAMES \<and> 0 \<notin> set n \<and> 0 \<notin> set v
        \<and> utf8_encode n = Some a \<and> utf8_encode v = Some b)"
  by (cases e) (auto simp: environment_record_def)

lemma mapM_environment_inj:
  assumes "mapM environment_record d = Inr rs" "mapM environment_record e = Inr ss" "mset rs = mset ss"
  shows "mset d = mset e"
proof -
  have inv: "mapM environment_record d = Inr rs \<Longrightarrow>
      d = map (\<lambda>(a, b). (PyStr (the (utf8_decode a)), PyStr (the (utf8_decode b)))) rs" for d rs
  proof (induction d arbitrary: rs)
    case (Cons x d)
    then obtain a b rs' where "environment_record x = Inr (a, b)" "mapM environment_record d = Inr rs'" "rs = (a, b) # rs'" by auto
    then show ?case using Cons.IH by (auto simp: environment_record_Inr dest!: utf8_decode_encode)
  qed simp
  show ?thesis using inv [OF assms(1)] inv [OF assms(2)] assms(3) by (metis mset_map)
qed

lemma encode_command_environment_inj:
  assumes "encode_command_environment (PyDict d) = Inr b" "encode_command_environment (PyDict e) = Inr b"
  shows "mset d = mset e"
proof -
  obtain rs n bs where r: "mapM environment_record d = Inr rs" "u64_bytes (PyInt (int (length (sort_key fst rs)))) = Inr n"
    "mapM length_prefixed_pair (sort_key fst rs) = Inr bs" "b = COMMAND_ENVIRONMENT_DOMAIN @ n @ concat bs"
    using assms(1) by (auto simp: encode_command_environment_def Let_def)
  obtain ss m cs where t: "mapM environment_record e = Inr ss" "u64_bytes (PyInt (int (length (sort_key fst ss)))) = Inr m"
    "mapM length_prefixed_pair (sort_key fst ss) = Inr cs" "b = COMMAND_ENVIRONMENT_DOMAIN @ m @ concat cs"
    using assms(2) by (auto simp: encode_command_environment_def Let_def)
  have "sort_key fst rs = sort_key fst ss"
    using pair_raising.counted_delim [OF _ r(2) t(2) r(3) t(3), of "[]" "[]"] r(4) t(4) by (simp add: list.rel_eq)
  then have "mset rs = mset ss" by (metis mset_sort)
  then show ?thesis using mapM_environment_inj [OF r(1) t(1)] by blast
qed

section \<open>Typed parameters\<close>

text \<open>Equality of parameter values as Python has it: the order of the entries of a mapping is free.\<close>

inductive same_value :: "pyval \<Rightarrow> pyval \<Rightarrow> bool" where
  same_bool: "same_value (PyBool b) (PyBool b)"
| same_int: "same_value (PyInt n) (PyInt n)"
| same_float: "same_value (PyFloat x) (PyFloat x)"
| same_str: "same_value (PyStr s) (PyStr s)"
| same_list: "list_all2 same_value xs ys \<Longrightarrow> same_value (PyList xs) (PyList ys)"
| same_dict: "mset d1 = mset d \<Longrightarrow> mset e1 = mset e \<Longrightarrow>
    list_all2 (\<lambda>p q. fst p = fst q \<and> same_value (snd p) (snd q)) d1 e1 \<Longrightarrow>
    same_value (PyDict d) (PyDict e)"
  monos list_all2_mono

lemma sorted_parameter_items_Inr:
  assumes "sorted_parameter_items d = Inr items"
  shows "mset (map snd items) = mset d" "sorted (map fst items)"
    "\<forall>i \<in> set items. \<exists>s. fst (snd i) = PyStr s \<and> utf8_encode s = Some (fst i)"
proof -
  obtain xs where xs: "mapM parameter_item d = Inr xs" "items = sort_key fst xs"
    using assms by (auto simp: sorted_parameter_items_def)
  have "map snd xs = d \<and> (\<forall>i \<in> set xs. \<exists>s. fst (snd i) = PyStr s \<and> utf8_encode s = Some (fst i))"
    using xs(1) by (induction d arbitrary: xs) (fastforce simp: parameter_item_def)+
  then show "mset (map snd items) = mset d" "\<forall>i \<in> set items. \<exists>s. fst (snd i) = PyStr s \<and> utf8_encode s = Some (fst i)"
    by (auto simp: xs(2))
  show "sorted (map fst items)" by (simp add: xs(2))
qed

definition item_code :: "bytes \<times> pyval \<times> pyval \<Rightarrow> bytes py" where
  "item_code item = and_then (length_prefixed (fst item)) (\<lambda>a.
         and_then (encode_parameter_value (snd (snd item))) (\<lambda>b. Inr (a @ b)))"

definition same_item :: "bytes \<times> pyval \<times> pyval \<Rightarrow> bytes \<times> pyval \<times> pyval \<Rightarrow> bool" where
  "same_item i j \<longleftrightarrow> fst i = fst j \<and> same_value (snd (snd i)) (snd (snd j))"

lemma encode_dict:
  "encode_parameter_value (PyDict d) =
     and_then (sorted_parameter_items d) (\<lambda>items.
     and_then (u64_bytes (PyInt (int (length items)))) (\<lambda>count.
     and_then (mapM item_code items) (\<lambda>payload. Inr (blit ''m'' @ count @ concat payload))))"
  by (simp add: item_code_def [abs_def])

lemmas encode_simps = encode_parameter_value.simps(1-5,7-11) encode_dict

text \<open>The first byte tells the type.\<close>

fun param_tag :: "pyval \<Rightarrow> byte" where
  "param_tag (PyBool _) = 98"
| "param_tag (PyInt _) = 105"
| "param_tag (PyFloat _) = 102"
| "param_tag (PyStr _) = 115"
| "param_tag (PyList _) = 108"
| "param_tag _ = 109"

lemma encode_tag: "encode_parameter_value w = Inr c \<Longrightarrow> \<exists>c'. c = param_tag w # c'"
  by (cases w) (auto simp: encode_simps blit_def simp del: encode_parameter_value.simps(6))

lemma same_tag:
  assumes "encode_parameter_value v = Inr b" "encode_parameter_value w = Inr c" "b @ r = c @ s"
  shows "param_tag v = param_tag w"
  using encode_tag [OF assms(1)] encode_tag [OF assms(2)] assms(3) by auto

lemma to_bytes8_cancel: "m < 2 ^ 64 \<Longrightarrow> n < 2 ^ 64 \<Longrightarrow> to_bytes 8 m @ r = to_bytes 8 n @ s \<Longrightarrow> m = n \<and> r = s"
  by (rule u64_code.self_delimiting)

lemma same_items_dict:
  assumes "sorted_parameter_items d = Inr I" "sorted_parameter_items e = Inr J" "list_all2 same_item I J"
  shows "same_value (PyDict d) (PyDict e)"
proof (rule same_dict)
  note i = sorted_parameter_items_Inr [OF assms(1)] and j = sorted_parameter_items_Inr [OF assms(2)]
  show "mset (map snd I) = mset d" "mset (map snd J) = mset e" by (rule i j)+
  have "fst (snd p) = fst (snd q) \<and> same_value (snd (snd p)) (snd (snd q))"
    if "p \<in> set I" "q \<in> set J" "same_item p q" for p q
    using that i(3) j(3) utf8_encode_inj unfolding same_item_def by metis
  then show "list_all2 (\<lambda>p q. fst p = fst q \<and> same_value (snd p) (snd q)) (map snd I) (map snd J)"
    using assms(3) by (auto simp: list_all2_conv_all_nth)
qed

lemma item_code_delim:
  assumes "raising_code encode_parameter_value same_value good"
  shows "raising_code item_code same_item (\<lambda>i. good (snd (snd i)))"
proof
  fix x y :: "bytes \<times> pyval \<times> pyval" and b c r s :: bytes
  assume g: "good (snd (snd x))" and h: "item_code x = Inr b" "item_code y = Inr c" "b @ r = c @ s"
  obtain b' where b': "length (fst x) < 2 ^ 64" "encode_parameter_value (snd (snd x)) = Inr b'" "b = length_prefix (fst x) @ b'"
    using h(1) by (auto simp: item_code_def)
  obtain c' where c': "length (fst y) < 2 ^ 64" "encode_parameter_value (snd (snd y)) = Inr c'" "c = length_prefix (fst y) @ c'"
    using h(2) by (auto simp: item_code_def)
  have "length_prefix (fst x) @ (b' @ r) = length_prefix (fst y) @ (c' @ s)" using h(3) b'(3) c'(3) by simp
  then have "fst x = fst y" "b' @ r = c' @ s" using lp_code.self_delimiting [OF b'(1) c'(1)] by blast+
  then show "same_item x y \<and> r = s"
    using raising_code.delim [OF assms g b'(2) c'(2)] by (simp add: same_item_def)
qed

lemma i64_image: "I64_MIN \<le> n \<Longrightarrow> n \<le> I64_MAX \<Longrightarrow> I64_MIN \<le> m \<Longrightarrow> m \<le> I64_MAX \<Longrightarrow>
   nat (n mod 2 ^ 64) = nat (m mod 2 ^ 64) \<Longrightarrow> n = m"
proof -
  assume b: "I64_MIN \<le> n" "n \<le> I64_MAX" "I64_MIN \<le> m" "m \<le> I64_MAX"
    and e: "nat (n mod 2 ^ 64) = nat (m mod 2 ^ 64)"
  have "n mod 2 ^ 64 = m mod 2 ^ 64" using e by (simp add: eq_nat_nat_iff)
  then have "(n + 2 ^ 63) mod 2 ^ 64 = (m + 2 ^ 63) mod 2 ^ 64" by (metis mod_add_left_eq)
  moreover have "(n + 2 ^ 63) mod 2 ^ 64 = n + 2 ^ 63" "(m + 2 ^ 63) mod 2 ^ 64 = m + 2 ^ 63"
    using b by (simp_all add: I64_MIN_def I64_MAX_def mod_pos_pos_trivial)
  ultimately show "n = m" by simp
qed

lemma param_delim:
  "encode_parameter_value v = Inr b \<Longrightarrow> encode_parameter_value w = Inr c \<Longrightarrow> b @ r = c @ s \<Longrightarrow>
   same_value v w \<and> r = s"
proof (induction "size v" arbitrary: v w b c r s rule: less_induct)
  case less
  note tag = same_tag [OF less.prems]
  have rc: "raising_code encode_parameter_value same_value (\<lambda>x. size x < size v)"
    by unfold_locales (rule less.hyps)
  show ?case
  proof (cases v)
    case (PyBool x)
    then obtain y where "w = PyBool y" using tag less.prems(2) by (cases w) auto
    then show ?thesis using less.prems PyBool by (auto simp: blit_def same_bool split: if_splits)
  next
    case (PyInt x)
    then obtain y where w: "w = PyInt y" using tag less.prems(2) by (cases w) auto
    have i: "I64_MIN \<le> x" "x \<le> I64_MAX" "I64_MIN \<le> y" "y \<le> I64_MAX"
      and e: "to_bytes 8 (nat (x mod 2 ^ 64)) @ r = to_bytes 8 (nat (y mod 2 ^ 64)) @ s"
      using less.prems PyInt w by (auto simp: blit_def i64_bytes_def)
    have "nat (x mod 2 ^ 64) < 2 ^ 64" "nat (y mod 2 ^ 64) < 2 ^ 64" by (simp_all add: nat_less_iff)
    from to_bytes8_cancel [OF this e] i64_image [OF i] show ?thesis by (simp add: PyInt w same_int)
  next
    case (PyFloat x)
    then obtain y where w: "w = PyFloat y" using tag less.prems(2) by (cases w) auto
    have e: "to_bytes 8 (unat x) @ r = to_bytes 8 (unat y) @ s"
      using less.prems PyFloat w by (auto simp: blit_def validate_f64_def split: if_splits)
    have "unat x < 2 ^ 64" "unat y < 2 ^ 64" using unsigned_less [of x, where 'a = nat] unsigned_less [of y, where 'a = nat] by simp_all
    from to_bytes8_cancel [OF this e] have "x = y" "r = s" by (auto simp: word_unat_eq_iff)
    then show ?thesis by (simp add: PyFloat w same_float)
  next
    case (PyStr x)
    then obtain y where w: "w = PyStr y" using tag less.prems(2) by (cases w) auto
    obtain p q where pq: "utf8_encode x = Some p" "utf8_encode y = Some q" "length p < 2 ^ 64" "length q < 2 ^ 64"
      and e: "length_prefix p @ r = length_prefix q @ s"
      using less.prems PyStr w by (auto simp: blit_def length_prefixed_utf8_def)
    from lp_code.self_delimiting [OF pq(3,4) e] utf8_encode_inj [OF pq(1)] pq(2) show ?thesis
      by (auto simp: PyStr w same_str)
  next
    case (PyList xs)
    then obtain ys where w: "w = PyList ys" using tag less.prems(2) by (cases w) auto
    obtain n bs where x: "u64_bytes (PyInt (int (length xs))) = Inr n" "mapM encode_parameter_value xs = Inr bs"
      "b = 108 # n @ concat bs"
      using less.prems(1) PyList by (auto simp: blit_def simp del: u64_bytes_Inr)
    obtain m cs where y: "u64_bytes (PyInt (int (length ys))) = Inr m" "mapM encode_parameter_value ys = Inr cs"
      "c = 108 # m @ concat cs"
      using less.prems(2) w by (auto simp: blit_def simp del: u64_bytes_Inr)
    have g: "\<forall>x \<in> set xs. size x < size v" using size_elem PyList by blast
    show ?thesis
      using raising_code.counted_delim [OF rc g x(1) y(1) x(2) y(2)] less.prems(3) x(3) y(3)
      by (simp add: PyList w same_list)
  next
    case (PyDict d)
    then obtain e where w: "w = PyDict e" using tag less.prems(2) by (cases w) auto
    obtain I n bs where x: "sorted_parameter_items d = Inr I" "u64_bytes (PyInt (int (length I))) = Inr n"
      "mapM item_code I = Inr bs" "b = 109 # n @ concat bs"
      using less.prems(1) PyDict by (auto simp: blit_def encode_dict simp del: u64_bytes_Inr encode_parameter_value.simps(6))
    obtain J m cs where y: "sorted_parameter_items e = Inr J" "u64_bytes (PyInt (int (length J))) = Inr m"
      "mapM item_code J = Inr cs" "c = 109 # m @ concat cs"
      using less.prems(2) w by (auto simp: blit_def encode_dict simp del: u64_bytes_Inr encode_parameter_value.simps(6))
    have g: "\<forall>i \<in> set I. size (snd (snd i)) < size v"
      using sorted_parameter_items_set [OF x(1)] size_item PyDict by (metis prod.collapse)
    show ?thesis
      using raising_code.counted_delim [OF item_code_delim [OF rc] g x(2) y(2) x(3) y(3)] less.prems(3) x(4) y(4)
        same_items_dict [OF x(1) y(1)] by (simp add: PyDict w)
  qed (use less.prems in simp_all)
qed

interpretation parameter_code: raising_code encode_parameter_value same_value "\<lambda>_. True"
  by unfold_locales (rule param_delim)

text \<open>Mappings are well formed when no key occurs twice, at every depth.\<close>

function distinct_keys :: "pyval \<Rightarrow> bool" where
  "distinct_keys v =
     (case v of
        PyList xs \<Rightarrow> (\<forall>x \<in> set xs. distinct_keys x)
      | PyTuple xs \<Rightarrow> (\<forall>x \<in> set xs. distinct_keys x)
      | PyDict d \<Rightarrow> distinct (map fst d) \<and> (\<forall>p \<in> set d. distinct_keys (snd p))
      | _ \<Rightarrow> True)"
  by pat_completeness auto
termination
proof (relation "measure size")
  fix v xs x assume "v = PyTuple xs" "x \<in> set xs"
  then show "(x, v) \<in> measure size" by (induction xs arbitrary: v) (auto simp: less_Suc_eq_le)
qed (use size_elem size_item in fastforce)+

declare distinct_keys.simps [simp del]

lemma same_list_mapM:
  "list_all2 (\<lambda>x y. \<forall>b. f x = Inr b \<longrightarrow> f y = Inr b) xs ys \<Longrightarrow> mapM f xs = Inr bs \<Longrightarrow> mapM f ys = Inr bs"
  by (induction xs ys arbitrary: bs rule: list_all2_induct) auto

lemma sorted_items_strict:
  assumes "sorted_parameter_items d = Inr I" "distinct (map fst d)"
  shows "distinct (map fst I)" "set (map (fst \<circ> snd) I) = set (map fst d)"
proof -
  note i = sorted_parameter_items_Inr [OF assms(1)]
  have m: "mset (map fst (map snd I)) = mset (map fst d)" using i(1) by (metis mset_map)
  have "distinct (map (fst \<circ> snd) I)"
    using assms(2) mset_eq_imp_distinct_iff [OF m] by (simp add: comp_def)
  moreover have "inj_on fst (set I)" if "inj_on (fst \<circ> snd) (set I)" "distinct I"
  proof (rule inj_onI)
    fix x y assume xy: "x \<in> set I" "y \<in> set I" "fst x = fst y"
    obtain s t where "fst (snd x) = PyStr s" "utf8_encode s = Some (fst x)" "fst (snd y) = PyStr t" "utf8_encode t = Some (fst y)"
      using i(3) xy by blast
    then have "(fst \<circ> snd) x = (fst \<circ> snd) y" using utf8_encode_inj xy(3) by auto
    then show "x = y" using that xy by (simp add: inj_on_def)
  qed
  ultimately show "distinct (map fst I)" by (simp add: distinct_map)
  show "set (map (fst \<circ> snd) I) = set (map fst d)" using mset_eq_setD [OF m] by (simp add: comp_def)
qed

lemma sorted_items_keys:
  assumes "sorted_parameter_items d = Inr I" "set (map fst e) = set (map fst d)"
  obtains J where "sorted_parameter_items e = Inr J"
proof -
  obtain xs where "mapM parameter_item d = Inr xs" using assms(1) by (auto simp: sorted_parameter_items_def)
  then have "\<forall>p \<in> set d. \<exists>y. utf8_of True (fst p) = Inr y"
    by (induction d arbitrary: xs) (auto simp: parameter_item_def)
  then have "\<forall>k \<in> set (map fst e). \<exists>y. utf8_of True k = Inr y" unfolding assms(2) by auto
  then obtain f where "\<forall>k \<in> set (map fst e). utf8_of True k = Inr (f k)" by metis
  then have "mapM parameter_item e = Inr (map (\<lambda>p. (f (fst p), p)) e)"
    by (intro mapM_Inr) (simp add: parameter_item_def del: utf8_of_Inr)
  then show thesis using that by (simp add: sorted_parameter_items_def)
qed

lemma sorted_items_aligned:
  assumes I: "sorted_parameter_items d = Inr I" and J: "sorted_parameter_items e = Inr J"
    and d: "distinct (map fst d)" "distinct (map fst e)" "set (map fst e) = set (map fst d)"
    and r: "\<forall>p \<in> set d. \<exists>q \<in> set e. fst q = fst p \<and> R (snd p) (snd q)"
  shows "list_all2 (\<lambda>i j. fst i = fst j \<and> R (snd (snd i)) (snd (snd j))) I J"
proof -
  note i = sorted_parameter_items_Inr [OF I] and j = sorted_parameter_items_Inr [OF J]
  have img: "fst ` set K = (\<lambda>k. the (case k of PyStr s \<Rightarrow> utf8_encode s | _ \<Rightarrow> None)) ` (fst \<circ> snd) ` set K"
    if "\<forall>i \<in> set K. \<exists>s. fst (snd i) = PyStr s \<and> utf8_encode s = Some (fst i)" for K :: "(bytes \<times> pyval \<times> pyval) list"
    unfolding image_image using that by (intro image_cong) auto
  have "set (map fst I) = set (map fst J)"
    using img [OF i(3)] img [OF j(3)] sorted_items_strict(2) [OF I d(1)] sorted_items_strict(2) [OF J d(2)] d(3) by simp
  then have eq: "map fst I = map fst J"
    using sorted_items_strict(1) [OF I d(1)] sorted_items_strict(1) [OF J d(2)] i(2) j(2)
    by (intro sorted_distinct_set_unique)
  have "R (snd (snd p)) (snd (snd q))" if "p \<in> set I" "q \<in> set J" "fst p = fst q" for p q
  proof -
    have pd: "snd p \<in> set d" "snd q \<in> set e"
      using that mset_eq_setD [OF i(1)] mset_eq_setD [OF j(1)] by auto
    have k: "fst (snd p) = fst (snd q)" using that i(3) j(3) utf8_encode_inj by metis
    obtain q' where "q' \<in> set e" "fst q' = fst (snd p)" "R (snd (snd p)) (snd q')" using r pd(1) by blast
    moreover from this have "q' = snd q" using d(2) pd(2) k by (metis eq_key_imp_eq_value prod.collapse)
    ultimately show ?thesis by simp
  qed
  then show ?thesis using eq by (auto simp: list_all2_conv_all_nth list_eq_iff_nth_eq)
qed

lemma same_value_encode:
  "same_value v w \<Longrightarrow> distinct_keys v \<Longrightarrow> distinct_keys w \<Longrightarrow> encode_parameter_value v = Inr b \<Longrightarrow>
   encode_parameter_value w = Inr b"
proof (induction v w arbitrary: b rule: same_value.induct)
  case (same_list xs ys)
  have "list_all2 (\<lambda>x y. \<forall>b. encode_parameter_value x = Inr b \<longrightarrow> encode_parameter_value y = Inr b) xs ys"
    using same_list by (auto simp: list_all2_conv_all_nth distinct_keys.simps [of "PyList _"])
  moreover have "length xs = length ys" using same_list.IH by (rule list_all2_lengthD)
  ultimately show ?case using same_list.prems same_list_mapM by fastforce
next
  case (same_dict d1 d e1 e)
  have dk: "distinct (map fst d)" "distinct (map fst e)" "\<forall>p \<in> set d. distinct_keys (snd p)" "\<forall>p \<in> set e. distinct_keys (snd p)"
    using same_dict.prems by (auto simp: distinct_keys.simps [of "PyDict _"])
  have sd: "set d1 = set d" "set e1 = set e" using same_dict.hyps by (auto dest: mset_eq_setD)
  have "map fst d1 = map fst e1" using same_dict.IH by (auto simp: list_all2_conv_all_nth list_eq_iff_nth_eq)
  then have keys: "set (map fst e) = set (map fst d)" using sd by (metis list.set_map)
  let ?R = "\<lambda>x y. \<forall>b. encode_parameter_value x = Inr b \<longrightarrow> encode_parameter_value y = Inr b"
  have r: "\<forall>p \<in> set d. \<exists>q \<in> set e. fst q = fst p \<and> ?R (snd p) (snd q)"
  proof
    fix p assume "p \<in> set d"
    then obtain k where k: "k < length d1" "d1 ! k = p" using sd by (metis in_set_conv_nth)
    then have "k < length e1" "fst (e1 ! k) = fst p" "distinct_keys (snd p) \<longrightarrow> distinct_keys (snd (e1 ! k)) \<longrightarrow> ?R (snd p) (snd (e1 ! k))"
      using same_dict.IH by (auto simp: list_all2_conv_all_nth)
    then show "\<exists>q \<in> set e. fst q = fst p \<and> ?R (snd p) (snd q)"
      using dk(3,4) \<open>p \<in> set d\<close> sd(2) nth_mem by metis
  qed
  obtain I n bs where x: "sorted_parameter_items d = Inr I" "u64_bytes (PyInt (int (length I))) = Inr n"
      "mapM item_code I = Inr bs" "b = blit ''m'' @ n @ concat bs"
    using same_dict.prems by (auto simp: encode_dict simp del: u64_bytes_Inr encode_parameter_value.simps(6))
  obtain J where J: "sorted_parameter_items e = Inr J" using sorted_items_keys [OF x(1) keys] .
  note al = sorted_items_aligned [OF x(1) J dk(1,2) keys r]
  have "list_all2 (\<lambda>i j. \<forall>b. item_code i = Inr b \<longrightarrow> item_code j = Inr b) I J"
    using al by (rule list_all2_mono) (auto simp: item_code_def)
  then have "mapM item_code J = Inr bs" using same_list_mapM x(3) by blast
  then show ?case using x(2,4) J list_all2_lengthD [OF al]
    by (simp add: encode_dict del: u64_bytes_Inr encode_parameter_value.simps(6))
qed simp_all

section \<open>Manifests\<close>

text \<open>A record the manifest writer accepts, from its path and digest strings.\<close>

definition good_record :: "pystr \<times> pystr \<Rightarrow> bytes \<times> bytes \<Rightarrow> bool" where
  "good_record pd r \<longleftrightarrow>
     validate_relpath (PyStr (fst pd)) = Inr (fst pd) \<and> fst pd \<noteq> SHA256SUMS \<and> lower_hex_exactly 64 (snd pd) \<and>
     utf8_encode (fst pd) = Some (fst r) \<and> 10 \<notin> set (fst r) \<and> 13 \<notin> set (fst r) \<and> snd r = ascii_bytes (snd pd)"

lemma if_schema_fail_eq [simp]:
  "(if c then schema_fail m else x) = Inr y \<longleftrightarrow> \<not> c \<and> x = Inr y"
  by simp

lemma validate_sha256_Inr [simp]: "validate_sha256 v = Inr d \<longleftrightarrow> v = PyStr d \<and> lower_hex_exactly 64 d"
  by (cases v) (auto simp: validate_sha256_def)

lemma manifest_record_Inr:
  "manifest_record e = Inr r \<longleftrightarrow> (\<exists>pd. e = (PyStr (fst pd), PyStr (snd pd)) \<and> good_record pd r)"
proof
  assume h: "manifest_record e = Inr r"
  then obtain p d where "fst e = PyStr p" "snd e = PyStr d" "good_record (p, d) r"
    by (auto simp: manifest_record_def good_record_def validate_relpath_Inr)
  then show "\<exists>pd. e = (PyStr (fst pd), PyStr (snd pd)) \<and> good_record pd r"
    by (intro exI [of _ "(p, d)"]) (auto simp: prod_eq_iff)
next
  assume "\<exists>pd. e = (PyStr (fst pd), PyStr (snd pd)) \<and> good_record pd r"
  then obtain p d where e: "e = (PyStr p, PyStr d)" and g: "good_record (p, d) r" by auto
  have "validate_relpath (PyStr p) = Inr p" "validate_sha256 (PyStr d) = Inr d" "utf8_of True (PyStr p) = Inr (fst r)"
    using g by (auto simp: good_record_def validate_sha256_def validate_relpath_Inr)
  then show "manifest_record e = Inr r" using g by (simp add: manifest_record_def e good_record_def prod_eq_iff)
qed

lemma mapM_manifest_record:
  "mapM manifest_record d = Inr rs \<Longrightarrow>
     \<exists>pds. d = map (\<lambda>pd. (PyStr (fst pd), PyStr (snd pd))) pds \<and> list_all2 good_record pds rs"
proof (induction d arbitrary: rs)
  case (Cons e d)
  then obtain r rs' where r: "manifest_record e = Inr r" "mapM manifest_record d = Inr rs'" "rs = r # rs'" by auto
  obtain pd where "e = (PyStr (fst pd), PyStr (snd pd))" "good_record pd r" using r(1) by (auto simp: manifest_record_Inr)
  moreover obtain pds where "d = map (\<lambda>pd. (PyStr (fst pd), PyStr (snd pd))) pds" "list_all2 good_record pds rs'"
    using Cons.IH [OF r(2)] by blast
  ultimately show ?case using r(3) by (intro exI [of _ "pd # pds"]) simp
qed simp

lemma good_records_mapM:
  "list_all2 good_record pds rs \<Longrightarrow> mapM manifest_record (map (\<lambda>pd. (PyStr (fst pd), PyStr (snd pd))) pds) = Inr rs"
  by (induction rule: list_all2_induct) (auto simp: manifest_record_Inr)

lemma splitlines_line: "10 \<notin> set l \<Longrightarrow> 13 \<notin> set l \<Longrightarrow> splitlines_keep (l @ 10 # r) = (l @ [10]) # splitlines_keep r"
  by (induction l) auto

lemma ascii_bytes_hex:
  assumes "lower_hex_exactly 64 d"
  shows "length (ascii_bytes d) = 64" "list_all (\<lambda>b. is_lower_hex (unat b)) (ascii_bytes d)"
    "map unat (ascii_bytes d) = d" "10 \<notin> set (ascii_bytes d)" "13 \<notin> set (ascii_bytes d)"
proof -
  have c: "is_lower_hex c" "c < 128" if "c \<in> set d" for c using assms that by (auto simp: lower_hex_exactly_def is_lower_hex_def)
  show "length (ascii_bytes d) = 64" using assms by (simp add: ascii_bytes_def lower_hex_exactly_def)
  show m: "map unat (ascii_bytes d) = d"
    unfolding ascii_bytes_def map_map comp_def by (intro map_idI) (auto simp: unat_of_nat dest!: c(2))
  have i: "\<forall>b \<in> set (ascii_bytes d). is_lower_hex (unat b)"
    using c(1) m by (metis image_eqI list.set_map)
  then show "list_all (\<lambda>b. is_lower_hex (unat b)) (ascii_bytes d)" by (simp add: list_all_iff)
  show "10 \<notin> set (ascii_bytes d)" "13 \<notin> set (ascii_bytes d)" using i by (auto simp: is_lower_hex_def)
qed

lemma relpath_nonempty: "validate_relpath v = Inr t \<Longrightarrow> t \<noteq> []"
  unfolding validate_relpath_Inr safe_component_def by (metis list.set_intros(1) split_on.simps(1))

lemma good_record_path_nonempty: "good_record pd r \<Longrightarrow> fst r \<noteq> []"
proof
  assume g: "good_record pd r" "fst r = []"
  then have "fst pd = []" using utf8_decode_encode [of "fst pd" "fst r"]
    by (simp add: good_record_def utf8_decode_def decode_octets.simps)
  moreover have "fst pd \<noteq> []" using g(1) relpath_nonempty unfolding good_record_def by blast
  ultimately show False by simp
qed

lemma match_manifest_good:
  assumes "good_record pd r"
  shows "match_manifest_line (manifest_line r) = Some (snd r, fst r)"
proof -
  define dg p where "dg = snd r" and "p = fst r"
  have g: "dg = ascii_bytes (snd pd)" "lower_hex_exactly 64 (snd pd)" "10 \<notin> set p" "13 \<notin> set p"
    using assms by (simp_all add: good_record_def dg_def p_def)
  have dg: "length dg = 64" "list_all (\<lambda>b. is_lower_hex (unat b)) dg"
    using ascii_bytes_hex [OF g(2)] g(1) by simp_all
  have pn: "p \<noteq> []" using good_record_path_nonempty [OF assms] by (simp add: p_def)
  have line: "manifest_line r = dg @ 32 # 32 # p @ [10]" by (simp add: manifest_line_def dg_def p_def)
  have t: "take 64 (manifest_line r) = dg" "drop 64 (manifest_line r) = 32 # 32 # p @ [10]"
    unfolding line using dg(1) by simp_all
  show ?thesis unfolding match_manifest_line_def Let_def t
    using dg pn g(3,4) by (simp add: butlast_append flip: dg_def p_def)
qed

lemma splitlines_manifest:
  "list_all2 good_record pds rs \<Longrightarrow> splitlines_keep (concat (map manifest_line rs)) = map manifest_line rs"
proof (induction rule: list_all2_induct)
  case (Cons pd pds r rs)
  have g: "snd r = ascii_bytes (snd pd)" "lower_hex_exactly 64 (snd pd)" "10 \<notin> set (fst r)" "13 \<notin> set (fst r)"
    using Cons by (simp_all add: good_record_def)
  have "splitlines_keep ((snd r @ [32, 32] @ fst r) @ 10 # concat (map manifest_line rs))
      = ((snd r @ [32, 32] @ fst r) @ [10]) # splitlines_keep (concat (map manifest_line rs))"
    using ascii_bytes_hex(4,5) [OF g(2)] g by (intro splitlines_line) auto
  then have "splitlines_keep (manifest_line r @ concat (map manifest_line rs))
      = manifest_line r # splitlines_keep (concat (map manifest_line rs))"
    unfolding manifest_line_def [of r] by simp
  then show ?case using Cons by simp
qed simp

lemma parse_manifest_steps:
  "list_all2 good_record pds rs \<Longrightarrow> sorted_wrt (<) (map fst rs) \<Longrightarrow>
   (case prev of None \<Rightarrow> True | Some p \<Rightarrow> \<forall>r \<in> set rs. p < fst r) \<Longrightarrow>
   distinct (map fst pds) \<Longrightarrow> (\<forall>pd \<in> set pds. PyStr (fst pd) \<notin> fst ` set d) \<Longrightarrow>
   \<exists>prev'. foldM parse_manifest_step (prev, d) (map manifest_line rs)
     = Inr (prev', d @ map (\<lambda>pd. (PyStr (fst pd), PyStr (snd pd))) pds)"
proof (induction pds rs arbitrary: prev d rule: list_all2_induct)
  case (Cons pd pds r rs)
  have g: "good_record pd r" by fact
  then have v: "validate_relpath (PyStr (fst pd)) = Inr (fst pd)" "fst pd \<noteq> SHA256SUMS"
    and u: "utf8_decode (fst r) = Some (fst pd)" and h: "map unat (snd r) = snd pd"
    by (auto simp: good_record_def utf8_decode_encode ascii_bytes_hex)
  have ord: "\<not> (case prev of None \<Rightarrow> False | Some p \<Rightarrow> fst r \<le> p)"
    using Cons.prems(2) by (auto split: option.splits simp: not_le)
  have fresh: "PyStr (fst pd) \<notin> fst ` set d" using Cons.prems(4) by simp
  have step: "parse_manifest_step (prev, d) (manifest_line r)
      = Inr (Some (fst r), d @ [(PyStr (fst pd), PyStr (snd pd))])"
    unfolding parse_manifest_step_def match_manifest_good [OF g] fst_conv snd_conv option.case prod.case u v and_then_Inr h
      dict_put_fresh [OF fresh]
    using ord v(2) by (simp only: if_False simp_thms)
  have "\<exists>prev'. foldM parse_manifest_step (Some (fst r), d @ [(PyStr (fst pd), PyStr (snd pd))]) (map manifest_line rs)
     = Inr (prev', (d @ [(PyStr (fst pd), PyStr (snd pd))]) @ map (\<lambda>pd. (PyStr (fst pd), PyStr (snd pd))) pds)"
  proof (rule Cons.IH)
    show "case Some (fst r) of None \<Rightarrow> True | Some p \<Rightarrow> \<forall>r \<in> set rs. p < fst r" using Cons.prems(1) by auto
    show "\<forall>x \<in> set pds. PyStr (fst x) \<notin> fst ` set (d @ [(PyStr (fst pd), PyStr (snd pd))])"
    proof
      fix x assume x: "x \<in> set pds"
      then have "fst x \<noteq> fst pd" using Cons.prems(3) by (simp add: image_iff) metis
      then show "PyStr (fst x) \<notin> fst ` set (d @ [(PyStr (fst pd), PyStr (snd pd))])"
        using Cons.prems(4) x by simp
    qed
  qed (use Cons.prems in auto)
  then show ?case using step by simp
qed simp

lemma list_all2_sort_paths:
  assumes "list_all2 good_record pds rs"
  obtains qds where "list_all2 good_record qds (sort_key fst rs)" "mset qds = mset pds"
proof -
  have z: "\<forall>x \<in> set (zip pds rs). good_record (fst x) (snd x)" and l: "length pds = length rs"
    using assms by (auto simp: list_all2_iff)
  let ?zs = "sort_key (\<lambda>x. fst (snd x)) (zip pds rs)"
  have "map snd ?zs = sort_key fst rs"
  proof -
    have "map snd (sort_key (\<lambda>x. fst (snd x)) zs) = sort_key fst (map snd zs)" for zs :: "((pystr \<times> pystr) \<times> bytes \<times> bytes) list"
    proof (induction zs)
      case (Cons x zs)
      have "map snd (insort_key (\<lambda>x. fst (snd x)) x ys) = insort_key fst (snd x) (map snd ys)" for ys :: "((pystr \<times> pystr) \<times> bytes \<times> bytes) list"
        by (induction ys) auto
      then show ?case using Cons by simp
    qed simp
    then show ?thesis using l by simp
  qed
  moreover have "list_all2 good_record (map fst ?zs) (map snd ?zs)"
  proof -
    have "\<forall>x \<in> set ?zs. good_record (fst x) (snd x)" using z by simp
    moreover have "list_all2 good_record (map fst zs) (map snd zs)" if "\<forall>x \<in> set zs. good_record (fst x) (snd x)" for zs
      using that by (induction zs) auto
    ultimately show ?thesis by blast
  qed
  moreover have "mset (map fst ?zs) = mset pds" 
    unfolding mset_map mset_sort unfolding mset_map [symmetric] map_fst_zip [OF l] by (rule refl)
  ultimately show thesis using that by metis
qed

lemma manifest_round_trip:
  assumes "manifest_bytes (PyDict d) = Inr raw" "distinct (map fst d)"
  shows "\<exists>d'. parse_manifest_bytes (PyBytes raw) = Inr (PyDict d') \<and> mset d' = mset d"
proof -
  let ?e = "\<lambda>pd. (PyStr (fst pd), PyStr (snd pd))"
  obtain rs where rs: "mapM manifest_record d = Inr rs" "raw = concat (map manifest_line (sort_key fst rs))"
    using assms(1) by (auto simp: manifest_bytes_def)
  obtain pds where pds: "d = map ?e pds" "list_all2 good_record pds rs" using mapM_manifest_record [OF rs(1)] by blast
  obtain qds where q: "list_all2 good_record qds (sort_key fst rs)" "mset qds = mset pds"
    using list_all2_sort_paths [OF pds(2)] .
  define ss where "ss = sort_key fst rs"
  have dq: "distinct (map fst qds)"
  proof -
    have "distinct (map fst pds)" using assms(2) pds(1) by (auto simp: distinct_map inj_on_def)
    then show ?thesis using q(2) by (metis mset_eq_imp_distinct_iff mset_map)
  qed
  have "distinct (map fst ss)"
  proof -
    have "\<forall>i < length qds. utf8_encode (fst (qds ! i)) = Some (fst (ss ! i))" "length qds = length ss"
      using q(1) by (auto simp: list_all2_conv_all_nth good_record_def ss_def)
    then show ?thesis using dq by (auto simp: distinct_conv_nth) (metis utf8_encode_inj)
  qed
  then have strict: "sorted_wrt (<) (map fst ss)" by (simp add: strict_sorted_iff ss_def)
  obtain prev' where fold: "foldM parse_manifest_step (None, []) (map manifest_line ss) = Inr (prev', map ?e qds)"
    using parse_manifest_steps [OF q(1) [folded ss_def] strict, of None "[]"] dq by auto
  have sl: "splitlines_keep raw = map manifest_line ss"
    using splitlines_manifest [OF q(1)] rs(2) by (simp add: ss_def)
  have "sort_key fst ss = ss" by (simp add: ss_def sort_key_id_if_sorted sorted_sort_key)
  then have mb: "manifest_bytes (PyDict (map ?e qds)) = Inr raw"
    using good_records_mapM [OF q(1)] rs(2) by (simp add: manifest_bytes_def ss_def)
  have "raw = [] \<or> last raw = 10"
    by (cases "ss" rule: rev_cases) (auto simp: rs(2) manifest_line_def ss_def [symmetric])
  then have "parse_manifest_bytes (PyBytes raw) = Inr (PyDict (map ?e qds))"
    using fold mb by (auto simp: parse_manifest_bytes_def sl)
  moreover have "mset (map ?e qds) = mset d" using q(2) pds(1) by (metis mset_map)
  ultimately show ?thesis by blast
qed

section \<open>Properties\<close>

text \<open>Unfolding that runs the encoders on concrete values.\<close>

lemmas run_schema = encode_dict sorted_parameter_items_def parameter_item_def utf8_of_def utf8_encode_def
  lit_def is_scalar_def cp_octets_def item_code_def length_prefixed_def i64_bytes_def validate_i64_def
  I64_MIN_def I64_MAX_def length_prefixed_utf8_def environment_record_def length_prefixed_pair_def
  encode_command_environment_def ALLOWED_COMMAND_ENVIRONMENT_NAMES_def u64_bytes_def validate_u64_def U64_LIMIT_def

lemmas stop_schema = u64_bytes_Inr utf8_of_Inr length_prefixed_Inr validate_i64_Inr validate_u64_Inr and_then_eq_Inr
  encode_parameter_value.simps(6)

text \<open>
  C17. Manifests. What \<^verbatim>\<open>manifest_bytes\<close> writes for a mapping with distinct paths,
  \<^verbatim>\<open>parse_manifest_bytes\<close> accepts and reads back as the same entries, in bytewise path order; and a
  manifest that parses is exactly what the writer emits for the parsed entries.
\<close>

theorem manifest_codec:
  "(manifest_bytes (PyDict d) = Inr raw \<and> distinct (map fst d) \<longrightarrow>
      (\<exists>d'. parse_manifest_bytes (PyBytes raw) = Inr (PyDict d') \<and> mset d' = mset d)) \<and>
   (parse_manifest_bytes (PyBytes raw) = Inr v \<longrightarrow> manifest_bytes v = Inr raw)"
proof
  show "manifest_bytes (PyDict d) = Inr raw \<and> distinct (map fst d) \<longrightarrow>
      (\<exists>d'. parse_manifest_bytes (PyBytes raw) = Inr (PyDict d') \<and> mset d' = mset d)"
    using manifest_round_trip by blast
  show "parse_manifest_bytes (PyBytes raw) = Inr v \<longrightarrow> manifest_bytes v = Inr raw"
    by (auto simp: parse_manifest_bytes_def)
qed

theorem manifest_codec_witness:
  "\<exists>raw d'. manifest_bytes (PyDict [(PyStr (lit ''b.txt''), PyStr (replicate 64 97)), (PyStr (lit ''a/x''), PyStr (replicate 64 48))]) = Inr raw
     \<and> parse_manifest_bytes (PyBytes raw) = Inr (PyDict d')
     \<and> mset d' = mset [(PyStr (lit ''b.txt''), PyStr (replicate 64 97)), (PyStr (lit ''a/x''), PyStr (replicate 64 48))]"
proof -
  let ?d = "[(PyStr (lit ''b.txt''), PyStr (replicate 64 97)), (PyStr (lit ''a/x''), PyStr (replicate 64 48))]"
  have "\<exists>raw. manifest_bytes (PyDict ?d) = Inr raw"
    by (simp add: run_schema manifest_bytes_def manifest_record_def validate_relpath_def posix_root_def posix_tail_def
        posix_str_def join_with_def lower_hex_exactly_def is_lower_hex_def validate_sha256_def SHA256SUMS_def Let_def del: stop_schema validate_sha256_Inr)
  then obtain raw where "manifest_bytes (PyDict ?d) = Inr raw" ..
  moreover have "distinct (map fst ?d)" by (simp add: lit_def)
  ultimately show ?thesis using manifest_codec [of ?d raw PyNone] by blast
qed



text \<open>
  The preimage of a command-environment digest determines the environment: equal encodings have
  the same variables with the same values, every name is on the allow list, and neither names nor
  values hold a NUL.
\<close>

theorem environment_encoding_injective:
  assumes "encode_command_environment (PyDict d) = Inr b" "encode_command_environment (PyDict e) = Inr b"
  shows "mset d = mset e \<and>
    (\<forall>p \<in> set d. \<exists>n v. p = (PyStr n, PyStr v) \<and> n \<in> set ALLOWED_COMMAND_ENVIRONMENT_NAMES \<and> 0 \<notin> set n \<and> 0 \<notin> set v)"
proof
  show "mset d = mset e" by (rule encode_command_environment_inj [OF assms])
  obtain rs where "mapM environment_record d = Inr rs"
    using assms(1) by (auto simp: encode_command_environment_def)
  then show "\<forall>p \<in> set d. \<exists>n v. p = (PyStr n, PyStr v) \<and> n \<in> set ALLOWED_COMMAND_ENVIRONMENT_NAMES \<and> 0 \<notin> set n \<and> 0 \<notin> set v"
  proof (induction d arbitrary: rs)
    case (Cons p d)
    then obtain a b rs' where "environment_record p = Inr (a, b)" "mapM environment_record d = Inr rs'" by auto
    then show ?case using Cons.IH by (auto simp: environment_record_Inr)
  qed simp
qed

theorem environment_encoding_injective_witness:
  "\<exists>b. encode_command_environment (PyDict [(PyStr (lit ''TZ''), PyStr (lit ''UTC'')), (PyStr (lit ''HOME''), PyStr [])]) = Inr b
     \<and> encode_command_environment (PyDict [(PyStr (lit ''TZ''), PyStr (lit ''UT'')), (PyStr (lit ''HOME''), PyStr (lit ''C''))]) \<noteq> Inr b"
proof -
  let ?d = "[(PyStr (lit ''TZ''), PyStr (lit ''UTC'')), (PyStr (lit ''HOME''), PyStr [])]"
    and ?e = "[(PyStr (lit ''TZ''), PyStr (lit ''UT'')), (PyStr (lit ''HOME''), PyStr (lit ''C''))]"
  have "\<exists>b. encode_command_environment (PyDict ?d) = Inr b" by (simp add: run_schema Let_def del: stop_schema)
  then obtain b where "encode_command_environment (PyDict ?d) = Inr b" ..
  moreover have "mset ?d \<noteq> mset ?e" by (simp add: lit_def add_eq_conv_ex)
  ultimately show ?thesis using environment_encoding_injective [of ?d b ?e] by blast
qed

text \<open>
  C33. Accepted features. The digest preimage of an accepted set determines the set and nothing else:
  two lists of distinct u64 identifiers have the same set encoding exactly when they have the same
  members, and the same sequence encoding exactly when they are the same list.
\<close>

theorem accepted_features_faithful:
  assumes "distinct xs" "distinct ys" "\<forall>x \<in> set xs \<union> set ys. 0 \<le> x \<and> x \<le> U64_LIMIT"
    and "length xs < 2 ^ 64" "length ys < 2 ^ 64"
  shows "\<exists>b c b' c'. encode_accepted_set (PyList (map PyInt xs)) = Inr b \<and> encode_accepted_set (PyList (map PyInt ys)) = Inr c \<and>
    encode_accepted_sequence (PyList (map PyInt xs)) = Inr b' \<and> encode_accepted_sequence (PyList (map PyInt ys)) = Inr c' \<and>
    (b = c \<longleftrightarrow> set xs = set ys) \<and> (b' = c' \<longleftrightarrow> xs = ys)"
proof -
  have a: "accepted_id_list (PyList (map PyInt xs)) = Inr xs" "accepted_id_list (PyList (map PyInt ys)) = Inr ys"
    using assms by (simp_all add: accepted_id_list_Inr)
  obtain b c b' c' where e: "encode_ids ACCEPTED_SET_DOMAIN (sort xs) = Inr b" "encode_ids ACCEPTED_SET_DOMAIN (sort ys) = Inr c"
    "encode_ids ACCEPTED_SEQUENCE_DOMAIN xs = Inr b'" "encode_ids ACCEPTED_SEQUENCE_DOMAIN ys = Inr c'"
    using encode_ids_ok [of "sort xs"] encode_ids_ok [of "sort ys"] encode_ids_ok [of xs] encode_ids_ok [of ys] assms(3-5)
    by (metis UnI1 UnI2 length_sort set_sort)
  have "b = c \<longleftrightarrow> sort xs = sort ys" "b' = c' \<longleftrightarrow> xs = ys" using e encode_ids_inj by fastforce+
  moreover have "sort xs = sort ys \<longleftrightarrow> set xs = set ys"
    using assms(1,2) by (metis set_sort sorted_distinct_set_unique sorted_sort distinct_sort)
  ultimately show ?thesis using a e by (simp add: encode_accepted_set_def encode_accepted_sequence_def)
qed

theorem accepted_features_faithful_witness:
  "\<exists>b c b' c'. encode_accepted_set (PyList (map PyInt [7, 3])) = Inr b \<and> encode_accepted_set (PyList (map PyInt [3, 7])) = Inr c \<and>
    encode_accepted_sequence (PyList (map PyInt [7, 3])) = Inr b' \<and> encode_accepted_sequence (PyList (map PyInt [3, 7])) = Inr c' \<and>
    b = c \<and> b' \<noteq> c'"
  using accepted_features_faithful [of "[7, 3]" "[3, 7]"] by (force simp: U64_LIMIT_def)

text \<open>
  Relative paths. \<^verbatim>\<open>validate_relpath\<close> accepts exactly the strings without NUL, backslash and
  surrogates whose slash-separated components are all nonempty and neither a dot nor a double dot:
  an accepted path is relative and cannot leave the directory it is resolved in.
\<close>

theorem relpath_accepts_exactly:
  "validate_relpath v = Inr t \<longleftrightarrow>
     v = PyStr t \<and> list_all is_scalar t \<and> 0 \<notin> set t \<and> 92 \<notin> set t \<and>
     (\<forall>p \<in> set (split_on 47 t). p \<noteq> [] \<and> p \<noteq> lit ''.'' \<and> p \<noteq> lit ''..'')"
  unfolding validate_relpath_Inr safe_component_def by (rule refl)

theorem relpath_accepts_exactly_witness:
  "validate_relpath (PyStr (lit ''a/b.txt'')) = Inr (lit ''a/b.txt'') \<and>
   validate_relpath (PyStr (lit ''a/../b'')) \<noteq> Inr (lit ''a/../b'')"
  unfolding relpath_accepts_exactly by (simp add: lit_def is_scalar_def)

text \<open>
  Decimal timestamps are exact: on a well-formed text the result is the denoted rational number
  of seconds times \<open>10 ^ 9\<close>, with no rounding, and there is a result exactly when that number fits u64.
\<close>

theorem decimal_timestamp_exact:
  assumes "decimal_seconds_pattern s"
  shows "decimal_seconds_to_ns (PyStr s) = Inr n \<longleftrightarrow> of_int n = decimal_value s * 10 ^ 9 \<and> n \<le> U64_LIMIT"
  by (rule decimal_seconds_exact [OF assms])

theorem decimal_timestamp_exact_witness:
  "decimal_seconds_pattern (lit ''1403636580.8388'') \<and>
   decimal_seconds_to_ns (PyStr (lit ''1403636580.8388'')) = Inr 1403636580838800000"
proof -
  have p: "decimal_seconds_pattern (lit ''1403636580.8388'')"
    by (simp add: decimal_seconds_pattern_def partition_dot_def lit_def is_digit_def Let_def)
  have "of_int 1403636580838800000 = decimal_value (lit ''1403636580.8388'') * 10 ^ 9"
    by (simp add: decimal_value_def partition_dot_def lit_def int_base10_def of_digits_def Let_def)
  then show ?thesis using decimal_timestamp_exact [OF p, of 1403636580838800000] p by (simp add: U64_LIMIT_def)
qed

text \<open>
  The agreement gate decides the rational inequality: for u64 counts it passes exactly when the
  denominator is positive and the numerator is between 999/1000 of it and all of it, and it never
  raises on them.
\<close>

theorem agreement_gate_exact:
  assumes "0 \<le> num" "num \<le> U64_LIMIT" "0 \<le> den" "den \<le> U64_LIMIT"
  shows "\<exists>r. agreement_gate_999_per_1000 (PyInt num) (PyInt den) = Inr r \<and>
           (r \<longleftrightarrow> den \<noteq> 0 \<and> 999 / 1000 \<le> (of_int num / of_int den :: rat) \<and> (of_int num / of_int den :: rat) \<le> 1)"
proof -
  have v: "validate_u64 (PyInt num) = Inr num" "validate_u64 (PyInt den) = Inr den" using assms by simp_all
  show ?thesis
  proof (cases "den = 0")
    case False
    then have d: "0 < (of_int den :: rat)" using assms(3) by simp
    have "999 / 1000 \<le> (of_int num / of_int den :: rat) \<longleftrightarrow> (of_int (999 * den) :: rat) \<le> of_int (1000 * num)"
      using d by (simp add: field_simps)
    moreover have "(of_int num / of_int den :: rat) \<le> 1 \<longleftrightarrow> num \<le> den" using d by simp
    ultimately show ?thesis using False unfolding of_int_le_iff
      by (auto simp: agreement_gate_999_per_1000_def v not_less)
  qed (use assms in \<open>auto simp: agreement_gate_999_per_1000_def\<close>)
qed

theorem agreement_gate_exact_witness:
  "\<exists>r. agreement_gate_999_per_1000 (PyInt 9990) (PyInt 10000) = Inr r \<and> r"
  using agreement_gate_exact [of 9990 10000] by (simp add: U64_LIMIT_def)

text \<open>
  Checked sums: the sum of a list of integers is returned exactly when every member is
  nonnegative and the total fits u64, and it is the true total.
\<close>

theorem checked_sum_exact:
  "checked_u64_sum (PyList (map PyInt xs)) = Inr n \<longleftrightarrow>
     (\<forall>x \<in> set xs. 0 \<le> x) \<and> sum_list xs \<le> U64_LIMIT \<and> n = sum_list xs"
  using checked_u64_sum_fold [of 0 xs n] by (simp add: checked_u64_sum_def U64_LIMIT_def)

theorem checked_sum_exact_witness:
  "checked_u64_sum (PyList (map PyInt [18446744073709551615, 0])) = Inr 18446744073709551615 \<and>
   checked_u64_sum (PyList (map PyInt [18446744073709551615, 1])) \<noteq> Inr 0"
  unfolding checked_sum_exact by (simp add: U64_LIMIT_def)

end
