(* ===== verification/Schema_Json.thy ===== *)
theory Schema_Json
  imports Cp2_Schema_Correct Py_Json
begin

text \<open>
  The JSON layer of \<^verbatim>\<open>src/scripts/cp2/cp2_schema.py\<close>: strict parsing of one document, strict JSONL
  parsing, and the deterministic emission of JSONL records. \<open>depth\<close> is the interpreter's remaining
  recursion limit for the calls into \<^verbatim>\<open>json\<close>.
\<close>

section \<open>Strict documents\<close>

definition schema_pairs_hook :: "(pystr \<times> pyval) list \<Rightarrow> pyval py" where
  "schema_pairs_hook pairs = and_then (object_without_duplicates pairs) (\<lambda>result. Inr (PyDict (string_items result)))"

definition reject_json_constant :: "pystr \<Rightarrow> pyval py" where
  "reject_json_constant token = schema_fail ''non-JSON numeric constant is forbidden''"

definition parse_json_float :: "pystr \<Rightarrow> pyval py" where
  "parse_json_float token =
     (let value = float_of_token token in
      if \<not> f64_finite value then schema_fail ''JSON number is not finite binary64'' else Inr (PyFloat value))"

definition schema_hooks :: json_hooks where
  "schema_hooks = \<lparr>object_pairs_hook = schema_pairs_hook, parse_float = parse_json_float,
     parse_constant = reject_json_constant\<rparr>"

text \<open>\<^verbatim>\<open>except SchemaError: raise\<close>, then \<^verbatim>\<open>except (TypeError, ValueError)\<close>.\<close>

definition as_schema_error :: "string \<Rightarrow> 'a py \<Rightarrow> 'a py" where
  "as_schema_error message m =
     (case m of Inl (ValueError _) \<Rightarrow> schema_fail message | Inl (TypeError _) \<Rightarrow> schema_fail message | _ \<Rightarrow> m)"

definition document_text :: "pyval \<Rightarrow> pystr py" where
  "document_text document =
     (case document of
        PyBytes raw \<Rightarrow> (case utf8_decode raw of None \<Rightarrow> schema_fail ''document is not UTF-8'' | Some text \<Rightarrow> Inr text)
      | PyByteArray raw \<Rightarrow> (case utf8_decode raw of None \<Rightarrow> schema_fail ''document is not UTF-8'' | Some text \<Rightarrow> Inr text)
      | PyStr text \<Rightarrow> and_then (utf8_of False document) (\<lambda>_. Inr text)
      | _ \<Rightarrow> schema_fail ''document must be str, bytes, or bytearray'')"

definition strict_json_loads :: "nat \<Rightarrow> pyval \<Rightarrow> pyval py" where
  "strict_json_loads depth document =
     and_then (document_text document) (\<lambda>text.
     and_then (as_schema_error ''invalid JSON'' (json_loads schema_hooks depth text)) (\<lambda>value.
     and_then (validate_json_tree value) (\<lambda>_. Inr value)))"

section \<open>JSONL\<close>

text \<open>\<^verbatim>\<open>str.splitlines()\<close>: every Unicode line boundary ends a line.\<close>

definition is_line_break :: "nat \<Rightarrow> bool" where
  "is_line_break c \<longleftrightarrow> c \<in> {10, 11, 12, 13, 0x1C, 0x1D, 0x1E, 0x85, 0x2028, 0x2029}"

function splitlines :: "pystr \<Rightarrow> pystr list" where
  "splitlines s =
     (if s = [] then []
      else takeWhile (\<lambda>c. \<not> is_line_break c) s #
        (case dropWhile (\<lambda>c. \<not> is_line_break c) s of
           [] \<Rightarrow> []
         | c # r \<Rightarrow> splitlines (if c = 13 \<and> take 1 r = [10] then drop 1 r else r)))"
  by pat_completeness auto
termination
proof (relation "measure length", simp)
  fix s :: pystr and c r
  assume "dropWhile (\<lambda>c. \<not> is_line_break c) s = c # r"
  then have "Suc (length r) \<le> length s" by (metis length_Cons length_dropWhile_le)
  then show "(if c = 13 \<and> take 1 r = [10] then drop 1 r else r, s) \<in> measure length" by auto
qed

declare splitlines.simps [simp del]

definition jsonl_line :: "nat \<Rightarrow> pystr \<Rightarrow> pyval py" where
  "jsonl_line depth line =
     (if line = [] then schema_fail ''JSONL document contains a blank line''
      else and_then (strict_json_loads depth (PyStr line)) (\<lambda>value.
        case value of PyDict kvs \<Rightarrow> Inr (PyDict kvs) | _ \<Rightarrow> schema_fail ''JSONL line is not an object''))"

definition strict_jsonl_loads :: "nat \<Rightarrow> pyval \<Rightarrow> pyval list py" where
  "strict_jsonl_loads depth document =
     and_then (document_text document) (\<lambda>text.
     if 13 \<in> set text then schema_fail ''JSONL document must use LF newlines only''
     else if text \<noteq> [] \<and> last text \<noteq> 10 then schema_fail ''nonempty JSONL document must end with one LF''
     else mapM (jsonl_line depth) (splitlines text))"

definition json_line_bytes :: "nat \<Rightarrow> pyval \<Rightarrow> bytes py" where
  "json_line_bytes depth rec =
     (case rec of
        PyDict kvs \<Rightarrow>
          and_then (validate_json_tree rec) (\<lambda>_.
          as_schema_error ''cannot emit JSONL record''
            (and_then (json_dumps False depth rec) (\<lambda>text.
               case utf8_encode (text @ [10]) of
                 None \<Rightarrow> Inl (ValueError ''surrogates not allowed'')
               | Some encoded \<Rightarrow> Inr encoded)))
      | _ \<Rightarrow> schema_fail ''JSONL record must be an object'')"

definition jsonl_records :: "pyval \<Rightarrow> pyval list py" where
  "jsonl_records records =
     (case records of
        PyStr _ \<Rightarrow> schema_fail ''JSONL records must be an iterable of objects''
      | PyBytes _ \<Rightarrow> schema_fail ''JSONL records must be an iterable of objects''
      | PyByteArray _ \<Rightarrow> schema_fail ''JSONL records must be an iterable of objects''
      | PyList xs \<Rightarrow> Inr xs
      | PyTuple xs \<Rightarrow> Inr xs
      | PyDict d \<Rightarrow> Inr (map fst d)
      | _ \<Rightarrow> Inl (TypeError ''object is not iterable''))"

definition jsonl_bytes :: "nat \<Rightarrow> pyval \<Rightarrow> bytes py" where
  "jsonl_bytes depth records =
     and_then (jsonl_records records) (\<lambda>xs. and_then (mapM (json_line_bytes depth) xs) (\<lambda>lines. Inr (concat lines)))"

section \<open>Round trip\<close>

lemma object_without_duplicates_eq:
  "object_without_duplicates pairs = foldM (put_new (SchemaError ''duplicate JSON object key'')) [] pairs"
  unfolding object_without_duplicates_def put_new_def [abs_def] schema_fail_def ..

interpretation schema_reader: json_reader schema_hooks
proof
  fix kvs :: "(pystr \<times> pyval) list"
  assume "distinct (map fst kvs)"
  then show "object_pairs_hook schema_hooks kvs = Inr (PyDict (string_items kvs))"
    using put_new_distinct [of "[]" kvs] by (simp add: schema_hooks_def schema_pairs_hook_def object_without_duplicates_eq)
qed

lemma validate_list_ok: "(\<And>x. x \<in> set xs \<Longrightarrow> validate_json_tree x = Inr ()) \<Longrightarrow> validate_json_list xs = Inr ()"
  by (induction xs) auto

lemma utf8_of_scalar: "list_all is_scalar s \<Longrightarrow> \<exists>b. utf8_of False (PyStr s) = Inr b"
  by (simp add: utf8_of_def utf8_encode_def)

lemma validate_items_ok:
  "(\<And>k v. (k, v) \<in> set kvs \<Longrightarrow> key_ok k \<and> validate_json_tree v = Inr ()) \<Longrightarrow> validate_json_items kvs = Inr ()"
proof (induction kvs)
  case (Cons kv kvs)
  obtain k v where kv: "kv = (k, v)" by (cases kv)
  then have k: "k = PyStr (key_text k)" "list_all is_scalar (key_text k)" "validate_json_tree v = Inr ()"
    using Cons.prems key_ok_PyStr [of k] by auto
  then obtain b where "utf8_of False k = Inr b" using utf8_of_scalar by metis
  then show ?case using Cons k kv by auto
qed simp

lemma validate_scalar_ok: "scalar_normal v \<Longrightarrow> validate_json_tree v = Inr ()"
  using utf8_of_scalar by (cases v) (auto simp: scalar_normal_def)

lemma validate_string_ok: "\<forall>c \<in> set s. is_scalar c \<Longrightarrow> validate_json_tree (PyStr s) = Inr ()"
  using utf8_of_scalar [of s] by (auto simp: list_all_iff)

lemma validate_normal: "json_normal d v \<Longrightarrow> validate_json_tree v = Inr ()"
proof (induction d arbitrary: v)
  case (Suc d)
  then show ?case
    by (cases v) (auto simp: list_all_iff validate_string_ok scalar_normal_def simp del: validate_json_tree.simps(5)
        intro!: validate_list_ok validate_items_ok)
qed (simp add: validate_scalar_ok)

text \<open>Lines that contain no boundary character.\<close>

lemma text_splitlines_line:
  assumes "\<forall>c \<in> set l. \<not> is_line_break c"
  shows "splitlines (l @ 10 # r) = l # splitlines r"
proof -
  have "takeWhile (\<lambda>c. \<not> is_line_break c) (l @ 10 # r) = l" "dropWhile (\<lambda>c. \<not> is_line_break c) (l @ 10 # r) = 10 # r"
    using assms by (simp_all add: takeWhile_append2 dropWhile_append2 is_line_break_def)
  then show ?thesis by (subst splitlines.simps) simp
qed

lemma splitlines_Nil [simp]: "splitlines [] = []"
  by (simp add: splitlines.simps)

lemma splitlines_concat:
  "\<forall>l \<in> set ls. \<forall>c \<in> set l. \<not> is_line_break c \<Longrightarrow> splitlines (concat (map (\<lambda>l. l @ [10]) ls)) = ls"
  by (induction ls) (auto simp: text_splitlines_line)

definition breaks_line :: "pystr \<Rightarrow> bool" where
  "breaks_line s \<longleftrightarrow> 0x85 \<in> set s \<or> 0x2028 \<in> set s \<or> 0x2029 \<in> set s"

lemma text_ok_no_break: "text_ok a t \<Longrightarrow> \<not> breaks_line t \<Longrightarrow> c \<in> set t \<Longrightarrow> \<not> is_line_break c"
  by (auto simp: text_ok_def breaks_line_def is_line_break_def)

lemma utf8_encode_append: "utf8_encode (s @ t) = Some b \<Longrightarrow> \<exists>b1 b2. utf8_encode s = Some b1 \<and> utf8_encode t = Some b2 \<and> b = b1 @ b2"
  by (auto simp: utf8_encode_def split: if_splits)

lemma utf8_encode_concat:
  "list_all (\<lambda>s. list_all is_scalar s) ss \<Longrightarrow> utf8_encode (concat ss) = Some (concat (map (the \<circ> utf8_encode) ss))"
proof (induction ss)
  case (Cons s ss)
  then have "list_all is_scalar (concat ss)" by (auto simp: list_all_iff)
  then show ?case using Cons by (simp add: utf8_encode_def)
qed (simp add: utf8_encode_def)

lemma line_bytes_normal:
  assumes "json_normal d (PyDict kvs)"
  shows "\<exists>t. json_dumps False d (PyDict kvs) = Inr t \<and> text_ok False t \<and> t \<noteq> [] \<and>
    json_line_bytes d (PyDict kvs) = Inr (the (utf8_encode (t @ [10]))) \<and> strict_json_loads d (PyStr t) = Inr (PyDict kvs)"
proof -
  obtain t where t: "json_dumps False d (PyDict kvs) = Inr t" "json_loads schema_hooks d t = Inr (PyDict kvs)"
    using schema_reader.loads_dumps [OF assms, of False] by blast
  have ok: "text_ok False t" by (rule text_ok_dumps [OF assms t(1)])
  then have s: "list_all is_scalar t" by (rule text_ok_scalars)
  have v: "validate_json_tree (PyDict kvs) = Inr ()" by (rule validate_normal [OF assms])
  have "\<exists>b. utf8_encode (t @ [10]) = Some b" using s by (auto simp: utf8_encode_def is_scalar_def)
  then obtain b where b: "utf8_encode (t @ [10]) = Some b" ..
  have "t \<noteq> []" using t(2) by (auto simp: json_loads_def skip_ws_def) (cases d; auto simp: scan_scalar_def json_error_def)
  moreover have "json_line_bytes d (PyDict kvs) = Inr b" using v t(1) b
    by (simp add: json_line_bytes_def as_schema_error_def del: validate_json_tree.simps)
  moreover obtain b' where "utf8_of False (PyStr t) = Inr b'" using utf8_of_scalar [OF s] ..
  then have "strict_json_loads d (PyStr t) = Inr (PyDict kvs)" using t(2) v
    by (simp add: strict_json_loads_def document_text_def as_schema_error_def del: validate_json_tree.simps)
  ultimately show ?thesis using t(1) ok b by auto
qed




text \<open>
  A record that the writer accepts and the reader refuses. A string with a next-line character is
  emitted raw, because only ASCII control characters are escaped, and \<^verbatim>\<open>str.splitlines\<close> then cuts
  the line inside the string.
\<close>

theorem jsonl_next_line_refused:
  "\<exists>doc. jsonl_bytes 1 (PyList [PyDict [(PyStr (lit ''k''), PyStr [0x85])]]) = Inr doc \<and>
     strict_jsonl_loads 1 (PyBytes doc) = Inl (SchemaError ''invalid JSON'')"
proof -
  let ?r = "PyDict [(PyStr (lit ''k''), PyStr [0x85])]"
  have t: "json_dumps False 1 ?r = Inr [123, 34, 107, 34, 58, 34, 0x85, 34, 125]"
    by (simp add: dump_object_def dump_member_def is_container_def quote_def lit_def escape_char_def)
  have n: "json_normal 1 ?r" by (simp add: One_nat_def scalar_normal_def lit_def is_scalar_def)
  let ?text = "[123, 34, 107, 34, 58, 34, 0x85, 34, 125, 10] :: pystr"
  have b: "json_line_bytes 1 ?r = Inr (the (utf8_encode ?text))" using line_bytes_normal [OF n] t by simp
  have e: "utf8_encode ?text = Some (the (utf8_encode ?text))" by (simp add: utf8_encode_def is_scalar_def)
  have d: "utf8_decode (the (utf8_encode ?text)) = Some ?text" by (rule utf8_decode_encode [OF e])
  have s: "splitlines ?text = [[123, 34, 107, 34, 58, 34], [34, 125]]"
    by (simp add: splitlines.simps is_line_break_def)
  have l: "json_loads schema_hooks 1 [123, 34, 107, 34, 58, 34] = Inl (ValueError ''Unterminated string'')"
    by (simp add: json_loads_def skip_ws_def is_ws_def One_nat_def scan_object_def scan_member_def scan_string.simps
        scan_scalar_def json_error_def)
  have u: "utf8_of False (PyStr [123, 34, 107, 34, 58, 34]) = Inr [123, 34, 107, 34, 58, 34]"
    by (simp add: utf8_of_def utf8_encode_def is_scalar_def cp_octets_def)
  have "jsonl_line 1 [123, 34, 107, 34, 58, 34] = Inl (SchemaError ''invalid JSON'')"
    by (simp add: jsonl_line_def strict_json_loads_def document_text_def u l [unfolded One_nat_def] as_schema_error_def schema_fail_def)
  then have "strict_jsonl_loads 1 (PyBytes (the (utf8_encode ?text))) = Inl (SchemaError ''invalid JSON'')"
    by (simp add: strict_jsonl_loads_def document_text_def d s)
  then show ?thesis using b by (simp add: jsonl_bytes_def jsonl_records_def)
qed

end
