(* ===== verification/Sequence_Assoc.thy ===== *)
theory Sequence_Assoc
  imports Py_Prelude
begin

text \<open>
  Timestamp populations and ground-truth association, as \<^verbatim>\<open>src/scripts/cp2/cp2_sequence_math.py\<close>
  computes them for the evaluation and \<^verbatim>\<open>src/scripts/cp2/cp2_sequence_math_codec.py\<close> replays them
  in the verifier. Both modules intersect two increasing traces and pick for every shared pose the
  nearest ground-truth row within ten milliseconds; the second one is written independently of the
  first. The reference definition at the end is the exhaustive search both are compared with.
\<close>

section \<open>Evaluation side\<close>

definition SEQ_U64_MAX :: int where "SEQ_U64_MAX = 2 ^ 64 - 1"
definition GROUND_TRUTH_MAX_DIFFERENCE_NS :: int where "GROUND_TRUTH_MAX_DIFFERENCE_NS = 10000000"

definition sequence_fail :: "string \<Rightarrow> 'a py" where
  "sequence_fail message = Inl (SequenceMathError message)"

lemma sequence_fail_not_Inr [simp]: "sequence_fail m \<noteq> Inr x"
  by (simp add: sequence_fail_def)

lemma if_sequence_fail_eq [simp]: "(if b then sequence_fail m else r) = Inr y \<longleftrightarrow> \<not> b \<and> r = Inr y"
  by simp

definition sequence_u64 :: "pyval \<Rightarrow> int py" where
  "sequence_u64 value =
     (case value of
        PyInt n \<Rightarrow> if n < 0 \<or> SEQ_U64_MAX < n then sequence_fail ''is outside u64'' else Inr n
      | _ \<Rightarrow> sequence_fail ''must be integer nanoseconds'')"

definition timestamp_rows :: "pyval \<Rightarrow> pyval list py" where
  "timestamp_rows values =
     (case values of
        PyStr _ \<Rightarrow> sequence_fail ''must be integer-nanosecond rows''
      | PyBytes _ \<Rightarrow> sequence_fail ''must be integer-nanosecond rows''
      | PyByteArray _ \<Rightarrow> sequence_fail ''must be integer-nanosecond rows''
      | PyList xs \<Rightarrow> Inr xs
      | PyTuple xs \<Rightarrow> Inr xs
      | PyDict d \<Rightarrow> Inr (map fst d)
      | _ \<Rightarrow> sequence_fail ''must be iterable'')"

text \<open>The loops \<^verbatim>\<open>for index in range(1, len(result))\<close> over adjacent rows.\<close>

definition strictly_increasing :: "int list \<Rightarrow> bool" where
  "strictly_increasing ts = list_all (\<lambda>i. \<not> ts ! i \<le> ts ! (i - 1)) [1..<length ts]"

definition nondecreasing :: "int list \<Rightarrow> bool" where
  "nondecreasing ts = list_all (\<lambda>i. \<not> ts ! i < ts ! (i - 1)) [1..<length ts]"

definition sequence_timestamps :: "pyval \<Rightarrow> int list py" where
  "sequence_timestamps values =
     and_then (timestamp_rows values) (\<lambda>xs.
     and_then (mapM sequence_u64 xs) (\<lambda>ts.
       if \<not> strictly_increasing ts then sequence_fail ''timestamps must be strictly increasing and unique'' else Inr ts))"

definition ground_truth_timestamps :: "pyval \<Rightarrow> int list py" where
  "ground_truth_timestamps values =
     and_then (timestamp_rows values) (\<lambda>xs.
     and_then (mapM sequence_u64 xs) (\<lambda>ts.
       if \<not> nondecreasing ts then sequence_fail ''ground-truth timestamps must be nondecreasing'' else Inr ts))"

text \<open>The two-pointer merge of the traces.\<close>

function intersect_loop :: "int list \<Rightarrow> int list \<Rightarrow> nat \<Rightarrow> nat \<Rightarrow> int list \<Rightarrow> int list" where
  "intersect_loop nullspace schur l r shared =
     (if l < length nullspace \<and> r < length schur then
        if nullspace ! l = schur ! r then intersect_loop nullspace schur (l + 1) (r + 1) (shared @ [nullspace ! l])
        else if nullspace ! l < schur ! r then intersect_loop nullspace schur (l + 1) r shared
        else intersect_loop nullspace schur l (r + 1) shared
      else shared)"
  by pat_completeness auto
termination
  by (relation "measure (\<lambda>(a, b, l, r, s). (length a - l) + (length b - r))") auto

declare intersect_loop.simps [simp del]

definition shared_timestamp_intersection :: "pyval \<Rightarrow> pyval \<Rightarrow> int list py" where
  "shared_timestamp_intersection nullspace_timestamps_ns schur_timestamps_ns =
     and_then (sequence_timestamps nullspace_timestamps_ns) (\<lambda>nullspace.
     and_then (sequence_timestamps schur_timestamps_ns) (\<lambda>schur.
       Inr (intersect_loop nullspace schur 0 0 [])))"

definition validate_shared_timestamp_intersection :: "pyval \<Rightarrow> pyval \<Rightarrow> pyval \<Rightarrow> int list py" where
  "validate_shared_timestamp_intersection nullspace_timestamps_ns schur_timestamps_ns retained_shared_timestamps_ns =
     and_then (shared_timestamp_intersection nullspace_timestamps_ns schur_timestamps_ns) (\<lambda>expected.
     and_then (sequence_timestamps retained_shared_timestamps_ns) (\<lambda>retained.
       if retained \<noteq> expected
       then sequence_fail ''retained shared timestamp population is not the exact mode intersection'' else Inr retained))"

text \<open>\<^verbatim>\<open>bisect.bisect_left\<close> and the hand-written lower bound of the codec are the same search.\<close>

function lower_bound :: "int list \<Rightarrow> int \<Rightarrow> nat \<Rightarrow> nat \<Rightarrow> nat" where
  "lower_bound xs x low high =
     (if low < high then
        let middle = (low + high) div 2 in
        if xs ! middle < x then lower_bound xs x (middle + 1) high else lower_bound xs x low middle
      else low)"
  by pat_completeness auto
termination
  by (relation "measure (\<lambda>(xs, x, low, high). high - low)") auto

declare lower_bound.simps [simp del]

definition bisect_left :: "int list \<Rightarrow> int \<Rightarrow> nat" where
  "bisect_left xs x = lower_bound xs x 0 (length xs)"

record timestamp_association =
  estimator_index :: int
  estimator_timestamp_ns :: int
  ground_truth_index :: int
  ground_truth_timestamp_ns :: int
  absolute_difference_ns :: int

definition bisect_candidates :: "int list \<Rightarrow> int \<Rightarrow> nat list" where
  "bisect_candidates ground_truth timestamp =
     (let insertion = bisect_left ground_truth timestamp in
      (if 0 < insertion then [bisect_left ground_truth (ground_truth ! (insertion - 1))] else []) @
      (if insertion < length ground_truth then [insertion] else []))"

definition improve :: "int list \<Rightarrow> int \<Rightarrow> int \<times> int \<Rightarrow> nat \<Rightarrow> int \<times> int" where
  "improve ground_truth timestamp best k =
     (let difference = \<bar>timestamp - ground_truth ! k\<bar> in
      if difference < snd best then (int k, difference) else best)"

definition associate_row :: "int list \<Rightarrow> nat \<times> int \<Rightarrow> timestamp_association list" where
  "associate_row ground_truth row =
     (let (best_index, best_difference) =
        foldl (improve ground_truth (snd row)) (- 1, SEQ_U64_MAX) (bisect_candidates ground_truth (snd row)) in
      if 0 \<le> best_index \<and> best_difference \<le> GROUND_TRUTH_MAX_DIFFERENCE_NS then
        [\<lparr>estimator_index = int (fst row), estimator_timestamp_ns = snd row, ground_truth_index = best_index,
          ground_truth_timestamp_ns = ground_truth ! nat best_index, absolute_difference_ns = best_difference\<rparr>]
      else [])"

definition associate_nearest_ground_truth :: "pyval \<Rightarrow> pyval \<Rightarrow> timestamp_association list py" where
  "associate_nearest_ground_truth estimator_timestamps_ns ground_truth_timestamps_ns =
     and_then (sequence_timestamps estimator_timestamps_ns) (\<lambda>estimator.
     and_then (ground_truth_timestamps ground_truth_timestamps_ns) (\<lambda>ground_truth.
     if ground_truth = [] \<and> estimator \<noteq> [] then sequence_fail ''ground-truth timestamp population is empty''
     else Inr (concat (map (associate_row ground_truth) (enumerate 0 estimator)))))"

definition validate_ground_truth_associations ::
    "pyval \<Rightarrow> pyval \<Rightarrow> timestamp_association list \<Rightarrow> timestamp_association list py" where
  "validate_ground_truth_associations estimator_timestamps_ns ground_truth_timestamps_ns retained =
     and_then (associate_nearest_ground_truth estimator_timestamps_ns ground_truth_timestamps_ns) (\<lambda>expected.
       if retained \<noteq> expected
       then sequence_fail ''retained ground-truth association differs from exact nearest-row selection'' else Inr expected)"

section \<open>Verifier side\<close>

function shared_loop :: "int list \<Rightarrow> int list \<Rightarrow> nat \<Rightarrow> nat \<Rightarrow> int list \<Rightarrow> int list" where
  "shared_loop left right left_index right_index result =
     (if left_index < length left \<and> right_index < length right then
        if left ! left_index = right ! right_index
        then shared_loop left right (left_index + 1) (right_index + 1) (result @ [left ! left_index])
        else if left ! left_index < right ! right_index then shared_loop left right (left_index + 1) right_index result
        else shared_loop left right left_index (right_index + 1) result
      else result)"
  by pat_completeness auto
termination
  by (relation "measure (\<lambda>(a, b, l, r, s). (length a - l) + (length b - r))") auto

declare shared_loop.simps [simp del]

definition codec_shared :: "int list \<Rightarrow> int list \<Rightarrow> int list" where
  "codec_shared left right = shared_loop left right 0 0 []"

definition codec_candidates :: "int list \<Rightarrow> int \<Rightarrow> nat list" where
  "codec_candidates ground_truth timestamp =
     (let low = lower_bound ground_truth timestamp 0 (length ground_truth) in
      (if 0 < low then [lower_bound ground_truth (ground_truth ! (low - 1)) 0 low] else []) @
      (if low < length ground_truth then [low] else []))"

text \<open>\<^verbatim>\<open>min(candidates, key=...)\<close>: the first item whose key is smallest.\<close>

fun min_candidate :: "(nat \<Rightarrow> int \<times> nat) \<Rightarrow> nat list \<Rightarrow> nat" where
  "min_candidate key [] = 0"
| "min_candidate key [k] = k"
| "min_candidate key (k # ks) =
     (let m = min_candidate key ks in
      if fst (key k) < fst (key m) \<or> fst (key k) = fst (key m) \<and> snd (key k) \<le> snd (key m) then k else m)"

definition codec_row :: "int list \<Rightarrow> nat \<times> int \<Rightarrow> timestamp_association list" where
  "codec_row ground_truth row =
     (if ground_truth = [] then []
      else let gt_index = min_candidate (\<lambda>item. (\<bar>ground_truth ! item - snd row\<bar>, item)) (codec_candidates ground_truth (snd row));
               best_delta = \<bar>ground_truth ! gt_index - snd row\<bar> in
           if best_delta \<le> GROUND_TRUTH_MAX_DIFFERENCE_NS then
             [\<lparr>estimator_index = int (fst row), estimator_timestamp_ns = snd row, ground_truth_index = int gt_index,
               ground_truth_timestamp_ns = ground_truth ! gt_index, absolute_difference_ns = best_delta\<rparr>]
           else [])"

definition nearest_associations :: "int list \<Rightarrow> int list \<Rightarrow> timestamp_association list" where
  "nearest_associations timestamps ground_truth = concat (map (codec_row ground_truth) (enumerate 0 timestamps))"

section \<open>Reference definition\<close>

text \<open>The nearest row by exhaustive search: no row is closer, and no earlier row is as close.\<close>

definition is_nearest :: "int list \<Rightarrow> int \<Rightarrow> nat \<Rightarrow> bool" where
  "is_nearest ground_truth timestamp i =
     (i < length ground_truth \<and>
      list_all (\<lambda>j. \<bar>timestamp - ground_truth ! i\<bar> < \<bar>timestamp - ground_truth ! j\<bar> \<or>
                   \<bar>timestamp - ground_truth ! i\<bar> = \<bar>timestamp - ground_truth ! j\<bar> \<and> i \<le> j) [0..<length ground_truth])"

definition reference_row :: "int list \<Rightarrow> nat \<times> int \<Rightarrow> timestamp_association list" where
  "reference_row ground_truth row =
     [\<lparr>estimator_index = int (fst row), estimator_timestamp_ns = snd row, ground_truth_index = int i,
       ground_truth_timestamp_ns = ground_truth ! i, absolute_difference_ns = \<bar>snd row - ground_truth ! i\<bar>\<rparr>.
      i \<leftarrow> [0..<length ground_truth],
      is_nearest ground_truth (snd row) i \<and> \<bar>snd row - ground_truth ! i\<bar> \<le> GROUND_TRUTH_MAX_DIFFERENCE_NS]"

definition reference_associations :: "int list \<Rightarrow> int list \<Rightarrow> timestamp_association list" where
  "reference_associations timestamps ground_truth = concat (map (reference_row ground_truth) (enumerate 0 timestamps))"

section \<open>Ordered populations\<close>

lemma adjacent_iff: "list_all (\<lambda>i. P (ts ! (i - 1)) (ts ! i)) [1..<length ts] \<longleftrightarrow> (\<forall>i. Suc i < length ts \<longrightarrow> P (ts ! i) (ts ! Suc i))"
  unfolding list_all_iff
proof (intro iffI allI impI ballI)
  fix i
  assume "\<forall>i \<in> set [1..<length ts]. P (ts ! (i - 1)) (ts ! i)" "Suc i < length ts"
  then show "P (ts ! i) (ts ! Suc i)" by (auto dest!: bspec [of _ _ "Suc i"])
next
  fix i
  assume "\<forall>i. Suc i < length ts \<longrightarrow> P (ts ! i) (ts ! Suc i)" "i \<in> set [1..<length ts]"
  then show "P (ts ! (i - 1)) (ts ! i)" by (cases i) auto
qed

lemma strictly_increasing_iff: "strictly_increasing ts \<longleftrightarrow> sorted_wrt (<) ts"
  using adjacent_iff [of "(<)" ts] by (simp add: strictly_increasing_def not_le sorted_wrt_iff_nth_Suc_transp)

lemma nondecreasing_iff: "nondecreasing ts \<longleftrightarrow> sorted ts"
  using adjacent_iff [of "(\<le>)" ts] by (simp add: nondecreasing_def not_less sorted_iff_nth_Suc)

lemma sequence_u64_iff: "sequence_u64 v = Inr n \<longleftrightarrow> v = PyInt n \<and> 0 \<le> n \<and> n \<le> SEQ_U64_MAX"
  by (auto simp: sequence_u64_def split: pyval.splits)

lemma mapM_sequence_u64:
  "mapM sequence_u64 xs = Inr ts \<longleftrightarrow> xs = map PyInt ts \<and> (\<forall>t \<in> set ts. 0 \<le> t \<and> t \<le> SEQ_U64_MAX)"
  by (induction xs arbitrary: ts) (auto simp: sequence_u64_iff)

lemma sequence_timestamps_iff:
  "sequence_timestamps v = Inr ts \<longleftrightarrow>
   timestamp_rows v = Inr (map PyInt ts) \<and> (\<forall>t \<in> set ts. 0 \<le> t \<and> t \<le> SEQ_U64_MAX) \<and> sorted_wrt (<) ts"
  by (auto simp: sequence_timestamps_def mapM_sequence_u64 strictly_increasing_iff)

lemma ground_truth_timestamps_iff:
  "ground_truth_timestamps v = Inr ts \<longleftrightarrow>
   timestamp_rows v = Inr (map PyInt ts) \<and> (\<forall>t \<in> set ts. 0 \<le> t \<and> t \<le> SEQ_U64_MAX) \<and> sorted ts"
  by (auto simp: ground_truth_timestamps_def mapM_sequence_u64 nondecreasing_iff)

section \<open>Intersection\<close>

lemma shared_loop_eq: "shared_loop a b l r s = intersect_loop a b l r s"
proof (induction a b l r s rule: intersect_loop.induct)
  case (1 a b l r s)
  then show ?case by (subst shared_loop.simps, subst intersect_loop.simps) simp
qed

lemma drop_nth: "i < length xs \<Longrightarrow> drop i xs = xs ! i # drop (Suc i) xs"
  by (simp add: Cons_nth_drop_Suc)

lemma intersect_loop_filter:
  assumes "sorted_wrt (<) a" "sorted_wrt (<) b"
  shows "intersect_loop a b l r s = s @ filter (\<lambda>x. x \<in> set (drop r b)) (drop l a)"
  using assms
proof (induction a b l r s rule: intersect_loop.induct)
  case (1 a b l r s)
  show ?case
  proof (cases "l < length a \<and> r < length b")
    case False
    then show ?thesis by (subst intersect_loop.simps) auto
  next
    case True
    then have d: "drop l a = a ! l # drop (Suc l) a" "drop r b = b ! r # drop (Suc r) b" by (simp_all add: drop_nth)
    have "sorted_wrt (<) (drop l a)" "sorted_wrt (<) (drop r b)" using 1(4,5) by (simp_all add: sorted_wrt_drop)
    then have gt: "\<forall>x \<in> set (drop (Suc l) a). a ! l < x" "\<forall>x \<in> set (drop (Suc r) b). b ! r < x" unfolding d by simp_all
    consider "a ! l = b ! r" | "a ! l < b ! r" | "b ! r < a ! l" by linarith
    then show ?thesis
    proof cases
      case 1
      have "filter (\<lambda>x. x \<in> set (drop r b)) (drop (Suc l) a) = filter (\<lambda>x. x \<in> set (drop (Suc r) b)) (drop (Suc l) a)"
        using gt 1 by (intro filter_cong) (auto simp: d)
      then show ?thesis using 1 True "1.IH"(1) "1.prems" by (subst intersect_loop.simps) (simp add: d)
    next
      case 2
      then have "a ! l \<notin> set (drop r b)" using gt(2) by (auto simp: d)
      then show ?thesis using 2 True "1.IH"(2) "1.prems" by (subst intersect_loop.simps) (simp add: d)
    next
      case 3
      have "filter (\<lambda>x. x \<in> set (drop r b)) (drop l a) = filter (\<lambda>x. x \<in> set (drop (Suc r) b)) (drop l a)"
        using gt 3 by (intro filter_cong) (auto simp: d)
      then show ?thesis using 3 True "1.IH"(3) "1.prems" by (subst intersect_loop.simps) simp
    qed
  qed
qed

text \<open>
  C31. The shared population is the intersection. On two valid traces both implementations return the
  timestamps of the first trace that occur in the second, in increasing order: exactly the common ones.
\<close>

theorem shared_population_exact:
  assumes "sequence_timestamps n = Inr a" "sequence_timestamps s = Inr b"
  shows "shared_timestamp_intersection n s = Inr (filter (\<lambda>t. t \<in> set b) a) \<and>
    codec_shared a b = filter (\<lambda>t. t \<in> set b) a \<and>
    sorted_wrt (<) (codec_shared a b) \<and> set (codec_shared a b) = set a \<inter> set b"
proof -
  have "intersect_loop a b 0 0 [] = filter (\<lambda>t. t \<in> set b) a"
    using intersect_loop_filter [of a b 0 0 "[]"] assms by (simp add: sequence_timestamps_iff)
  then show ?thesis using assms
    by (auto simp: shared_timestamp_intersection_def codec_shared_def shared_loop_eq sequence_timestamps_iff sorted_wrt_filter)
qed

theorem shared_population_exact_witness:
  "shared_timestamp_intersection (PyList [PyInt 1, PyInt 3, PyInt 4]) (PyTuple [PyInt 3, PyInt 4, PyInt 9]) = Inr [3, 4]"
proof -
  have "sequence_timestamps (PyList [PyInt 1, PyInt 3, PyInt 4]) = Inr [1, 3, 4]"
    "sequence_timestamps (PyTuple [PyInt 3, PyInt 4, PyInt 9]) = Inr [3, 4, 9]"
    by (simp_all add: sequence_timestamps_iff timestamp_rows_def SEQ_U64_MAX_def)
  from shared_population_exact [OF this] show ?thesis by simp
qed

section \<open>Binary search\<close>

definition splits_at :: "int list \<Rightarrow> int \<Rightarrow> nat \<Rightarrow> nat \<Rightarrow> bool" where
  "splits_at xs x hi k \<longleftrightarrow> k \<le> hi \<and> (\<forall>i < k. xs ! i < x) \<and> (\<forall>i. k \<le> i \<longrightarrow> i < hi \<longrightarrow> x \<le> xs ! i)"

lemma lower_bound_splits:
  assumes "sorted xs" "lo \<le> hi" "hi \<le> length xs" "\<forall>i < lo. xs ! i < x" "\<forall>i. hi \<le> i \<longrightarrow> i < bound \<longrightarrow> x \<le> xs ! i"
    "hi \<le> bound"
  shows "splits_at xs x bound (lower_bound xs x lo hi) \<and> lower_bound xs x lo hi \<le> hi"
  using assms
proof (induction xs x lo hi rule: lower_bound.induct)
  case (1 xs x lo hi)
  show ?case
  proof (cases "lo < hi")
    case False
    then show ?thesis using 1(3-8) by (subst (1 2) lower_bound.simps) (auto simp: splits_at_def)
  next
    case True
    define m where "m = (lo + hi) div 2"
    have m: "lo \<le> m" "m < hi" using True by (auto simp: m_def)
    have le: "xs ! i \<le> xs ! j" if "i \<le> j" "j < length xs" for i j using 1(3) that by (simp add: sorted_iff_nth_mono)
    show ?thesis
    proof (cases "xs ! m < x")
      case lt: True
      have "\<forall>i < m + 1. xs ! i < x" using le [of _ m] lt m 1(5) by (auto simp: less_Suc_eq_le intro: le_less_trans)
      then have "splits_at xs x bound (lower_bound xs x (m + 1) hi) \<and> lower_bound xs x (m + 1) hi \<le> hi"
        using 1(1) [OF True m_def lt] 1(3-8) m by auto
      then show ?thesis using True lt by (subst (1 2) lower_bound.simps) (simp add: m_def [symmetric])
    next
      case ge: False
      have "x \<le> xs ! i" if "m \<le> i" "i < bound" for i
      proof (cases "i < hi")
        case True
        then show ?thesis using le [of m i] ge that 1(5) by auto
      qed (use 1(7) that in auto)
      then have "splits_at xs x bound (lower_bound xs x lo m) \<and> lower_bound xs x lo m \<le> m"
        using 1(2) [OF True m_def ge] 1(3-8) m by auto
      then show ?thesis using True ge m by (subst (1 2) lower_bound.simps) (auto simp: m_def [symmetric])
    qed
  qed
qed

lemma splits_at_unique: "splits_at xs x hi j \<Longrightarrow> splits_at xs x hi k \<Longrightarrow> j = k"
proof (induction j k rule: linorder_wlog)
  case (le j k)
  show ?case
  proof (rule ccontr)
    assume "j \<noteq> k"
    then have "j < k" "k \<le> hi" using le by (auto simp: splits_at_def)
    then have "xs ! j < x" "x \<le> xs ! j" using le by (auto simp: splits_at_def)
    then show False by simp
  qed
qed auto

lemma bisect_left_splits: "sorted xs \<Longrightarrow> splits_at xs x (length xs) (bisect_left xs x)"
  using lower_bound_splits [of xs 0 "length xs" x "length xs"] by (simp add: bisect_left_def)

text \<open>The first row of the block of equal timestamps just below the insertion point.\<close>

lemma first_lower:
  assumes "sorted xs" "0 < k" "k \<le> length xs"
  shows "bisect_left xs (xs ! (k - 1)) = lower_bound xs (xs ! (k - 1)) 0 k"
    and "bisect_left xs (xs ! (k - 1)) < k" and "xs ! bisect_left xs (xs ! (k - 1)) = xs ! (k - 1)"
    and "\<forall>i < bisect_left xs (xs ! (k - 1)). xs ! i < xs ! (k - 1)"
proof -
  let ?v = "xs ! (k - 1)"
  have above: "\<forall>i. k \<le> i \<longrightarrow> i < length xs \<longrightarrow> ?v \<le> xs ! i" using assms by (simp add: sorted_iff_nth_mono)
  have a: "splits_at xs ?v (length xs) (bisect_left xs ?v)" by (rule bisect_left_splits [OF assms(1)])
  have "splits_at xs ?v (length xs) (lower_bound xs ?v 0 k)"
    using lower_bound_splits [of xs 0 k ?v "length xs"] assms above by simp
  with a show "bisect_left xs ?v = lower_bound xs ?v 0 k" by (rule splits_at_unique)
  show lt: "bisect_left xs ?v < k"
  proof (rule ccontr)
    assume "\<not> bisect_left xs ?v < k"
    then show False using a assms(2) by (auto simp: splits_at_def dest!: spec [of _ "k - 1"])
  qed
  then have "?v \<le> xs ! bisect_left xs ?v" using a assms(2,3) by (auto simp: splits_at_def)
  moreover have "xs ! bisect_left xs ?v \<le> ?v" using assms lt by (simp add: sorted_iff_nth_mono)
  ultimately show "xs ! bisect_left xs ?v = ?v" by simp
  show "\<forall>i < bisect_left xs ?v. xs ! i < ?v" using a by (simp add: splits_at_def)
qed

lemma candidates_agree: "sorted gt \<Longrightarrow> codec_candidates gt t = bisect_candidates gt t"
proof -
  assume s: "sorted gt"
  have "bisect_left gt t \<le> length gt" using bisect_left_splits [OF s] by (simp add: splits_at_def)
  then show ?thesis using first_lower(1) [OF s, of "bisect_left gt t"]
    by (auto simp: codec_candidates_def bisect_candidates_def bisect_left_def Let_def)
qed

lemma is_nearest_unique: "is_nearest gt t i \<Longrightarrow> is_nearest gt t j \<Longrightarrow> i = j"
proof -
  assume a: "is_nearest gt t i" "is_nearest gt t j"
  then have "\<bar>t - gt ! i\<bar> < \<bar>t - gt ! j\<bar> \<or> \<bar>t - gt ! i\<bar> = \<bar>t - gt ! j\<bar> \<and> i \<le> j"
    "\<bar>t - gt ! j\<bar> < \<bar>t - gt ! i\<bar> \<or> \<bar>t - gt ! j\<bar> = \<bar>t - gt ! i\<bar> \<and> j \<le> i"
    by (simp_all add: is_nearest_def list_all_iff)
  then show ?thesis by linarith
qed

lemma is_nearestI:
  "i < length gt \<Longrightarrow> (\<And>j. j < length gt \<Longrightarrow> \<bar>t - gt ! i\<bar> < \<bar>t - gt ! j\<bar> \<or> \<bar>t - gt ! i\<bar> = \<bar>t - gt ! j\<bar> \<and> i \<le> j) \<Longrightarrow> is_nearest gt t i"
  by (auto simp: is_nearest_def list_all_iff)

text \<open>The row below and the row at the insertion point are the only two that can be nearest.\<close>

lemma nearest_below:
  assumes "sorted gt" "k = bisect_left gt t" "0 < k" "f = bisect_left gt (gt ! (k - 1))"
    and "k < length gt \<longrightarrow> \<bar>t - gt ! f\<bar> \<le> \<bar>t - gt ! k\<bar>"
  shows "is_nearest gt t f"
proof -
  have k: "k \<le> length gt" "\<forall>i < k. gt ! i < t" "\<forall>i. k \<le> i \<longrightarrow> i < length gt \<longrightarrow> t \<le> gt ! i"
    using bisect_left_splits [OF assms(1), of t] assms(2) by (auto simp: splits_at_def)
  note f = first_lower(2-4) [OF assms(1,3) k(1)]
  have mono: "i \<le> j \<Longrightarrow> j < length gt \<Longrightarrow> gt ! i \<le> gt ! j" for i j using assms(1) by (simp add: sorted_iff_nth_mono)
  have ft: "gt ! f < t" "f < k" "gt ! f = gt ! (k - 1)" using f k assms(4) by auto
  show ?thesis
  proof (rule is_nearestI)
    show "f < length gt" using ft k by linarith
    fix j assume j: "j < length gt"
    consider "j < f" | "f \<le> j" "j < k" | "k \<le> j" by linarith
    then show "\<bar>t - gt ! f\<bar> < \<bar>t - gt ! j\<bar> \<or> \<bar>t - gt ! f\<bar> = \<bar>t - gt ! j\<bar> \<and> f \<le> j"
    proof cases
      case 1
      then have "gt ! j < gt ! f" using f(3) ft assms(4) by simp
      then show ?thesis using ft by auto
    next
      case 2
      then have "gt ! j = gt ! f" using mono [of j "k - 1"] mono [of f j] ft k j by force
      then show ?thesis using 2 by simp
    next
      case 3
      then have "t \<le> gt ! k" "gt ! k \<le> gt ! j" "k < length gt" using k j mono by auto
      then show ?thesis using assms(5) ft 3 by auto
    qed
  qed
qed

lemma nearest_at:
  assumes "sorted gt" "k = bisect_left gt t" "k < length gt"
    and "0 < k \<longrightarrow> \<bar>t - gt ! k\<bar> < \<bar>t - gt ! (k - 1)\<bar>"
  shows "is_nearest gt t k"
proof -
  have k: "\<forall>i < k. gt ! i < t" "\<forall>i. k \<le> i \<longrightarrow> i < length gt \<longrightarrow> t \<le> gt ! i"
    using bisect_left_splits [OF assms(1), of t] assms(2) by (auto simp: splits_at_def)
  have mono: "i \<le> j \<Longrightarrow> j < length gt \<Longrightarrow> gt ! i \<le> gt ! j" for i j using assms(1) by (simp add: sorted_iff_nth_mono)
  show ?thesis
  proof (rule is_nearestI)
    show "k < length gt" by (rule assms(3))
    fix j assume j: "j < length gt"
    show "\<bar>t - gt ! k\<bar> < \<bar>t - gt ! j\<bar> \<or> \<bar>t - gt ! k\<bar> = \<bar>t - gt ! j\<bar> \<and> k \<le> j"
    proof (cases "k \<le> j")
      case True
      then have "t \<le> gt ! k" "gt ! k \<le> gt ! j" using k j mono by auto
      then show ?thesis using True by auto
    next
      case False
      then have "gt ! j \<le> gt ! (k - 1)" "gt ! (k - 1) < t" using mono [of j "k - 1"] k assms(3) by auto
      then show ?thesis using assms(4) False by auto
    qed
  qed
qed

text \<open>The search of the evaluation and the minimum of the verifier both find the nearest row.\<close>

lemma search_nearest:
  assumes "sorted gt" "gt \<noteq> []"
  obtains i where "is_nearest gt t i"
    and "foldl (improve gt t) (- 1, SEQ_U64_MAX) (bisect_candidates gt t) =
           (if \<bar>t - gt ! i\<bar> < SEQ_U64_MAX then (int i, \<bar>t - gt ! i\<bar>) else (- 1, SEQ_U64_MAX))"
    and "min_candidate (\<lambda>item. (\<bar>gt ! item - t\<bar>, item)) (bisect_candidates gt t) = i"
proof -
  define k where "k = bisect_left gt t"
  have kl: "k \<le> length gt" using bisect_left_splits [OF assms(1), of t] by (simp add: splits_at_def k_def)
  define f where "f = bisect_left gt (gt ! (k - 1))"
  have fk: "f < k" "gt ! f = gt ! (k - 1)" if "0 < k"
    using first_lower(2,3) [OF assms(1) that kl] by (auto simp: f_def)
  have c: "bisect_candidates gt t = (if 0 < k then [f] else []) @ (if k < length gt then [k] else [])"
    by (simp add: bisect_candidates_def k_def f_def Let_def)
  consider "k = 0" | "0 < k" "k = length gt" | "0 < k" "k < length gt" "\<bar>t - gt ! f\<bar> \<le> \<bar>t - gt ! k\<bar>"
    | "0 < k" "k < length gt" "\<bar>t - gt ! k\<bar> < \<bar>t - gt ! f\<bar>" using kl by linarith
  then show ?thesis
  proof cases
    case 1
    then show ?thesis using that [OF nearest_at [OF assms(1) k_def]] assms(2) by (simp add: c improve_def Let_def)
  next
    case 2
    then show ?thesis using that [OF nearest_below [OF assms(1) k_def _ f_def]] by (simp add: c improve_def Let_def)
  next
    case 3
    then show ?thesis using that [OF nearest_below [OF assms(1) k_def _ f_def]] fk
      by (auto simp: c improve_def Let_def abs_minus_commute)
  next
    case 4
    then show ?thesis using that [OF nearest_at [OF assms(1) k_def]] fk
      by (auto simp: c improve_def Let_def abs_minus_commute)
  qed
qed

lemma filter_eq_upt: "i < n \<Longrightarrow> filter (\<lambda>j. j = i) [0..<n] = [i]"
  by (induction n) (auto simp: less_Suc_eq filter_empty_conv)

lemma reference_row_nearest:
  assumes "is_nearest gt t i"
  shows "reference_row gt (e, t) =
    (if \<bar>t - gt ! i\<bar> \<le> GROUND_TRUTH_MAX_DIFFERENCE_NS then
      [\<lparr>estimator_index = int e, estimator_timestamp_ns = t, ground_truth_index = int i,
        ground_truth_timestamp_ns = gt ! i, absolute_difference_ns = \<bar>t - gt ! i\<bar>\<rparr>] else [])"
proof -
  have n: "is_nearest gt t j \<longleftrightarrow> j = i" for j using assms is_nearest_unique by blast
  have i: "i < length gt" using assms by (simp add: is_nearest_def)
  have "concat (map (\<lambda>j. if j = i \<and> P j then [g j] else []) [0..<length gt]) = (if P i then [g i] else [])"
    for P and g :: "nat \<Rightarrow> timestamp_association"
  proof -
    have "concat (map (\<lambda>j. if j = i \<and> P j then [g j] else []) xs) = (if P i then map g (filter (\<lambda>j. j = i) xs) else [])" for xs
      by (induction xs) auto
    then show ?thesis using filter_eq_upt [OF i] by simp
  qed
  then show ?thesis by (simp add: reference_row_def n)
qed

lemma associate_row_reference: "sorted gt \<Longrightarrow> associate_row gt row = reference_row gt row"
proof (cases "gt = []")
  case True
  then show ?thesis
    by (simp add: associate_row_def reference_row_def bisect_candidates_def bisect_left_def lower_bound.simps)
next
  case False
  assume s: "sorted gt"
  obtain e t where row: "row = (e, t)" by (cases row)
  obtain i where i: "is_nearest gt t i" "foldl (improve gt t) (- 1, SEQ_U64_MAX) (bisect_candidates gt t) =
           (if \<bar>t - gt ! i\<bar> < SEQ_U64_MAX then (int i, \<bar>t - gt ! i\<bar>) else (- 1, SEQ_U64_MAX))"
    using search_nearest [OF s False] by blast
  have "GROUND_TRUTH_MAX_DIFFERENCE_NS < SEQ_U64_MAX" by (simp add: GROUND_TRUTH_MAX_DIFFERENCE_NS_def SEQ_U64_MAX_def)
  then show ?thesis unfolding row reference_row_nearest [OF i(1)] by (auto simp: associate_row_def i(2))
qed

lemma codec_row_reference: "sorted gt \<Longrightarrow> codec_row gt row = reference_row gt row"
proof (cases "gt = []")
  case True
  then show ?thesis by (simp add: codec_row_def reference_row_def)
next
  case False
  assume s: "sorted gt"
  obtain e t where row: "row = (e, t)" by (cases row)
  obtain i where i: "is_nearest gt t i" "min_candidate (\<lambda>item. (\<bar>gt ! item - t\<bar>, item)) (bisect_candidates gt t) = i"
    using search_nearest [OF s False] by blast
  show ?thesis unfolding row reference_row_nearest [OF i(1)]
    using False by (simp add: codec_row_def candidates_agree [OF s] i(2)) (simp add: abs_minus_commute)
qed

text \<open>
  C5. The evaluation's association refines the exhaustive search: on valid populations it returns, for
  every estimator row in order, the nearest ground-truth row (the lowest index among equally near ones)
  when that row is within ten milliseconds, and nothing otherwise.
\<close>

theorem association_refines_reference:
  assumes "sequence_timestamps e = Inr ts" "ground_truth_timestamps g = Inr gt" "gt \<noteq> [] \<or> ts = []"
  shows "associate_nearest_ground_truth e g = Inr (reference_associations ts gt)"
proof -
  have "sorted gt" using assms(2) by (simp add: ground_truth_timestamps_iff)
  then have "associate_row gt = reference_row gt" by (simp add: fun_eq_iff associate_row_reference)
  then show ?thesis using assms by (auto simp: associate_nearest_ground_truth_def reference_associations_def)
qed

theorem association_refines_reference_witness:
  "associate_nearest_ground_truth (PyList [PyInt 10]) (PyList [PyInt 9, PyInt 9, PyInt 11]) = Inr (reference_associations [10] [9, 9, 11])"
proof (rule association_refines_reference)
  show "sequence_timestamps (PyList [PyInt 10]) = Inr [10]"
    by (simp add: sequence_timestamps_iff timestamp_rows_def SEQ_U64_MAX_def)
  show "ground_truth_timestamps (PyList [PyInt 9, PyInt 9, PyInt 11]) = Inr [9, 9, 11]"
    by (simp add: ground_truth_timestamps_iff timestamp_rows_def SEQ_U64_MAX_def)
qed simp

text \<open>
  C24. The verifier's independent replay agrees with the evaluation: the hand-written lower bounds and
  the keyed minimum give the same associations as \<^verbatim>\<open>bisect_left\<close> with strict improvement, and the
  validation of retained associations accepts exactly them.
\<close>

theorem association_replay_agrees:
  assumes "associate_nearest_ground_truth e g = Inr rows"
    and "sequence_timestamps e = Inr ts" "ground_truth_timestamps g = Inr gt"
  shows "nearest_associations ts gt = rows \<and>
    (\<forall>retained. validate_ground_truth_associations e g retained = Inr retained \<longleftrightarrow> retained = rows)"
proof -
  have "sorted gt" using assms(3) by (simp add: ground_truth_timestamps_iff)
  then have "associate_row gt = codec_row gt"
    by (simp add: fun_eq_iff associate_row_reference codec_row_reference)
  then show ?thesis using assms
    by (auto simp: associate_nearest_ground_truth_def nearest_associations_def validate_ground_truth_associations_def)
qed

theorem association_replay_agrees_witness:
  "nearest_associations [10] [9, 9, 11] = reference_associations [10] [9, 9, 11]"
proof -
  have s: "sequence_timestamps (PyList [PyInt 10]) = Inr [10]"
    "ground_truth_timestamps (PyList [PyInt 9, PyInt 9, PyInt 11]) = Inr [9, 9, 11]"
    by (simp_all add: sequence_timestamps_iff ground_truth_timestamps_iff timestamp_rows_def SEQ_U64_MAX_def)
  have "associate_nearest_ground_truth (PyList [PyInt 10]) (PyList [PyInt 9, PyInt 9, PyInt 11]) =
      Inr (concat (map (associate_row [9, 9, 11]) (enumerate 0 [10])))"
    using s by (simp add: associate_nearest_ground_truth_def)
  from association_replay_agrees [OF this s] show ?thesis
    by (simp add: reference_associations_def associate_row_reference)
qed

end
