(* ===== verification/Sequence_Codec.thy ===== *)
theory Sequence_Codec
  imports F64_Codec_Correct Sequence_Assoc
begin

text \<open>
  The transport between the verifier and the numerical capsule,
  \<^verbatim>\<open>src/scripts/cp2/cp2_sequence_math_codec.py\<close>: canonical ASCII JSON requests with three pose
  populations as bit patterns, and responses whose integer joins, shapes, projections and metric
  limits are validated against the request. \<open>depth\<close> is the interpreter's remaining recursion
  limit for the JSON calls.
\<close>

section \<open>Scalars and canonical JSON\<close>

definition SCHEMA_VERSION :: int where "SCHEMA_VERSION = 1"
definition REQUEST_RECORD_TYPE :: pystr where "REQUEST_RECORD_TYPE = lit ''cp2_d_sequence_math_request''"
definition RESPONSE_RECORD_TYPE :: pystr where "RESPONSE_RECORD_TYPE = lit ''cp2_d_sequence_math_response''"
definition SEQ_MAX_DOCUMENT_BYTES :: nat where "SEQ_MAX_DOCUMENT_BYTES = 256 * 2 ^ 20"
definition MAX_POSE_COUNT :: nat where "MAX_POSE_COUNT = 1000000"
definition MAX_ARRAY_ELEMENTS :: int where "MAX_ARRAY_ELEMENTS = 9 * int MAX_POSE_COUNT"
definition SEQUENCES :: "pystr list" where
  "SEQUENCES = map lit [''MH_01_easy'', ''MH_03_medium'', ''V1_01_easy'']"

definition codec_fail :: "string \<Rightarrow> 'a py" where
  "codec_fail message = Inl (SequenceMathCodecError message)"

lemma codec_fail_not_Inr [simp]: "codec_fail m \<noteq> Inr x"
  by (simp add: codec_fail_def)

lemma if_codec_fail_eq [simp]: "(if b then codec_fail m else r) = Inr y \<longleftrightarrow> \<not> b \<and> r = Inr y"
  by simp

definition exact_keys :: "pyval \<Rightarrow> string list \<Rightarrow> (pyval \<times> pyval) list py" where
  "exact_keys value keys =
     (case value of
        PyDict kvs \<Rightarrow>
          if set (map fst kvs) \<noteq> set (map (PyStr \<circ> lit) keys) \<or> length kvs \<noteq> card (set keys)
          then codec_fail ''key inventory differs'' else Inr kvs
      | _ \<Rightarrow> codec_fail ''key inventory differs'')"

definition codec_pairs :: "(pystr \<times> pyval) list \<Rightarrow> pyval py" where
  "codec_pairs pairs =
     and_then (foldM (put_new (SequenceMathCodecError ''duplicate JSON key'')) [] pairs)
       (\<lambda>value. Inr (PyDict (string_items value)))"

definition codec_hooks :: json_hooks where
  "codec_hooks = \<lparr>object_pairs_hook = codec_pairs,
     parse_float = (\<lambda>token. codec_fail ''JSON floating-point values are forbidden''),
     parse_constant = (\<lambda>token. codec_fail ''non-JSON numeric constants are forbidden'')\<rparr>"

text \<open>Strict ASCII codecs.\<close>

definition ascii_encode :: "pystr \<Rightarrow> bytes py" where
  "ascii_encode s = (if list_all (\<lambda>c. c < 128) s then Inr (map word_of_nat s) else Inl (ValueError ''ordinal not in range(128)''))"

definition ascii_decode :: "bytes \<Rightarrow> pystr py" where
  "ascii_decode bs = (if list_all (\<lambda>b. unat b < 128) bs then Inr (map unat bs) else Inl (ValueError ''ordinal not in range(128)''))"

definition as_codec_error :: "string \<Rightarrow> bool \<Rightarrow> 'a py \<Rightarrow> 'a py" where
  "as_codec_error message recursion m =
     (case m of
        Inl (ValueError _) \<Rightarrow> codec_fail message
      | Inl (TypeError _) \<Rightarrow> codec_fail message
      | Inl RecursionError \<Rightarrow> if recursion then codec_fail message else m
      | _ \<Rightarrow> m)"

definition codec_canonical :: "nat \<Rightarrow> pyval \<Rightarrow> bytes py" where
  "codec_canonical depth value =
     and_then (as_codec_error ''math transport is not canonical JSON data'' False
       (and_then (json_dumps True depth value) (\<lambda>text. ascii_encode (text @ [10])))) (\<lambda>payload.
     if payload = [] \<or> SEQ_MAX_DOCUMENT_BYTES < length payload
     then codec_fail ''math transport exceeds its frozen size bound'' else Inr payload)"

definition codec_parse :: "nat \<Rightarrow> pyval \<Rightarrow> pyval py" where
  "codec_parse depth document =
     (case document of
        PyBytes bs \<Rightarrow>
          if bs = [] \<or> SEQ_MAX_DOCUMENT_BYTES < length bs then codec_fail ''byte size/type is invalid''
          else and_then (as_codec_error ''is not strict canonical JSON'' True
                 (and_then (ascii_decode bs) (json_loads codec_hooks depth))) (\<lambda>value.
               case value of
                 PyDict kvs \<Rightarrow>
                   and_then (codec_canonical depth value) (\<lambda>payload.
                     if payload \<noteq> bs then codec_fail ''is not the unique canonical encoding'' else Inr value)
               | _ \<Rightarrow> codec_fail ''is not the unique canonical encoding'')
      | _ \<Rightarrow> codec_fail ''byte size/type is invalid'')"

definition codec_u64 :: "pyval \<Rightarrow> int py" where
  "codec_u64 value =
     (case value of PyInt n \<Rightarrow> if n < 0 \<or> 2 ^ 64 - 1 < n then codec_fail ''is not u64'' else Inr n
      | _ \<Rightarrow> codec_fail ''is not u64'')"

definition codec_timestamps :: "bool \<Rightarrow> pyval \<Rightarrow> int list py" where
  "codec_timestamps unique value =
     (case sequence_items value of
        None \<Rightarrow> codec_fail ''must be one bounded timestamp array''
      | Some xs \<Rightarrow>
          if MAX_POSE_COUNT < length xs then codec_fail ''must be one bounded timestamp array''
          else and_then (mapM codec_u64 xs) (\<lambda>ts.
            if list_ex (\<lambda>i. ts ! i < ts ! (i - 1) \<or> unique \<and> ts ! i = ts ! (i - 1)) [1..<length ts]
            then codec_fail ''timestamps reverse or violate uniqueness'' else Inr ts))"

definition codec_f64_to_bits :: "pyval \<Rightarrow> pystr py" where
  "codec_f64_to_bits value =
     (case value of
        PyFloat x \<Rightarrow> if f64_finite x then Inr (hexdigest (pack_f64 x)) else codec_fail ''must be one finite native binary64''
      | _ \<Rightarrow> codec_fail ''must be one finite native binary64'')"

definition codec_bits_to_f64 :: "pyval \<Rightarrow> f64 py" where
  "codec_bits_to_f64 value =
     (case value of
        PyStr s \<Rightarrow>
          if \<not> lower_hex_exactly 16 s then codec_fail ''must be exactly 16 lowercase hexadecimal digits''
          else let result = unpack_f64 (bytes_fromhex s) in
               if \<not> f64_finite result then codec_fail ''encodes a nonfinite binary64'' else Inr result
      | _ \<Rightarrow> codec_fail ''must be exactly 16 lowercase hexadecimal digits'')"

definition element_count_step :: "int \<Rightarrow> int \<Rightarrow> int py" where
  "element_count_step elements dimension =
     (if dimension < 0 then codec_fail ''has an invalid dimension''
      else if elements \<noteq> 0 \<and> MAX_ARRAY_ELEMENTS div elements < dimension
      then codec_fail ''element count exceeds its frozen bound'' else Inr (elements * dimension))"

definition element_count :: "int list \<Rightarrow> int py" where
  "element_count shape =
     and_then (foldM element_count_step 1 shape) (\<lambda>elements.
       if MAX_ARRAY_ELEMENTS < elements then codec_fail ''element count exceeds its frozen bound'' else Inr elements)"

record f64_bits_array =
  ba_shape :: "int list"
  ba_bits :: "pystr list"

definition ba_values :: "f64_bits_array \<Rightarrow> f64 list py" where
  "ba_values a = mapM codec_bits_to_f64 (map PyStr (ba_bits a))"

text \<open>
  Comparison with an integer as Python does it: a Boolean equals 0 or 1, a float its value.
\<close>

definition py_eq_int :: "pyval \<Rightarrow> int \<Rightarrow> bool" where
  "py_eq_int v n =
     (case v of PyInt m \<Rightarrow> m = n | PyBool b \<Rightarrow> (if b then 1 else 0) = n
      | PyFloat x \<Rightarrow> f64_finite x \<and> f64_rat x = of_int n | _ \<Rightarrow> False)"

definition codec_field :: "(pyval \<times> pyval) list \<Rightarrow> string \<Rightarrow> pyval" where
  "codec_field kvs key = (case map_of kvs (PyStr (lit key)) of None \<Rightarrow> PyNone | Some v \<Rightarrow> v)"

definition codec_pattern :: "pyval \<Rightarrow> pystr py" where
  "codec_pattern item = and_then (codec_bits_to_f64 item) (\<lambda>_. Inr (key_text item))"

definition array_record :: "pyval \<Rightarrow> int list \<Rightarrow> f64_bits_array py" where
  "array_record value expected_shape =
     and_then (exact_keys value [''shape'', ''bits'']) (\<lambda>rec.
     case codec_field rec ''shape'' of
       PyList dims \<Rightarrow>
         if \<not> list_all2 py_eq_int dims expected_shape then codec_fail ''shape differs''
         else (case codec_field rec ''bits'' of
           PyList items \<Rightarrow>
             and_then (element_count expected_shape) (\<lambda>expected_count.
             if int (length items) \<noteq> expected_count then codec_fail ''bit population differs from its shape''
             else and_then (mapM codec_pattern items) (\<lambda>bits. Inr \<lparr>ba_shape = expected_shape, ba_bits = bits\<rparr>))
         | _ \<Rightarrow> codec_fail ''bits must be an array'')
     | _ \<Rightarrow> codec_fail ''shape differs'')"

definition flat_row :: "nat \<Rightarrow> pyval \<Rightarrow> pystr list py" where
  "flat_row columns row =
     (case sequence_items row of
        None \<Rightarrow> codec_fail ''row shape differs''
      | Some items \<Rightarrow> if length items \<noteq> columns then codec_fail ''row shape differs'' else mapM codec_f64_to_bits items)"

definition flat_rows :: "pyval \<Rightarrow> nat \<Rightarrow> nat \<Rightarrow> pyval py" where
  "flat_rows value rows columns =
     (case sequence_items value of
        None \<Rightarrow> codec_fail ''row population differs''
      | Some xs \<Rightarrow>
          if length xs \<noteq> rows then codec_fail ''row population differs''
          else and_then (mapM (flat_row columns) xs) (\<lambda>bits.
            and_then (element_count [int rows, int columns]) (\<lambda>_.
              Inr (PyDict [(PyStr (lit ''shape''), PyList [PyInt (int rows), PyInt (int columns)]),
                           (PyStr (lit ''bits''), PyList (map PyStr (concat bits)))]))))"

section \<open>Requests\<close>

record sequence_math_request =
  rq_sequence_index :: int
  rq_sequence_id :: pystr
  rq_nullspace_timestamps_ns :: "int list"
  rq_nullspace_positions :: f64_bits_array
  rq_nullspace_quaternions_xyzw :: f64_bits_array
  rq_schur_timestamps_ns :: "int list"
  rq_schur_positions :: f64_bits_array
  rq_schur_quaternions_xyzw :: f64_bits_array
  rq_ground_truth_timestamps_ns :: "int list"
  rq_ground_truth_positions :: f64_bits_array
  rq_ground_truth_quaternions_xyzw :: f64_bits_array
  rq_canonical_bytes :: bytes
  rq_sha256 :: pystr

definition decode_population ::
    "pyval \<Rightarrow> string \<Rightarrow> bool \<Rightarrow> (int list \<times> f64_bits_array \<times> f64_bits_array) py" where
  "decode_population value quaternion_key unique =
     and_then (exact_keys value [''timestamps_ns'', ''positions'', quaternion_key]) (\<lambda>item.
     and_then (codec_timestamps unique (codec_field item ''timestamps_ns'')) (\<lambda>timestamps.
     and_then (array_record (codec_field item ''positions'') [int (length timestamps), 3]) (\<lambda>positions.
     and_then (array_record (codec_field item quaternion_key) [int (length timestamps), 4]) (\<lambda>quaternions.
       Inr (timestamps, positions, quaternions)))))"

definition decode_sequence_request :: "nat \<Rightarrow> pyval \<Rightarrow> sequence_math_request py" where
  "decode_sequence_request depth document =
     and_then (codec_parse depth document) (\<lambda>value.
     and_then (exact_keys value [''schema_version'', ''record_type'', ''sequence_index'', ''sequence_id'',
        ''nullspace'', ''schur'', ''ground_truth'']) (\<lambda>rec.
     if \<not> py_eq_int (codec_field rec ''schema_version'') SCHEMA_VERSION \<or>
        codec_field rec ''record_type'' \<noteq> PyStr REQUEST_RECORD_TYPE
     then codec_fail ''sequence-math request identity differs''
     else
     and_then (codec_u64 (codec_field rec ''sequence_index'')) (\<lambda>index.
     if int (length SEQUENCES) \<le> index \<or> codec_field rec ''sequence_id'' \<noteq> PyStr (SEQUENCES ! nat index)
     then codec_fail ''sequence-math request sequence differs from the frozen inventory''
     else
     and_then (decode_population (codec_field rec ''nullspace'') ''stored_quaternions_xyzw'' True) (\<lambda>(nt, np, nq).
     and_then (decode_population (codec_field rec ''schur'') ''stored_quaternions_xyzw'' True) (\<lambda>(st, sp, sq).
     and_then (decode_population (codec_field rec ''ground_truth'') ''quaternions_xyzw'' False) (\<lambda>(gt, gp, gq).
     case document of
       PyBytes canonical \<Rightarrow>
         Inr \<lparr>rq_sequence_index = index, rq_sequence_id = SEQUENCES ! nat index,
           rq_nullspace_timestamps_ns = nt, rq_nullspace_positions = np, rq_nullspace_quaternions_xyzw = nq,
           rq_schur_timestamps_ns = st, rq_schur_positions = sp, rq_schur_quaternions_xyzw = sq,
           rq_ground_truth_timestamps_ns = gt, rq_ground_truth_positions = gp, rq_ground_truth_quaternions_xyzw = gq,
           rq_canonical_bytes = canonical, rq_sha256 = hexdigest (sha256 canonical)\<rparr>
     | _ \<Rightarrow> codec_fail ''byte size/type is invalid''))))))"

text \<open>The three pose populations a request is encoded from.\<close>

record pose_rows =
  pr_timestamps :: pyval
  pr_positions :: pyval
  pr_quaternions :: pyval

definition population_document :: "pose_rows \<Rightarrow> int list \<Rightarrow> string \<Rightarrow> pyval py" where
  "population_document rows timestamps quaternion_key =
     and_then (flat_rows (pr_positions rows) (length timestamps) 3) (\<lambda>positions.
     and_then (flat_rows (pr_quaternions rows) (length timestamps) 4) (\<lambda>quaternions.
       Inr (PyDict [(PyStr (lit ''timestamps_ns''), PyList (map PyInt timestamps)),
                    (PyStr (lit ''positions''), positions), (PyStr (lit quaternion_key), quaternions)])))"

definition request_document :: "int \<Rightarrow> pystr \<Rightarrow> pyval \<Rightarrow> pyval \<Rightarrow> pyval \<Rightarrow> pyval" where
  "request_document index sequence_id nullspace schur ground_truth =
     PyDict [(PyStr (lit ''schema_version''), PyInt SCHEMA_VERSION),
             (PyStr (lit ''record_type''), PyStr REQUEST_RECORD_TYPE),
             (PyStr (lit ''sequence_index''), PyInt index), (PyStr (lit ''sequence_id''), PyStr sequence_id),
             (PyStr (lit ''nullspace''), nullspace), (PyStr (lit ''schur''), schur),
             (PyStr (lit ''ground_truth''), ground_truth)]"

definition encode_sequence_request ::
    "nat \<Rightarrow> pyval \<Rightarrow> pyval \<Rightarrow> pose_rows \<Rightarrow> pose_rows \<Rightarrow> pose_rows \<Rightarrow> bytes py" where
  "encode_sequence_request depth sequence_index sequence_id nullspace schur ground_truth =
     and_then (codec_u64 sequence_index) (\<lambda>index.
     if int (length SEQUENCES) \<le> index \<or> sequence_id \<noteq> PyStr (SEQUENCES ! nat index)
     then codec_fail ''request sequence identity differs from the frozen inventory''
     else
     and_then (codec_timestamps True (pr_timestamps nullspace)) (\<lambda>null_timestamps.
     and_then (codec_timestamps True (pr_timestamps schur)) (\<lambda>schur_timestamps.
     and_then (codec_timestamps False (pr_timestamps ground_truth)) (\<lambda>gt_timestamps.
     and_then (population_document nullspace null_timestamps ''stored_quaternions_xyzw'') (\<lambda>n.
     and_then (population_document schur schur_timestamps ''stored_quaternions_xyzw'') (\<lambda>s.
     and_then (population_document ground_truth gt_timestamps ''quaternions_xyzw'') (\<lambda>g.
     and_then (codec_canonical depth (request_document index (SEQUENCES ! nat index) n s g)) (\<lambda>payload.
     and_then (decode_sequence_request depth (PyBytes payload)) (\<lambda>_. Inr payload)))))))))"

section \<open>Responses\<close>

record sequence_math_response =
  rs_sequence_index :: int
  rs_sequence_id :: pystr
  rs_request_sha256 :: pystr
  rs_shared_timestamps_ns :: "int list"
  rs_associations :: "timestamp_association list"
  rs_arrays :: "(string \<times> f64_bits_array) list"
  rs_alignment_arrays :: "(string \<times> f64_bits_array) list"
  rs_alignment_scalars :: "(string \<times> pyval) list"
  rs_reflection_correction_applied :: bool
  rs_metric_bits :: "(pyval \<times> pyval) list"
  rs_canonical_bytes :: bytes
  rs_sha256 :: pystr

definition ASSOCIATION_KEYS :: "string list" where
  "ASSOCIATION_KEYS = [''estimator_index'', ''estimator_timestamp_ns'', ''ground_truth_index'',
     ''ground_truth_timestamp_ns'', ''absolute_difference_ns'']"

definition retained_association :: "pyval \<Rightarrow> timestamp_association py" where
  "retained_association item =
     and_then (exact_keys item ASSOCIATION_KEYS) (\<lambda>row.
     and_then (codec_u64 (codec_field row ''estimator_index'')) (\<lambda>a.
     and_then (codec_u64 (codec_field row ''estimator_timestamp_ns'')) (\<lambda>b.
     and_then (codec_u64 (codec_field row ''ground_truth_index'')) (\<lambda>c.
     and_then (codec_u64 (codec_field row ''ground_truth_timestamp_ns'')) (\<lambda>d.
     and_then (codec_u64 (codec_field row ''absolute_difference_ns'')) (\<lambda>e.
       Inr \<lparr>estimator_index = a, estimator_timestamp_ns = b, ground_truth_index = c,
            ground_truth_timestamp_ns = d, absolute_difference_ns = e\<rparr>))))))"

definition replay_association :: "pyval \<times> timestamp_association \<Rightarrow> timestamp_association py" where
  "replay_association row =
     and_then (retained_association (fst row)) (\<lambda>retained.
       if retained \<noteq> snd row then codec_fail ''response association differs from independent nearest-row replay''
       else Inr retained)"

text \<open>The named arrays of a record with their expected shapes, and the scalar patterns of the alignment.\<close>

definition named_array :: "(pyval \<times> pyval) list \<Rightarrow> string \<times> int list \<Rightarrow> (string \<times> f64_bits_array) py" where
  "named_array rec spec =
     and_then (array_record (codec_field rec (fst spec)) (snd spec)) (\<lambda>a. Inr (fst spec, a))"

definition ALIGNMENT_KEYS :: "string list" where
  "ALIGNMENT_KEYS = [''rotation'', ''translation'', ''quaternion_xyzw'', ''source_count'', ''source_singular_values'',
     ''source_rank_threshold_bits'', ''cross_covariance_singular_values'', ''cross_covariance_rank_threshold_bits'',
     ''reflection_correction_applied'', ''determinant_bits'', ''orthogonality_error_frobenius_bits'',
     ''applied_identically_to_both_modes'']"

definition ALIGNMENT_ARRAYS :: "(string \<times> int list) list" where
  "ALIGNMENT_ARRAYS = [(''rotation'', [3, 3]), (''translation'', [3]), (''quaternion_xyzw'', [4]),
     (''source_singular_values'', [3]), (''cross_covariance_singular_values'', [3])]"

definition ALIGNMENT_SCALARS :: "string list" where
  "ALIGNMENT_SCALARS = [''source_rank_threshold_bits'', ''cross_covariance_rank_threshold_bits'', ''determinant_bits'',
     ''orthogonality_error_frobenius_bits'']"

definition alignment_scalar :: "(pyval \<times> pyval) list \<Rightarrow> string \<Rightarrow> (string \<times> pyval) py" where
  "alignment_scalar alignment key =
     and_then (codec_bits_to_f64 (codec_field alignment key)) (\<lambda>_. Inr (key, codec_field alignment key))"

definition RESPONSE_ARRAYS :: "int \<Rightarrow> (string \<times> int list) list" where
  "RESPONSE_ARRAYS n = [(''ground_truth_associated_positions'', [n, 3]), (''nullspace_aligned_positions'', [n, 3]),
     (''schur_aligned_positions'', [n, 3]), (''nullspace_aligned_quaternions_xyzw'', [n, 4]),
     (''schur_aligned_quaternions_xyzw'', [n, 4]), (''nullspace_aligned_inverse_rotations'', [n, 3, 3]),
     (''schur_aligned_inverse_rotations'', [n, 3, 3]), (''position_differences_m'', [n]),
     (''orientation_differences_deg'', [n])]"

definition RESPONSE_KEYS :: "string list" where
  "RESPONSE_KEYS = [''schema_version'', ''record_type'', ''sequence_index'', ''sequence_id'', ''request_sha256'',
     ''shared_timestamps_ns'', ''associations'', ''alignment'', ''ground_truth_associated_positions'',
     ''nullspace_aligned_positions'', ''schur_aligned_positions'', ''nullspace_aligned_quaternions_xyzw'',
     ''schur_aligned_quaternions_xyzw'', ''nullspace_aligned_inverse_rotations'', ''schur_aligned_inverse_rotations'',
     ''position_differences_m'', ''orientation_differences_deg'', ''metrics'']"

definition METRIC_KEYS :: "string list" where
  "METRIC_KEYS = [''position_p95_m_bits'', ''orientation_p95_deg_bits'', ''ate_nullspace_m_bits'', ''ate_schur_m_bits'',
     ''relative_ate_difference_bits'']"

definition array_bits :: "(string \<times> f64_bits_array) list \<Rightarrow> string \<Rightarrow> pystr list" where
  "array_bits arrays name = (case map_of arrays name of None \<Rightarrow> [] | Some a \<Rightarrow> ba_bits a)"

definition projected_ground_truth :: "sequence_math_request \<Rightarrow> timestamp_association list \<Rightarrow> pystr list" where
  "projected_ground_truth request associations =
     concat (map (\<lambda>a. take 3 (drop (nat (ground_truth_index a) * 3) (ba_bits (rq_ground_truth_positions request)))) associations)"

text \<open>The metric gates; \<^verbatim>\<open>0.01\<close> and \<^verbatim>\<open>0.05\<close> are the nearest binary64 values.\<close>

definition metric_value :: "(pyval \<times> f64) list \<Rightarrow> string \<Rightarrow> rat" where
  "metric_value decoded key = (case map_of decoded (PyStr (lit key)) of None \<Rightarrow> 0 | Some x \<Rightarrow> f64_rat x)"

definition decode_metric :: "pyval \<times> pyval \<Rightarrow> (pyval \<times> f64) py" where
  "decode_metric kv = and_then (codec_bits_to_f64 (snd kv)) (\<lambda>x. Inr (fst kv, x))"

definition validate_metrics :: "(pyval \<times> f64) list \<Rightarrow> unit py" where
  "validate_metrics decoded =
     (if list_ex (\<lambda>kv. f64_rat (snd kv) < 0) decoded then codec_fail ''response metric is negative''
      else if metric_value decoded ''ate_nullspace_m_bits'' \<le> 0 then codec_fail ''response baseline ATE is not strictly positive''
      else if f64_rat (float_of_token (lit ''0.01'')) < metric_value decoded ''position_p95_m_bits''
      then codec_fail ''response position p95 exceeds its inclusive limit''
      else if f64_rat (float_of_token (lit ''0.05'')) < metric_value decoded ''orientation_p95_deg_bits''
      then codec_fail ''response orientation p95 exceeds its inclusive limit''
      else if f64_rat (float_of_token (lit ''0.01'')) < metric_value decoded ''relative_ate_difference_bits''
      then codec_fail ''response relative ATE exceeds its inclusive limit''
      else Inr ())"

definition nonnegative_pattern :: "pystr \<Rightarrow> unit py" where
  "nonnegative_pattern bits =
     and_then (codec_bits_to_f64 (PyStr bits)) (\<lambda>x.
       if f64_rat x < 0 then codec_fail ''contains a negative value'' else Inr ())"

definition response_alignment ::
    "pyval \<Rightarrow> nat \<Rightarrow> ((string \<times> f64_bits_array) list \<times> (string \<times> pyval) list \<times> bool) py" where
  "response_alignment value shared_count =
     and_then (exact_keys value ALIGNMENT_KEYS) (\<lambda>alignment.
     if \<not> py_eq_int (codec_field alignment ''source_count'') (int shared_count) \<or>
        codec_field alignment ''applied_identically_to_both_modes'' \<noteq> PyBool True
     then codec_fail ''response alignment population/reuse marker differs''
     else case codec_field alignment ''reflection_correction_applied'' of
       PyBool reflection \<Rightarrow>
         and_then (mapM (named_array alignment) ALIGNMENT_ARRAYS) (\<lambda>arrays.
         and_then (mapM (alignment_scalar alignment) ALIGNMENT_SCALARS) (\<lambda>scalars.
           Inr (arrays, scalars, reflection)))
     | _ \<Rightarrow> codec_fail ''response alignment reflection-correction marker is not Boolean'')"

definition response_associations ::
    "sequence_math_request \<Rightarrow> (pyval \<times> pyval) list \<Rightarrow> (int list \<times> timestamp_association list) py" where
  "response_associations request rec =
     (let full_shared = codec_shared (rq_nullspace_timestamps_ns request) (rq_schur_timestamps_ns request);
          expected_associations = nearest_associations full_shared (rq_ground_truth_timestamps_ns request);
          expected_shared = map estimator_timestamp_ns expected_associations in
      and_then (codec_timestamps True (codec_field rec ''shared_timestamps_ns'')) (\<lambda>shared.
      if shared \<noteq> expected_shared \<or> length shared < 3
      then codec_fail ''response shared timestamps are not the exact associated subset of the complete mode intersection''
      else case codec_field rec ''associations'' of
        PyList items \<Rightarrow>
          if length items \<noteq> length shared then codec_fail ''response association population differs''
          else and_then (mapM replay_association (zip items expected_associations)) (\<lambda>retained.
            Inr (shared, retained))
      | _ \<Rightarrow> codec_fail ''response association population differs''))"

definition decode_sequence_response :: "nat \<Rightarrow> pyval \<Rightarrow> pyval \<Rightarrow> sequence_math_response py" where
  "decode_sequence_response depth document request_doc =
     and_then (decode_sequence_request depth request_doc) (\<lambda>request.
     and_then (codec_parse depth document) (\<lambda>value.
     and_then (exact_keys value RESPONSE_KEYS) (\<lambda>rec.
     if \<not> py_eq_int (codec_field rec ''schema_version'') SCHEMA_VERSION \<or>
        codec_field rec ''record_type'' \<noteq> PyStr RESPONSE_RECORD_TYPE
     then codec_fail ''sequence-math response identity differs''
     else if \<not> py_eq_int (codec_field rec ''sequence_index'') (rq_sequence_index request) \<or>
        codec_field rec ''sequence_id'' \<noteq> PyStr (rq_sequence_id request) \<or>
        codec_field rec ''request_sha256'' \<noteq> PyStr (rq_sha256 request)
     then codec_fail ''sequence-math response does not bind its exact request''
     else
     and_then (response_associations request rec) (\<lambda>(shared, associations).
     and_then (response_alignment (codec_field rec ''alignment'') (length shared)) (\<lambda>(alignment_arrays, scalars, reflection).
     and_then (mapM (named_array rec) (RESPONSE_ARRAYS (int (length shared)))) (\<lambda>arrays.
     if array_bits arrays ''ground_truth_associated_positions'' \<noteq> projected_ground_truth request associations
     then codec_fail ''response associated ground-truth positions differ from request bits''
     else
     and_then (exact_keys (codec_field rec ''metrics'') METRIC_KEYS) (\<lambda>metrics.
     and_then (mapM decode_metric metrics) (\<lambda>decoded.
     and_then (validate_metrics decoded) (\<lambda>_.
     and_then (mapM nonnegative_pattern (array_bits arrays ''position_differences_m'')) (\<lambda>_.
     and_then (mapM nonnegative_pattern (array_bits arrays ''orientation_differences_deg'')) (\<lambda>_.
     case document of
       PyBytes canonical \<Rightarrow>
         Inr \<lparr>rs_sequence_index = rq_sequence_index request, rs_sequence_id = rq_sequence_id request,
           rs_request_sha256 = rq_sha256 request, rs_shared_timestamps_ns = shared, rs_associations = associations,
           rs_arrays = arrays, rs_alignment_arrays = alignment_arrays, rs_alignment_scalars = scalars,
           rs_reflection_correction_applied = reflection, rs_metric_bits = metrics,
           rs_canonical_bytes = canonical, rs_sha256 = hexdigest (sha256 canonical)\<rparr>
     | _ \<Rightarrow> codec_fail ''byte size/type is invalid'')))))))))))"

definition response_metric :: "sequence_math_response \<Rightarrow> string \<Rightarrow> f64 py" where
  "response_metric response name =
     (case map_of (rs_metric_bits response) (PyStr (lit name)) of
        None \<Rightarrow> codec_fail ''direct-math response lacks metric''
      | Some bits \<Rightarrow> codec_bits_to_f64 bits)"

end
