(* ===== verification/Sequence_Codec_Correct.thy ===== *)
theory Sequence_Codec_Correct
  imports Sequence_Codec
begin

text \<open>
  Correctness of the sequence-math transport: canonical requests parse to the poses they were encoded
  from (the JSON reader is an instance of \<^verbatim>\<open>json_reader\<close>), and an accepted response is the one its
  request determines.
\<close>

section \<open>Parsing canonical requests\<close>

interpretation codec_reader: json_reader codec_hooks
proof
  fix kvs :: "(pystr \<times> pyval) list"
  assume "distinct (map fst kvs)"
  then show "object_pairs_hook codec_hooks kvs = Inr (PyDict (string_items kvs))"
    using put_new_distinct [of "[]" kvs] by (simp add: codec_hooks_def codec_pairs_def)
qed

text \<open>What is written canonically parses to the same data with its keys in order.\<close>

lemma ascii_decode_encode: "ascii_encode s = Inr bs \<Longrightarrow> ascii_decode bs = Inr s"
proof -
  assume "ascii_encode s = Inr bs"
  then have s: "list_all (\<lambda>c. c < 128) s" "bs = map word_of_nat s" by (auto simp: ascii_encode_def split: if_splits)
  moreover have "map unat (map word_of_nat s :: bytes) = s" using s(1) by (induction s) (auto simp: unat_of_nat)
  ultimately show ?thesis by (auto simp: ascii_decode_def list_all_iff unat_of_nat)
qed

lemma as_codec_error_Inr [simp]: "as_codec_error m b r = Inr x \<longleftrightarrow> r = Inr x"
  by (auto simp: as_codec_error_def split: sum.splits exn.splits)

lemma codec_canonical_Inr:
  "codec_canonical depth v = Inr payload \<longleftrightarrow>
   (\<exists>t. json_dumps True depth v = Inr t \<and> ascii_encode (t @ [10]) = Inr payload \<and> payload \<noteq> [] \<and> length payload \<le> SEQ_MAX_DOCUMENT_BYTES)"
  by (auto simp: codec_canonical_def)

lemma codec_parse_canonical:
  assumes "json_wf (Suc d) (PyDict kvs)" "codec_canonical (Suc d) (PyDict kvs) = Inr payload"
  shows "codec_parse (Suc d) (PyBytes payload) = Inr (PyDict (sorted_items d kvs))"
proof -
  obtain t where t: "json_dumps True (Suc d) (PyDict kvs) = Inr t" "ascii_encode (t @ [10]) = Inr payload"
    "payload \<noteq> []" "length payload \<le> SEQ_MAX_DOCUMENT_BYTES" using assms(2) by (auto simp: codec_canonical_Inr)
  have s: "json_dumps True (Suc d) (PyDict (sorted_items d kvs)) = json_dumps True (Suc d) (PyDict kvs)"
    using dumps_sort [OF assms(1)] by (simp add: sorted_items_def del: json_dumps.simps)
  have n: "json_normal (Suc d) (PyDict (sorted_items d kvs))"
    using json_sort_normal [OF assms(1)] by (simp add: sorted_items_def del: json_normal.simps)
  have l: "json_loads codec_hooks (Suc d) (t @ [10]) = Inr (PyDict (sorted_items d kvs))"
    using codec_reader.loads_dumps [OF n, of True] s t(1) by (auto simp del: json_dumps.simps)
  have c: "codec_canonical (Suc d) (PyDict (sorted_items d kvs)) = Inr payload"
    using assms(2) s by (simp add: codec_canonical_def del: json_dumps.simps)
  show ?thesis using t(3,4) c ascii_decode_encode [OF t(2)] l
    by (simp add: codec_parse_def)
qed

lemma exact_keys_sorted:
  "exact_keys (PyDict kvs) keys = Inr kvs \<Longrightarrow> exact_keys (PyDict (sorted_items d kvs)) keys = Inr (sorted_items d kvs)"
proof -
  assume "exact_keys (PyDict kvs) keys = Inr kvs"
  moreover have "fst ` set (sorted_items d kvs) = fst ` set kvs" by (simp add: set_sorted_items image_image)
  moreover have "length (sorted_items d kvs) = length kvs" by (simp add: sorted_items_def)
  ultimately show ?thesis by (simp add: exact_keys_def)
qed

lemma codec_field_sorted:
  assumes "json_wf (Suc d) (PyDict kvs)"
  shows "codec_field (sorted_items d kvs) key = json_sort d (codec_field kvs key)"
proof -
  have "list_all (\<lambda>kv. key_ok (fst kv)) kvs" "distinct (map (key_text \<circ> fst) kvs)" using assms by (auto simp: list_all_iff)
  from map_of_sorted_items [OF this] show ?thesis
    by (auto simp: codec_field_def json_sort_scalar scalar_normal_def split: option.splits)
qed

section \<open>Pose populations\<close>

lemma codec_bits_iff: "codec_bits_to_f64 v = Inr x \<longleftrightarrow> v = PyStr (hexdigest (pack_f64 x)) \<and> f64_finite x"
proof -
  have "codec_bits_to_f64 v = Inr x \<longleftrightarrow> bits_hex_to_f64 v = Inr x"
    by (cases v) (simp_all add: codec_bits_to_f64_def bits_hex_to_f64_def Let_def)
  then show ?thesis by (simp add: bits_hex_iff)
qed

record poses =
  po_timestamps :: "int list"
  po_positions :: "f64 list list"
  po_quaternions :: "f64 list list"

definition row_list :: "f64 list list \<Rightarrow> pyval" where
  "row_list rows = PyList (map (\<lambda>r. PyList (map PyFloat r)) rows)"

definition pose_args :: "poses \<Rightarrow> pose_rows" where
  "pose_args p = \<lparr>pr_timestamps = PyList (map PyInt (po_timestamps p)), pr_positions = row_list (po_positions p),
     pr_quaternions = row_list (po_quaternions p)\<rparr>"

definition valid_rows :: "nat \<Rightarrow> nat \<Rightarrow> f64 list list \<Rightarrow> bool" where
  "valid_rows n columns rows \<longleftrightarrow> length rows = n \<and> list_all (\<lambda>r. length r = columns \<and> list_all f64_finite r) rows"

definition valid_poses :: "bool \<Rightarrow> poses \<Rightarrow> bool" where
  "valid_poses unique p \<longleftrightarrow>
     length (po_timestamps p) \<le> MAX_POSE_COUNT \<and> list_all (\<lambda>t. 0 \<le> t \<and> t \<le> SEQ_U64_MAX) (po_timestamps p) \<and>
     (if unique then strictly_increasing (po_timestamps p) else nondecreasing (po_timestamps p)) \<and>
     valid_rows (length (po_timestamps p)) 3 (po_positions p) \<and> valid_rows (length (po_timestamps p)) 4 (po_quaternions p)"

definition patterns :: "f64 list \<Rightarrow> pystr list" where
  "patterns xs = map (hexdigest \<circ> pack_f64) xs"

definition array_of :: "nat \<Rightarrow> nat \<Rightarrow> f64 list list \<Rightarrow> f64_bits_array" where
  "array_of n columns rows = \<lparr>ba_shape = [int n, int columns], ba_bits = patterns (concat rows)\<rparr>"

definition array_doc :: "nat \<Rightarrow> nat \<Rightarrow> f64 list list \<Rightarrow> pyval" where
  "array_doc n columns rows =
     PyDict [(PyStr (lit ''shape''), PyList [PyInt (int n), PyInt (int columns)]),
             (PyStr (lit ''bits''), PyList (map PyStr (patterns (concat rows))))]"

lemma codec_u64_iff: "codec_u64 v = Inr n \<longleftrightarrow> v = PyInt n \<and> 0 \<le> n \<and> n \<le> SEQ_U64_MAX"
  by (auto simp: codec_u64_def SEQ_U64_MAX_def split: pyval.splits)

lemma mapM_codec_u64: "mapM codec_u64 xs = Inr ts \<longleftrightarrow> xs = map PyInt ts \<and> (\<forall>t \<in> set ts. 0 \<le> t \<and> t \<le> SEQ_U64_MAX)"
  by (induction xs arbitrary: ts) (auto simp: codec_u64_iff)

lemma codec_timestamps_iff:
  "codec_timestamps unique v = Inr ts \<longleftrightarrow>
   sequence_items v = Some (map PyInt ts) \<and> length ts \<le> MAX_POSE_COUNT \<and> (\<forall>t \<in> set ts. 0 \<le> t \<and> t \<le> SEQ_U64_MAX) \<and>
   (if unique then strictly_increasing ts else nondecreasing ts)"
proof -
  have "\<not> list_ex (\<lambda>i. ts ! i < ts ! (i - 1) \<or> unique \<and> ts ! i = ts ! (i - 1)) [1..<length ts] \<longleftrightarrow>
        (if unique then strictly_increasing ts else nondecreasing ts)" for ts
    by (auto simp: strictly_increasing_def nondecreasing_def list_all_iff list_ex_iff)
  note order = this [of ts]
  show ?thesis
  proof (cases "sequence_items v")
    case (Some xs)
    show ?thesis unfolding codec_timestamps_def Some option.case if_codec_fail_eq and_then_eq_Inr mapM_codec_u64
      using order by auto
  qed (simp add: codec_timestamps_def)
qed

lemma flat_row_floats: "length r = columns \<Longrightarrow> list_all f64_finite r \<Longrightarrow> flat_row columns (PyList (map PyFloat r)) = Inr (patterns r)"
proof -
  assume r: "length r = columns" "list_all f64_finite r"
  have "mapM codec_f64_to_bits (map PyFloat r) = Inr (map (hexdigest \<circ> pack_f64) r)"
    unfolding mapM_map using r(2) by (intro mapM_Inr) (auto simp: codec_f64_to_bits_def list_all_iff)
  then show ?thesis using r(1) by (simp add: flat_row_def patterns_def)
qed

lemma element_count_pair:
  assumes "n \<le> MAX_POSE_COUNT" "0 < c" "c \<le> 9"
  shows "element_count [int n, int c] = Inr (int n * int c)"
proof -
  have le: "int n * int c \<le> MAX_ARRAY_ELEMENTS"
    using mult_mono [of "int n" "int MAX_POSE_COUNT" "int c" 9] assms by (simp add: MAX_ARRAY_ELEMENTS_def mult.commute)
  have "int c \<le> MAX_ARRAY_ELEMENTS div int n" if "0 < int n"
    using div_less_product [OF that, of MAX_ARRAY_ELEMENTS "int c"] le by (simp add: mult.commute not_less [symmetric])
  moreover have "int n \<le> MAX_ARRAY_ELEMENTS" using assms(1) by (simp add: MAX_ARRAY_ELEMENTS_def)
  ultimately show ?thesis using le by (auto simp: element_count_def element_count_step_def)
qed

lemma flat_rows_valid:
  assumes "valid_rows n columns rows" "n \<le> MAX_POSE_COUNT" "0 < columns" "columns \<le> 9"
  shows "flat_rows (row_list rows) n columns = Inr (array_doc n columns rows)"
proof -
  have "mapM (flat_row columns) (map (\<lambda>r. PyList (map PyFloat r)) rows) = Inr (map patterns rows)"
    unfolding mapM_map using assms(1) by (intro mapM_Inr) (auto simp: valid_rows_def list_all_iff intro!: flat_row_floats)
  moreover have "concat (map patterns rows) = patterns (concat rows)"
    unfolding patterns_def map_concat ..
  ultimately show ?thesis using assms element_count_pair [OF assms(2-4)]
    by (simp add: flat_rows_def row_list_def array_doc_def valid_rows_def)
qed

lemma patterns_scalar: "s \<in> set (patterns xs) \<Longrightarrow> list_all is_scalar s"
  using hexdigest_scalar by (auto simp: patterns_def)

lemma wf_strings: "\<forall>s \<in> set ss. list_all is_scalar s \<Longrightarrow> list_all (json_wf d) (map PyStr ss)"
  by (cases d) (auto simp: list_all_iff [of _ "map _ _"] scalar_normal_def)

lemma wf_ints: "list_all (json_wf d) (map PyInt ns)"
  by (cases d) (auto simp: list_all_iff scalar_normal_def)

lemma sort_scalars: "map (json_sort d) (map PyInt ns) = map PyInt ns"
    "\<forall>s \<in> set ss. list_all is_scalar s \<Longrightarrow> map (json_sort d) (map PyStr ss) = map PyStr ss"
  by (auto simp: json_sort_scalar scalar_normal_def)

lemma wf_array_doc: "json_wf (Suc (Suc d)) (array_doc n c rows)"
proof -
  have "list_all (json_wf d) [PyInt (int n), PyInt (int c)]" using wf_ints [of d "[int n, int c]"] by simp
  then show ?thesis using wf_strings [of "patterns (concat rows)" d] patterns_scalar [of _ "concat rows"]
    by (simp add: array_doc_def lit_def is_scalar_def)
qed

lemma mapM_patterns: "list_all f64_finite xs \<Longrightarrow> mapM codec_pattern (map PyStr (patterns xs)) = Inr (patterns xs)"
proof -
  assume "list_all f64_finite xs"
  then have "mapM (codec_pattern \<circ> PyStr) (patterns xs) = Inr (map (\<lambda>s. s) (patterns xs))"
    by (intro mapM_Inr) (auto simp: codec_pattern_def codec_bits_iff patterns_def list_all_iff)
  then show ?thesis by (simp add: mapM_map)
qed

lemma length_concat_rows: "valid_rows n c rows \<Longrightarrow> length (concat rows) = n * c"
proof -
  assume "valid_rows n c rows"
  then have "map length rows = map (\<lambda>_. c) rows" "length rows = n" by (auto simp: valid_rows_def list_all_iff)
  then show ?thesis by (simp add: length_concat sum_list_triv del: map_eq_conv)
qed

lemma array_record_sorted:
  assumes "valid_rows n c rows" "n \<le> MAX_POSE_COUNT" "0 < c" "c \<le> 9"
  shows "array_record (json_sort (Suc (Suc d)) (array_doc n c rows)) [int n, int c] = Inr (array_of n c rows)"
proof -
  let ?kvs = "[(PyStr (lit ''shape''), PyList [PyInt (int n), PyInt (int c)]),
             (PyStr (lit ''bits''), PyList (map PyStr (patterns (concat rows))))]"
  have doc: "array_doc n c rows = PyDict ?kvs" by (simp add: array_doc_def)
  have wf: "json_wf (Suc (Suc d)) (PyDict ?kvs)" using wf_array_doc [of d n c rows] by (simp only: doc)
  have ex: "exact_keys (PyDict ?kvs) [''shape'', ''bits''] = Inr ?kvs" by (auto simp: exact_keys_def lit_def)
  have f: "codec_field (sorted_items (Suc d) ?kvs) ''shape'' = PyList (map PyInt [int n, int c])"
    "codec_field (sorted_items (Suc d) ?kvs) ''bits'' = PyList (map PyStr (patterns (concat rows)))"
    using sort_scalars(1) [of d "[int n, int c]"] sort_scalars(2) [of "patterns (concat rows)" d] patterns_scalar [of _ "concat rows"]
    by (simp_all add: codec_field_sorted [OF wf]) (simp_all add: codec_field_def lit_def)
  have fin: "list_all f64_finite (concat rows)" using assms(1) by (auto simp: valid_rows_def list_all_iff)
  have len: "length (patterns (concat rows)) = n * c" using length_concat_rows [OF assms(1)] by (simp add: patterns_def)
  show ?thesis unfolding doc json_sort_dict array_record_def exact_keys_sorted [OF ex] and_then_Inr f pyval.case
    using element_count_pair [OF assms(2-4)] mapM_patterns [OF fin] len
    by (simp add: array_of_def py_eq_int_def)
qed

definition pose_doc :: "string \<Rightarrow> poses \<Rightarrow> pyval" where
  "pose_doc quaternion_key p =
     PyDict [(PyStr (lit ''timestamps_ns''), PyList (map PyInt (po_timestamps p))),
             (PyStr (lit ''positions''), array_doc (length (po_timestamps p)) 3 (po_positions p)),
             (PyStr (lit quaternion_key), array_doc (length (po_timestamps p)) 4 (po_quaternions p))]"

lemma population_document_valid:
  "valid_poses unique p \<Longrightarrow> population_document (pose_args p) (po_timestamps p) key = Inr (pose_doc key p)"
  by (simp add: population_document_def pose_args_def valid_poses_def flat_rows_valid pose_doc_def)

definition quaternion_keys :: "string set" where
  "quaternion_keys = {''stored_quaternions_xyzw'', ''quaternions_xyzw''}"

lemma wf_pose_doc: "key \<in> quaternion_keys \<Longrightarrow> json_wf (Suc (Suc (Suc d))) (pose_doc key p)"
proof -
  assume "key \<in> quaternion_keys"
  then have "lit key \<noteq> lit ''timestamps_ns''" "lit key \<noteq> lit ''positions''" "list_all is_scalar (lit key)"
    by (auto simp: quaternion_keys_def lit_def is_scalar_def)
  moreover have "json_wf (Suc (Suc d)) (PyList (map PyInt ns))" for ns using wf_ints [of "Suc d" ns] by simp
  moreover have "list_all is_scalar (lit ''timestamps_ns'')" "list_all is_scalar (lit ''positions'')"
    "lit ''timestamps_ns'' \<noteq> lit ''positions''" by (simp_all add: lit_def is_scalar_def)
  ultimately show ?thesis using wf_array_doc [of d]
    by (simp add: pose_doc_def json_wf.simps(2) [of "Suc (Suc d)"] del: json_wf.simps)
qed

lemma decode_population_sorted:
  assumes "valid_poses unique p" "key \<in> quaternion_keys"
  shows "decode_population (json_sort (Suc (Suc (Suc d))) (pose_doc key p)) key unique =
    Inr (po_timestamps p, array_of (length (po_timestamps p)) 3 (po_positions p), array_of (length (po_timestamps p)) 4 (po_quaternions p))"
proof -
  let ?n = "length (po_timestamps p)"
  let ?kvs = "[(PyStr (lit ''timestamps_ns''), PyList (map PyInt (po_timestamps p))),
             (PyStr (lit ''positions''), array_doc ?n 3 (po_positions p)),
             (PyStr (lit key), array_doc ?n 4 (po_quaternions p))]"
  have doc: "pose_doc key p = PyDict ?kvs" by (simp add: pose_doc_def)
  have wf: "json_wf (Suc (Suc (Suc d))) (PyDict ?kvs)" using wf_pose_doc [OF assms(2), of d p] by (simp only: doc)
  have ex: "exact_keys (PyDict ?kvs) [''timestamps_ns'', ''positions'', key] = Inr ?kvs"
    using assms(2) by (auto simp: exact_keys_def lit_def quaternion_keys_def)
  have "codec_field ?kvs ''timestamps_ns'' = PyList (map PyInt (po_timestamps p))"
    "codec_field ?kvs ''positions'' = array_doc ?n 3 (po_positions p)" "codec_field ?kvs key = array_doc ?n 4 (po_quaternions p)"
    using assms(2) by (auto simp: codec_field_def lit_def quaternion_keys_def)
  then have f: "codec_field (sorted_items (Suc (Suc d)) ?kvs) ''timestamps_ns'' = PyList (map PyInt (po_timestamps p))"
    "codec_field (sorted_items (Suc (Suc d)) ?kvs) ''positions'' = json_sort (Suc (Suc d)) (array_doc ?n 3 (po_positions p))"
    "codec_field (sorted_items (Suc (Suc d)) ?kvs) key = json_sort (Suc (Suc d)) (array_doc ?n 4 (po_quaternions p))"
    using sort_scalars(1) [of "Suc d" "po_timestamps p"] unfolding codec_field_sorted [OF wf] by simp_all
  have t: "codec_timestamps unique (PyList (map PyInt (po_timestamps p))) = Inr (po_timestamps p)"
    using assms(1) by (simp add: codec_timestamps_iff valid_poses_def list_all_iff)
  have v: "valid_rows ?n 3 (po_positions p)" "valid_rows ?n 4 (po_quaternions p)" "?n \<le> MAX_POSE_COUNT"
    using assms(1) by (auto simp: valid_poses_def)
  show ?thesis unfolding doc json_sort_dict decode_population_def exact_keys_sorted [OF ex] and_then_Inr f t
    using array_record_sorted [OF v(1,3), of d] array_record_sorted [OF v(2,3), of d]
    by (simp del: json_sort.simps)
qed

section \<open>Requests\<close>

definition request_items :: "pyval \<Rightarrow> nat \<Rightarrow> poses \<Rightarrow> poses \<Rightarrow> poses \<Rightarrow> (pyval \<times> pyval) list" where
  "request_items version i n s g =
     [(PyStr (lit ''schema_version''), version), (PyStr (lit ''record_type''), PyStr REQUEST_RECORD_TYPE),
      (PyStr (lit ''sequence_index''), PyInt (int i)), (PyStr (lit ''sequence_id''), PyStr (SEQUENCES ! i)),
      (PyStr (lit ''nullspace''), pose_doc ''stored_quaternions_xyzw'' n),
      (PyStr (lit ''schur''), pose_doc ''stored_quaternions_xyzw'' s),
      (PyStr (lit ''ground_truth''), pose_doc ''quaternions_xyzw'' g)]"

definition request_of :: "nat \<Rightarrow> poses \<Rightarrow> poses \<Rightarrow> poses \<Rightarrow> bytes \<Rightarrow> sequence_math_request" where
  "request_of i n s g payload =
     \<lparr>rq_sequence_index = int i, rq_sequence_id = SEQUENCES ! i,
      rq_nullspace_timestamps_ns = po_timestamps n,
      rq_nullspace_positions = array_of (length (po_timestamps n)) 3 (po_positions n),
      rq_nullspace_quaternions_xyzw = array_of (length (po_timestamps n)) 4 (po_quaternions n),
      rq_schur_timestamps_ns = po_timestamps s,
      rq_schur_positions = array_of (length (po_timestamps s)) 3 (po_positions s),
      rq_schur_quaternions_xyzw = array_of (length (po_timestamps s)) 4 (po_quaternions s),
      rq_ground_truth_timestamps_ns = po_timestamps g,
      rq_ground_truth_positions = array_of (length (po_timestamps g)) 3 (po_positions g),
      rq_ground_truth_quaternions_xyzw = array_of (length (po_timestamps g)) 4 (po_quaternions g),
      rq_canonical_bytes = payload, rq_sha256 = hexdigest (sha256 payload)\<rparr>"

lemma three_cases: "i < 3 \<Longrightarrow> i = 0 \<or> i = 1 \<or> i = (2 :: nat)"
  by linarith

lemma SEQUENCES_nth: "SEQUENCES ! 0 = lit ''MH_01_easy''" "SEQUENCES ! Suc 0 = lit ''MH_03_medium''" "SEQUENCES ! 2 = lit ''V1_01_easy''"
    "length SEQUENCES = 3"
  by (simp_all add: SEQUENCES_def)

lemma wf_request:
  assumes "scalar_normal version" "i < 3"
  shows "json_wf (Suc (Suc (Suc (Suc d)))) (PyDict (request_items version i n s g))"
proof -
  have sc: "list_all is_scalar (SEQUENCES ! i)" "list_all is_scalar REQUEST_RECORD_TYPE"
    using three_cases [OF assms(2)] by (auto simp: SEQUENCES_nth REQUEST_RECORD_TYPE_def lit_def is_scalar_def)
  have "json_wf (Suc e) version" "json_wf (Suc e) (PyInt m)" for e m
    using assms(1) by (auto simp: scalar_normal_def split: pyval.splits)
  moreover have "json_wf (Suc e) (PyStr t)" if "list_all is_scalar t" for e t
    using that by (simp add: scalar_normal_def)
  moreover have "json_wf (Suc (Suc (Suc d))) (pose_doc ''stored_quaternions_xyzw'' p)"
    "json_wf (Suc (Suc (Suc d))) (pose_doc ''quaternions_xyzw'' p)" for p
    by (rule wf_pose_doc; simp add: quaternion_keys_def)+
  ultimately show ?thesis using sc
    by (simp add: request_items_def json_wf.simps(2) [of "Suc (Suc (Suc d))"] lit_def is_scalar_def del: json_wf.simps)
qed

lemma decode_canonical_request:
  assumes "scalar_normal version" "py_eq_int version 1" "i < 3"
    and "valid_poses True n" "valid_poses True s" "valid_poses False g"
    and "codec_canonical (Suc (Suc (Suc (Suc d)))) (PyDict (request_items version i n s g)) = Inr payload"
  shows "decode_sequence_request (Suc (Suc (Suc (Suc d)))) (PyBytes payload) = Inr (request_of i n s g payload)"
proof -
  let ?d = "Suc (Suc (Suc d))" and ?kvs = "request_items version i n s g"
  note wf = wf_request [OF assms(1,3), of d n s g]
  have ex: "exact_keys (PyDict ?kvs) [''schema_version'', ''record_type'', ''sequence_index'', ''sequence_id'',
        ''nullspace'', ''schur'', ''ground_truth''] = Inr ?kvs"
    by (auto simp: exact_keys_def request_items_def lit_def)
  have sc: "list_all is_scalar (SEQUENCES ! i)" "list_all is_scalar REQUEST_RECORD_TYPE"
    using three_cases [OF assms(3)] by (auto simp: SEQUENCES_nth REQUEST_RECORD_TYPE_def lit_def is_scalar_def)
  have "codec_field ?kvs ''schema_version'' = version" "codec_field ?kvs ''record_type'' = PyStr REQUEST_RECORD_TYPE"
    "codec_field ?kvs ''sequence_index'' = PyInt (int i)" "codec_field ?kvs ''sequence_id'' = PyStr (SEQUENCES ! i)"
    "codec_field ?kvs ''nullspace'' = pose_doc ''stored_quaternions_xyzw'' n"
    "codec_field ?kvs ''schur'' = pose_doc ''stored_quaternions_xyzw'' s"
    "codec_field ?kvs ''ground_truth'' = pose_doc ''quaternions_xyzw'' g"
    by (simp_all add: codec_field_def request_items_def lit_def)
  then have f: "codec_field (sorted_items ?d ?kvs) ''schema_version'' = version"
    "codec_field (sorted_items ?d ?kvs) ''record_type'' = PyStr REQUEST_RECORD_TYPE"
    "codec_field (sorted_items ?d ?kvs) ''sequence_index'' = PyInt (int i)"
    "codec_field (sorted_items ?d ?kvs) ''sequence_id'' = PyStr (SEQUENCES ! i)"
    "codec_field (sorted_items ?d ?kvs) ''nullspace'' = json_sort ?d (pose_doc ''stored_quaternions_xyzw'' n)"
    "codec_field (sorted_items ?d ?kvs) ''schur'' = json_sort ?d (pose_doc ''stored_quaternions_xyzw'' s)"
    "codec_field (sorted_items ?d ?kvs) ''ground_truth'' = json_sort ?d (pose_doc ''quaternions_xyzw'' g)"
    unfolding codec_field_sorted [OF wf] using sc assms(1)
    by (simp_all add: json_sort_scalar scalar_normal_def del: json_sort.simps)
  have u: "codec_u64 (PyInt (int i)) = Inr (int i)" using assms(3) by (simp add: codec_u64_iff SEQ_U64_MAX_def)
  have p: "decode_population (json_sort ?d (pose_doc ''stored_quaternions_xyzw'' n)) ''stored_quaternions_xyzw'' True =
      Inr (po_timestamps n, array_of (length (po_timestamps n)) 3 (po_positions n), array_of (length (po_timestamps n)) 4 (po_quaternions n))"
    "decode_population (json_sort ?d (pose_doc ''stored_quaternions_xyzw'' s)) ''stored_quaternions_xyzw'' True =
      Inr (po_timestamps s, array_of (length (po_timestamps s)) 3 (po_positions s), array_of (length (po_timestamps s)) 4 (po_quaternions s))"
    "decode_population (json_sort ?d (pose_doc ''quaternions_xyzw'' g)) ''quaternions_xyzw'' False =
      Inr (po_timestamps g, array_of (length (po_timestamps g)) 3 (po_positions g), array_of (length (po_timestamps g)) 4 (po_quaternions g))"
    by (rule decode_population_sorted, rule assms, simp add: quaternion_keys_def)+
  have parse: "codec_parse (Suc ?d) (PyBytes payload) = Inr (PyDict (sorted_items ?d ?kvs))"
    by (rule codec_parse_canonical [OF wf assms(7)])
  show ?thesis
    unfolding decode_sequence_request_def parse and_then_Inr exact_keys_sorted [OF ex] f u p split
    using assms(2,3) by (simp add: SCHEMA_VERSION_def SEQUENCES_nth(4) request_of_def)
qed


definition no_poses :: poses where
  "no_poses = \<lparr>po_timestamps = [], po_positions = [], po_quaternions = []\<rparr>"

lemma no_poses_valid: "valid_poses unique no_poses"
  by (simp add: valid_poses_def no_poses_def valid_rows_def strictly_increasing_def nondecreasing_def)

lemmas dump_simps = dump_object_def dump_member_def dump_array_def lit_def is_container_def quote_def escape_char_def

lemma dumps_empty_array:
  "c = 3 \<or> c = 4 \<Longrightarrow> \<exists>t. json_dumps True (Suc (Suc d)) (array_doc 0 c []) = Inr t \<and> length t = 25"
  by (cases d) (auto simp: array_doc_def patterns_def dump_simps int_repr_def dec_text.simps)

lemma dumps_empty_poses:
  assumes "key \<in> quaternion_keys"
  shows "\<exists>t. json_dumps True (Suc (Suc (Suc d))) (pose_doc key no_poses) = Inr t \<and> length t < 120"
proof -
  obtain t3 where t3: "json_dumps True (Suc (Suc d)) (array_doc 0 3 []) = Inr t3" "length t3 = 25"
    using dumps_empty_array [of 3 d] by blast
  obtain t4 where t4: "json_dumps True (Suc (Suc d)) (array_doc 0 4 []) = Inr t4" "length t4 = 25"
    using dumps_empty_array [of 4 d] by blast
  have e: "json_dumps True (Suc (Suc d)) (PyList []) = Inr [91, 93]" by (simp add: dump_array_def)
  show ?thesis using assms t3 t4 e
    by (auto simp: quaternion_keys_def pose_doc_def no_poses_def json_dumps.simps(2) [of True "Suc (Suc d)"] dump_simps simp del: json_dumps.simps)
qed

lemma dumps_empty_request:
  assumes "version = PyInt 1 \<or> version = PyBool True"
  shows "\<exists>t. json_dumps True (Suc (Suc (Suc (Suc 0)))) (PyDict (request_items version 0 no_poses no_poses no_poses)) = Inr t \<and>
    length t < 1000"
proof -
  let ?d = "Suc (Suc (Suc 0))"
  obtain s where s: "json_dumps True ?d (pose_doc ''stored_quaternions_xyzw'' no_poses) = Inr s" "length s < 120"
    using dumps_empty_poses [of "''stored_quaternions_xyzw''" 0] by (auto simp: quaternion_keys_def)
  obtain g where g: "json_dumps True ?d (pose_doc ''quaternions_xyzw'' no_poses) = Inr g" "length g < 120"
    using dumps_empty_poses [of "''quaternions_xyzw''" 0] by (auto simp: quaternion_keys_def)
  have i: "json_dumps True ?d (PyInt 0) = Inr [48]" "\<exists>v. json_dumps True ?d version = Inr v \<and> length v < 5"
    "json_dumps True ?d (PyStr t) = Inr (quote True t)" for t
    using assms by (auto simp: int_repr_def dec_text.simps lit_def)
  then obtain v where v: "json_dumps True ?d version = Inr v" "length v < 5" by blast
  show ?thesis using s g i(1,3) v
    by (simp add: request_items_def json_dumps.simps(2) [of True ?d] dump_simps SEQUENCES_nth REQUEST_RECORD_TYPE_def del: json_dumps.simps)
qed



lemma empty_canonical:
  assumes "version = PyInt 1 \<or> version = PyBool True"
  shows "\<exists>payload. codec_canonical (Suc (Suc (Suc (Suc 0)))) (PyDict (request_items version 0 no_poses no_poses no_poses)) = Inr payload"
proof -
  let ?d = "Suc (Suc (Suc (Suc 0)))"
  let ?doc = "PyDict (request_items version 0 no_poses no_poses no_poses)"
  have sv: "scalar_normal version" using assms by (auto simp: scalar_normal_def)
  have wf: "json_wf ?d ?doc" by (rule wf_request [OF sv]) simp
  obtain t where t: "json_dumps True ?d ?doc = Inr t" "length t < 1000" using dumps_empty_request [OF assms] by blast
  have "text_ok True t" by (rule text_ok_dumps [OF json_sort_normal [OF wf]]) (simp only: dumps_sort [OF wf] t)
  then have "ascii_encode (t @ [10]) = Inr (map word_of_nat (t @ [10]))"
    by (auto simp: ascii_encode_def text_ok_def list_all_iff)
  moreover have "length (t @ [10]) \<le> SEQ_MAX_DOCUMENT_BYTES" using t(2) by (simp add: SEQ_MAX_DOCUMENT_BYTES_def)
  ultimately show ?thesis using t by (auto simp: codec_canonical_Inr simp del: json_dumps.simps)
qed

text \<open>
  The request encoding is not unique: a document whose schema version is the JSON literal true is
  canonical and accepted, because Python's True equals 1, and decodes to the same request as the
  document with version 1.
\<close>

theorem boolean_schema_version_accepted:
  "\<exists>p q r. p \<noteq> q \<and> decode_sequence_request 4 (PyBytes p) = Inr r \<and>
     decode_sequence_request 4 (PyBytes q) = Inr (r\<lparr>rq_canonical_bytes := q, rq_sha256 := hexdigest (sha256 q)\<rparr>)"
proof -
  let ?d = "Suc (Suc (Suc 0))"
  let ?kvs = "\<lambda>v. request_items v 0 no_poses no_poses no_poses"
  have four: "(4 :: nat) = Suc ?d" by simp
  obtain p where p: "codec_canonical (Suc ?d) (PyDict (?kvs (PyInt 1))) = Inr p" using empty_canonical by blast
  obtain q where q: "codec_canonical (Suc ?d) (PyDict (?kvs (PyBool True))) = Inr q" using empty_canonical by blast
  have dec: "decode_sequence_request 4 (PyBytes p) = Inr (request_of 0 no_poses no_poses no_poses p)"
    "decode_sequence_request 4 (PyBytes q) = Inr (request_of 0 no_poses no_poses no_poses q)"
    unfolding four
    by (rule decode_canonical_request [OF _ _ _ no_poses_valid no_poses_valid no_poses_valid p];
        simp add: scalar_normal_def py_eq_int_def)
       (rule decode_canonical_request [OF _ _ _ no_poses_valid no_poses_valid no_poses_valid q];
        simp add: scalar_normal_def py_eq_int_def)
  have wf: "json_wf (Suc ?d) (PyDict (?kvs (PyInt 1)))" "json_wf (Suc ?d) (PyDict (?kvs (PyBool True)))"
    by (rule wf_request; simp add: scalar_normal_def)+
  have "p \<noteq> q"
  proof
    assume "p = q"
    then have "sorted_items ?d (?kvs (PyInt 1)) = sorted_items ?d (?kvs (PyBool True))"
      using codec_parse_canonical [OF wf(1) p] codec_parse_canonical [OF wf(2) q] by simp
    then have "json_sort ?d (codec_field (?kvs (PyInt 1)) ''schema_version'') = json_sort ?d (codec_field (?kvs (PyBool True)) ''schema_version'')"
      using codec_field_sorted [OF wf(1)] codec_field_sorted [OF wf(2)] by metis
    then show False by (simp add: codec_field_def request_items_def lit_def)
  qed
  moreover have "request_of 0 no_poses no_poses no_poses q =
      (request_of 0 no_poses no_poses no_poses p)\<lparr>rq_canonical_bytes := q, rq_sha256 := hexdigest (sha256 q)\<rparr>"
    by (simp add: request_of_def)
  ultimately show ?thesis using dec by metis
qed

section \<open>Responses\<close>

lemma case_list_codec_fail: "(case v of PyList xs \<Rightarrow> f xs | _ \<Rightarrow> codec_fail m) = Inr y \<longleftrightarrow> (\<exists>xs. v = PyList xs \<and> f xs = Inr y)"
  by (cases v) auto

lemma case_bool_codec_fail: "(case v of PyBool b \<Rightarrow> f b | _ \<Rightarrow> codec_fail m) = Inr y \<longleftrightarrow> (\<exists>b. v = PyBool b \<and> f b = Inr y)"
  by (cases v) auto

lemma case_bytes_codec_fail: "(case v of PyBytes b \<Rightarrow> f b | _ \<Rightarrow> codec_fail m) = Inr y \<longleftrightarrow> (\<exists>b. v = PyBytes b \<and> f b = Inr y)"
  by (cases v) auto

lemma decode_population_timestamps:
  "decode_population v key unique = Inr (ts, p, q) \<Longrightarrow> (\<forall>t \<in> set ts. 0 \<le> t \<and> t \<le> SEQ_U64_MAX) \<and>
   (if unique then strictly_increasing ts else nondecreasing ts)"
  by (auto simp: decode_population_def codec_timestamps_iff split: if_splits)

lemma decode_request_ordered:
  "decode_sequence_request depth doc = Inr rq \<Longrightarrow> sorted_wrt (<) (rq_nullspace_timestamps_ns rq) \<and>
   sorted_wrt (<) (rq_schur_timestamps_ns rq) \<and> sorted (rq_ground_truth_timestamps_ns rq)"
  by (auto simp: decode_sequence_request_def case_bytes_codec_fail strictly_increasing_iff nondecreasing_iff
      dest!: decode_population_timestamps split: prod.splits)

lemma replay_all: "length items = length rows \<Longrightarrow> mapM replay_association (zip items rows) = Inr kept \<Longrightarrow> kept = rows"
proof (induction items rows arbitrary: kept rule: list_induct2)
  case (Cons x xs y ys)
  then show ?case by (auto simp: replay_association_def)
qed simp

lemma nearest_associations_reference: "sorted gt \<Longrightarrow> nearest_associations ts gt = reference_associations ts gt"
proof -
  assume "sorted gt"
  then have "codec_row gt = reference_row gt" by (simp add: fun_eq_iff codec_row_reference)
  then show ?thesis by (simp add: nearest_associations_def reference_associations_def)
qed

lemma codec_shared_filter: "sorted_wrt (<) a \<Longrightarrow> sorted_wrt (<) b \<Longrightarrow> codec_shared a b = filter (\<lambda>t. t \<in> set b) a"
  using intersect_loop_filter [of a b 0 0 "[]"] by (simp add: codec_shared_def shared_loop_eq)

lemma response_associations_sound:
  assumes "response_associations rq rec = Inr (shared, kept)"
    and "sorted_wrt (<) (rq_nullspace_timestamps_ns rq)" "sorted_wrt (<) (rq_schur_timestamps_ns rq)"
    and "sorted (rq_ground_truth_timestamps_ns rq)"
  shows "kept = reference_associations (filter (\<lambda>t. t \<in> set (rq_schur_timestamps_ns rq)) (rq_nullspace_timestamps_ns rq))
      (rq_ground_truth_timestamps_ns rq) \<and> shared = map estimator_timestamp_ns kept \<and> 3 \<le> length kept"
proof -
  let ?e = "nearest_associations (codec_shared (rq_nullspace_timestamps_ns rq) (rq_schur_timestamps_ns rq)) (rq_ground_truth_timestamps_ns rq)"
  obtain items where i: "shared = map estimator_timestamp_ns ?e" "3 \<le> length shared" "length items = length shared"
      "mapM replay_association (zip items ?e) = Inr kept"
    using assms(1) by (auto simp: response_associations_def Let_def case_list_codec_fail not_less)
  then have "kept = ?e" using replay_all [of items ?e kept] by simp
  then show ?thesis using i assms(2-4) by (simp add: codec_shared_filter nearest_associations_reference)
qed

lemma mapM_decode_metric:
  "mapM decode_metric kvs = Inr decoded \<Longrightarrow> map_of kvs k = Some v \<Longrightarrow> \<exists>x. map_of decoded k = Some x \<and> codec_bits_to_f64 v = Inr x \<and> (k, x) \<in> set decoded"
  by (induction kvs arbitrary: decoded) (auto simp: decode_metric_def split: if_splits)

lemma metric_keys_present:
  assumes "exact_keys value METRIC_KEYS = Inr metrics" "key \<in> set METRIC_KEYS"
  shows "\<exists>v. map_of metrics (PyStr (lit key)) = Some v"
proof -
  have "fst ` set metrics = set (map (PyStr \<circ> lit) METRIC_KEYS)"
    using assms(1) by (auto simp: exact_keys_def split: pyval.splits)
  then have "PyStr (lit key) \<in> fst ` set metrics" using assms(2) by auto
  then show ?thesis by (simp add: weak_map_of_SomeI image_iff) (metis map_of_eq_None_iff not_None_eq image_eqI fst_conv)
qed

definition metric_in :: "sequence_math_response \<Rightarrow> string \<Rightarrow> (rat \<Rightarrow> bool) \<Rightarrow> bool" where
  "metric_in rs key P = (case response_metric rs key of Inl e \<Rightarrow> False | Inr x \<Rightarrow> P (f64_rat x))"

lemma validate_metrics_sound:
  assumes "exact_keys value METRIC_KEYS = Inr metrics" "mapM decode_metric metrics = Inr decoded"
    and "validate_metrics decoded = Inr ()" "rs_metric_bits rs = metrics"
  shows "metric_in rs ''position_p95_m_bits'' (\<lambda>x. 0 \<le> x \<and> x \<le> f64_rat (float_of_token (lit ''0.01'')))"
    and "metric_in rs ''orientation_p95_deg_bits'' (\<lambda>x. 0 \<le> x \<and> x \<le> f64_rat (float_of_token (lit ''0.05'')))"
    and "metric_in rs ''relative_ate_difference_bits'' (\<lambda>x. 0 \<le> x \<and> x \<le> f64_rat (float_of_token (lit ''0.01'')))"
    and "metric_in rs ''ate_nullspace_m_bits'' (\<lambda>x. 0 < x)" and "metric_in rs ''ate_schur_m_bits'' (\<lambda>x. 0 \<le> x)"
proof -
  have nonneg: "0 \<le> f64_rat x" if "(k, x) \<in> set decoded" for k x
    using assms(3) that by (force simp: validate_metrics_def list_ex_iff not_less split: if_splits)
  have m: "\<exists>x. response_metric rs key = Inr x \<and> metric_value decoded key = f64_rat x \<and> 0 \<le> f64_rat x" if key: "key \<in> set METRIC_KEYS" for key
  proof -
    obtain v where v: "map_of metrics (PyStr (lit key)) = Some v" using metric_keys_present [OF assms(1) key] by blast
    obtain x where "map_of decoded (PyStr (lit key)) = Some x" "codec_bits_to_f64 v = Inr x" "(PyStr (lit key), x) \<in> set decoded"
      using mapM_decode_metric [OF assms(2) v] by blast
    then show ?thesis using v assms(4) nonneg by (simp add: response_metric_def metric_value_def)
  qed
  note d = assms(3) [unfolded validate_metrics_def if_codec_fail_eq not_less not_le]
  show "metric_in rs ''position_p95_m_bits'' (\<lambda>x. 0 \<le> x \<and> x \<le> f64_rat (float_of_token (lit ''0.01'')))"
    "metric_in rs ''orientation_p95_deg_bits'' (\<lambda>x. 0 \<le> x \<and> x \<le> f64_rat (float_of_token (lit ''0.05'')))"
    "metric_in rs ''relative_ate_difference_bits'' (\<lambda>x. 0 \<le> x \<and> x \<le> f64_rat (float_of_token (lit ''0.01'')))"
    "metric_in rs ''ate_nullspace_m_bits'' (\<lambda>x. 0 < x)" "metric_in rs ''ate_schur_m_bits'' (\<lambda>x. 0 \<le> x)"
    using d m [of "''position_p95_m_bits''"] m [of "''orientation_p95_deg_bits''"] m [of "''relative_ate_difference_bits''"]
      m [of "''ate_nullspace_m_bits''"] m [of "''ate_schur_m_bits''"]
    by (auto simp: metric_in_def METRIC_KEYS_def)
qed


end
