(* ===== verification/Stereo_Census.thy ===== *)
theory Stereo_Census
  imports Sha256 Py_Json
begin

text \<open>
  The stereo-pairing census of \<^verbatim>\<open>src/scripts/icra27/kaist_pairing_census.py\<close>: the native
  first-forward selection with its binary64 threshold and its \<^verbatim>\<open>used_index\<close> set, the exact-header
  selection, their summaries and the census record. Reading the bag and the command line are file
  access and not modelled.
\<close>

section \<open>Binary64 arithmetic on finite operands\<close>

definition f64_of_rat :: "rat \<Rightarrow> f64" where
  "f64_of_rat r =
     (case quotient_of r of (p, q) \<Rightarrow>
        word_of_nat ((if p < 0 then 2 ^ 63 else 0) + min (round_magnitude (nat \<bar>p\<bar>) (nat q)) (2047 * 2 ^ 52)))"

definition f64_add :: "f64 \<Rightarrow> f64 \<Rightarrow> f64" where
  "f64_add x y = f64_of_rat (f64_rat x + f64_rat y)"

definition f64_sub :: "f64 \<Rightarrow> f64 \<Rightarrow> f64" where
  "f64_sub x y = f64_of_rat (f64_rat x - f64_rat y)"

definition f64_mul :: "f64 \<Rightarrow> f64 \<Rightarrow> f64" where
  "f64_mul x y = f64_of_rat (f64_rat x * f64_rat y)"

definition f64_div :: "f64 \<Rightarrow> f64 \<Rightarrow> f64" where
  "f64_div x y = f64_of_rat (f64_rat x / f64_rat y)"

section \<open>Messages and pairs\<close>

definition NANOSECONDS_PER_SECOND :: int where "NANOSECONDS_PER_SECOND = 1000000000"
definition NATIVE_LIMIT_SECONDS :: f64 where "NATIVE_LIMIT_SECONDS = float_of_token (lit ''0.02'')"
definition NOMINAL_LIMIT_NS :: int where "NOMINAL_LIMIT_NS = 20000000"
definition CENSUS_SCHEMA :: pystr where "CENSUS_SCHEMA = lit ''schurvio.icra27.kaist_pairing_census.v1''"

datatype message_kind = KIND_IMU | KIND_CAMERA0 | KIND_CAMERA1

definition message_kind_of :: "pystr \<Rightarrow> message_kind option" where
  "message_kind_of s =
     (if s = lit ''imu'' then Some KIND_IMU else if s = lit ''camera0'' then Some KIND_CAMERA0
      else if s = lit ''camera1'' then Some KIND_CAMERA1 else None)"

definition is_camera :: "message_kind \<Rightarrow> bool" where
  "is_camera k = (k = KIND_CAMERA0 \<or> k = KIND_CAMERA1)"

record filtered_message =
  fm_kind :: message_kind
  fm_record_time_ns :: int
  fm_header_time_ns :: "int option"

text \<open>\<^verbatim>\<open>FilteredMessage.__post_init__\<close>.\<close>

definition make_filtered_message :: "pystr \<Rightarrow> int \<Rightarrow> int option \<Rightarrow> filtered_message py" where
  "make_filtered_message kind record_time_ns header_time_ns =
     (case message_kind_of kind of
        None \<Rightarrow> Inl (ValueError ''invalid filtered-message kind'')
      | Some k \<Rightarrow>
          if record_time_ns < 0 then Inl (ValueError ''negative record timestamp'')
          else if is_camera k \<and> (case header_time_ns of None \<Rightarrow> True | Some h \<Rightarrow> h < 0)
          then Inl (ValueError ''camera message has no nonnegative header timestamp'')
          else if \<not> is_camera k \<and> header_time_ns \<noteq> None
          then Inl (ValueError ''IMU header time is intentionally not retained'')
          else Inr \<lparr>fm_kind = k, fm_record_time_ns = record_time_ns, fm_header_time_ns = header_time_ns\<rparr>)"

record stereo_pair =
  sp_selection_index :: nat
  sp_anchor_filtered_index :: nat
  sp_anchor_camera_id :: nat
  sp_camera0_filtered_index :: nat
  sp_camera1_filtered_index :: nat
  sp_camera0_record_time_ns :: int
  sp_camera1_record_time_ns :: int
  sp_camera0_header_time_ns :: int
  sp_camera1_header_time_ns :: int

definition pair_identity :: "stereo_pair \<Rightarrow> nat \<times> nat" where
  "pair_identity p = (sp_camera0_filtered_index p, sp_camera1_filtered_index p)"

definition record_skew_ns :: "stereo_pair \<Rightarrow> int" where
  "record_skew_ns p = \<bar>sp_camera0_record_time_ns p - sp_camera1_record_time_ns p\<bar>"

definition camera_timestamp_ns :: "stereo_pair \<Rightarrow> int" where
  "camera_timestamp_ns p = sp_camera0_header_time_ns p"

record native_selection =
  ns_pairs :: "stereo_pair list"
  ns_used_index_outer_skip_count :: nat
  ns_no_pair_outer_skip_count :: nat
  ns_candidate_use_counts :: "(nat \<times> nat) list"
  ns_residual_used_indices :: "nat list"

record exact_header_selection =
  es_pairs :: "stereo_pair list"
  es_camera0_count :: nat
  es_camera1_count :: nat
  es_camera0_unmatched_headers_ns :: "int list"
  es_camera1_unmatched_headers_ns :: "int list"

definition census_fail :: "string \<Rightarrow> 'a py" where
  "census_fail message = Inl (CensusError message)"

lemma census_fail_not_Inr [simp]: "census_fail m \<noteq> Inr x"
  by (simp add: census_fail_def)

lemma if_census_fail_eq [simp]: "(if b then census_fail m else r) = Inr y \<longleftrightarrow> \<not> b \<and> r = Inr y"
  by simp

definition validate_filtered_view :: "filtered_message list \<Rightarrow> unit py" where
  "validate_filtered_view messages =
     and_then (foldM (\<lambda>previous message.
       if previous \<noteq> None \<and> fm_record_time_ns message < the previous
       then census_fail ''filtered rosbag record time reverses''
       else Inr (Some (fm_record_time_ns message))) None messages) (\<lambda>_. Inr ())"

text \<open>\<^verbatim>\<open>ros::TimeBase::toSec\<close>; the conversion of the seconds may overflow.\<close>

definition int_to_float :: "int \<Rightarrow> f64 py" where
  "int_to_float n = (case f64_of_int n of None \<Rightarrow> Inl (OtherException ''OverflowError'') | Some x \<Rightarrow> Inr x)"

definition cpp_ros_time_to_sec :: "int \<Rightarrow> f64 py" where
  "cpp_ros_time_to_sec timestamp_ns =
     (let seconds = timestamp_ns div NANOSECONDS_PER_SECOND; nanoseconds = timestamp_ns mod NANOSECONDS_PER_SECOND in
      and_then (int_to_float seconds) (\<lambda>s. and_then (int_to_float nanoseconds) (\<lambda>n.
        Inr (f64_add s (f64_mul (float_of_token (lit ''1e-9'')) n)))))"

definition message_header :: "filtered_message \<Rightarrow> int py" where
  "message_header m = (case fm_header_time_ns m of None \<Rightarrow> Inl (OtherException ''AssertionError'') | Some h \<Rightarrow> Inr h)"

section \<open>Native selection\<close>

definition opposite :: "message_kind \<Rightarrow> message_kind" where
  "opposite k = (if k = KIND_CAMERA0 then KIND_CAMERA1 else KIND_CAMERA0)"

definition within_native_limit :: "filtered_message \<Rightarrow> filtered_message \<Rightarrow> bool py" where
  "within_native_limit anchor candidate =
     and_then (cpp_ros_time_to_sec (fm_record_time_ns anchor)) (\<lambda>anchor_seconds.
     and_then (cpp_ros_time_to_sec (fm_record_time_ns candidate)) (\<lambda>candidate_seconds.
       Inr (\<bar>f64_rat (f64_sub candidate_seconds anchor_seconds)\<bar> < f64_rat NATIVE_LIMIT_SECONDS)))"

text \<open>The first opposite-camera message from the anchor on, when it is near enough.\<close>

definition native_candidate :: "filtered_message list \<Rightarrow> nat \<Rightarrow> filtered_message \<Rightarrow> nat option py" where
  "native_candidate messages anchor_index anchor =
     (case find (\<lambda>i. fm_kind (messages ! i) = opposite (fm_kind anchor)) [anchor_index..<length messages] of
        None \<Rightarrow> Inr None
      | Some i \<Rightarrow> and_then (within_native_limit anchor (messages ! i)) (\<lambda>near. Inr (if near then Some i else None)))"

record native_state =
  nt_used_index :: "nat set"
  nt_pairs :: "stereo_pair list"
  nt_candidate_use_counts :: "(nat \<times> nat) list"
  nt_used_skips :: nat
  nt_no_pair_skips :: nat

definition native_pair :: "filtered_message list \<Rightarrow> nat \<Rightarrow> nat \<Rightarrow> nat \<Rightarrow> stereo_pair py" where
  "native_pair messages selection_index anchor_index candidate_index =
     (let first = (fm_kind (messages ! anchor_index) = KIND_CAMERA0);
          camera0_index = (if first then anchor_index else candidate_index);
          camera1_index = (if first then candidate_index else anchor_index);
          camera0 = messages ! camera0_index; camera1 = messages ! camera1_index in
      and_then (message_header camera0) (\<lambda>header0. and_then (message_header camera1) (\<lambda>header1.
        Inr \<lparr>sp_selection_index = selection_index, sp_anchor_filtered_index = anchor_index,
          sp_anchor_camera_id = (if first then 0 else 1), sp_camera0_filtered_index = camera0_index,
          sp_camera1_filtered_index = camera1_index, sp_camera0_record_time_ns = fm_record_time_ns camera0,
          sp_camera1_record_time_ns = fm_record_time_ns camera1, sp_camera0_header_time_ns = header0,
          sp_camera1_header_time_ns = header1\<rparr>)))"

definition bump :: "(nat \<times> nat) list \<Rightarrow> nat \<Rightarrow> (nat \<times> nat) list" where
  "bump counts k = dict_put counts k ((case map_of counts k of None \<Rightarrow> 0 | Some n \<Rightarrow> n) + 1)"

definition native_step :: "filtered_message list \<Rightarrow> native_state \<Rightarrow> nat \<Rightarrow> native_state py" where
  "native_step messages st anchor_index =
     (let anchor = messages ! anchor_index in
      if anchor_index \<in> nt_used_index st then
        Inr (st\<lparr>nt_used_index := nt_used_index st - {anchor_index},
                nt_used_skips := nt_used_skips st + (if is_camera (fm_kind anchor) then 1 else 0)\<rparr>)
      else if \<not> is_camera (fm_kind anchor) then Inr st
      else and_then (native_candidate messages anchor_index anchor) (\<lambda>candidate.
        case candidate of
          None \<Rightarrow> Inr (st\<lparr>nt_no_pair_skips := nt_no_pair_skips st + 1\<rparr>)
        | Some candidate_index \<Rightarrow>
            and_then (native_pair messages (length (nt_pairs st)) anchor_index candidate_index) (\<lambda>pair.
              Inr (st\<lparr>nt_pairs := nt_pairs st @ [pair],
                      nt_candidate_use_counts := bump (nt_candidate_use_counts st) candidate_index,
                      nt_used_index := insert (sp_camera1_filtered_index pair)
                        (insert (sp_camera0_filtered_index pair) (nt_used_index st))\<rparr>))))"

definition native_start :: native_state where
  "native_start = \<lparr>nt_used_index = {}, nt_pairs = [], nt_candidate_use_counts = [], nt_used_skips = 0, nt_no_pair_skips = 0\<rparr>"

definition select_upstream_native :: "filtered_message list \<Rightarrow> native_selection py" where
  "select_upstream_native messages =
     and_then (validate_filtered_view messages) (\<lambda>_.
     and_then (foldM (native_step messages) native_start [0..<length messages]) (\<lambda>st.
       Inr \<lparr>ns_pairs = nt_pairs st, ns_used_index_outer_skip_count = nt_used_skips st,
            ns_no_pair_outer_skip_count = nt_no_pair_skips st,
            ns_candidate_use_counts = sort_key fst (nt_candidate_use_counts st),
            ns_residual_used_indices = sorted_list_of_set (nt_used_index st)\<rparr>))"

section \<open>Exact-header selection\<close>

record header_index =
  hi_by_header :: "(int \<times> nat) list"
  hi_previous :: "int option"
  hi_count :: nat

definition header_step :: "filtered_message list \<Rightarrow> message_kind \<Rightarrow> header_index \<Rightarrow> nat \<Rightarrow> header_index py" where
  "header_step messages kind st index =
     (let message = messages ! index in
      if fm_kind message \<noteq> kind then Inr st
      else and_then (message_header message) (\<lambda>header.
        if header = 0 then census_fail ''has a zero header timestamp''
        else if hi_previous st = Some header then census_fail ''has a duplicate header timestamp''
        else if hi_previous st \<noteq> None \<and> header < the (hi_previous st) then census_fail ''header order reverses''
        else if header \<in> fst ` set (hi_by_header st) then census_fail ''has a nonadjacent duplicate header''
        else Inr \<lparr>hi_by_header = dict_put (hi_by_header st) header index, hi_previous = Some header, hi_count = hi_count st + 1\<rparr>))"

definition camera_header_index :: "filtered_message list \<Rightarrow> message_kind \<Rightarrow> header_index py" where
  "camera_header_index messages kind =
     foldM (header_step messages kind) \<lparr>hi_by_header = [], hi_previous = None, hi_count = 0\<rparr> [0..<length messages]"

definition exact_pair :: "filtered_message list \<Rightarrow> (int \<times> nat) list \<Rightarrow> (int \<times> nat) list \<Rightarrow> int \<Rightarrow> stereo_pair" where
  "exact_pair messages camera0_by_header camera1_by_header header =
     (let camera0_index = the (map_of camera0_by_header header);
          camera1_index = the (map_of camera1_by_header header);
          anchor_index = min camera0_index camera1_index in
      \<lparr>sp_selection_index = 0, sp_anchor_filtered_index = anchor_index,
       sp_anchor_camera_id = (if fm_kind (messages ! anchor_index) = KIND_CAMERA0 then 0 else 1),
       sp_camera0_filtered_index = camera0_index, sp_camera1_filtered_index = camera1_index,
       sp_camera0_record_time_ns = fm_record_time_ns (messages ! camera0_index),
       sp_camera1_record_time_ns = fm_record_time_ns (messages ! camera1_index),
       sp_camera0_header_time_ns = header, sp_camera1_header_time_ns = header\<rparr>)"

definition normalize_step :: "stereo_pair list \<Rightarrow> stereo_pair \<Rightarrow> stereo_pair list py" where
  "normalize_step normalized pair =
     (if normalized \<noteq> [] \<and> camera_timestamp_ns pair \<le> camera_timestamp_ns (last normalized)
      then census_fail ''exact-header dispatch timestamp is not increasing''
      else Inr (normalized @ [pair\<lparr>sp_selection_index := length normalized\<rparr>]))"

definition select_exact_header :: "filtered_message list \<Rightarrow> exact_header_selection py" where
  "select_exact_header messages =
     and_then (validate_filtered_view messages) (\<lambda>_.
     and_then (camera_header_index messages KIND_CAMERA0) (\<lambda>index0.
     and_then (camera_header_index messages KIND_CAMERA1) (\<lambda>index1.
     let headers0 = fst ` set (hi_by_header index0); headers1 = fst ` set (hi_by_header index1);
         common_headers = sorted_list_of_set (headers0 \<inter> headers1) in
     if common_headers = [] then census_fail ''camera streams have no exact-header pair''
     else
     and_then (foldM normalize_step []
       (sort_key sp_anchor_filtered_index
         (map (exact_pair messages (hi_by_header index0) (hi_by_header index1)) common_headers))) (\<lambda>normalized.
       Inr \<lparr>es_pairs = normalized, es_camera0_count = hi_count index0, es_camera1_count = hi_count index1,
            es_camera0_unmatched_headers_ns = sorted_list_of_set (headers0 - headers1),
            es_camera1_unmatched_headers_ns = sorted_list_of_set (headers1 - headers0)\<rparr>))))"

section \<open>Summaries\<close>

definition census_median :: "int list \<Rightarrow> pyval py" where
  "census_median values =
     (let ordered = sort values; middle = length ordered div 2 in
      if ordered = [] then Inr PyNone
      else if odd (length ordered) then Inr (PyInt (ordered ! middle))
      else let numerator = ordered ! (middle - 1) + ordered ! middle in
           if numerator mod 2 = 0 then Inr (PyInt (numerator div 2))
           else and_then (int_to_float numerator) (\<lambda>x. Inr (PyFloat (f64_div x (float_of_token (lit ''2.0''))))))"

definition census_nearest_rank :: "int list \<Rightarrow> nat \<Rightarrow> nat \<Rightarrow> pyval py" where
  "census_nearest_rank values numerator denominator =
     (if values = [] then Inr PyNone
      else if numerator = 0 \<or> denominator < numerator
      then Inl (ValueError ''nearest-rank probability is outside (0, 1]'')
      else let ordered = sort values; rank = (length ordered * numerator + denominator - 1) div denominator
           in Inr (PyInt (ordered ! (rank - 1))))"

definition sorted_identities :: "(nat \<times> nat) set \<Rightarrow> (nat \<times> nat) list" where
  "sorted_identities ids =
     concat (map (\<lambda>a. map (\<lambda>b. (a, b)) (sorted_list_of_set (snd ` (Set.filter (\<lambda>p. fst p = a) ids)))) (sorted_list_of_set (fst ` ids)))"

definition pair_identity_list :: "(nat \<times> nat) set \<Rightarrow> pyval" where
  "pair_identity_list ids = PyList (map (\<lambda>p. PyList [PyInt (int (fst p)), PyInt (int (snd p))]) (sorted_identities ids))"

text \<open>\<^verbatim>\<open>struct.pack("<QQ", ...)\<close>: two little-endian u64 fields.\<close>

definition pack_pair :: "nat \<times> nat \<Rightarrow> bytes py" where
  "pack_pair p =
     (if fst p < 2 ^ 64 \<and> snd p < 2 ^ 64 then Inr (rev (to_bytes 8 (fst p)) @ rev (to_bytes 8 (snd p)))
      else Inl (OtherException ''struct.error''))"

definition pair_set_digest :: "(nat \<times> nat) set \<Rightarrow> pystr py" where
  "pair_set_digest ids =
     and_then (mapM pack_pair (sorted_identities ids)) (\<lambda>fields.
       Inr (hexdigest (sha256 (blit ''schurvio.icra27.kaist_pair_identity_set.v1'' @ [0] @ concat fields))))"

definition str_dict :: "(string \<times> pyval) list \<Rightarrow> pyval" where
  "str_dict kvs = PyDict (map (\<lambda>kv. (PyStr (lit (fst kv)), snd kv)) kvs)"

definition py_nat :: "nat \<Rightarrow> pyval" where
  "py_nat n = PyInt (int n)"

definition selection_summary :: "stereo_pair list \<Rightarrow> pyval py" where
  "selection_summary pairs =
     (if pairs = [] then
        Inr (str_dict [(''pair_count'', PyInt 0), (''first_camera0_header_stamp_ns'', PyNone),
          (''first_camera1_header_stamp_ns'', PyNone), (''last_camera0_header_stamp_ns'', PyNone),
          (''last_camera1_header_stamp_ns'', PyNone), (''record_skew_min_ns'', PyNone),
          (''record_skew_median_ns'', PyNone), (''record_skew_p95_ns'', PyNone), (''record_skew_max_ns'', PyNone)])
      else let skews = map record_skew_ns pairs in
        and_then (census_median skews) (\<lambda>median. and_then (census_nearest_rank skews 95 100) (\<lambda>p95.
        Inr (str_dict [(''pair_count'', py_nat (length pairs)),
          (''first_camera0_header_stamp_ns'', PyInt (sp_camera0_header_time_ns (hd pairs))),
          (''first_camera1_header_stamp_ns'', PyInt (sp_camera1_header_time_ns (hd pairs))),
          (''last_camera0_header_stamp_ns'', PyInt (sp_camera0_header_time_ns (last pairs))),
          (''last_camera1_header_stamp_ns'', PyInt (sp_camera1_header_time_ns (last pairs))),
          (''record_skew_min_ns'', PyInt (Min (set skews))), (''record_skew_median_ns'', median),
          (''record_skew_p95_ns'', p95), (''record_skew_max_ns'', PyInt (Max (set skews)))]))))"

section \<open>The census\<close>

definition pair_set_record :: "(nat \<times> nat) set \<Rightarrow> pyval py" where
  "pair_set_record ids =
     and_then (pair_set_digest ids) (\<lambda>digest.
       Inr (str_dict [(''count'', py_nat (card ids)), (''sha256'', PyStr digest), (''identities'', pair_identity_list ids)]))"

definition optional_int :: "int list \<Rightarrow> (int list \<Rightarrow> int) \<Rightarrow> pyval" where
  "optional_int xs f = (if xs = [] then PyNone else PyInt (f xs))"

definition required_fields :: "native_selection \<Rightarrow> exact_header_selection \<Rightarrow> pyval py" where
  "required_fields native exact =
     (let native_ids = pair_identity ` set (ns_pairs native); exact_ids = pair_identity ` set (es_pairs exact);
          native_skews = map record_skew_ns (ns_pairs native);
          native_stamps = map camera_timestamp_ns (ns_pairs native);
          reused = filter (\<lambda>kv. 1 < snd kv) (ns_candidate_use_counts native) in
      and_then (census_median native_skews) (\<lambda>median. and_then (census_nearest_rank native_skews 95 100) (\<lambda>p95.
      Inr (str_dict [(''source_camera0_count'', py_nat (es_camera0_count exact)),
        (''source_camera1_count'', py_nat (es_camera1_count exact)),
        (''exact_header_pair_count'', py_nat (length (es_pairs exact))),
        (''camera0_unmatched_count'', py_nat (length (es_camera0_unmatched_headers_ns exact))),
        (''camera1_unmatched_count'', py_nat (length (es_camera1_unmatched_headers_ns exact))),
        (''u0_native_pair_count'', py_nat (length (ns_pairs native))),
        (''u0_native_skipped_count'', py_nat (ns_no_pair_outer_skip_count native)),
        (''u0_native_non_dispatch_camera_visit_count'',
          PyInt (int (es_camera0_count exact + es_camera1_count exact) - int (length (ns_pairs native)))),
        (''u0_reused_candidate_count'', py_nat (length reused)),
        (''u0_record_skew_min_ns'', optional_int native_skews (\<lambda>xs. Min (set xs))),
        (''u0_record_skew_median_ns'', median), (''u0_record_skew_p95_ns'', p95),
        (''u0_record_skew_max_ns'', optional_int native_skews (\<lambda>xs. Max (set xs))),
        (''s1_exact_pair_count'', py_nat (length (es_pairs exact))),
        (''s1_queued_pair_count'', PyNone), (''s1_processed_pair_count'', PyNone),
        (''s1_frequency_thinned_pair_count'', PyNone), (''s1_pending_pair_count'', PyNone),
        (''pair_set_intersection_count'', py_nat (card (native_ids \<inter> exact_ids))),
        (''u0_only_pair_count'', py_nat (card (native_ids - exact_ids))),
        (''s1_only_pair_count'', py_nat (card (exact_ids - native_ids))),
        (''u0_first_selected_header_stamp_ns'', optional_int native_stamps hd),
        (''u0_last_selected_header_stamp_ns'', optional_int native_stamps last),
        (''s1_first_selected_header_stamp_ns'', PyInt (camera_timestamp_ns (hd (es_pairs exact)))),
        (''s1_last_selected_header_stamp_ns'', PyInt (camera_timestamp_ns (last (es_pairs exact))))]))))"

definition native_diagnostics :: "native_selection \<Rightarrow> exact_header_selection \<Rightarrow> pyval" where
  "native_diagnostics native exact =
     (let camera_message_count = es_camera0_count exact + es_camera1_count exact;
          participants = set (map sp_camera0_filtered_index (ns_pairs native)) \<union> set (map sp_camera1_filtered_index (ns_pairs native));
          reused = filter (\<lambda>kv. 1 < snd kv) (ns_candidate_use_counts native) in
      str_dict [(''used_index_outer_skip_count'', py_nat (ns_used_index_outer_skip_count native)),
        (''no_pair_outer_skip_count'', py_nat (ns_no_pair_outer_skip_count native)),
        (''non_dispatch_camera_outer_visit_count'', PyInt (int camera_message_count - int (length (ns_pairs native)))),
        (''unique_participating_camera_message_count'', py_nat (card participants)),
        (''unique_unpaired_camera_message_count'', PyInt (int camera_message_count - int (card participants))),
        (''reused_candidate_message_count'', py_nat (length reused)),
        (''candidate_reuse_occurrence_count'', py_nat (sum_list (map (\<lambda>kv. snd kv - 1) reused))),
        (''reused_candidate_filtered_indices'',
          PyList (map (\<lambda>kv. str_dict [(''filtered_index'', py_nat (fst kv)), (''use_count'', py_nat (snd kv))]) (sort_key fst reused))),
        (''accepted_record_skew_at_or_above_nominal_20ms_count'',
          py_nat (length (filter (\<lambda>p. NOMINAL_LIMIT_NS \<le> record_skew_ns p) (ns_pairs native)))),
        (''residual_used_index_count'', py_nat (length (ns_residual_used_indices native)))])"

definition census_policy :: pyval where
  "census_policy = str_dict
     [(''filtered_view'', PyStr (lit ''rosbag chronological view over the three bound topics'')),
      (''u0_native'', PyStr (lit (''pinned upstream first later opposite-camera record time; '' @
         ''accept when abs(binary64(toSec(candidate)-toSec(anchor))) < 0.02; '' @
         ''used_index checked and erased only at outer-loop entry''))),
      (''s1_exact_header'', PyStr (lit (''unique nonzero equal integer-nanosecond camera headers; '' @
         ''dispatch at earlier filtered index''))),
      (''pair_identity'', PyStr (lit (''[camera0_filtered_index,camera1_filtered_index] in the shared '' @ ''three-topic bag view''))),
      (''u0_native_skipped_count'', PyStr (lit (''camera outer-loop visits that reach upstream'' @ [CHR 0x27] @ ''s unable-to-find-pair '' @
         ''branch; used_index skips are counted separately''))),
      (''u0_record_skew'', PyStr (lit ''absolute integer record-time difference of native callbacks'')),
      (''median'', PyStr (lit ''middle value, or arithmetic mean of the two middle values'')),
      (''p95'', PyStr (lit ''nearest-rank ceil(0.95*N)'')),
      (''runtime_nulls'', PyStr (lit (''queue, processing, frequency-thinning, and pending counters are not '' @
         ''inferable from bag metadata and must be filled from attempt logs'')))]"

definition build_census :: "filtered_message list \<Rightarrow> pyval \<Rightarrow> pyval \<Rightarrow> pyval py" where
  "build_census messages bag_identity topic_identity =
     and_then (select_upstream_native messages) (\<lambda>native.
     and_then (select_exact_header messages) (\<lambda>exact.
     let native_ids = pair_identity ` set (ns_pairs native); exact_ids = pair_identity ` set (es_pairs exact) in
     if int (es_camera0_count exact + es_camera1_count exact) - int (length (ns_pairs native)) \<noteq>
        int (ns_used_index_outer_skip_count native + ns_no_pair_outer_skip_count native)
     then census_fail ''native outer-loop camera accounting is inconsistent''
     else
     and_then (required_fields native exact) (\<lambda>fields.
     and_then (selection_summary (ns_pairs native)) (\<lambda>native_summary.
     and_then (selection_summary (es_pairs exact)) (\<lambda>exact_summary.
     and_then (pair_set_record native_ids) (\<lambda>s1.
     and_then (pair_set_record exact_ids) (\<lambda>s2.
     and_then (pair_set_record (native_ids \<inter> exact_ids)) (\<lambda>s3.
     and_then (pair_set_record (native_ids - exact_ids)) (\<lambda>s4.
     and_then (pair_set_record (exact_ids - native_ids)) (\<lambda>s5.
       Inr (str_dict [(''schema'', PyStr CENSUS_SCHEMA), (''bag'', bag_identity), (''topics'', topic_identity),
         (''policy'', census_policy), (''census'', fields),
         (''selection_bounds'', str_dict [(''u0_native'', native_summary), (''s1_exact_header'', exact_summary)]),
         (''exact_header_unmatched'', str_dict
           [(''camera0_header_stamps_ns'', PyList (map PyInt (es_camera0_unmatched_headers_ns exact))),
            (''camera1_header_stamps_ns'', PyList (map PyInt (es_camera1_unmatched_headers_ns exact)))]),
         (''pair_sets'', str_dict [(''u0_native'', s1), (''s1_exact_header'', s2), (''intersection'', s3),
            (''u0_only'', s4), (''s1_only'', s5)]),
         (''u0_native_diagnostics'', native_diagnostics native exact)])))))))))))"

section \<open>Header stamps of serialized messages\<close>

text \<open>\<^verbatim>\<open>struct.unpack_from("<II", message, 4)\<close> reads two little-endian u32 fields.\<close>

definition parse_serialized_header_stamp_ns :: "bytes \<Rightarrow> int py" where
  "parse_serialized_header_stamp_ns serialized_message =
     (if length serialized_message < 12 then census_fail ''serialized camera message is shorter than Header stamp''
      else let seconds = int (from_bytes (rev (take 4 (drop 4 serialized_message))));
               nanoseconds = int (from_bytes (rev (take 4 (drop 8 serialized_message)))) in
        if NANOSECONDS_PER_SECOND \<le> nanoseconds then census_fail ''serialized camera header nanoseconds are invalid''
        else Inr (seconds * NANOSECONDS_PER_SECOND + nanoseconds))"

end
