(* ===== verification/Stereo_Census_Correct.thy ===== *)
theory Stereo_Census_Correct
  imports Stereo_Census
begin

text \<open>
  Correctness of the stereo-pairing census: the loop invariants of the native and exact-header
  selectors, the join the exact-header selector computes, the accounting both selectors share and the
  nearest-rank quantile.
\<close>

section \<open>Native selection\<close>

text \<open>The messages a bag reader can produce.\<close>

definition valid_message :: "filtered_message \<Rightarrow> bool" where
  "valid_message m \<longleftrightarrow> 0 \<le> fm_record_time_ns m \<and>
     (case fm_header_time_ns m of None \<Rightarrow> \<not> is_camera (fm_kind m) | Some h \<Rightarrow> is_camera (fm_kind m) \<and> 0 \<le> h)"

lemma make_filtered_message_valid: "make_filtered_message kind r h = Inr m \<Longrightarrow> valid_message m"
  by (auto simp: make_filtered_message_def valid_message_def split: option.splits if_splits)

text \<open>
  The invariant of the outer loop after the first \<open>k\<close> indices: indices still marked are cameras, every
  camera visited so far is an anchor, a marked skip or a skip without a pair, and every pair is what the
  upstream branch selects.
\<close>

definition native_pair_ok :: "filtered_message list \<Rightarrow> stereo_pair \<Rightarrow> bool" where
  "native_pair_ok messages p \<longleftrightarrow>
     (let a = sp_anchor_filtered_index p; i = sp_camera0_filtered_index p; j = sp_camera1_filtered_index p; c = (if a = i then j else i) in
      i < length messages \<and> j < length messages \<and> fm_kind (messages ! i) = KIND_CAMERA0 \<and> fm_kind (messages ! j) = KIND_CAMERA1 \<and>
      (a = i \<or> a = j) \<and> a < c \<and> list_all (\<lambda>l. fm_kind (messages ! l) \<noteq> fm_kind (messages ! c)) [a..<c] \<and>
      within_native_limit (messages ! a) (messages ! c) = Inr True)"

definition camera_count :: "filtered_message list \<Rightarrow> nat \<Rightarrow> nat" where
  "camera_count messages k = length (filter (\<lambda>i. is_camera (fm_kind (messages ! i))) [0..<k])"

definition native_inv :: "filtered_message list \<Rightarrow> nat \<Rightarrow> native_state \<Rightarrow> bool" where
  "native_inv messages k st \<longleftrightarrow>
     (\<forall>i \<in> nt_used_index st. i < length messages \<and> is_camera (fm_kind (messages ! i))) \<and> finite (nt_used_index st) \<and>
     length (nt_pairs st) + nt_used_skips st + nt_no_pair_skips st = camera_count messages k \<and>
     list_all (native_pair_ok messages) (nt_pairs st) \<and>
     list_all (\<lambda>p. sp_anchor_filtered_index p < k) (nt_pairs st) \<and>
     sorted_wrt (<) (map sp_anchor_filtered_index (nt_pairs st)) \<and>
     map sp_selection_index (nt_pairs st) = [0..<length (nt_pairs st)]"

lemma camera_count_Suc: "camera_count messages (Suc k) = camera_count messages k + (if is_camera (fm_kind (messages ! k)) then 1 else 0)"
  by (simp add: camera_count_def)

lemma native_candidate_Some:
  assumes "native_candidate messages k (messages ! k) = Inr (Some c)" "k < length messages" "is_camera (fm_kind (messages ! k))"
  shows "k < c \<and> c < length messages \<and> fm_kind (messages ! c) = opposite (fm_kind (messages ! k)) \<and>
    (\<forall>l. k \<le> l \<longrightarrow> l < c \<longrightarrow> fm_kind (messages ! l) \<noteq> fm_kind (messages ! c)) \<and>
    within_native_limit (messages ! k) (messages ! c) = Inr True"
proof -
  let ?P = "\<lambda>i. fm_kind (messages ! i) = opposite (fm_kind (messages ! k))"
  have f: "find ?P [k..<length messages] = Some c" and w: "within_native_limit (messages ! k) (messages ! c) = Inr True"
    using assms(1) by (auto simp: native_candidate_def split: option.splits if_splits)
  obtain n where n: "n < length messages - k" "?P (k + n)" "c = k + n" "\<forall>m < n. \<not> ?P (k + m)"
    using f by (auto simp: find_Some_iff)
  have "n \<noteq> 0"
  proof
    assume "n = 0"
    then show False using n(2) assms(3) by (auto simp: opposite_def is_camera_def split: if_splits)
  qed
  moreover have "fm_kind (messages ! l) \<noteq> fm_kind (messages ! c)" if "k \<le> l" "l < c" for l
    using n(4) [rule_format, of "l - k"] that n(2,3) by auto
  ultimately show ?thesis using n w by auto
qed

lemma native_pair_built:
  assumes "native_pair messages s k c = Inr p" "k < c" "c < length messages" "is_camera (fm_kind (messages ! k))"
    and "fm_kind (messages ! c) = opposite (fm_kind (messages ! k))"
    and "\<forall>l. k \<le> l \<longrightarrow> l < c \<longrightarrow> fm_kind (messages ! l) \<noteq> fm_kind (messages ! c)"
    and "within_native_limit (messages ! k) (messages ! c) = Inr True"
  shows "native_pair_ok messages p" "sp_anchor_filtered_index p = k" "sp_selection_index p = s"
    "{sp_camera0_filtered_index p, sp_camera1_filtered_index p} = {k, c}"
proof -
  show "sp_anchor_filtered_index p = k" "sp_selection_index p = s" "{sp_camera0_filtered_index p, sp_camera1_filtered_index p} = {k, c}"
    using assms(1) by (auto simp: native_pair_def Let_def)
  show "native_pair_ok messages p"
  proof (cases "fm_kind (messages ! k) = KIND_CAMERA0")
    case True
    then show ?thesis using assms by (auto simp: native_pair_def Let_def native_pair_ok_def opposite_def list_all_iff)
  next
    case False
    then have "fm_kind (messages ! k) = KIND_CAMERA1" using assms(4) by (simp add: is_camera_def)
    then show ?thesis using assms by (auto simp: native_pair_def Let_def native_pair_ok_def opposite_def list_all_iff)
  qed
qed

lemma native_step_inv:
  assumes "native_inv messages k st" "k < length messages" "native_step messages st k = Inr st'"
  shows "native_inv messages (Suc k) st'"
proof (cases "k \<in> nt_used_index st")
  case True
  then show ?thesis using assms
    by (auto simp: native_step_def native_inv_def camera_count_Suc Let_def list_all_iff dest: less_SucI)
next
  case False
  show ?thesis
  proof (cases "is_camera (fm_kind (messages ! k))")
    case nc: False
    then show ?thesis using assms False
      by (auto simp: native_step_def native_inv_def camera_count_Suc Let_def list_all_iff dest: less_SucI)
  next
    case cam: True
    then obtain cand where c: "native_candidate messages k (messages ! k) = Inr cand"
      using assms(3) False by (auto simp: native_step_def Let_def)
    show ?thesis
    proof (cases cand)
      case None
      then show ?thesis using assms False cam c
        by (auto simp: native_step_def native_inv_def camera_count_Suc Let_def list_all_iff dest: less_SucI)
    next
      case (Some i)
      note n = native_candidate_Some [OF c [unfolded Some] assms(2) cam]
      obtain p where p: "native_pair messages (length (nt_pairs st)) k i = Inr p"
        and st': "st' = st\<lparr>nt_pairs := nt_pairs st @ [p], nt_candidate_use_counts := bump (nt_candidate_use_counts st) i,
            nt_used_index := insert (sp_camera1_filtered_index p) (insert (sp_camera0_filtered_index p) (nt_used_index st))\<rparr>"
        using assms(3) False cam c Some by (auto simp: native_step_def Let_def)
      note b = native_pair_built [OF p, OF _ _ cam] n
      have ok: "native_pair_ok messages p" "sp_anchor_filtered_index p = k" "sp_selection_index p = length (nt_pairs st)"
        "{sp_camera0_filtered_index p, sp_camera1_filtered_index p} = {k, i}" using b by blast+
      have "is_camera (fm_kind (messages ! i))" using n by (auto simp: opposite_def is_camera_def split: if_splits)
      then have ki: "\<forall>j \<in> {sp_camera0_filtered_index p, sp_camera1_filtered_index p}. j < length messages \<and> is_camera (fm_kind (messages ! j))"
        unfolding ok(4) using n cam assms(2) by auto
      show ?thesis using assms(1) ok(1-3) ki cam
        by (auto simp: native_inv_def st' camera_count_Suc list_all_iff sorted_wrt_append dest: less_SucI)
    qed
  qed
qed

lemma foldM_upt_inv:
  assumes "\<And>k s s'. I k s \<Longrightarrow> k < n \<Longrightarrow> f s k = Inr s' \<Longrightarrow> I (Suc k) s'" "I 0 s0" "foldM f s0 [0..<n] = Inr s"
  shows "I n s"
proof -
  have "I m t" if "m \<le> n" "foldM f s0 [0..<m] = Inr t" for m t
    using that
  proof (induction m arbitrary: t)
    case (Suc m)
    then obtain u where "foldM f s0 [0..<m] = Inr u" "f u m = Inr t" by (auto simp: foldM_append)
    then show ?case using Suc assms(1) by simp
  qed (use assms(2) in simp)
  then show ?thesis using assms(3) by simp
qed

lemma native_start_inv: "native_inv messages 0 native_start"
  by (simp add: native_inv_def native_start_def camera_count_def)

lemma native_loop_inv:
  "foldM (native_step messages) native_start [0..<length messages] = Inr st \<Longrightarrow> native_inv messages (length messages) st"
  by (rule foldM_upt_inv [where I = "native_inv messages" and f = "native_step messages", OF native_step_inv native_start_inv])


definition two_cameras :: "filtered_message list" where
  "two_cameras = [\<lparr>fm_kind = KIND_CAMERA0, fm_record_time_ns = 0, fm_header_time_ns = Some 5\<rparr>,
     \<lparr>fm_kind = KIND_CAMERA1, fm_record_time_ns = 0, fm_header_time_ns = Some 5\<rparr>]"

lemma two_cameras_near: "\<exists>b. within_native_limit (two_cameras ! 0) (two_cameras ! Suc 0) = Inr b"
  by (simp add: within_native_limit_def cpp_ros_time_to_sec_def int_to_float_def f64_of_int_def round_magnitude_def two_cameras_def
      NANOSECONDS_PER_SECOND_def Let_def)

lemma two_cameras_native: "\<exists>sel. select_upstream_native two_cameras = Inr sel"
proof -
  obtain b where b: "within_native_limit (two_cameras ! 0) (two_cameras ! Suc 0) = Inr b" using two_cameras_near by blast
  have l: "[0..<length two_cameras] = [0, Suc 0]" by (simp add: two_cameras_def upt_rec)
  have f: "[Suc 0..<length two_cameras] = [Suc 0]" "find P [0, Suc 0] = (if P 0 then Some 0 else if P (Suc 0) then Some (Suc 0) else None)" for P
    by (simp_all add: two_cameras_def)
  have k: "fm_kind (two_cameras ! 0) = KIND_CAMERA0" "fm_kind (two_cameras ! Suc 0) = KIND_CAMERA1"
    "message_header (two_cameras ! 0) = Inr 5" "message_header (two_cameras ! Suc 0) = Inr 5"
    by (simp_all add: two_cameras_def message_header_def)
  have v: "validate_filtered_view two_cameras = Inr ()" by (simp add: validate_filtered_view_def two_cameras_def)
  have c0: "native_candidate two_cameras 0 (two_cameras ! 0) = Inr (if b then Some (Suc 0) else None)"
    using b by (simp add: native_candidate_def l f k opposite_def)
  have c1: "native_candidate two_cameras (Suc 0) (two_cameras ! Suc 0) = Inr None"
    by (simp add: native_candidate_def f k opposite_def)
  have "\<exists>st. foldM (native_step two_cameras) native_start [0, Suc 0] = Inr st"
    using c0 c1 by (cases b) (simp_all add: native_step_def native_start_def k is_camera_def native_pair_def Let_def)
  then show ?thesis using v l by (auto simp: select_upstream_native_def)
qed


section \<open>Exact-header selection\<close>

definition header_of :: "filtered_message list \<Rightarrow> nat \<Rightarrow> int" where
  "header_of messages i = (case fm_header_time_ns (messages ! i) of None \<Rightarrow> 0 | Some h \<Rightarrow> h)"

definition kind_rows :: "filtered_message list \<Rightarrow> message_kind \<Rightarrow> nat \<Rightarrow> nat list" where
  "kind_rows messages kind k = filter (\<lambda>i. fm_kind (messages ! i) = kind) [0..<k]"

definition header_inv :: "filtered_message list \<Rightarrow> message_kind \<Rightarrow> nat \<Rightarrow> header_index \<Rightarrow> bool" where
  "header_inv messages kind k st \<longleftrightarrow>
     hi_by_header st = map (\<lambda>i. (header_of messages i, i)) (kind_rows messages kind k) \<and>
     hi_count st = length (kind_rows messages kind k) \<and>
     sorted_wrt (<) (map fst (hi_by_header st)) \<and>
     hi_previous st = (if hi_by_header st = [] then None else Some (fst (last (hi_by_header st))))"

lemma sorted_wrt_last: "sorted_wrt (<) (xs :: int list) \<Longrightarrow> x \<in> set xs \<Longrightarrow> x \<le> last xs"
  by (induction xs) (auto, metis last_in_set less_imp_le)

lemma header_step_inv:
  assumes "header_inv messages kind k st" "header_step messages kind st k = Inr st'"
  shows "header_inv messages kind (Suc k) st'"
proof (cases "fm_kind (messages ! k) = kind")
  case False
  then have "kind_rows messages kind (Suc k) = kind_rows messages kind k" "st' = st"
    using assms(2) by (simp_all add: header_step_def kind_rows_def)
  then show ?thesis using assms(1) unfolding header_inv_def by metis
next
  case True
  obtain h where h: "message_header (messages ! k) = Inr h" "hi_previous st \<noteq> Some h"
      "\<not> (hi_previous st \<noteq> None \<and> h < the (hi_previous st))" "h \<notin> fst ` set (hi_by_header st)"
      "st' = \<lparr>hi_by_header = dict_put (hi_by_header st) h k, hi_previous = Some h, hi_count = hi_count st + 1\<rparr>"
    using assms(2) True by (auto simp: header_step_def)
  have hh: "header_of messages k = h" using h(1) by (auto simp: header_of_def message_header_def split: option.splits)
  have d: "dict_put (hi_by_header st) h k = hi_by_header st @ [(h, k)]" using h(4) by (rule dict_put_fresh)
  have lt: "\<forall>x \<in> set (map fst (hi_by_header st)). x < h"
  proof
    fix x assume x: "x \<in> set (map fst (hi_by_header st))"
    then have ne: "hi_by_header st \<noteq> []" by auto
    then have "last (map fst (hi_by_header st)) < h" using h(2,3) assms(1) by (auto simp: header_inv_def last_map)
    then show "x < h" using sorted_wrt_last [of "map fst (hi_by_header st)" x] x assms(1) by (auto simp: header_inv_def)
  qed
  have b: "hi_by_header st' = hi_by_header st @ [(h, k)]" using h(5) d by simp
  have r: "kind_rows messages kind (Suc k) = kind_rows messages kind k @ [k]" using True by (simp add: kind_rows_def)
  have o: "hi_by_header st = map (\<lambda>i. (header_of messages i, i)) (kind_rows messages kind k)"
    "hi_count st = length (kind_rows messages kind k)" "sorted_wrt (<) (map fst (hi_by_header st))"
    using assms(1) unfolding header_inv_def by blast+
  have "hi_by_header st' = map (\<lambda>i. (header_of messages i, i)) (kind_rows messages kind (Suc k))"
    unfolding b r map_append using o(1) hh by simp
  moreover have "hi_count st' = length (kind_rows messages kind (Suc k))" using o(2) h(5) r by simp
  moreover have "sorted_wrt (<) (map fst (hi_by_header st'))" unfolding b using o(3) lt by (simp add: sorted_wrt_append)
  moreover have "hi_previous st' = (if hi_by_header st' = [] then None else Some (fst (last (hi_by_header st'))))"
    unfolding b using h(5) by simp
  ultimately show ?thesis unfolding header_inv_def by blast
qed

lemma header_start_inv: "header_inv messages kind 0 \<lparr>hi_by_header = [], hi_previous = None, hi_count = 0\<rparr>"
  by (simp add: header_inv_def kind_rows_def)

lemma camera_header_index_inv: "camera_header_index messages kind = Inr st \<Longrightarrow> header_inv messages kind (length messages) st"
  unfolding camera_header_index_def
  by (rule foldM_upt_inv [where I = "header_inv messages kind" and f = "header_step messages kind", OF header_step_inv header_start_inv])

lemma camera_counts:
  assumes "camera_header_index messages KIND_CAMERA0 = Inr a" "camera_header_index messages KIND_CAMERA1 = Inr b"
  shows "hi_count a + hi_count b = camera_count messages (length messages)"
proof -
  have "length (kind_rows messages KIND_CAMERA0 k) + length (kind_rows messages KIND_CAMERA1 k) = camera_count messages k" for k
    by (induction k) (auto simp: kind_rows_def camera_count_def is_camera_def)
  then show ?thesis using camera_header_index_inv [OF assms(1)] camera_header_index_inv [OF assms(2)] by (simp add: header_inv_def)
qed

lemma select_exact_iff:
  "select_exact_header messages = Inr sel \<longleftrightarrow>
   validate_filtered_view messages = Inr () \<and>
   (\<exists>a b normalized. camera_header_index messages KIND_CAMERA0 = Inr a \<and> camera_header_index messages KIND_CAMERA1 = Inr b \<and>
     (let h0 = fst ` set (hi_by_header a); h1 = fst ` set (hi_by_header b); common = sorted_list_of_set (h0 \<inter> h1) in
      common \<noteq> [] \<and>
      foldM normalize_step [] (sort_key sp_anchor_filtered_index (map (exact_pair messages (hi_by_header a) (hi_by_header b)) common)) = Inr normalized \<and>
      sel = \<lparr>es_pairs = normalized, es_camera0_count = hi_count a, es_camera1_count = hi_count b,
            es_camera0_unmatched_headers_ns = sorted_list_of_set (h0 - h1),
            es_camera1_unmatched_headers_ns = sorted_list_of_set (h1 - h0)\<rparr>))"
  unfolding select_exact_header_def Let_def and_then_eq_Inr if_census_fail_eq by (auto simp del: sorted_list_of_set_eq_Nil_iff)

text \<open>
  C32. The accounting check of the census never fires: whenever both selections return, the camera
  messages counted by the exact-header selector are the native pairs plus the two kinds of skips.
\<close>

theorem census_accounting_consistent:
  assumes "select_upstream_native messages = Inr native" "select_exact_header messages = Inr exact"
  shows "int (es_camera0_count exact + es_camera1_count exact) - int (length (ns_pairs native)) =
    int (ns_used_index_outer_skip_count native + ns_no_pair_outer_skip_count native)"
proof -
  obtain a b where "camera_header_index messages KIND_CAMERA0 = Inr a" "camera_header_index messages KIND_CAMERA1 = Inr b"
    "es_camera0_count exact = hi_count a" "es_camera1_count exact = hi_count b"
    using assms(2) unfolding select_exact_iff Let_def by (metis exact_header_selection.select_convs(2,3))
  then have c: "es_camera0_count exact + es_camera1_count exact = camera_count messages (length messages)" using camera_counts by simp
  obtain st where "foldM (native_step messages) native_start [0..<length messages] = Inr st"
    "length (ns_pairs native) = length (nt_pairs st)" "ns_used_index_outer_skip_count native = nt_used_skips st"
    "ns_no_pair_outer_skip_count native = nt_no_pair_skips st"
    using assms(1) by (auto simp: select_upstream_native_def)
  then have n: "length (ns_pairs native) + ns_used_index_outer_skip_count native + ns_no_pair_outer_skip_count native = camera_count messages (length messages)"
    using native_loop_inv by (auto simp: native_inv_def)
  then show ?thesis using c by linarith
qed

lemma sorted_wrt_snoc: "sorted_wrt (<) (xs :: int list) \<Longrightarrow> (xs \<noteq> [] \<Longrightarrow> last xs < x) \<Longrightarrow> sorted_wrt (<) (xs @ [x])"
  by (auto simp: sorted_wrt_append) (metis empty_iff empty_set order_le_less_trans sorted_wrt_last)

lemma normalize_keeps:
  "foldM normalize_step [] ps = Inr ns \<Longrightarrow>
   map pair_identity ns = map pair_identity ps \<and> map camera_timestamp_ns ns = map camera_timestamp_ns ps \<and>
   map sp_selection_index ns = [0..<length ns] \<and> sorted_wrt (<) (map camera_timestamp_ns ns)"
proof (induction ps arbitrary: ns rule: rev_induct)
  case (snoc p ps)
  then obtain ms where m: "foldM normalize_step [] ps = Inr ms" "normalize_step ms p = Inr ns" by (auto simp: foldM_append)
  then have ns: "ns = ms @ [p\<lparr>sp_selection_index := length ms\<rparr>]" by (simp add: normalize_step_def)
  have t: "camera_timestamp_ns (p\<lparr>sp_selection_index := length ms\<rparr>) = camera_timestamp_ns p" by (simp add: camera_timestamp_ns_def)
  have "sorted_wrt (<) (map camera_timestamp_ns ms @ [camera_timestamp_ns p])"
  proof (rule sorted_wrt_snoc)
    show "sorted_wrt (<) (map camera_timestamp_ns ms)" using snoc.IH [OF m(1)] by blast
    show "last (map camera_timestamp_ns ms) < camera_timestamp_ns p" if "map camera_timestamp_ns ms \<noteq> []"
      using that m(2) by (auto simp: normalize_step_def last_map split: if_splits)
  qed
  then show ?case using snoc.IH [OF m(1)] unfolding ns by (simp add: t) (simp add: pair_identity_def)
qed simp

lemma header_index_lookup:
  assumes "header_inv messages kind k st"
  shows "map_of (hi_by_header st) h = Some i \<longleftrightarrow> i \<in> set (kind_rows messages kind k) \<and> header_of messages i = h"
    and "h \<in> fst ` set (hi_by_header st) \<longleftrightarrow> (\<exists>i. map_of (hi_by_header st) h = Some i)"
proof -
  have "distinct (map fst (hi_by_header st))" using assms unfolding header_inv_def by (metis strict_sorted_iff)
  then have "map_of (hi_by_header st) h = Some i \<longleftrightarrow> (h, i) \<in> set (hi_by_header st)" by simp
  also have "\<dots> \<longleftrightarrow> i \<in> set (kind_rows messages kind k) \<and> header_of messages i = h" using assms unfolding header_inv_def by auto
  finally show "map_of (hi_by_header st) h = Some i \<longleftrightarrow> i \<in> set (kind_rows messages kind k) \<and> header_of messages i = h" .
  show "h \<in> fst ` set (hi_by_header st) \<longleftrightarrow> (\<exists>i. map_of (hi_by_header st) h = Some i)"
    by (metis map_of_eq_None_iff not_None_eq)
qed

lemma kind_rows_set: "i \<in> set (kind_rows messages kind k) \<longleftrightarrow> i < k \<and> fm_kind (messages ! i) = kind"
  by (auto simp: kind_rows_def)

definition header_matches :: "filtered_message list \<Rightarrow> (nat \<times> nat) set" where
  "header_matches messages = {(i, j) \<in> {0..<length messages} \<times> {0..<length messages}.
     fm_kind (messages ! i) = KIND_CAMERA0 \<and> fm_kind (messages ! j) = KIND_CAMERA1 \<and> header_of messages i = header_of messages j}"

lemma exact_identities:
  assumes "header_inv messages KIND_CAMERA0 (length messages) a" "header_inv messages KIND_CAMERA1 (length messages) b"
  shows "pair_identity ` exact_pair messages (hi_by_header a) (hi_by_header b) ` (fst ` set (hi_by_header a) \<inter> fst ` set (hi_by_header b)) =
    header_matches messages" (is "?f ` ?g ` ?H = _")
proof -
  note l0 = header_index_lookup [OF assms(1)] and l1 = header_index_lookup [OF assms(2)]
  have id: "?f (?g h) = (the (map_of (hi_by_header a) h), the (map_of (hi_by_header b) h))" for h
    by (simp add: pair_identity_def exact_pair_def Let_def)
  have "(i, j) \<in> ?f ` ?g ` ?H \<longleftrightarrow> (\<exists>h. map_of (hi_by_header a) h = Some i \<and> map_of (hi_by_header b) h = Some j)" for i j
  proof
    assume "(i, j) \<in> ?f ` ?g ` ?H"
    then obtain h where "h \<in> ?H" "(i, j) = ?f (?g h)" by blast
    then show "\<exists>h. map_of (hi_by_header a) h = Some i \<and> map_of (hi_by_header b) h = Some j"
      unfolding id Int_iff l0(2) l1(2) by auto
  next
    assume "\<exists>h. map_of (hi_by_header a) h = Some i \<and> map_of (hi_by_header b) h = Some j"
    then obtain h where h: "map_of (hi_by_header a) h = Some i" "map_of (hi_by_header b) h = Some j" by blast
    then have "h \<in> ?H" "?f (?g h) = (i, j)" using id l0(2) l1(2) by auto
    then show "(i, j) \<in> ?f ` ?g ` ?H" by (metis image_eqI)
  qed
  also have "\<dots> i j \<longleftrightarrow> (i, j) \<in> header_matches messages" for i j
    unfolding l0(1) l1(1) kind_rows_set header_matches_def by auto
  finally have e: "(i, j) \<in> ?f ` ?g ` ?H \<longleftrightarrow> (i, j) \<in> header_matches messages" for i j .
  show ?thesis by (rule set_eqI) (metis e surj_pair)
qed

text \<open>
  C21. The exact-header selection is the header join of the two camera streams: its identities are
  exactly the camera-0/camera-1 index pairs with equal headers, each once, dispatched with contiguous
  selection indices and strictly increasing timestamps.
\<close>

theorem exact_header_join:
  assumes "select_exact_header messages = Inr sel"
  shows "set (map pair_identity (es_pairs sel)) = header_matches messages \<and>
    distinct (map pair_identity (es_pairs sel)) \<and>
    sorted_wrt (<) (map camera_timestamp_ns (es_pairs sel)) \<and>
    map sp_selection_index (es_pairs sel) = [0..<length (es_pairs sel)]"
proof -
  obtain a b where a: "camera_header_index messages KIND_CAMERA0 = Inr a" and b: "camera_header_index messages KIND_CAMERA1 = Inr b"
    and f: "foldM normalize_step [] (sort_key sp_anchor_filtered_index (map (exact_pair messages (hi_by_header a) (hi_by_header b))
        (sorted_list_of_set (fst ` set (hi_by_header a) \<inter> fst ` set (hi_by_header b))))) = Inr (es_pairs sel)"
    using assms unfolding select_exact_iff Let_def by (metis exact_header_selection.select_convs(1))
  let ?ps = "sort_key sp_anchor_filtered_index (map (exact_pair messages (hi_by_header a) (hi_by_header b))
        (sorted_list_of_set (fst ` set (hi_by_header a) \<inter> fst ` set (hi_by_header b))))"
  note n1 = normalize_keeps [OF f, THEN conjunct1] and n2 = normalize_keeps [OF f, THEN conjunct2, THEN conjunct1]
  have n3: "map sp_selection_index (es_pairs sel) = [0..<length (es_pairs sel)]" and
    st: "sorted_wrt (<) (map camera_timestamp_ns (es_pairs sel))" using normalize_keeps [OF f] by blast+
  note ia = camera_header_index_inv [OF a] and ib = camera_header_index_inv [OF b]
  have s: "set (map pair_identity (es_pairs sel)) = header_matches messages"
    unfolding n1 using exact_identities [OF ia ib] by simp
  have "map camera_timestamp_ns ?ps = map (header_of messages) (map fst (map pair_identity ?ps))"
  proof -
    have "header_of messages (the (map_of (hi_by_header a) h)) = h" if "h \<in> fst ` set (hi_by_header a)" for h
      using that header_index_lookup [OF ia] by (metis option.sel)
    then show ?thesis by (auto simp: exact_pair_def pair_identity_def camera_timestamp_ns_def Let_def image_iff)
  qed
  moreover have "distinct (map camera_timestamp_ns ?ps)" unfolding n2 [symmetric] using st by (simp add: strict_sorted_iff)
  ultimately have "distinct (map pair_identity (es_pairs sel))" unfolding n1 by (metis distinct_map)
  then show ?thesis using s st n3 by blast
qed

lemma two_cameras_exact: "\<exists>sel. select_exact_header two_cameras = Inr sel"
proof -
  have l: "[0..<length two_cameras] = [0, Suc 0]" by (simp add: two_cameras_def upt_rec)
  have k: "fm_kind (two_cameras ! 0) = KIND_CAMERA0" "fm_kind (two_cameras ! Suc 0) = KIND_CAMERA1"
    "message_header (two_cameras ! 0) = Inr 5" "message_header (two_cameras ! Suc 0) = Inr 5"
    by (simp_all add: two_cameras_def message_header_def)
  have v: "validate_filtered_view two_cameras = Inr ()" by (simp add: validate_filtered_view_def two_cameras_def)
  show ?thesis
    by (simp add: select_exact_header_def v camera_header_index_def l header_step_def k Let_def normalize_step_def)
qed

theorem exact_header_join_witness:
  "\<exists>sel. select_exact_header two_cameras = Inr sel \<and> set (map pair_identity (es_pairs sel)) = header_matches two_cameras"
  using two_cameras_exact exact_header_join by blast

theorem census_accounting_consistent_witness:
  "\<exists>native exact. select_upstream_native two_cameras = Inr native \<and> select_exact_header two_cameras = Inr exact \<and>
    int (es_camera0_count exact + es_camera1_count exact) - int (length (ns_pairs native)) =
    int (ns_used_index_outer_skip_count native + ns_no_pair_outer_skip_count native)"
  using two_cameras_native two_cameras_exact census_accounting_consistent by blast

lemma length_filter_sort: "length (filter P (sort xs)) = length (filter P xs)"
  by (metis mset_filter mset_sort size_mset)

lemma sorted_count_le: "sorted xs \<Longrightarrow> k < length xs \<Longrightarrow> Suc k \<le> length (filter (\<lambda>x. x \<le> xs ! k) (xs :: int list))"
proof -
  assume s: "sorted xs" "k < length xs"
  have "filter (\<lambda>x. x \<le> xs ! k) (take (Suc k) xs) = take (Suc k) xs"
    using s by (fastforce simp: filter_id_conv in_set_conv_nth intro: sorted_nth_mono)
  then have "length (filter (\<lambda>x. x \<le> xs ! k) (take (Suc k) xs @ drop (Suc k) xs)) \<ge> Suc k" unfolding filter_append using s(2) by simp
  then show ?thesis by simp
qed

lemma sorted_count_less: "sorted xs \<Longrightarrow> k < length xs \<Longrightarrow> length (filter (\<lambda>x. x < xs ! k) (xs :: int list)) \<le> k"
proof -
  assume s: "sorted xs" "k < length xs"
  have "filter (\<lambda>x. x < xs ! k) (drop k xs) = []"
    using s by (fastforce simp: filter_empty_conv in_set_conv_nth not_less intro: sorted_nth_mono)
  then have "length (filter (\<lambda>x. x < xs ! k) (take k xs @ drop k xs)) \<le> k" unfolding filter_append by (simp add: le_trans [OF length_filter_le])
  then show ?thesis by simp
qed

lemma ceil_rank:
  assumes "0 < (n :: nat)" "0 < a" "a \<le> d"
  shows "\<exists>k. (n * a + d - 1) div d = Suc k \<and> k < n \<and> d * k < n * a \<and> n * a \<le> d * Suc k"
proof -
  let ?r = "(n * a + d - 1) div d"
  have d: "0 < d" using assms by simp
  have na: "0 < n * a" using assms by simp
  have m: "d * ?r + (n * a + d - 1) mod d = n * a + d - 1" by (rule mult_div_mod_eq)
  have md: "(n * a + d - 1) mod d < d" using d by simp
  have lo: "n * a \<le> d * ?r" using m md na by linarith
  have "?r \<noteq> 0" using lo na by (metis mult_0_right not_le)
  then obtain k where k: "?r = Suc k" by (metis not0_implies_Suc)
  have hi: "d * k < n * a" using m unfolding k mult_Suc_right using na by linarith
  have "d * k < d * n" using less_le_trans [OF hi mult_le_mono [OF order_refl assms(3)]] by (simp only: mult.commute)
  then have "k < n" by simp
  then show ?thesis using k hi lo by metis
qed

text \<open>
  The nearest-rank quantile is the smallest observation with at least \<open>p \<cdot> N\<close> observations at or
  below it: it is one of the values, strictly fewer than \<open>p \<cdot> N\<close> values lie below it, and it returns for
  every nonempty input and every probability in (0, 1].
\<close>

theorem nearest_rank_exact:
  assumes "values \<noteq> []" "0 < numerator" "numerator \<le> denominator"
  shows "\<exists>v. census_nearest_rank values numerator denominator = Inr (PyInt v) \<and> v \<in> set values \<and>
    length values * numerator \<le> denominator * length (filter (\<lambda>x. x \<le> v) values) \<and>
    denominator * length (filter (\<lambda>x. x < v) values) < length values * numerator"
proof -
  obtain k where k: "(length values * numerator + denominator - 1) div denominator = Suc k" "k < length values"
    "denominator * k < length values * numerator" "length values * numerator \<le> denominator * Suc k"
    using ceil_rank [of "length values" numerator denominator] assms by auto
  let ?v = "sort values ! k"
  have "census_nearest_rank values numerator denominator = Inr (PyInt ?v)" using assms k(1) by (simp add: census_nearest_rank_def Let_def)
  moreover have "?v \<in> set values" using k(2) by (metis length_sort nth_mem set_sort)
  moreover have "Suc k \<le> length (filter (\<lambda>x. x \<le> ?v) values)"
    using sorted_count_le [of "sort values" k] k(2) by (simp add: length_filter_sort)
  then have "length values * numerator \<le> denominator * length (filter (\<lambda>x. x \<le> ?v) values)"
    using k(4) by (meson le_trans mult_le_mono2)
  moreover have "length (filter (\<lambda>x. x < ?v) values) \<le> k"
    using sorted_count_less [of "sort values" k] k(2) by (simp add: length_filter_sort)
  then have "denominator * length (filter (\<lambda>x. x < ?v) values) < length values * numerator"
    using k(3) by (meson le_less_trans mult_le_mono2)
  ultimately show ?thesis by blast
qed

theorem nearest_rank_exact_witness:
  "\<exists>v. census_nearest_rank [3, 1, 2] 95 100 = Inr (PyInt v) \<and> v \<in> set [3, 1, 2]"
  using nearest_rank_exact [of "[3, 1, 2]" 95 100] by auto

section \<open>Header stamps\<close>

text \<open>
  A serialized header whose sequence number, seconds and nanoseconds are little-endian u32 fields
  reads back as the stamp it was written from, whatever follows it; a nanosecond field of a whole
  second or more is refused.
\<close>

theorem header_stamp_round_trip:
  assumes "length seqno = 4" "s < 2 ^ 32" "n < 2 ^ 32"
  shows "parse_serialized_header_stamp_ns (seqno @ rev (to_bytes 4 s) @ rev (to_bytes 4 n) @ rest) =
    (if n < 1000000000 then Inr (int s * 1000000000 + int n) else census_fail ''serialized camera header nanoseconds are invalid'')"
  using assms by (simp add: parse_serialized_header_stamp_ns_def Let_def from_to_bytes NANOSECONDS_PER_SECOND_def)

theorem header_stamp_round_trip_witness:
  "parse_serialized_header_stamp_ns ([0, 0, 0, 0] @ rev (to_bytes 4 7) @ rev (to_bytes 4 5) @ [1]) = Inr 7000000005"
  using header_stamp_round_trip [of "[0, 0, 0, 0]" 7 5 "[1]"] by simp

end
