(* ===== verification/Capsule.thy ===== *)
theory Capsule
  imports F64_Codec Schema_Json
begin

text \<open>
  The capsule format of \<^verbatim>\<open>src/scripts/cp2/cp2_capsule.py\<close>: its scalar and path validators, inventory
  entries, the canonical inventory, and the in-memory archive encoder and parser. Arguments
  annotated as sequences of records are lists of records; staging, sandboxes and file-backed archives are descriptor operations and not modelled.
\<close>

section \<open>Constants\<close>

definition CAPSULE_MAGIC :: bytes where "CAPSULE_MAGIC = blit ''SchurVIO-CP2-capsule-v1'' @ [0]"
definition INVENTORY_MAGIC :: bytes where "INVENTORY_MAGIC = blit ''SchurVIO-CP2-capsule-inventory-v1'' @ [0]"
definition NATIVE_EDGE_MAGIC :: bytes where "NATIVE_EDGE_MAGIC = blit ''SchurVIO-CP2-native-closure-edges-v1'' @ [0]"
definition NATIVE_CONSUMER_MAGIC :: bytes where "NATIVE_CONSUMER_MAGIC = blit ''SchurVIO-CP2-native-consumers-v1'' @ [0]"

definition MAX_MEMBER_COUNT :: nat where "MAX_MEMBER_COUNT = 16384"
definition MAX_PATH_BYTES :: nat where "MAX_PATH_BYTES = 1024"
definition MAX_PATH_COMPONENT_BYTES :: nat where "MAX_PATH_COMPONENT_BYTES = 128"
definition MAX_ROLE_BYTES :: nat where "MAX_ROLE_BYTES = 64"
definition MAX_MEMBER_BYTES :: nat where "MAX_MEMBER_BYTES = 536870912"
definition MAX_ARCHIVE_BYTES :: nat where "MAX_ARCHIVE_BYTES = 1073741824"
definition MAX_IN_MEMORY_ARCHIVE_BYTES :: nat where "MAX_IN_MEMORY_ARCHIVE_BYTES = 67108864"
definition MAX_COMMAND_OUTPUT_BYTES :: int where "MAX_COMMAND_OUTPUT_BYTES = 16777216"
definition MAX_SOURCE_LOCK_BYTES :: nat where "MAX_SOURCE_LOCK_BYTES = 16777216"

definition FILE_MODES :: "int list" where "FILE_MODES = [292, 365]"

definition FILE_ROLES :: "pystr list" where
  "FILE_ROLES = map lit [''capsule_launcher'', ''capsule_sandbox'', ''python_interpreter'', ''python_stdlib'',
     ''python_extension'', ''numpy_extension'', ''numpy_module'', ''numpy_distribution_metadata'', ''evaluator_module'',
     ''python_dependency'', ''direct_math_module'', ''direct_math_known_answer'', ''native_loader'', ''native_library'',
     ''preflight_fixture'', ''preflight_known_answer'', ''license_notice'', ''source_lock'']"

definition EXECUTABLE_ROLES :: "pystr list" where
  "EXECUTABLE_ROLES = map lit [''capsule_launcher'', ''capsule_sandbox'', ''python_interpreter'', ''native_loader'']"

section \<open>Scalars and paths\<close>

definition capsule_fail :: "string \<Rightarrow> 'a py" where
  "capsule_fail message = Inl (CapsuleError message)"

lemma capsule_fail_not_Inr [simp]: "capsule_fail m \<noteq> Inr x" "Inr x \<noteq> capsule_fail m"
  by (simp_all add: capsule_fail_def)

lemma if_capsule_fail_eq [simp]: "(if b then capsule_fail m else r) = Inr y \<longleftrightarrow> \<not> b \<and> r = Inr y"
  by simp

lemma case_capsule_fail [simp]:
  "(case v of PyDict d \<Rightarrow> f d | _ \<Rightarrow> capsule_fail m) = Inr y \<longleftrightarrow> (\<exists>d. v = PyDict d \<and> f d = Inr y)"
  "(case v of PyList xs \<Rightarrow> g xs | _ \<Rightarrow> capsule_fail m) = Inr y \<longleftrightarrow> (\<exists>xs. v = PyList xs \<and> g xs = Inr y)"
  "(case v of PyStr s \<Rightarrow> h s | _ \<Rightarrow> capsule_fail m) = Inr y \<longleftrightarrow> (\<exists>s. v = PyStr s \<and> h s = Inr y)"
  "(case v of PyBytes b \<Rightarrow> k b | _ \<Rightarrow> capsule_fail m) = Inr y \<longleftrightarrow> (\<exists>b. v = PyBytes b \<and> k b = Inr y)"
  by (cases v; auto)+

text \<open>\<^verbatim>\<open>except schema.SchemaError as exc: raise CapsuleError(str(exc))\<close>.\<close>

definition as_capsule_error :: "'a py \<Rightarrow> 'a py" where
  "as_capsule_error m = (case m of Inl (SchemaError message) \<Rightarrow> capsule_fail message | _ \<Rightarrow> m)"

lemma as_capsule_error_Inr [simp]: "as_capsule_error m = Inr x \<longleftrightarrow> m = Inr x"
  by (auto simp: as_capsule_error_def split: sum.splits exn.splits)

definition capsule_exact_keys :: "pyval \<Rightarrow> string list \<Rightarrow> (pyval \<times> pyval) list py" where
  "capsule_exact_keys value keys =
     (case value of
        PyDict d \<Rightarrow> and_then (as_capsule_error (exact_object_keys value (map (\<lambda>k. PyStr (lit k)) keys))) (\<lambda>_. Inr d)
      | _ \<Rightarrow> capsule_fail ''must be a plain JSON object'')"

definition capsule_u64 :: "pyval \<Rightarrow> int py" where
  "capsule_u64 value =
     (case value of
        PyInt n \<Rightarrow> if n < 0 \<or> 2 ^ 64 - 1 < n then capsule_fail ''must be an unsigned 64-bit integer'' else Inr n
      | _ \<Rightarrow> capsule_fail ''must be an unsigned 64-bit integer'')"

definition capsule_positive_u64 :: "pyval \<Rightarrow> int \<Rightarrow> int py" where
  "capsule_positive_u64 value maximum =
     and_then (capsule_u64 value) (\<lambda>result.
       if result = 0 \<or> maximum < result then capsule_fail ''is outside its frozen positive bound'' else Inr result)"

definition capsule_sha :: "pyval \<Rightarrow> pystr py" where
  "capsule_sha value = as_capsule_error (validate_sha256 value)"

text \<open>\<^verbatim>\<open>[A-Za-z0-9][A-Za-z0-9._+-]{0,127}\<close>\<close>

definition SAFE_ID :: "pystr \<Rightarrow> bool" where
  "SAFE_ID s =
     (case s of [] \<Rightarrow> False
      | c # r \<Rightarrow> is_alnum c \<and> length r \<le> 127 \<and> list_all (\<lambda>c. is_alnum c \<or> c \<in> set (lit ''._+-'')) r)"

definition capsule_safe_id :: "pyval \<Rightarrow> pystr py" where
  "capsule_safe_id value =
     (case value of
        PyStr s \<Rightarrow> if SAFE_ID s then Inr s else capsule_fail ''is not a safe identifier''
      | _ \<Rightarrow> capsule_fail ''is not a safe identifier'')"

text \<open>\<^verbatim>\<open>re.sub(r"[-_.]+", "-", name).lower()\<close> on an ASCII identifier.\<close>

fun collapse_separators :: "pystr \<Rightarrow> pystr" where
  "collapse_separators [] = []"
| "collapse_separators (c # s) =
     (if c \<in> set (lit ''-_.'')
      then (case s of d # _ \<Rightarrow> if d \<in> set (lit ''-_.'') then collapse_separators s else 45 # collapse_separators s | [] \<Rightarrow> [45])
      else c # collapse_separators s)"

definition ascii_lower :: "pystr \<Rightarrow> pystr" where
  "ascii_lower s = map (\<lambda>c. if 65 \<le> c \<and> c \<le> 90 then c + 32 else c) s"

definition distribution_name :: "pyval \<Rightarrow> pystr py" where
  "distribution_name value =
     and_then (capsule_safe_id value) (\<lambda>name.
       if name \<noteq> ascii_lower (collapse_separators name)
       then capsule_fail ''distribution name must use its lowercase normalized form'' else Inr name)"

definition safe_text :: "pyval \<Rightarrow> nat \<Rightarrow> pystr py" where
  "safe_text value maximum =
     (case value of
        PyStr s \<Rightarrow>
          if s = [] \<or> 0 \<in> set s then capsule_fail ''must be nonempty NUL-free text''
          else (case utf8_encode s of
                  None \<Rightarrow> capsule_fail ''is not strict UTF-8''
                | Some encoded \<Rightarrow>
                    if maximum < length encoded \<or> list_ex (\<lambda>b. b < 32 \<or> b = 127) encoded
                    then capsule_fail ''contains control bytes or exceeds its byte bound'' else Inr s)
      | _ \<Rightarrow> capsule_fail ''must be nonempty NUL-free text'')"

text \<open>\<^verbatim>\<open>[A-Za-z0-9_+.-]{1,128}\<close>\<close>

definition PATH_COMPONENT :: "pystr \<Rightarrow> bool" where
  "PATH_COMPONENT s \<longleftrightarrow> s \<noteq> [] \<and> length s \<le> 128 \<and> list_all (\<lambda>c. is_alnum c \<or> c \<in> set (lit ''_+.-'')) s"

definition is_ascii_text :: "pystr \<Rightarrow> bool" where
  "is_ascii_text s \<longleftrightarrow> list_all (\<lambda>c. c < 128) s"

definition capsule_relpath :: "pyval \<Rightarrow> pystr py" where
  "capsule_relpath value =
     (case value of
        PyStr s \<Rightarrow>
          if s = [] \<or> 92 \<in> set s \<or> 0 \<in> set s then capsule_fail ''must be a portable relative path''
          else if \<not> is_ascii_text s then capsule_fail ''must contain portable ASCII only''
          else if MAX_PATH_BYTES < length s \<or> hd s = 47 \<or> last s = 47 then capsule_fail ''is outside the portable path bounds''
          else if list_ex (\<lambda>part. part = [] \<or> part = lit ''.'' \<or> part = lit ''..'' \<or> MAX_PATH_COMPONENT_BYTES < length part \<or> \<not> PATH_COMPONENT part)
                 (split_on 47 s)
          then capsule_fail ''has an unsafe path component'' else Inr s
      | _ \<Rightarrow> capsule_fail ''must be a portable relative path'')"

fun template_roots :: "pystr \<Rightarrow> string list \<Rightarrow> pystr py" where
  "template_roots text [] = capsule_fail ''does not use an approved root token''"
| "template_roots text (token_name # roots) =
     (let token = lit ''${'' @ lit token_name @ lit ''}/'' in
      if take (length token) text = token
      then and_then (capsule_relpath (PyStr (drop (length token) text))) (\<lambda>_. Inr text)
      else template_roots text roots)"

definition template_path :: "pyval \<Rightarrow> string list \<Rightarrow> pystr py" where
  "template_path value roots = and_then (safe_text value 2048) (\<lambda>text. template_roots text roots)"

text \<open>\<^verbatim>\<open>_lp\<close> is \<open>length_prefix\<close> of the prelude. \<^verbatim>\<open>_bounded_tuple\<close> on a sequence of records.\<close>

definition bounded_tuple :: "'a list \<Rightarrow> nat \<Rightarrow> 'a list py" where
  "bounded_tuple values maximum = (if maximum < length values then capsule_fail ''exceeds its count bound'' else Inr values)"

definition checked_add :: "nat \<Rightarrow> nat \<Rightarrow> nat \<Rightarrow> nat py" where
  "checked_add current increment maximum =
     (if int maximum - int increment < int current then capsule_fail ''exceeds its frozen bound'' else Inr (current + increment))"

section \<open>Entries, members and the inventory\<close>

record capsule_entry =
  ce_path :: pystr
  ce_role :: pystr
  ce_mode :: int
  ce_size :: int
  ce_sha256 :: pystr

definition make_capsule_entry :: "pyval \<Rightarrow> pyval \<Rightarrow> pyval \<Rightarrow> pyval \<Rightarrow> pyval \<Rightarrow> capsule_entry py" where
  "make_capsule_entry path_arg role_arg mode_arg size_arg sha256_arg =
     and_then (capsule_relpath path_arg) (\<lambda>path.
     case role_arg of
       PyStr role \<Rightarrow>
         if role \<notin> set FILE_ROLES then capsule_fail ''capsule member role is not allowlisted''
         else
         and_then (capsule_u64 mode_arg) (\<lambda>mode.
         if mode \<notin> set FILE_MODES then capsule_fail ''capsule member mode must be 0444 or 0555''
         else if (role \<in> set EXECUTABLE_ROLES) \<noteq> (mode = 365)
         then capsule_fail ''only sandbox/launcher/interpreter/native-loader roles may and must be executable''
         else
         and_then (capsule_u64 size_arg) (\<lambda>size_value.
         if int MAX_MEMBER_BYTES < size_value then capsule_fail ''capsule member exceeds its size bound''
         else
         and_then (capsule_sha sha256_arg) (\<lambda>digest.
           Inr \<lparr>ce_path = path, ce_role = role, ce_mode = mode, ce_size = size_value, ce_sha256 = digest\<rparr>)))
     | _ \<Rightarrow> capsule_fail ''capsule member role is not allowlisted'')"

text \<open>What every constructed \<^verbatim>\<open>CapsuleEntry\<close> satisfies; the type check of the code stands for it.\<close>

definition entry_ok :: "capsule_entry \<Rightarrow> bool" where
  "entry_ok e \<longleftrightarrow>
     make_capsule_entry (PyStr (ce_path e)) (PyStr (ce_role e)) (PyInt (ce_mode e)) (PyInt (ce_size e)) (PyStr (ce_sha256 e)) = Inr e"

record capsule_member =
  cm_entry :: capsule_entry
  cm_payload :: bytes

definition make_member :: "capsule_entry \<Rightarrow> pyval \<Rightarrow> capsule_member py" where
  "make_member entry payload_arg =
     (case payload_arg of
        PyBytes payload \<Rightarrow>
          if \<not> entry_ok entry then capsule_fail ''capsule member must pair an entry with immutable bytes''
          else if int (length payload) \<noteq> ce_size entry then capsule_fail ''capsule member payload size differs from inventory''
          else if hexdigest (sha256 payload) \<noteq> ce_sha256 entry then capsule_fail ''capsule member payload digest differs from inventory''
          else Inr \<lparr>cm_entry = entry, cm_payload = payload\<rparr>
      | _ \<Rightarrow> capsule_fail ''capsule member must pair an entry with immutable bytes'')"

definition member_ok :: "capsule_member \<Rightarrow> bool" where
  "member_ok m \<longleftrightarrow> make_member (cm_entry m) (PyBytes (cm_payload m)) = Inr m"

text \<open>The proper ancestors of a relative path, as \<^verbatim>\<open>PurePosixPath.parents\<close> without the final dot.\<close>

definition path_ancestors :: "pystr \<Rightarrow> pystr list" where
  "path_ancestors path = (let parts = split_on 47 path in map (\<lambda>k. join_with 47 (take k parts)) (rev [1..<length parts]))"

definition entry_step :: "pystr set \<Rightarrow> nat \<Rightarrow> capsule_entry \<Rightarrow> nat py" where
  "entry_step path_set acc entry =
     and_then (checked_add acc (nat (ce_size entry)) MAX_ARCHIVE_BYTES) (\<lambda>acc'.
       if list_ex (\<lambda>parent. parent \<in> path_set) (path_ancestors (ce_path entry))
       then capsule_fail ''capsule inventory has a file/descendant collision'' else Inr acc')"

definition validated_entries :: "capsule_entry list \<Rightarrow> capsule_entry list py" where
  "validated_entries entries =
     and_then (bounded_tuple entries MAX_MEMBER_COUNT) (\<lambda>result.
     if result = [] \<or> list_ex (\<lambda>e. \<not> entry_ok e) result then capsule_fail ''capsule inventory must contain at least one CapsuleEntry''
     else
     let paths = map (\<lambda>e. ascii_bytes (ce_path e)) result in
     if paths \<noteq> sort paths \<or> \<not> distinct paths then capsule_fail ''capsule inventory paths must be unique and bytewise sorted''
     else and_then (foldM (entry_step (ce_path ` set result)) 0 result) (\<lambda>_. Inr result))"

definition entry_header :: "capsule_entry \<Rightarrow> bytes" where
  "entry_header e =
     length_prefix (ascii_bytes (ce_path e)) @ length_prefix (ascii_bytes (ce_role e)) @ to_bytes 8 (nat (ce_mode e)) @
     to_bytes 8 (nat (ce_size e)) @ bytes_fromhex (ce_sha256 e)"

definition canonical_inventory_bytes :: "capsule_entry list \<Rightarrow> bytes py" where
  "canonical_inventory_bytes entries =
     and_then (validated_entries entries) (\<lambda>validated.
       Inr (INVENTORY_MAGIC @ to_bytes 8 (length validated) @ concat (map entry_header validated)))"

definition inventory_sha256 :: "capsule_entry list \<Rightarrow> pystr py" where
  "inventory_sha256 entries = and_then (canonical_inventory_bytes entries) (\<lambda>b. Inr (hexdigest (sha256 b)))"

definition make_capsule_member :: "pyval \<Rightarrow> pyval \<Rightarrow> pyval \<Rightarrow> pyval \<Rightarrow> capsule_member py" where
  "make_capsule_member path role mode payload_arg =
     (case payload_arg of
        PyBytes payload \<Rightarrow>
          and_then (make_capsule_entry path role mode (PyInt (int (length payload))) (PyStr (hexdigest (sha256 payload)))) (\<lambda>entry.
            make_member entry (PyBytes payload))
      | _ \<Rightarrow> capsule_fail ''capsule payload must be immutable bytes'')"

section \<open>The archive\<close>

definition frame_step :: "bytes \<Rightarrow> capsule_member \<Rightarrow> bytes py" where
  "frame_step output member =
     (let entry = cm_entry member;
          frame_size = 8 + length (ce_path entry) + 8 + length (ce_role entry) + 8 + 8 + 32 + nat (ce_size entry) in
      if int MAX_IN_MEMORY_ARCHIVE_BYTES - int frame_size < int (length output)
      then capsule_fail ''in-memory capsule encoding exceeds its resource bound''
      else Inr (output @ entry_header entry @ cm_payload member))"

definition encode_capsule :: "capsule_member list \<Rightarrow> bytes py" where
  "encode_capsule members =
     and_then (bounded_tuple members MAX_MEMBER_COUNT) (\<lambda>values.
     if values = [] \<or> list_ex (\<lambda>m. \<not> member_ok m) values then capsule_fail ''capsule members must be a nonempty CapsuleMember sequence''
     else
     and_then (validated_entries (map cm_entry values)) (\<lambda>_.
       foldM frame_step (CAPSULE_MAGIC @ to_bytes 8 (length values)) values))"

text \<open>\<^verbatim>\<open>_BytesReader\<close>: the state is the unread rest of the payload.\<close>

definition reader_read :: "nat \<Rightarrow> bytes \<Rightarrow> (bytes \<times> bytes) py" where
  "reader_read n rest =
     (if length rest < n then capsule_fail ''capsule is truncated'' else Inr (take n rest, drop n rest))"

definition reader_u64 :: "bytes \<Rightarrow> (nat \<times> bytes) py" where
  "reader_u64 rest = and_then (reader_read 8 rest) (\<lambda>(b, rest'). Inr (from_bytes b, rest'))"

definition reader_lp :: "nat \<Rightarrow> bytes \<Rightarrow> (bytes \<times> bytes) py" where
  "reader_lp maximum rest =
     and_then (reader_u64 rest) (\<lambda>(n, rest').
       if n = 0 \<or> maximum < n then capsule_fail ''length is outside its frozen bound'' else reader_read n rest')"

definition decode_ascii :: "bytes \<Rightarrow> pystr py" where
  "decode_ascii b = (if list_all (\<lambda>x. unat x < 128) b then Inr (map unat b) else capsule_fail ''capsule path/role is not ASCII'')"

definition parse_member :: "nat \<Rightarrow> bytes \<Rightarrow> (capsule_entry \<times> bytes \<times> nat \<times> bytes) py" where
  "parse_member acc rest =
     and_then (reader_lp MAX_PATH_BYTES rest) (\<lambda>(path_bytes, r1).
     and_then (reader_lp MAX_ROLE_BYTES r1) (\<lambda>(role_bytes, r2).
     and_then (decode_ascii path_bytes) (\<lambda>path.
     and_then (decode_ascii role_bytes) (\<lambda>role.
     and_then (reader_u64 r2) (\<lambda>(mode, r3).
     and_then (reader_u64 r3) (\<lambda>(size_value, r4).
     and_then (reader_read 32 r4) (\<lambda>(digest_bytes, r5).
     if MAX_MEMBER_BYTES < size_value then capsule_fail ''capsule member exceeds its size bound''
     else
     and_then (checked_add acc size_value MAX_ARCHIVE_BYTES) (\<lambda>acc'.
     and_then (reader_read size_value r5) (\<lambda>(payload, r6).
     and_then (make_capsule_entry (PyStr path) (PyStr role) (PyInt (int mode)) (PyInt (int size_value)) (PyStr (hexdigest digest_bytes))) (\<lambda>entry.
     if hexdigest (sha256 payload) \<noteq> hexdigest digest_bytes then capsule_fail ''capsule member payload SHA-256 differs''
     else Inr (entry, payload, acc', r6)))))))))))"

fun parse_members :: "nat \<Rightarrow> nat \<Rightarrow> bytes \<Rightarrow> (capsule_entry list \<times> bytes list \<times> bytes) py" where
  "parse_members 0 acc rest = Inr ([], [], rest)"
| "parse_members (Suc k) acc rest =
     and_then (parse_member acc rest) (\<lambda>(entry, payload, acc', rest').
     and_then (parse_members k acc' rest') (\<lambda>(entries, payloads, rest'').
       Inr (entry # entries, payload # payloads, rest'')))"

record parsed_capsule =
  pc_entries :: "capsule_entry list"
  pc_payloads :: "bytes list"
  pc_inventory_bytes :: bytes
  pc_inventory_sha256 :: pystr

definition parse_capsule_bytes :: "pyval \<Rightarrow> pyval \<Rightarrow> parsed_capsule py" where
  "parse_capsule_bytes document expected_inventory_sha256 =
     (case document of
        PyBytes raw \<Rightarrow>
          if MAX_IN_MEMORY_ARCHIVE_BYTES < length raw then capsule_fail ''in-memory capsule document exceeds its resource bound''
          else
          and_then (reader_read (length CAPSULE_MAGIC) raw) (\<lambda>(magic, r0).
          if magic \<noteq> CAPSULE_MAGIC then capsule_fail ''capsule magic differs''
          else
          and_then (reader_u64 r0) (\<lambda>(n, r1).
          if n = 0 \<or> MAX_MEMBER_COUNT < n then capsule_fail ''capsule member count is outside its frozen bound''
          else
          and_then (parse_members n 0 r1) (\<lambda>(entries, payloads, rest).
          if rest \<noteq> [] then capsule_fail ''capsule has trailing bytes''
          else
          and_then (validated_entries entries) (\<lambda>validated.
          and_then (canonical_inventory_bytes validated) (\<lambda>canonical.
          let digest = hexdigest (sha256 canonical);
              result = \<lparr>pc_entries = validated, pc_payloads = payloads, pc_inventory_bytes = canonical, pc_inventory_sha256 = digest\<rparr> in
          if expected_inventory_sha256 = PyNone then Inr result
          else and_then (capsule_sha expected_inventory_sha256) (\<lambda>expected.
            if digest \<noteq> expected then capsule_fail ''capsule inventory SHA-256 differs from the expected value'' else Inr result))))))
      | _ \<Rightarrow> capsule_fail ''capsule document must be immutable bytes'')"

end
