(* ===== verification/Capsule_Identity.thy ===== *)
theory Capsule_Identity
  imports Capsule Sequence_Codec
begin

text \<open>
  The records around a capsule in \<^verbatim>\<open>src/scripts/cp2/cp2_capsule.py\<close>: environment and native-closure
  digests' preimages, ordered text arrays, \<^verbatim>\<open>$ORIGIN\<close> search paths, command expectations, the embedded
  source lock and the external expected-identity record. \<open>depth\<close> is the interpreter's remaining
  recursion limit for the calls into \<^verbatim>\<open>json\<close> and the recursive visits.
\<close>

section \<open>Preimages\<close>

text \<open>\<^verbatim>\<open>[A-Z][A-Z0-9_]{0,63}\<close>\<close>

definition ENVIRONMENT_NAME :: "pystr \<Rightarrow> bool" where
  "ENVIRONMENT_NAME s =
     (case s of [] \<Rightarrow> False
      | c # r \<Rightarrow> 65 \<le> c \<and> c \<le> 90 \<and> length r \<le> 63 \<and> list_all (\<lambda>c. 65 \<le> c \<and> c \<le> 90 \<or> is_digit c \<or> c = 95) r)"

definition environment_row :: "pystr \<times> pyval \<Rightarrow> bytes py" where
  "environment_row item =
     (if \<not> ENVIRONMENT_NAME (fst item) then capsule_fail ''capsule environment name is invalid''
      else
      and_then (safe_text (snd item) 2048) (\<lambda>text.
      and_then (ascii_encode (fst item)) (\<lambda>name.
      and_then (ascii_encode text) (\<lambda>encoded. Inr (length_prefix name @ length_prefix encoded)))))"

definition environment_bytes :: "(pystr \<times> pyval) list \<Rightarrow> bytes py" where
  "environment_bytes environment =
     (let names = map fst environment in
      if names \<noteq> sort names \<or> \<not> distinct names then capsule_fail ''capsule environment names must be unique and ASCII-sorted''
      else
      and_then (mapM environment_row environment) (\<lambda>rows.
        Inr (COMMAND_ENVIRONMENT_DOMAIN @ to_bytes 8 (length environment) @ concat rows)))"

definition environment_sha256 :: "(pystr \<times> pyval) list \<Rightarrow> pystr py" where
  "environment_sha256 environment =
     and_then (bounded_tuple environment 128) (\<lambda>values. and_then (environment_bytes values) (\<lambda>b. Inr (hexdigest (sha256 b))))"

record native_edge =
  ne_consumer :: pystr
  ne_needed :: pystr
  ne_provider :: pystr

record native_consumer =
  nc_path :: pystr
  nc_elf_type :: pystr
  nc_linkage :: pystr
  nc_interpreter :: pystr
  nc_rpath :: "pystr list"
  nc_runpath :: "pystr list"
  nc_soname :: pystr
  nc_needed :: "pystr list"

definition lp_ascii :: "pystr \<Rightarrow> bytes py" where
  "lp_ascii s = and_then (ascii_encode s) (\<lambda>b. Inr (length_prefix b))"

definition lp_ascii_list :: "pystr list \<Rightarrow> bytes py" where
  "lp_ascii_list values = and_then (mapM lp_ascii values) (\<lambda>bs. Inr (to_bytes 8 (length values) @ concat bs))"

definition native_edges_bytes :: "native_edge list \<Rightarrow> bytes py" where
  "native_edges_bytes edges =
     and_then (mapM (\<lambda>edge. mapM lp_ascii [ne_consumer edge, ne_needed edge, ne_provider edge]) edges) (\<lambda>rows.
       Inr (NATIVE_EDGE_MAGIC @ to_bytes 8 (length edges) @ concat (map concat rows)))"

definition native_consumer_row :: "native_consumer \<Rightarrow> bytes py" where
  "native_consumer_row c =
     and_then (mapM lp_ascii [nc_path c, nc_elf_type c, nc_linkage c, nc_interpreter c, nc_soname c]) (\<lambda>scalars.
     and_then (mapM lp_ascii_list [nc_rpath c, nc_runpath c, nc_needed c]) (\<lambda>lists. Inr (concat scalars @ concat lists)))"

definition native_consumers_bytes :: "native_consumer list \<Rightarrow> bytes py" where
  "native_consumers_bytes consumers =
     and_then (mapM native_consumer_row consumers) (\<lambda>rows.
       Inr (NATIVE_CONSUMER_MAGIC @ to_bytes 8 (length consumers) @ concat rows))"

section \<open>Arrays of paths and texts\<close>

definition capsule_field :: "(pyval \<times> pyval) list \<Rightarrow> string \<Rightarrow> pyval" where
  "capsule_field d key = (case map_of d (PyStr (lit key)) of None \<Rightarrow> PyNone | Some v \<Rightarrow> v)"

definition str_is :: "pyval \<Rightarrow> string \<Rightarrow> bool" where
  "str_is v s \<longleftrightarrow> v = PyStr (lit s)"

definition entry_from_record :: "pyval \<Rightarrow> capsule_entry py" where
  "entry_from_record value =
     and_then (capsule_exact_keys value [''path'', ''role'', ''mode'', ''size'', ''sha256'']) (\<lambda>d.
       make_capsule_entry (capsule_field d ''path'') (capsule_field d ''role'') (capsule_field d ''mode'') (capsule_field d ''size'') (capsule_field d ''sha256''))"

definition sorted_paths :: "pyval \<Rightarrow> pystr list py" where
  "sorted_paths value =
     (case value of
        PyList items \<Rightarrow>
          and_then (mapM capsule_relpath items) (\<lambda>paths.
            if paths \<noteq> sort paths \<or> \<not> distinct paths then capsule_fail ''paths must be unique and sorted'' else Inr paths)
      | _ \<Rightarrow> capsule_fail ''must be an array'')"

definition ascii_safe_text :: "nat \<Rightarrow> pyval \<Rightarrow> pystr py" where
  "ascii_safe_text maximum item =
     and_then (safe_text item maximum) (\<lambda>text. if \<not> is_ascii_text text then capsule_fail ''values must be ASCII'' else Inr text)"

definition ordered_ascii_texts :: "pyval \<Rightarrow> nat \<Rightarrow> pystr list py" where
  "ordered_ascii_texts value maximum_count =
     (case value of
        PyList items \<Rightarrow>
          if maximum_count < length items then capsule_fail ''must be a bounded array''
          else and_then (mapM (ascii_safe_text 1024) items) (\<lambda>texts.
            if \<not> distinct texts then capsule_fail ''values must be unique'' else Inr texts)
      | _ \<Rightarrow> capsule_fail ''must be a bounded array'')"

section \<open>\<^verbatim>\<open>$ORIGIN\<close> search paths\<close>

text \<open>\<^verbatim>\<open>PurePosixPath(p).parent.parts\<close> and \<^verbatim>\<open>str(PurePosixPath(p).parent)\<close> of a portable relative path.\<close>

definition parent_parts :: "pystr \<Rightarrow> pystr list" where
  "parent_parts path = butlast (split_on 47 path)"

definition path_text :: "pystr list \<Rightarrow> pystr" where
  "path_text parts = (if parts = [] then lit ''.'' else join_with 47 parts)"

definition parent_text :: "pystr \<Rightarrow> pystr" where
  "parent_text path = path_text (parent_parts path)"

definition resolve_component :: "pystr list \<Rightarrow> pystr \<Rightarrow> pystr list py" where
  "resolve_component resolved component =
     (if component = [] \<or> component = lit ''.'' then Inr resolved
      else if component = lit ''..'' then (if resolved = [] then capsule_fail ''escapes the capsule root'' else Inr (butlast resolved))
      else if PATH_COMPONENT component then Inr (resolved @ [component])
      else capsule_fail ''contains an unsafe component'')"

definition origin_suffix :: "pystr \<Rightarrow> pystr list py" where
  "origin_suffix text =
     (if text = lit ''$ORIGIN'' then Inr []
      else if take 8 text = lit ''$ORIGIN/'' then Inr (split_on 47 (drop 8 text))
      else capsule_fail ''entries must be $ORIGIN-relative'')"

definition search_step :: "pystr \<Rightarrow> pystr set \<Rightarrow> pystr list \<times> pystr list \<Rightarrow> pyval \<Rightarrow> (pystr list \<times> pystr list) py" where
  "search_step consumer_path allowed_directories st item =
     and_then (ascii_safe_text 1024 item) (\<lambda>text.
     and_then (origin_suffix text) (\<lambda>suffix.
     and_then (foldM resolve_component (parent_parts consumer_path) suffix) (\<lambda>resolved.
     if path_text resolved \<notin> allowed_directories then capsule_fail ''does not resolve to an inventoried native directory''
     else if text \<in> set (fst st) then capsule_fail ''contains a duplicate search entry''
     else Inr (fst st @ [text], snd st @ [path_text resolved]))))"

definition loader_search_paths :: "pyval \<Rightarrow> pystr \<Rightarrow> pystr set \<Rightarrow> (pystr list \<times> pystr list) py" where
  "loader_search_paths value consumer_path allowed_directories =
     (case value of
        PyList items \<Rightarrow>
          if 64 < length items then capsule_fail ''must be a bounded ordered array''
          else foldM (search_step consumer_path allowed_directories) ([], []) items
      | _ \<Rightarrow> capsule_fail ''must be a bounded ordered array'')"

section \<open>Commands\<close>

record command_expectation =
  cx_argv :: "pystr list"
  cx_cwd :: pystr
  cx_timeout_seconds :: int
  cx_stdin_policy :: pystr
  cx_exit_code :: int
  cx_stdout_size :: int
  cx_stdout_sha256 :: pystr
  cx_stderr_size :: int
  cx_stderr_sha256 :: pystr

definition safe_argv :: "pyval \<Rightarrow> pystr list py" where
  "safe_argv value = (case value of PyList items \<Rightarrow> mapM (\<lambda>item. safe_text item 2048) items | _ \<Rightarrow> capsule_fail ''argv must be a nonempty array'')"

definition capsule_command :: "pyval \<Rightarrow> pystr \<Rightarrow> command_expectation py" where
  "capsule_command value launcher_token =
     and_then (capsule_exact_keys value [''argv'', ''cwd'', ''timeout_seconds'', ''stdin_policy'', ''exit_code'',
       ''stdout_size'', ''stdout_sha256'', ''stderr_size'', ''stderr_sha256'']) (\<lambda>d.
     if capsule_field d ''argv'' = PyList [] then capsule_fail ''argv must be a nonempty array''
     else
     and_then (safe_argv (capsule_field d ''argv'')) (\<lambda>argv.
     if hd argv \<noteq> launcher_token then capsule_fail ''does not invoke the bound launcher token''
     else
     and_then (template_path (capsule_field d ''cwd'') [''PRIVATE_ROOT'']) (\<lambda>cwd.
     and_then (capsule_positive_u64 (capsule_field d ''timeout_seconds'') 600) (\<lambda>timeout.
     if \<not> str_is (capsule_field d ''stdin_policy'') ''devnull'' then capsule_fail ''stdin policy must be devnull''
     else if capsule_field d ''exit_code'' \<noteq> PyInt 0 then capsule_fail ''exit code must be integer zero''
     else
     and_then (capsule_u64 (capsule_field d ''stdout_size'')) (\<lambda>stdout_size.
     and_then (capsule_u64 (capsule_field d ''stderr_size'')) (\<lambda>stderr_size.
     if MAX_COMMAND_OUTPUT_BYTES < stdout_size \<or> MAX_COMMAND_OUTPUT_BYTES < stderr_size
     then capsule_fail ''output size exceeds the command resource bound''
     else
     and_then (capsule_sha (capsule_field d ''stdout_sha256'')) (\<lambda>stdout_digest.
     and_then (capsule_sha (capsule_field d ''stderr_sha256'')) (\<lambda>stderr_digest.
       Inr \<lparr>cx_argv = argv, cx_cwd = cwd, cx_timeout_seconds = timeout, cx_stdin_policy = lit ''devnull'', cx_exit_code = 0,
         cx_stdout_size = stdout_size, cx_stdout_sha256 = stdout_digest, cx_stderr_size = stderr_size,
         cx_stderr_sha256 = stderr_digest\<rparr>))))))))"

definition canonical_profile_document :: "nat \<Rightarrow> pyval \<Rightarrow> bytes py" where
  "canonical_profile_document depth rec =
     (case and_then (json_dumps True depth rec) (\<lambda>text. ascii_encode (text @ [10])) of
        Inl (TypeError _) \<Rightarrow> capsule_fail ''capsule profile is not canonical JSON data''
      | Inl (ValueError _) \<Rightarrow> capsule_fail ''capsule profile is not canonical JSON data''
      | m \<Rightarrow> m)"

section \<open>The embedded source lock\<close>

definition SOURCE_LOCK_FORBIDDEN_OUTPUT_KEYS :: "pystr list" where
  "SOURCE_LOCK_FORBIDDEN_OUTPUT_KEYS = map lit [''archive_sha256'', ''archive_size'', ''archive_size_bytes'',
     ''capsule_archive_identity'', ''capsule_output_identity'', ''capsule_profile_identity'', ''expected_capsule_identity'',
     ''expected_capsule_outputs'', ''profile_sha256'', ''profile_size'', ''profile_size_bytes'']"

definition has_identity_member :: "pyval \<Rightarrow> bool" where
  "has_identity_member child =
     (case child of
        PyDict c \<Rightarrow> list_ex (\<lambda>k. PyStr (lit k) \<in> set (map fst c)) [''sha256'', ''size'', ''size_bytes'', ''profile_sha256'']
      | _ \<Rightarrow> False)"

definition lock_key :: "pyval \<Rightarrow> pyval \<Rightarrow> unit py" where
  "lock_key key_arg child =
     (case key_arg of
        PyStr key \<Rightarrow>
          if key \<in> set SOURCE_LOCK_FORBIDDEN_OUTPUT_KEYS
          then capsule_fail ''embedded capsule source lock contains a self-referential archive/profile identity field''
          else if (key = lit ''archive'' \<or> key = lit ''profile'') \<and> has_identity_member child
          then capsule_fail ''embedded capsule source lock contains a self-referential archive/profile identity object''
          else Inr ()
      | _ \<Rightarrow> capsule_fail ''embedded capsule source lock has a nontext key'')"

fun visit_lock :: "pyval \<Rightarrow> unit py"
  and visit_lock_list :: "pyval list \<Rightarrow> unit py"
  and visit_lock_items :: "(pyval \<times> pyval) list \<Rightarrow> unit py" where
  "visit_lock (PyDict d) = visit_lock_items d"
| "visit_lock (PyList xs) = visit_lock_list xs"
| "visit_lock _ = Inr ()"
| "visit_lock_list [] = Inr ()"
| "visit_lock_list (x # xs) = and_then (visit_lock x) (\<lambda>_. visit_lock_list xs)"
| "visit_lock_items [] = Inr ()"
| "visit_lock_items ((k, child) # rest) =
     and_then (lock_key k child) (\<lambda>_. and_then (visit_lock child) (\<lambda>_. visit_lock_items rest))"

definition validate_embedded_source_lock :: "nat \<Rightarrow> pyval \<Rightarrow> pyval py" where
  "validate_embedded_source_lock depth payload_arg =
     (case payload_arg of
        PyBytes payload \<Rightarrow>
          if payload = [] \<or> MAX_SOURCE_LOCK_BYTES < length payload
          then capsule_fail ''embedded capsule source lock is not bounded nonempty bytes''
          else
          and_then (as_capsule_error (strict_json_loads depth payload_arg)) (\<lambda>rec.
          case rec of
            PyDict d \<Rightarrow>
              if \<not> str_is (capsule_field d ''record_type'') ''cp2_d_minimal_two_capsule_source_lock''
                 \<or> \<not> str_is (capsule_field d ''checkpoint'') ''CP2-D'' \<or> capsule_field d ''schema_version'' \<noteq> PyInt 2
                 \<or> capsule_field d ''formal_execution_permitted_by_this_record'' \<noteq> PyBool False
              then capsule_fail ''embedded capsule source-lock identity differs''
              else and_then (visit_lock rec) (\<lambda>_. Inr rec)
          | _ \<Rightarrow> capsule_fail ''embedded capsule source lock is not an object'')
      | _ \<Rightarrow> capsule_fail ''embedded capsule source lock is not bounded nonempty bytes'')"

section \<open>The expected-identity record\<close>

definition EXPECTED_CAPSULE_UNIT_PATHS :: "(string \<times> (string \<times> string)) list" where
  "EXPECTED_CAPSULE_UNIT_PATHS =
     [(''direct_math'', ''capsules/direct_math.cp2cap'', ''capsules/direct_math.profile.json''),
      (''evaluator'', ''capsules/evaluator.cp2cap'', ''capsules/evaluator.profile.json'')]"

definition EXPECTED_CAPSULE_SOURCE_LOCK_PATH :: string where
  "EXPECTED_CAPSULE_SOURCE_LOCK_PATH = ''project/cp2_capsule_source_lock.json''"

definition identity_item :: "pyval \<Rightarrow> string \<Rightarrow> unit py" where
  "identity_item value expected_path =
     and_then (capsule_exact_keys value [''path'', ''size_bytes'', ''sha256'']) (\<lambda>item.
     if \<not> str_is (capsule_field item ''path'') expected_path then capsule_fail ''path differs''
     else
     and_then (capsule_u64 (capsule_field item ''size_bytes'')) (\<lambda>_.
     and_then (capsule_sha (capsule_field item ''sha256'')) (\<lambda>_. Inr ())))"

definition identity_member :: "(pyval \<times> pyval) list \<Rightarrow> string \<times> (string \<times> string) \<Rightarrow> unit py" where
  "identity_member members kind =
     and_then (capsule_exact_keys (capsule_field members (fst kind)) [''archive'', ''profile'']) (\<lambda>pair.
     and_then (identity_item (capsule_field pair ''archive'') (fst (snd kind))) (\<lambda>_.
       identity_item (capsule_field pair ''profile'') (snd (snd kind))))"

definition validate_expected_capsule_identity :: "pyval \<Rightarrow> pyval py" where
  "validate_expected_capsule_identity value =
     and_then (capsule_exact_keys value [''schema_version'', ''record_type'', ''checkpoint'',
       ''formal_execution_permitted_by_this_record'', ''embedded_source_lock'', ''unit_artifact_members'']) (\<lambda>d.
     if capsule_field d ''schema_version'' \<noteq> PyInt 1 \<or> \<not> str_is (capsule_field d ''record_type'') ''cp2_d_expected_capsule_identity''
        \<or> \<not> str_is (capsule_field d ''checkpoint'') ''CP2-D'' \<or> capsule_field d ''formal_execution_permitted_by_this_record'' \<noteq> PyBool False
     then capsule_fail ''expected capsule identity header differs''
     else
     and_then (identity_item (capsule_field d ''embedded_source_lock'') EXPECTED_CAPSULE_SOURCE_LOCK_PATH) (\<lambda>_.
     and_then (capsule_exact_keys (capsule_field d ''unit_artifact_members'') (map fst EXPECTED_CAPSULE_UNIT_PATHS)) (\<lambda>members.
     and_then (mapM (identity_member members) EXPECTED_CAPSULE_UNIT_PATHS) (\<lambda>_. Inr value))))"

definition expected_capsule_identity_bytes :: "nat \<Rightarrow> pyval \<Rightarrow> bytes py" where
  "expected_capsule_identity_bytes depth rec =
     and_then (validate_expected_capsule_identity rec) (canonical_profile_document depth)"

end
