(* ===== verification/Capsule_Profile.thy ===== *)
theory Capsule_Profile
  imports Capsule_Identity
begin

text \<open>
  \<^verbatim>\<open>validate_capsule_profile\<close> of \<^verbatim>\<open>src/scripts/cp2/cp2_capsule.py\<close>, one definition per section of the
  profile in the order the code checks them, and the construction and verification of the external
  identity record. The per-consumer search directories, which the code collects and never reads, are
  not kept.
\<close>

section \<open>Constants and identities\<close>

definition CONTRACT_BINDING_PATHS :: "string list" where
  "CONTRACT_BINDING_PATHS = [''docs/cp2_d_alignment_uniqueness_clarification_proposed.md'',
     ''docs/cp2_d_evaluator_precision_clarification_proposed.md'', ''project/cp2_completion_authorization_binding.json'',
     ''project/cp2_d_completion_authorization_addendum.txt'']"

definition CAPSULE_KINDS :: "pystr list" where "CAPSULE_KINDS = map lit [''evaluator'', ''direct_math'']"

definition DISTRIBUTION_ROLES :: "pystr list" where
  "DISTRIBUTION_ROLES = map lit [''numpy_extension'', ''numpy_module'', ''numpy_distribution_metadata'']"

definition NATIVE_CONSUMER_ROLES :: "pystr list" where
  "NATIVE_CONSUMER_ROLES = map lit [''capsule_launcher'', ''capsule_sandbox'', ''python_interpreter'', ''python_extension'',
     ''numpy_extension'', ''native_loader'', ''native_library'']"

definition MAX_PREFLIGHT_OUTPUT_BYTES :: int where "MAX_PREFLIGHT_OUTPUT_BYTES = 67108864"

definition EXACT_ENVIRONMENT :: "(string \<times> string) list" where
  "EXACT_ENVIRONMENT =
     [(''BLIS_NUM_THREADS'', ''1''), (''LANG'', ''C''), (''LC_ALL'', ''C''), (''MKL_DYNAMIC'', ''FALSE''), (''MKL_NUM_THREADS'', ''1''),
      (''NUMEXPR_NUM_THREADS'', ''1''), (''NPY_DISABLE_CPU_FEATURES'', ''X86_V3,X86_V4,AVX512_ICL,AVX512_SPR''),
      (''OMP_DYNAMIC'', ''FALSE''), (''OMP_NUM_THREADS'', ''1''), (''OPENBLAS_CORETYPE'', ''SkylakeX''), (''OPENBLAS_NUM_THREADS'', ''1''),
      (''PYTHONDONTWRITEBYTECODE'', ''1''), (''PYTHONNOUSERSITE'', ''1''), (''TZ'', ''UTC''), (''VECLIB_MAXIMUM_THREADS'', ''1''),
      (''HOME'', ''${PRIVATE_ROOT}/home''), (''MPLCONFIGDIR'', ''${PRIVATE_ROOT}/mpl''), (''TMPDIR'', ''${PRIVATE_ROOT}/tmp''),
      (''XDG_CACHE_HOME'', ''${PRIVATE_ROOT}/xdg-cache''), (''XDG_CONFIG_HOME'', ''${PRIVATE_ROOT}/xdg-config'')]"

definition INJECTION_DENYLIST :: "string list" where
  "INJECTION_DENYLIST = [''BASH_ENV'', ''CDPATH'', ''CONDA_PREFIX'', ''ENV'', ''GCONV_PATH'', ''GLIBC_TUNABLES'', ''LD_AUDIT'',
     ''LD_LIBRARY_PATH'', ''LD_PRELOAD'', ''PATH'', ''PYTHONBREAKPOINT'', ''PYTHONHASHSEED'', ''PYTHONHOME'', ''PYTHONINSPECT'',
     ''PYTHONPATH'', ''PYTHONSTARTUP'', ''PYTHONWARNINGS'', ''VIRTUAL_ENV'']"

record contract_binding =
  cb_path :: pystr
  cb_size :: int
  cb_sha256 :: pystr

record target_identity =
  ti_machine :: pystr
  ti_libc_abi :: pystr
  ti_loader_abi :: pystr
  ti_elf_interpreter :: pystr
  ti_cpu_dispatch_policy :: pystr

record distribution_identity =
  di_name :: pystr
  di_version :: pystr
  di_paths :: "pystr list"
  di_inventory_sha256 :: pystr

record native_closure =
  cl_loader_path :: pystr
  cl_mapped_paths :: "pystr list"
  cl_consumers :: "native_consumer list"
  cl_needed_edges :: "native_edge list"
  cl_inventory_sha256 :: pystr
  cl_consumers_sha256 :: pystr
  cl_edges_sha256 :: pystr
  cl_loader_argv_prefix :: "pystr list"
  cl_effective_library_directories :: "pystr list"

record execution_identity =
  xi_argv_template :: "pystr list"
  xi_cwd :: pystr
  xi_timeout_seconds :: int
  xi_environment_sha256 :: pystr
  xi_hash_seed_policy :: pystr

record floating_point_identity =
  fp_control_register :: pystr
  fp_control_value_hex :: pystr
  fp_secondary_control_register :: pystr
  fp_secondary_control_value_hex :: pystr
  fp_numpy_error_policy :: pystr

record numerical_runtime_identity =
  nr_runtime_kind :: pystr
  nr_canonical_bytes :: bytes
  nr_sha256 :: pystr

record preflight_expectation =
  pf_command :: command_expectation
  pf_input_paths :: "pystr list"
  pf_output_codec :: pystr
  pf_output_size :: int
  pf_output_sha256 :: pystr
  pf_known_answer_bits_sha256 :: pystr

record entry_point =
  ep_launcher_path :: pystr
  ep_interpreter_path :: pystr
  ep_module_path :: pystr
  ep_module :: pystr
  ep_callable :: pystr

record capsule_profile =
  cp_contract_bindings :: "contract_binding list"
  cp_profile_id :: pystr
  cp_capsule_kind :: pystr
  cp_target :: target_identity
  cp_source_lock_path :: pystr
  cp_source_lock_size :: int
  cp_source_lock_sha256 :: pystr
  cp_archive_size :: int
  cp_archive_sha256 :: pystr
  cp_entries :: "capsule_entry list"
  cp_inventory_sha256 :: pystr
  cp_entry_point :: entry_point
  cp_distributions :: "distribution_identity list"
  cp_native_closure :: native_closure
  cp_environment :: "(pystr \<times> pyval) list"
  cp_environment_sha256 :: pystr
  cp_execution :: execution_identity
  cp_floating_point :: floating_point_identity
  cp_numerical_runtime :: numerical_runtime_identity
  cp_version_probe :: command_expectation
  cp_synthetic_preflight :: preflight_expectation
  cp_canonical_bytes :: bytes
  cp_profile_sha256 :: pystr

section \<open>Header sections\<close>

definition contract_binding_row :: "pyval \<times> string \<Rightarrow> contract_binding py" where
  "contract_binding_row row =
     and_then (capsule_exact_keys (fst row) [''path'', ''size'', ''sha256'']) (\<lambda>binding.
     if \<not> str_is (capsule_field binding ''path'') (snd row) then capsule_fail ''capsule contract-binding path/order differs''
     else
     and_then (capsule_u64 (capsule_field binding ''size'')) (\<lambda>n.
     if n = 0 \<or> int MAX_SOURCE_LOCK_BYTES < n then capsule_fail ''capsule contract-binding size is outside its bound''
     else
     and_then (capsule_sha (capsule_field binding ''sha256'')) (\<lambda>digest.
       Inr \<lparr>cb_path = lit (snd row), cb_size = n, cb_sha256 = digest\<rparr>)))"

definition validate_contract_bindings :: "pyval \<Rightarrow> contract_binding list py" where
  "validate_contract_bindings value =
     (case value of
        PyList rows \<Rightarrow>
          if length rows \<noteq> length CONTRACT_BINDING_PATHS then capsule_fail ''capsule contract-binding population differs''
          else mapM contract_binding_row (zip rows CONTRACT_BINDING_PATHS)
      | _ \<Rightarrow> capsule_fail ''capsule contract-binding population differs'')"

definition validate_target :: "pyval \<Rightarrow> target_identity py" where
  "validate_target value =
     and_then (capsule_exact_keys value [''os'', ''machine'', ''elf_class'', ''endianness'', ''libc_abi'', ''loader_abi'',
       ''elf_interpreter'', ''cpu_dispatch_policy'']) (\<lambda>d.
     if \<not> str_is (capsule_field d ''os'') ''linux'' \<or>
        \<not> (str_is (capsule_field d ''machine'') ''x86_64'' \<or> str_is (capsule_field d ''machine'') ''aarch64'')
     then capsule_fail ''capsule target must select Linux x86_64 or aarch64''
     else if capsule_field d ''elf_class'' \<noteq> PyInt 64 then capsule_fail ''capsule target ELF class must be integer 64''
     else if \<not> str_is (capsule_field d ''endianness'') ''little'' then capsule_fail ''capsule target endianness must be little''
     else
     and_then (safe_text (capsule_field d ''elf_interpreter'') 256) (\<lambda>elf_interpreter.
     if str_is (capsule_field d ''machine'') ''x86_64'' \<and> elf_interpreter \<noteq> lit ''/lib64/ld-linux-x86-64.so.2''
     then capsule_fail ''x86_64 target ELF interpreter differs''
     else if str_is (capsule_field d ''machine'') ''aarch64'' \<and> elf_interpreter \<noteq> lit ''/lib/ld-linux-aarch64.so.1''
     then capsule_fail ''aarch64 target ELF interpreter differs''
     else
     and_then (safe_text (capsule_field d ''libc_abi'') 512) (\<lambda>libc_abi.
     and_then (safe_text (capsule_field d ''loader_abi'') 512) (\<lambda>loader_abi.
     and_then (capsule_safe_id (capsule_field d ''cpu_dispatch_policy'')) (\<lambda>policy.
       Inr \<lparr>ti_machine = (if str_is (capsule_field d ''machine'') ''x86_64'' then lit ''x86_64'' else lit ''aarch64''),
         ti_libc_abi = libc_abi, ti_loader_abi = loader_abi, ti_elf_interpreter = elf_interpreter,
         ti_cpu_dispatch_policy = policy\<rparr>)))))"

section \<open>Inventory, source lock and entry point\<close>

definition by_path :: "capsule_entry list \<Rightarrow> pystr \<Rightarrow> capsule_entry option" where
  "by_path entries path = map_of (map (\<lambda>e. (ce_path e, e)) entries) path"

definition role_paths :: "capsule_entry list \<Rightarrow> string \<Rightarrow> pystr list" where
  "role_paths entries role = map ce_path (filter (\<lambda>e. ce_role e = lit role) entries)"

definition role_of :: "capsule_entry list \<Rightarrow> pystr \<Rightarrow> pystr option" where
  "role_of entries path = map_option ce_role (by_path entries path)"

definition validate_inventory :: "pyval \<Rightarrow> pyval \<Rightarrow> (capsule_entry list \<times> pystr) py" where
  "validate_inventory inventory digest_arg =
     (case inventory of
        PyList items \<Rightarrow>
          and_then (mapM entry_from_record items) (\<lambda>rows.
          and_then (validated_entries rows) (\<lambda>entries.
          and_then (capsule_sha digest_arg) (\<lambda>digest.
          and_then (inventory_sha256 entries) (\<lambda>actual.
            if actual \<noteq> digest then capsule_fail ''capsule inventory digest differs from its exact rows'' else Inr (entries, digest)))))
      | _ \<Rightarrow> capsule_fail ''capsule inventory must be an array'')"

definition validate_population :: "capsule_entry list \<Rightarrow> unit py" where
  "validate_population entries =
     (if role_paths entries ''capsule_sandbox'' \<noteq> [lit ''bin/sandbox''] \<or> length (role_paths entries ''capsule_launcher'') \<noteq> 1
        \<or> length (role_paths entries ''python_interpreter'') \<noteq> 1
      then capsule_fail ''capsule must have exactly one sandbox, launcher, and interpreter''
      else if length (role_paths entries ''native_loader'') \<noteq> 1 then capsule_fail ''capsule must have exactly one executable native loader''
      else if role_paths entries ''license_notice'' = [] \<or> role_paths entries ''preflight_fixture'' = []
      then capsule_fail ''capsule must retain license/notice and preflight-fixture members''
      else if length (role_paths entries ''source_lock'') \<noteq> 1
      then capsule_fail ''capsule must retain exactly one authoritative source lock'' else Inr ())"

definition validate_source_lock :: "capsule_entry list \<Rightarrow> pyval \<Rightarrow> (pystr \<times> int \<times> pystr) py" where
  "validate_source_lock entries value =
     and_then (capsule_exact_keys value [''path'', ''size'', ''sha256'']) (\<lambda>d.
     and_then (capsule_relpath (capsule_field d ''path'')) (\<lambda>path.
     and_then (capsule_positive_u64 (capsule_field d ''size'') (int MAX_MEMBER_BYTES)) (\<lambda>n.
     and_then (capsule_sha (capsule_field d ''sha256'')) (\<lambda>digest.
     case by_path entries path of
       None \<Rightarrow> capsule_fail ''capsule source lock does not bind its unique inventory member''
     | Some e \<Rightarrow>
         if ce_role e \<noteq> lit ''source_lock'' \<or> ce_size e \<noteq> n \<or> ce_sha256 e \<noteq> digest
         then capsule_fail ''capsule source lock does not bind its unique inventory member'' else Inr (path, n, digest)))))"

definition validate_kind_population :: "capsule_entry list \<Rightarrow> pystr \<Rightarrow> unit py" where
  "validate_kind_population entries kind =
     (if kind = lit ''evaluator'' then
        (if length (role_paths entries ''evaluator_module'') \<noteq> 1
         then capsule_fail ''evaluator capsule lacks its unique equivalent evaluator module''
         else if role_paths entries ''direct_math_module'' \<noteq> [] \<or> role_paths entries ''direct_math_known_answer'' \<noteq> []
         then capsule_fail ''evaluator capsule contains direct-math-only roles''
         else if length (role_paths entries ''preflight_known_answer'') \<noteq> 1
         then capsule_fail ''evaluator capsule must retain exactly one preflight known-answer payload'' else Inr ())
      else
        (if list_ex (\<lambda>role. role_paths entries role = []) [''direct_math_module'', ''direct_math_known_answer'', ''numpy_extension'',
              ''numpy_module'', ''numpy_distribution_metadata'']
         then capsule_fail ''direct-math capsule lacks module, known answers, or complete NumPy roles''
         else if role_paths entries ''evaluator_module'' \<noteq> [] then capsule_fail ''direct-math capsule contains evaluator-only roles''
         else if role_paths entries ''preflight_known_answer'' \<noteq> []
         then capsule_fail ''direct-math capsule must use its direct-math known-answer member'' else Inr ()))"

text \<open>\<^verbatim>\<open>PYTHON_CALLABLE\<close> and \<^verbatim>\<open>PYTHON_MODULE\<close>: identifiers joined by dots.\<close>

definition PYTHON_CALLABLE :: "pystr \<Rightarrow> bool" where
  "PYTHON_CALLABLE s =
     (case s of [] \<Rightarrow> False
      | c # r \<Rightarrow> (is_alnum c \<and> \<not> is_digit c \<or> c = 95) \<and> list_all (\<lambda>c. is_alnum c \<or> c = 95) r)"

definition PYTHON_MODULE :: "pystr \<Rightarrow> bool" where
  "PYTHON_MODULE s = list_all PYTHON_CALLABLE (split_on 46 s)"

definition validate_entry_point :: "capsule_entry list \<Rightarrow> pystr \<Rightarrow> pyval \<Rightarrow> entry_point py" where
  "validate_entry_point entries kind value =
     and_then (capsule_exact_keys value [''launcher_path'', ''interpreter_path'', ''module_path'', ''module'', ''callable'']) (\<lambda>d.
     and_then (capsule_relpath (capsule_field d ''launcher_path'')) (\<lambda>launcher_path.
     and_then (capsule_relpath (capsule_field d ''interpreter_path'')) (\<lambda>interpreter_path.
     and_then (capsule_relpath (capsule_field d ''module_path'')) (\<lambda>module_path.
     if launcher_path \<noteq> hd (role_paths entries ''capsule_launcher'') \<or> interpreter_path \<noteq> hd (role_paths entries ''python_interpreter'')
     then capsule_fail ''entry point does not select the unique launcher/interpreter''
     else if role_of entries module_path \<noteq> Some (if kind = lit ''evaluator'' then lit ''evaluator_module'' else lit ''direct_math_module'')
     then capsule_fail ''entry module path does not select the kind-specific module row''
     else
     case capsule_field d ''module'' of
       PyStr module_name \<Rightarrow>
         if \<not> PYTHON_MODULE module_name then capsule_fail ''entry-point module name is invalid''
         else (case capsule_field d ''callable'' of
                 PyStr callable_name \<Rightarrow>
                   if \<not> PYTHON_CALLABLE callable_name then capsule_fail ''entry-point callable name is invalid''
                   else Inr \<lparr>ep_launcher_path = launcher_path, ep_interpreter_path = interpreter_path, ep_module_path = module_path,
                          ep_module = module_name, ep_callable = callable_name\<rparr>
               | _ \<Rightarrow> capsule_fail ''entry-point callable name is invalid'')
     | _ \<Rightarrow> capsule_fail ''entry-point module name is invalid''))))"

section \<open>Distributions\<close>

text \<open>The inventory digest of the rows that the paths select; a path without a row was refused before.\<close>

definition subset_sha256 :: "capsule_entry list \<Rightarrow> pystr list \<Rightarrow> pystr py" where
  "subset_sha256 entries paths = inventory_sha256 (map (\<lambda>path. the (by_path entries path)) paths)"

definition distribution_step ::
    "capsule_entry list \<Rightarrow> distribution_identity list \<times> pystr set \<Rightarrow> pyval \<Rightarrow> (distribution_identity list \<times> pystr set) py" where
  "distribution_step entries st item =
     and_then (capsule_exact_keys item [''name'', ''version'', ''paths'', ''inventory_sha256'']) (\<lambda>d.
     and_then (distribution_name (capsule_field d ''name'')) (\<lambda>name.
     and_then (safe_text (capsule_field d ''version'') 128) (\<lambda>version.
     and_then (sorted_paths (capsule_field d ''paths'')) (\<lambda>paths.
     if paths = [] \<or> list_ex (\<lambda>path. case role_of entries path of None \<Rightarrow> True | Some role \<Rightarrow> role \<notin> set DISTRIBUTION_ROLES) paths
     then capsule_fail ''distribution path is absent or has a non-distribution role''
     else if snd st \<inter> set paths \<noteq> {} then capsule_fail ''distribution inventories overlap''
     else
     and_then (capsule_sha (capsule_field d ''inventory_sha256'')) (\<lambda>digest.
     and_then (subset_sha256 entries paths) (\<lambda>actual.
     if actual \<noteq> digest then capsule_fail ''distribution digest differs from its member subset''
     else Inr (fst st @ [\<lparr>di_name = name, di_version = version, di_paths = paths, di_inventory_sha256 = digest\<rparr>], snd st \<union> set paths)))))))"

definition role_path_set :: "capsule_entry list \<Rightarrow> pystr list \<Rightarrow> pystr set" where
  "role_path_set entries roles = ce_path ` set (filter (\<lambda>e. ce_role e \<in> set roles) entries)"

definition validate_distributions :: "capsule_entry list \<Rightarrow> pystr \<Rightarrow> pyval \<Rightarrow> distribution_identity list py" where
  "validate_distributions entries kind value =
     (case value of
        PyList items \<Rightarrow>
          and_then (foldM (distribution_step entries) ([], {}) items) (\<lambda>(distributions, claimed).
          let names = map di_name distributions in
          if names \<noteq> sort names \<or> \<not> distinct names then capsule_fail ''distribution names must be unique and sorted''
          else if claimed \<noteq> role_path_set entries DISTRIBUTION_ROLES
          then capsule_fail ''distribution subsets do not exactly cover distribution-role files''
          else if kind = lit ''evaluator'' \<and> distributions \<noteq> []
          then capsule_fail ''stdlib-only equivalent evaluator must not claim a third-party distribution''
          else if kind = lit ''direct_math'' \<and> lit ''numpy'' \<notin> set (map ascii_lower names)
          then capsule_fail ''direct-math capsule must bind NumPy''
          else if list_ex (\<lambda>item. di_name item = lit ''numpy'' \<and> set (di_paths item) \<noteq> role_path_set entries DISTRIBUTION_ROLES) distributions
          then capsule_fail ''NumPy distribution does not exactly own every NumPy-role member''
          else if kind = lit ''direct_math'' \<and> set names \<noteq> {lit ''numpy''}
          then capsule_fail ''direct-math capsule distribution inventory must be exactly NumPy''
          else Inr distributions)
      | _ \<Rightarrow> capsule_fail ''capsule distributions must be an array'')"

section \<open>The native closure\<close>

definition library_token :: "pystr \<Rightarrow> pystr" where
  "library_token path =
     (if path = lit ''native'' then lit ''${HELD_NATIVE_DIR}''
      else if path = lit ''python/lib'' then lit ''${HELD_PYTHON_LIB_DIR}'' else lit ''${HELD_NUMPY_LIBS_DIR}'')"

definition library_directories :: "pystr \<Rightarrow> pystr list" where
  "library_directories kind =
     (if kind = lit ''direct_math'' then map lit [''native'', ''python/lib'', ''python/lib/python3.11/numpy.libs'']
      else map lit [''native'', ''python/lib''])"

definition loader_prefix :: "pystr list \<Rightarrow> pystr \<Rightarrow> pystr list" where
  "loader_prefix directories module_name =
     [lit ''${HELD_LOADER_FD}'', lit ''--inhibit-cache'', lit ''--library-path'', join_with 58 (map library_token directories),
      lit ''${HELD_PYTHON_FD}'', lit ''-I'', lit ''-S'', lit ''-B'', lit ''-m'', module_name]"

text \<open>\<^verbatim>\<open>NEEDED_NAME\<close> has the alphabet and bound of \<^verbatim>\<open>PATH_COMPONENT\<close>.\<close>

definition NEEDED_NAME :: "pystr \<Rightarrow> bool" where
  "NEEDED_NAME s \<longleftrightarrow> s \<noteq> [] \<and> length s \<le> 128 \<and> list_all (\<lambda>c. is_alnum c \<or> c \<in> set (lit ''_+.-'')) s"

definition consumer_interpreter :: "pyval \<Rightarrow> pystr py" where
  "consumer_interpreter value = (if str_is value ''none'' then Inr (lit ''none'') else safe_text value 256)"

definition linkage_consistent :: "pystr \<Rightarrow> pystr \<Rightarrow> pystr \<Rightarrow> pystr \<Rightarrow> pystr \<Rightarrow> unit py" where
  "linkage_consistent target_interpreter role elf_type linkage interpreter =
     (if linkage = lit ''dynamic-executable'' \<and> interpreter \<noteq> target_interpreter
      then capsule_fail ''dynamic executable lacks its exact on-disk ELF PT_INTERP''
      else if linkage = lit ''static-executable'' \<and> (elf_type \<noteq> lit ''ET_EXEC'' \<or> interpreter \<noteq> lit ''none'')
      then capsule_fail ''static executable linkage/interpreter is inconsistent''
      else if linkage = lit ''shared-object'' \<and> (elf_type \<noteq> lit ''ET_DYN'' \<or> interpreter \<notin> {lit ''none'', target_interpreter})
      then capsule_fail ''shared-object linkage/interpreter identity is inconsistent''
      else if linkage = lit ''dynamic-loader'' \<and> (elf_type \<noteq> lit ''ET_DYN'' \<or> interpreter \<noteq> lit ''none'')
      then capsule_fail ''dynamic-loader linkage/interpreter identity is inconsistent''
      else if role = lit ''native_loader'' \<and> linkage \<noteq> lit ''dynamic-loader''
      then capsule_fail ''native-loader role lacks dynamic-loader linkage''
      else if role \<noteq> lit ''native_loader'' \<and> linkage = lit ''dynamic-loader''
      then capsule_fail ''dynamic-loader linkage is assigned to the wrong role''
      else if role \<in> set (map lit [''capsule_sandbox'', ''capsule_launcher'', ''python_interpreter'']) \<and>
              linkage \<notin> set (map lit [''dynamic-executable'', ''static-executable''])
      then capsule_fail ''executable role has non-executable linkage''
      else if role \<in> set (map lit [''python_extension'', ''numpy_extension'', ''native_library'']) \<and> linkage \<noteq> lit ''shared-object''
      then capsule_fail ''extension/library role lacks shared-object linkage'' else Inr ())"

definition one_of :: "pyval \<Rightarrow> string list \<Rightarrow> pystr py" where
  "one_of value choices =
     (case value of PyStr s \<Rightarrow> if s \<in> set (map lit choices) then Inr s else capsule_fail ''is invalid'' | _ \<Rightarrow> capsule_fail ''is invalid'')"

definition consumer_soname :: "pyval \<Rightarrow> pystr py" where
  "consumer_soname value =
     (case value of
        PyStr s \<Rightarrow> if s \<noteq> lit ''none'' \<and> \<not> NEEDED_NAME s then capsule_fail ''native consumer SONAME is invalid'' else Inr s
      | _ \<Rightarrow> capsule_fail ''native consumer SONAME is invalid'')"

definition native_consumer_record :: "capsule_entry list \<Rightarrow> pystr \<Rightarrow> pystr list \<Rightarrow> pyval \<Rightarrow> native_consumer py" where
  "native_consumer_record entries target_interpreter mapped_paths item =
     and_then (capsule_exact_keys item [''path'', ''elf_type'', ''linkage'', ''interpreter'', ''rpath'', ''runpath'', ''soname'', ''needed'']) (\<lambda>d.
     and_then (capsule_relpath (capsule_field d ''path'')) (\<lambda>path.
     case role_of entries path of
       None \<Rightarrow> capsule_fail ''native consumer does not select an audited native-code role''
     | Some role \<Rightarrow>
     if role \<notin> set NATIVE_CONSUMER_ROLES then capsule_fail ''native consumer does not select an audited native-code role''
     else
     and_then (one_of (capsule_field d ''elf_type'') [''ET_EXEC'', ''ET_DYN'']) (\<lambda>elf_type.
     and_then (one_of (capsule_field d ''linkage'') [''dynamic-executable'', ''static-executable'', ''shared-object'', ''dynamic-loader'']) (\<lambda>linkage.
     and_then (consumer_interpreter (capsule_field d ''interpreter'')) (\<lambda>interpreter.
     and_then (linkage_consistent target_interpreter role elf_type linkage interpreter) (\<lambda>_.
     let native_directories = set (map parent_text mapped_paths) in
     and_then (loader_search_paths (capsule_field d ''rpath'') path native_directories) (\<lambda>(rpath, _).
     and_then (loader_search_paths (capsule_field d ''runpath'') path native_directories) (\<lambda>(runpath, _).
     if rpath \<noteq> [] \<and> runpath \<noteq> [] then capsule_fail ''native consumer cannot retain both RPATH and RUNPATH''
     else
     and_then (consumer_soname (capsule_field d ''soname'')) (\<lambda>soname.
     and_then (ordered_ascii_texts (capsule_field d ''needed'') 256) (\<lambda>needed.
     if list_ex (\<lambda>name. \<not> NEEDED_NAME name) needed then capsule_fail ''native consumer DT_NEEDED name is invalid''
     else if linkage = lit ''static-executable'' \<and> (needed \<noteq> [] \<or> rpath \<noteq> [] \<or> runpath \<noteq> [])
     then capsule_fail ''static executable must not retain dynamic search/dependency entries''
     else Inr \<lparr>nc_path = path, nc_elf_type = elf_type, nc_linkage = linkage, nc_interpreter = interpreter, nc_rpath = rpath,
            nc_runpath = runpath, nc_soname = soname, nc_needed = needed\<rparr>))))))))))"

text \<open>Consumers compare by path first; paths that repeat are refused whatever the order.\<close>

definition validate_consumers :: "capsule_entry list \<Rightarrow> pystr \<Rightarrow> pystr list \<Rightarrow> pyval \<Rightarrow> native_consumer list py" where
  "validate_consumers entries target_interpreter mapped_paths value =
     (case value of
        PyList items \<Rightarrow>
          and_then (mapM (native_consumer_record entries target_interpreter mapped_paths) items) (\<lambda>consumers.
          let paths = map nc_path consumers in
          if paths \<noteq> sort paths \<or> \<not> distinct paths then capsule_fail ''native consumers must have unique sorted paths''
          else if set paths \<noteq> role_path_set entries NATIVE_CONSUMER_ROLES
          then capsule_fail ''native consumer records do not exactly cover native-code members''
          else Inr consumers)
      | _ \<Rightarrow> capsule_fail ''native consumers must be an array'')"

definition native_edge_record :: "pystr set \<Rightarrow> pystr list \<Rightarrow> pyval \<Rightarrow> native_edge py" where
  "native_edge_record consumer_paths mapped_paths item =
     and_then (capsule_exact_keys item [''consumer'', ''needed'', ''provider'']) (\<lambda>d.
     and_then (capsule_relpath (capsule_field d ''consumer'')) (\<lambda>consumer.
     and_then (capsule_relpath (capsule_field d ''provider'')) (\<lambda>provider.
     if consumer \<notin> consumer_paths \<or> provider \<notin> set mapped_paths then capsule_fail ''native edge references an absent consumer/provider''
     else
     case capsule_field d ''needed'' of
       PyStr needed \<Rightarrow>
         if \<not> NEEDED_NAME needed then capsule_fail ''native needed name is invalid''
         else Inr \<lparr>ne_consumer = consumer, ne_needed = needed, ne_provider = provider\<rparr>
     | _ \<Rightarrow> capsule_fail ''native needed name is invalid'')))"

definition edge_key :: "native_edge \<Rightarrow> pystr \<times> pystr" where
  "edge_key edge = (ne_consumer edge, ne_needed edge)"

definition edge_order :: "native_edge \<Rightarrow> pystr list" where
  "edge_order edge = [ne_consumer edge, ne_needed edge, ne_provider edge]"

definition provider_step :: "native_consumer list \<Rightarrow> pystr list \<Rightarrow> native_edge \<Rightarrow> unit py" where
  "provider_step consumers library_dirs edge =
     (if map_of (map (\<lambda>c. (nc_path c, nc_soname c)) consumers) (ne_provider edge) \<noteq> Some (ne_needed edge)
      then capsule_fail ''native edge provider SONAME does not match DT_NEEDED''
      else if parent_text (ne_provider edge) \<notin> set library_dirs
      then capsule_fail ''native edge provider is outside the explicit launcher library path'' else Inr ())"

definition validate_edges :: "native_consumer list \<Rightarrow> pystr list \<Rightarrow> pystr list \<Rightarrow> pystr \<Rightarrow> pyval \<Rightarrow> native_edge list py" where
  "validate_edges consumers mapped_paths library_dirs loader_path value =
     (case value of
        PyList items \<Rightarrow>
          and_then (mapM (native_edge_record (set (map nc_path consumers)) mapped_paths) items) (\<lambda>edges.
          if map edge_order edges \<noteq> sort (map edge_order edges) \<or> \<not> distinct edges
          then capsule_fail ''native edges must be unique and sorted''
          else if \<not> distinct (map edge_key edges) then capsule_fail ''native consumer/needed mapping is ambiguous''
          else if set (map edge_key edges) \<noteq> set (concat (map (\<lambda>c. map (\<lambda>needed. (nc_path c, needed)) (nc_needed c)) consumers))
          then capsule_fail ''native edges do not exactly realize every audited DT_NEEDED entry''
          else
          and_then (mapM (provider_step consumers library_dirs) edges) (\<lambda>_.
          if insert loader_path (set (map ne_provider edges)) \<noteq> set mapped_paths
          then capsule_fail ''native edge graph leaves an unreferenced mapped library'' else Inr edges))
      | _ \<Rightarrow> capsule_fail ''native needed edges must be an array'')"

definition sha_matches :: "pyval \<Rightarrow> pystr py \<Rightarrow> pystr py" where
  "sha_matches value computed =
     and_then (capsule_sha value) (\<lambda>digest. and_then computed (\<lambda>actual.
       if actual \<noteq> digest then capsule_fail ''digest differs'' else Inr digest))"

definition digest_of :: "bytes py \<Rightarrow> pystr py" where
  "digest_of computed = and_then computed (\<lambda>b. Inr (hexdigest (sha256 b)))"

definition validate_native_closure :: "capsule_entry list \<Rightarrow> pystr \<Rightarrow> target_identity \<Rightarrow> pystr \<Rightarrow> pyval \<Rightarrow> native_closure py" where
  "validate_native_closure entries kind target module_name value =
     and_then (capsule_exact_keys value [''loader_path'', ''loader_argv_prefix'', ''effective_library_directories'', ''cache_policy'',
       ''default_search_policy'', ''pathname_policy'', ''mapped_paths'', ''consumers'', ''needed_edges'', ''inventory_sha256'',
       ''consumers_sha256'', ''edges_sha256'']) (\<lambda>d.
     and_then (capsule_relpath (capsule_field d ''loader_path'')) (\<lambda>loader_path.
     and_then (sorted_paths (capsule_field d ''mapped_paths'')) (\<lambda>mapped_paths.
     if mapped_paths \<noteq> sort (role_paths entries ''native_loader'' @ role_paths entries ''native_library'') \<or>
        loader_path \<noteq> hd (role_paths entries ''native_loader'')
     then capsule_fail ''native closure must exactly cover all native-library rows and its loader''
     else
     and_then (ordered_ascii_texts (capsule_field d ''loader_argv_prefix'') 16) (\<lambda>argv_prefix.
     and_then (sorted_paths (capsule_field d ''effective_library_directories'')) (\<lambda>library_dirs.
     if library_dirs \<noteq> library_directories kind then capsule_fail ''effective native library directory order differs from the launcher''
     else if argv_prefix \<noteq> loader_prefix library_dirs module_name
     then capsule_fail ''native loader argv prefix differs from the held-descriptor launcher''
     else if \<not> str_is (capsule_field d ''cache_policy'') ''inhibit-cache'' then capsule_fail ''native loader cache policy differs''
     else if \<not> str_is (capsule_field d ''default_search_policy'') ''runtime-maps-reject-outside-capsule''
     then capsule_fail ''native loader fallback policy differs''
     else if \<not> str_is (capsule_field d ''pathname_policy'') ''descriptor-held-loader-python-and-library-directories''
     then capsule_fail ''native loader pathname policy differs''
     else
     and_then (validate_consumers entries (ti_elf_interpreter target) mapped_paths (capsule_field d ''consumers'')) (\<lambda>consumers.
     and_then (validate_edges consumers mapped_paths library_dirs loader_path (capsule_field d ''needed_edges'')) (\<lambda>edges.
     and_then (sha_matches (capsule_field d ''inventory_sha256'') (subset_sha256 entries mapped_paths)) (\<lambda>inventory_digest.
     and_then (sha_matches (capsule_field d ''consumers_sha256'') (digest_of (native_consumers_bytes consumers))) (\<lambda>consumers_digest.
     and_then (sha_matches (capsule_field d ''edges_sha256'') (digest_of (native_edges_bytes edges))) (\<lambda>edges_digest.
       Inr \<lparr>cl_loader_path = loader_path, cl_mapped_paths = mapped_paths, cl_consumers = consumers, cl_needed_edges = edges,
         cl_inventory_sha256 = inventory_digest, cl_consumers_sha256 = consumers_digest, cl_edges_sha256 = edges_digest,
         cl_loader_argv_prefix = argv_prefix, cl_effective_library_directories = library_dirs\<rparr>))))))))))"

section \<open>Environment, execution and floating point\<close>

definition validate_environment :: "pyval \<Rightarrow> ((pystr \<times> pyval) list \<times> pystr) py" where
  "validate_environment value =
     and_then (capsule_exact_keys value [''variables'', ''sha256'']) (\<lambda>d.
     case capsule_field d ''variables'' of
       PyDict variables \<Rightarrow>
         if set variables \<noteq> set (map (\<lambda>(k, v). (PyStr (lit k), PyStr (lit v))) EXACT_ENVIRONMENT)
         then capsule_fail ''environment must equal the exact private single-thread allowlist''
         else
         let environment = sort_key fst (map (\<lambda>(k, v). (key_text k, v)) variables) in
         and_then (sha_matches (capsule_field d ''sha256'') (environment_sha256 environment)) (\<lambda>digest. Inr (environment, digest))
     | _ \<Rightarrow> capsule_fail ''environment variables must be a plain object'')"

definition execution_template :: "pystr \<Rightarrow> pystr \<Rightarrow> pystr list" where
  "execution_template kind launcher_token =
     (if kind = lit ''evaluator''
      then launcher_token # map lit [''tum'', ''{GT_SHARED}'', ''{MODE_SHARED_ALIGNED}'', ''-r'', ''trans_part'', ''--t_max_diff'', ''0.01'',
             ''--save_results'', ''{ABS_RESULT_ZIP}'', ''--no_warnings'']
      else launcher_token # map lit [''--input'', ''{ABS_REQUEST}'', ''--output'', ''{ABS_RESPONSE}''])"

definition validate_execution :: "pystr \<Rightarrow> pystr \<Rightarrow> pystr \<Rightarrow> pyval \<Rightarrow> execution_identity py" where
  "validate_execution kind launcher_token env_digest value =
     and_then (capsule_exact_keys value [''argv_template'', ''cwd'', ''timeout_seconds'', ''stdin_policy'', ''environment_sha256'',
       ''injection_denylist'', ''thread_policy'', ''hash_seed_policy'']) (\<lambda>d.
     and_then (safe_argv (capsule_field d ''argv_template'')) (\<lambda>argv_template.
     if argv_template \<noteq> execution_template kind launcher_token
     then capsule_fail ''execution argv template differs from the kind-specific exact command''
     else
     and_then (template_path (capsule_field d ''cwd'') [''PRIVATE_ROOT'']) (\<lambda>cwd.
     and_then (capsule_positive_u64 (capsule_field d ''timeout_seconds'') 600) (\<lambda>timeout.
     if \<not> str_is (capsule_field d ''stdin_policy'') ''devnull'' \<or> capsule_field d ''environment_sha256'' \<noteq> PyStr env_digest
     then capsule_fail ''execution stdin/environment binding differs''
     else if capsule_field d ''injection_denylist'' \<noteq> PyList (map (PyStr \<circ> lit) INJECTION_DENYLIST)
     then capsule_fail ''execution injection denylist differs''
     else if \<not> str_is (capsule_field d ''thread_policy'') ''verified-single-thread'' then capsule_fail ''execution thread policy differs''
     else
     and_then (one_of (capsule_field d ''hash_seed_policy'') [''pyconfig-fixed-zero'', ''hash-order-independent'']) (\<lambda>seed_policy.
       Inr \<lparr>xi_argv_template = argv_template, xi_cwd = cwd, xi_timeout_seconds = timeout, xi_environment_sha256 = env_digest,
         xi_hash_seed_policy = seed_policy\<rparr>)))))"

definition expected_floating_point :: "pystr \<Rightarrow> pystr \<Rightarrow> floating_point_identity" where
  "expected_floating_point machine kind =
     (let policy = (if kind = lit ''direct_math'' then lit ''invalid-divide-over-raise_under-ignore'' else lit ''not-applicable'') in
      if machine = lit ''x86_64''
      then \<lparr>fp_control_register = lit ''MXCSR'', fp_control_value_hex = lit ''0000000000001f80'', fp_secondary_control_register = lit ''X87_CW'',
             fp_secondary_control_value_hex = lit ''000000000000027f'', fp_numpy_error_policy = policy\<rparr>
      else \<lparr>fp_control_register = lit ''FPCR'', fp_control_value_hex = lit ''0000000000000000'', fp_secondary_control_register = lit ''FPSR'',
             fp_secondary_control_value_hex = lit ''0000000000000000'', fp_numpy_error_policy = policy\<rparr>)"

definition validate_floating_point :: "pystr \<Rightarrow> pystr \<Rightarrow> pyval \<Rightarrow> floating_point_identity py" where
  "validate_floating_point machine kind value =
     and_then (capsule_exact_keys value [''format'', ''rounding_mode'', ''subnormal_policy'', ''control_register'', ''control_value_hex'',
       ''secondary_control_register'', ''secondary_control_value_hex'', ''numpy_error_policy'']) (\<lambda>d.
     let expected = expected_floating_point machine kind in
     if \<not> str_is (capsule_field d ''format'') ''IEEE-754-binary64'' \<or> \<not> str_is (capsule_field d ''rounding_mode'') ''FE_TONEAREST''
        \<or> \<not> str_is (capsule_field d ''subnormal_policy'') ''preserve'' \<or> capsule_field d ''control_register'' \<noteq> PyStr (fp_control_register expected)
        \<or> capsule_field d ''control_value_hex'' \<noteq> PyStr (fp_control_value_hex expected)
        \<or> capsule_field d ''secondary_control_register'' \<noteq> PyStr (fp_secondary_control_register expected)
        \<or> capsule_field d ''secondary_control_value_hex'' \<noteq> PyStr (fp_secondary_control_value_hex expected)
        \<or> capsule_field d ''numpy_error_policy'' \<noteq> PyStr (fp_numpy_error_policy expected)
     then capsule_fail ''floating-point identity is incomplete or target-inconsistent''
     else Inr expected)"

section \<open>Numerical runtime\<close>

definition EXPECTED_DISPATCH :: "string list" where
  "EXPECTED_DISPATCH = [''X86_V3'', ''X86_V4'', ''AVX512_ICL'', ''AVX512_SPR'']"

definition EXPECTED_TARGET_STATES :: "(string \<times> pyval) list" where
  "EXPECTED_TARGET_STATES = [(''X86_V2'', PyBool True), (''X86_V3'', PyBool False), (''X86_V4'', PyBool False),
     (''AVX512_ICL'', PyBool False), (''AVX512_SPR'', PyBool False)]"

definition EXPECTED_CPUID :: "(string \<times> pyval) list" where
  "EXPECTED_CPUID = [(''vendor'', PyStr (lit ''AuthenticAMD'')), (''family'', PyInt 26), (''model'', PyInt 68), (''stepping'', PyInt 0),
     (''leaf1_eax'', PyInt 11800384), (''leaf1_ecx'', PyInt 2128097803), (''leaf1_edx'', PyInt 395049983), (''leaf7_ebx'', PyInt 4055865259),
     (''leaf7_ecx'', PyInt 423649246), (''leaf7_edx'', PyInt 268435728), (''extended_leaf1_ecx'', PyInt 1975662591),
     (''extended_leaf1_edx'', PyInt 802421759), (''xcr0'', PyInt 743)]"

definition exact_record :: "pyval \<Rightarrow> (string \<times> pyval) list \<Rightarrow> unit py" where
  "exact_record value expected =
     and_then (capsule_exact_keys value (map fst expected)) (\<lambda>d.
       if set d \<noteq> set (map (\<lambda>(k, v). (PyStr (lit k), v)) expected) then capsule_fail ''differs'' else Inr ())"

definition validate_evaluator_runtime :: "target_identity \<Rightarrow> pyval \<Rightarrow> pystr py" where
  "validate_evaluator_runtime target identity =
     and_then (capsule_exact_keys identity [''runtime_kind'', ''implementation'']) (\<lambda>d.
     if \<not> str_is (capsule_field d ''runtime_kind'') ''stdlib-binary64-independent-v1''
        \<or> \<not> str_is (capsule_field d ''implementation'') ''CPython-math-no-NumPy-no-SciPy-no-evo''
        \<or> ti_cpu_dispatch_policy target \<noteq> lit ''stdlib-binary64-fixed-x86-64''
     then capsule_fail ''equivalent evaluator numerical runtime identity differs''
     else Inr (lit ''stdlib-binary64-independent-v1''))"

definition validate_openblas :: "capsule_entry list \<Rightarrow> (pyval \<times> pyval) list \<Rightarrow> unit py" where
  "validate_openblas entries d =
     and_then (capsule_relpath (capsule_field d ''openblas_library_path'')) (\<lambda>path.
     case by_path entries path of
       None \<Rightarrow> capsule_fail ''OpenBLAS runtime identity differs''
     | Some e \<Rightarrow>
         if ce_role e \<noteq> lit ''native_library'' \<or> capsule_field d ''openblas_library_sha256'' \<noteq> PyStr (ce_sha256 e)
            \<or> \<not> str_is (capsule_field d ''openblas_version'') ''0.3.31.188.0''
            \<or> \<not> str_is (capsule_field d ''openblas_config'') (''OpenBLAS 0.3.31.188.0  USE64BITINT DYNAMIC_ARCH '' @ ''NO_AFFINITY SkylakeX MAX_THREADS=64'')
            \<or> \<not> str_is (capsule_field d ''openblas_corename'') ''SkylakeX''
            \<or> capsule_field d ''openblas_threads'' \<noteq> PyInt 1 \<or> capsule_field d ''openblas_parallel'' \<noteq> PyInt 1
         then capsule_fail ''OpenBLAS runtime identity differs'' else Inr ())"

definition validate_direct_runtime :: "capsule_entry list \<Rightarrow> target_identity \<Rightarrow> pyval \<Rightarrow> pystr py" where
  "validate_direct_runtime entries target identity =
     and_then (capsule_exact_keys identity [''runtime_kind'', ''numpy_version'', ''numpy_cpu_baseline'', ''numpy_cpu_dispatch_targets'',
       ''numpy_disabled_targets'', ''numpy_effective_target_states'', ''openblas_library_path'', ''openblas_library_sha256'',
       ''openblas_version'', ''openblas_config'', ''openblas_corename'', ''openblas_threads'', ''openblas_parallel'', ''cpuid'']) (\<lambda>d.
     and_then (ordered_ascii_texts (capsule_field d ''numpy_cpu_baseline'') 16) (\<lambda>baseline.
     and_then (ordered_ascii_texts (capsule_field d ''numpy_cpu_dispatch_targets'') 16) (\<lambda>dispatch.
     and_then (ordered_ascii_texts (capsule_field d ''numpy_disabled_targets'') 16) (\<lambda>disabled.
     if \<not> str_is (capsule_field d ''runtime_kind'') ''numpy-openblas-fixed-dispatch-v1'' \<or> \<not> str_is (capsule_field d ''numpy_version'') ''2.4.6''
        \<or> baseline \<noteq> [lit ''X86_V2''] \<or> dispatch \<noteq> map lit EXPECTED_DISPATCH \<or> disabled \<noteq> map lit EXPECTED_DISPATCH
        \<or> ti_cpu_dispatch_policy target \<noteq> lit ''numpy-x86-v2-openblas-skylakex''
     then capsule_fail ''NumPy dispatch identity differs''
     else
     and_then (exact_record (capsule_field d ''numpy_effective_target_states'') EXPECTED_TARGET_STATES) (\<lambda>_.
     and_then (validate_openblas entries d) (\<lambda>_.
     and_then (exact_record (capsule_field d ''cpuid'') EXPECTED_CPUID) (\<lambda>_. Inr (lit ''numpy-openblas-fixed-dispatch-v1''))))))))"

definition validate_numerical_runtime ::
    "nat \<Rightarrow> capsule_entry list \<Rightarrow> pystr \<Rightarrow> target_identity \<Rightarrow> pyval \<Rightarrow> numerical_runtime_identity py" where
  "validate_numerical_runtime depth entries kind target value =
     and_then (capsule_exact_keys value [''identity'', ''sha256'']) (\<lambda>d.
     let identity = capsule_field d ''identity'' in
     and_then (if kind = lit ''evaluator'' then validate_evaluator_runtime target identity else validate_direct_runtime entries target identity)
       (\<lambda>runtime_kind.
     and_then (canonical_profile_document depth identity) (\<lambda>canonical.
     and_then (sha_matches (capsule_field d ''sha256'') (Inr (hexdigest (sha256 canonical)))) (\<lambda>digest.
       Inr \<lparr>nr_runtime_kind = runtime_kind, nr_canonical_bytes = canonical, nr_sha256 = digest\<rparr>))))"

section \<open>Commands and the profile\<close>

definition capsule_token :: "pystr \<Rightarrow> pystr" where
  "capsule_token path = lit ''${CAPSULE_ROOT}/'' @ path"

definition paths_with_role :: "capsule_entry list \<Rightarrow> pystr list \<Rightarrow> string \<Rightarrow> pystr list" where
  "paths_with_role entries paths role = filter (\<lambda>path. role_of entries path = Some (lit role)) paths"

definition EVALUATOR_PREFLIGHT_TAIL :: "string list" where
  "EVALUATOR_PREFLIGHT_TAIL = [''tum'', ''${CAPSULE_ROOT}/fixtures/ground-truth.tum'', ''${CAPSULE_ROOT}/fixtures/estimate.tum'', ''-r'', ''trans_part'',
     ''--t_max_diff'', ''0.01'', ''--save_results'', ''${PRIVATE_ROOT}/preflight/results.zip'', ''--no_warnings'']"

text \<open>The expected argument vector of the preflight and the known-answer member it binds.\<close>

definition preflight_expected :: "capsule_entry list \<Rightarrow> pystr \<Rightarrow> pystr \<Rightarrow> pystr list \<Rightarrow> (pystr list \<times> pystr) py" where
  "preflight_expected entries kind launcher_token paths =
     (if kind = lit ''evaluator'' then
        (let fixture_tokens = set (map capsule_token (paths_with_role entries paths ''preflight_fixture''));
             known = paths_with_role entries paths ''preflight_known_answer'' in
         if fixture_tokens \<noteq> {lit ''${CAPSULE_ROOT}/fixtures/ground-truth.tum'', lit ''${CAPSULE_ROOT}/fixtures/estimate.tum''}
         then capsule_fail ''evaluator preflight fixture paths differ from its argv''
         else if length known \<noteq> 1 then capsule_fail ''evaluator preflight must bind exactly one known-answer payload''
         else Inr (launcher_token # map lit EVALUATOR_PREFLIGHT_TAIL, hd known))
      else
        (let fixtures = paths_with_role entries paths ''preflight_fixture''; known = paths_with_role entries paths ''direct_math_known_answer'' in
         if length fixtures \<noteq> 1 \<or> length known \<noteq> 1
         then capsule_fail ''direct-math preflight must bind one fixture and one known-answer member''
         else Inr ([launcher_token, lit ''--input'', capsule_token (hd fixtures), lit ''--known-answers'', capsule_token (hd known),
                    lit ''--output'', lit ''${PRIVATE_ROOT}/preflight/response.json''], hd known)))"

definition validate_preflight :: "capsule_entry list \<Rightarrow> pystr \<Rightarrow> pystr \<Rightarrow> pyval \<Rightarrow> preflight_expectation py" where
  "validate_preflight entries kind launcher_token value =
     and_then (capsule_exact_keys value [''command'', ''input_paths'', ''output_codec'', ''output_size'', ''output_sha256'', ''known_answer_bits_sha256'']) (\<lambda>d.
     and_then (capsule_command (capsule_field d ''command'') launcher_token) (\<lambda>command.
     and_then (sorted_paths (capsule_field d ''input_paths'')) (\<lambda>paths.
     if paths = [] \<or> list_ex (\<lambda>path. role_of entries path \<notin>
          Some ` set (map lit [''preflight_fixture'', ''preflight_known_answer'', ''direct_math_known_answer''])) paths
     then capsule_fail ''synthetic preflight inputs do not select fixture/KAT members''
     else
     let codec = (if kind = lit ''evaluator'' then ''cp2_translation_rmse_result_zip_v1'' else ''cp2_f64_known_answer_bundle_v1'') in
     if \<not> str_is (capsule_field d ''output_codec'') codec then capsule_fail ''synthetic preflight output codec differs''
     else
     and_then (preflight_expected entries kind launcher_token paths) (\<lambda>(argv, known_path).
     if cx_argv command \<noteq> argv then capsule_fail ''synthetic preflight argv differs from the kind-specific exact command''
     else
     and_then (capsule_sha (capsule_field d ''known_answer_bits_sha256'')) (\<lambda>known_digest.
     if by_path entries known_path = None \<or> known_digest \<noteq> ce_sha256 (the (by_path entries known_path))
     then capsule_fail ''preflight known-answer digest does not bind its retained member bytes''
     else
     and_then (capsule_u64 (capsule_field d ''output_size'')) (\<lambda>output_size.
     if MAX_PREFLIGHT_OUTPUT_BYTES < output_size then capsule_fail ''preflight output exceeds its resource bound''
     else
     and_then (capsule_sha (capsule_field d ''output_sha256'')) (\<lambda>output_digest.
       Inr \<lparr>pf_command = command, pf_input_paths = paths, pf_output_codec = lit codec, pf_output_size = output_size,
         pf_output_sha256 = output_digest, pf_known_answer_bits_sha256 = known_digest\<rparr>)))))))"

definition PROFILE_KEYS :: "string list" where
  "PROFILE_KEYS = [''schema_version'', ''record_type'', ''checkpoint'', ''contract_bindings'', ''profile_id'', ''capsule_kind'', ''target'',
     ''source_lock'', ''archive'', ''inventory'', ''inventory_sha256'', ''entry_point'', ''distributions'', ''native_closure'', ''environment'',
     ''execution'', ''floating_point'', ''numerical_runtime'', ''version_probe'', ''synthetic_preflight'']"

definition profile_header :: "(pyval \<times> pyval) list \<Rightarrow> unit py" where
  "profile_header d =
     (if capsule_field d ''schema_version'' \<noteq> PyInt 2 then capsule_fail ''capsule profile schema_version must be integer 2''
      else if \<not> str_is (capsule_field d ''record_type'') ''cp2_d_capsule_profile'' \<or> \<not> str_is (capsule_field d ''checkpoint'') ''CP2-D''
      then capsule_fail ''capsule profile record type/checkpoint differs'' else Inr ())"

definition capsule_kind :: "pyval \<Rightarrow> pystr py" where
  "capsule_kind value =
     (case value of
        PyStr kind \<Rightarrow> if kind \<notin> set CAPSULE_KINDS then capsule_fail ''capsule kind must be evaluator or direct_math'' else Inr kind
      | _ \<Rightarrow> capsule_fail ''capsule kind must be evaluator or direct_math'')"

definition validate_archive :: "pyval \<Rightarrow> (int \<times> pystr) py" where
  "validate_archive value =
     and_then (capsule_exact_keys value [''size'', ''sha256'']) (\<lambda>d.
     and_then (capsule_positive_u64 (capsule_field d ''size'') (int MAX_ARCHIVE_BYTES)) (\<lambda>archive_size.
     and_then (capsule_sha (capsule_field d ''sha256'')) (\<lambda>digest. Inr (archive_size, digest))))"

definition version_probe :: "pyval \<Rightarrow> pystr \<Rightarrow> command_expectation py" where
  "version_probe value launcher_token =
     and_then (capsule_command value launcher_token) (\<lambda>command.
       if cx_argv command \<noteq> [launcher_token, lit ''--version''] then capsule_fail ''version probe argv differs from the exact command'' else Inr command)"

definition validate_capsule_profile :: "nat \<Rightarrow> pyval \<Rightarrow> capsule_profile py" where
  "validate_capsule_profile depth value =
     and_then (capsule_exact_keys value PROFILE_KEYS) (\<lambda>d.
     and_then (profile_header d) (\<lambda>_.
     and_then (validate_contract_bindings (capsule_field d ''contract_bindings'')) (\<lambda>bindings.
     and_then (capsule_safe_id (capsule_field d ''profile_id'')) (\<lambda>profile_id.
     and_then (capsule_kind (capsule_field d ''capsule_kind'')) (\<lambda>kind.
     and_then (validate_target (capsule_field d ''target'')) (\<lambda>target.
     and_then (validate_archive (capsule_field d ''archive'')) (\<lambda>(archive_size, archive_digest).
     and_then (validate_inventory (capsule_field d ''inventory'') (capsule_field d ''inventory_sha256'')) (\<lambda>(entries, inventory_digest).
     and_then (validate_population entries) (\<lambda>_.
     and_then (validate_source_lock entries (capsule_field d ''source_lock'')) (\<lambda>(lock_path, lock_size, lock_digest).
     and_then (validate_kind_population entries kind) (\<lambda>_.
     and_then (validate_entry_point entries kind (capsule_field d ''entry_point'')) (\<lambda>entry_record.
     and_then (validate_distributions entries kind (capsule_field d ''distributions'')) (\<lambda>distributions.
     and_then (validate_native_closure entries kind target (ep_module entry_record) (capsule_field d ''native_closure'')) (\<lambda>closure.
     and_then (validate_environment (capsule_field d ''environment'')) (\<lambda>(environment, env_digest).
     let launcher_token = capsule_token (ep_launcher_path entry_record) in
     and_then (validate_execution kind launcher_token env_digest (capsule_field d ''execution'')) (\<lambda>execution.
     and_then (validate_floating_point (ti_machine target) kind (capsule_field d ''floating_point'')) (\<lambda>floating_point.
     and_then (validate_numerical_runtime depth entries kind target (capsule_field d ''numerical_runtime'')) (\<lambda>numerical_runtime.
     and_then (version_probe (capsule_field d ''version_probe'') launcher_token) (\<lambda>probe.
     and_then (validate_preflight entries kind launcher_token (capsule_field d ''synthetic_preflight'')) (\<lambda>preflight.
     and_then (canonical_profile_document depth value) (\<lambda>canonical.
       Inr \<lparr>cp_contract_bindings = bindings, cp_profile_id = profile_id, cp_capsule_kind = kind, cp_target = target,
         cp_source_lock_path = lock_path, cp_source_lock_size = lock_size, cp_source_lock_sha256 = lock_digest,
         cp_archive_size = archive_size, cp_archive_sha256 = archive_digest, cp_entries = entries, cp_inventory_sha256 = inventory_digest,
         cp_entry_point = entry_record, cp_distributions = distributions, cp_native_closure = closure, cp_environment = environment,
         cp_environment_sha256 = env_digest, cp_execution = execution, cp_floating_point = floating_point,
         cp_numerical_runtime = numerical_runtime, cp_version_probe = probe, cp_synthetic_preflight = preflight,
         cp_canonical_bytes = canonical, cp_profile_sha256 = hexdigest (sha256 canonical)\<rparr>)))))))))))))))))))))"

section \<open>The external identity of a capsule pair\<close>

definition identity_record :: "string \<Rightarrow> nat \<Rightarrow> pystr \<Rightarrow> pyval" where
  "identity_record path n digest =
     PyDict [(PyStr (lit ''path''), PyStr (lit path)), (PyStr (lit ''size_bytes''), PyInt (int n)), (PyStr (lit ''sha256''), PyStr digest)]"

definition identity_of_kind :: "nat \<Rightarrow> bytes \<Rightarrow> (pyval \<times> pyval) list \<Rightarrow> string \<times> (string \<times> string) \<Rightarrow> (pyval \<times> pyval) py" where
  "identity_of_kind depth lock_payload artifacts kind =
     (case capsule_field artifacts (fst kind) of
        PyTuple [PyBytes archive_payload, PyBytes profile_payload] \<Rightarrow>
          and_then (as_capsule_error (strict_json_loads depth (PyBytes profile_payload))) (\<lambda>profile_record.
          and_then (validate_capsule_profile depth profile_record) (\<lambda>profile.
          if cp_capsule_kind profile \<noteq> lit (fst kind) \<or> cp_canonical_bytes profile \<noteq> profile_payload
             \<or> cp_archive_size profile \<noteq> int (length archive_payload) \<or> cp_archive_sha256 profile \<noteq> hexdigest (sha256 archive_payload)
             \<or> cp_source_lock_size profile \<noteq> int (length lock_payload) \<or> cp_source_lock_sha256 profile \<noteq> hexdigest (sha256 lock_payload)
          then capsule_fail ''archive/profile/source-lock identity differs''
          else Inr (PyStr (lit (fst kind)), PyDict
            [(PyStr (lit ''archive''), identity_record (fst (snd kind)) (length archive_payload) (cp_archive_sha256 profile)),
             (PyStr (lit ''profile''), identity_record (snd (snd kind)) (length profile_payload) (cp_profile_sha256 profile))])))
      | _ \<Rightarrow> capsule_fail ''expected capsule inputs are not exact byte pairs'')"

definition make_expected_capsule_identity :: "nat \<Rightarrow> pyval \<Rightarrow> pyval \<Rightarrow> pyval py" where
  "make_expected_capsule_identity depth source_lock_payload artifacts_arg =
     and_then (validate_embedded_source_lock depth source_lock_payload) (\<lambda>_.
     case (source_lock_payload, artifacts_arg) of
       (PyBytes lock_payload, PyDict artifacts) \<Rightarrow>
         if set (map fst artifacts) \<noteq> set (map (PyStr \<circ> lit \<circ> fst) EXPECTED_CAPSULE_UNIT_PATHS)
         then capsule_fail ''expected capsule artifact population differs''
         else
         and_then (mapM (identity_of_kind depth lock_payload artifacts) EXPECTED_CAPSULE_UNIT_PATHS) (\<lambda>members.
           validate_expected_capsule_identity (PyDict
             [(PyStr (lit ''schema_version''), PyInt 1), (PyStr (lit ''record_type''), PyStr (lit ''cp2_d_expected_capsule_identity'')),
              (PyStr (lit ''checkpoint''), PyStr (lit ''CP2-D'')), (PyStr (lit ''formal_execution_permitted_by_this_record''), PyBool False),
              (PyStr (lit ''embedded_source_lock''), identity_record EXPECTED_CAPSULE_SOURCE_LOCK_PATH (length lock_payload) (hexdigest (sha256 lock_payload))),
              (PyStr (lit ''unit_artifact_members''), PyDict members)]))
     | _ \<Rightarrow> capsule_fail ''expected capsule artifact population differs'')"

text \<open>
  Two validated records have the same keys, paths and header; they are equal as Python values
  exactly when their sizes and digests agree.
\<close>

definition as_items :: "pyval \<Rightarrow> (pyval \<times> pyval) list" where
  "as_items value = (case value of PyDict d \<Rightarrow> d | _ \<Rightarrow> [])"

definition item_leaves :: "pyval \<Rightarrow> pyval list" where
  "item_leaves value = [capsule_field (as_items value) ''size_bytes'', capsule_field (as_items value) ''sha256'']"

definition identity_leaves :: "pyval \<Rightarrow> pyval list" where
  "identity_leaves value =
     item_leaves (capsule_field (as_items value) ''embedded_source_lock'') @
     concat (map (\<lambda>kind. let pair = as_items (capsule_field (as_items (capsule_field (as_items value) ''unit_artifact_members'')) (fst kind)) in
       item_leaves (capsule_field pair ''archive'') @ item_leaves (capsule_field pair ''profile'')) EXPECTED_CAPSULE_UNIT_PATHS)"

definition verify_expected_capsule_identity :: "nat \<Rightarrow> pyval \<Rightarrow> pyval \<Rightarrow> pyval \<Rightarrow> unit py" where
  "verify_expected_capsule_identity depth value source_lock_payload artifacts =
     and_then (validate_expected_capsule_identity value) (\<lambda>retained.
     and_then (make_expected_capsule_identity depth source_lock_payload artifacts) (\<lambda>reconstructed.
       if identity_leaves retained \<noteq> identity_leaves reconstructed
       then capsule_fail ''external expected capsule identity differs from exact artifacts'' else Inr ()))"

end
