(* ===== verification/Capsule_Correct.thy ===== *)
theory Capsule_Correct
  imports Capsule F64_Codec_Correct
begin

text \<open>
  Correctness of the capsule format. A reader of the archive is a decoder with its encoder: the
  locale states the two laws, the readers of u64 fields, length-prefixed fields and fixed fields
  are its instances, and the member parser is composed of them.
\<close>

section \<open>Stream readers\<close>

locale stream_reader =
  fixes enc :: "'a \<Rightarrow> bytes" and ok :: "'a \<Rightarrow> bool" and dec :: "bytes \<Rightarrow> ('a \<times> bytes) py"
  assumes dec_enc: "ok x \<Longrightarrow> dec (enc x @ r) = Inr (x, r)"
    and dec_sound: "dec b = Inr (x, r) \<Longrightarrow> ok x \<and> b = enc x @ r"
begin

lemma dec_iff: "dec b = Inr (x, r) \<longleftrightarrow> ok x \<and> b = enc x @ r"
  using dec_enc dec_sound by auto

lemma prefix_free: "ok x \<Longrightarrow> ok y \<Longrightarrow> enc x @ r = enc y @ s \<Longrightarrow> x = y \<and> r = s"
  using dec_enc by (metis Inr_inject Pair_inject)

end

interpretation fixed_reader: stream_reader "\<lambda>b. b" "\<lambda>b. length b = k" "reader_read k" for k
  by unfold_locales (auto simp: reader_read_def split: if_splits)

interpretation u64_reader: stream_reader "to_bytes 8" "\<lambda>n. n < 2 ^ 64" reader_u64
proof
  show "reader_u64 (to_bytes 8 x @ r) = Inr (x, r)" if "x < 2 ^ 64" for x r
    using that by (simp add: reader_u64_def reader_read_def from_to_bytes)
  show "x < 2 ^ 64 \<and> b = to_bytes 8 x @ r" if h: "reader_u64 b = Inr (x, r)" for b x r
  proof -
    obtain f where f: "length f = 8" "b = f @ r" "x = from_bytes f"
      using h unfolding reader_u64_def and_then_eq_Inr by (auto simp: fixed_reader.dec_iff)
    then show ?thesis using from_bytes_less [of f] to_from_bytes [of f] by simp
  qed
qed

definition lp_ok :: "nat \<Rightarrow> bytes \<Rightarrow> bool" where
  "lp_ok maximum b \<longleftrightarrow> b \<noteq> [] \<and> length b \<le> maximum \<and> length b < 2 ^ 64"

interpretation lp_reader: stream_reader length_prefix "lp_ok maximum" "reader_lp maximum" for maximum
proof
  show "reader_lp maximum (length_prefix x @ r) = Inr (x, r)" if "lp_ok maximum x" for x r
    using that by (simp add: lp_ok_def reader_lp_def length_prefix_def u64_reader.dec_enc fixed_reader.dec_enc)
  show "lp_ok maximum x \<and> b = length_prefix x @ r" if "reader_lp maximum b = Inr (x, r)" for b x r
    using that unfolding reader_lp_def and_then_eq_Inr
    by (auto simp: u64_reader.dec_iff fixed_reader.dec_iff lp_ok_def length_prefix_def)
qed

section \<open>Entries\<close>

lemma capsule_relpath_Inr:
  "capsule_relpath v = Inr s \<Longrightarrow> v = PyStr s \<and> s \<noteq> [] \<and> list_all (\<lambda>c. c < 128) s \<and> length s \<le> 1024"
  by (auto simp: capsule_relpath_def is_ascii_text_def MAX_PATH_BYTES_def split: pyval.splits if_splits)

lemma capsule_u64_Inr: "capsule_u64 v = Inr n \<longleftrightarrow> v = PyInt n \<and> 0 \<le> n \<and> n < 2 ^ 64"
  by (auto simp: capsule_u64_def split: pyval.splits)

lemma capsule_sha_Inr: "capsule_sha v = Inr s \<longleftrightarrow> v = PyStr s \<and> lower_hex_exactly 64 s"
  by (auto simp: capsule_sha_def validate_sha256_def split: pyval.splits)

lemma file_role_shape: "role \<in> set FILE_ROLES \<Longrightarrow> role \<noteq> [] \<and> list_all (\<lambda>c. c < 128) role \<and> length role \<le> 64"
  by (auto simp: FILE_ROLES_def lit_def)

lemma make_capsule_entry_Inr:
  "make_capsule_entry p r m z d = Inr e \<longleftrightarrow>
   p = PyStr (ce_path e) \<and> r = PyStr (ce_role e) \<and> m = PyInt (ce_mode e) \<and> z = PyInt (ce_size e) \<and> d = PyStr (ce_sha256 e) \<and>
   capsule_relpath p = Inr (ce_path e) \<and> ce_role e \<in> set FILE_ROLES \<and> ce_mode e \<in> set FILE_MODES \<and>
   ((ce_role e \<in> set EXECUTABLE_ROLES) = (ce_mode e = 365)) \<and> 0 \<le> ce_size e \<and> ce_size e \<le> int MAX_MEMBER_BYTES \<and>
   lower_hex_exactly 64 (ce_sha256 e)"
proof -
  have modes: "x \<in> set FILE_MODES \<Longrightarrow> 0 \<le> x \<and> x < 2 ^ 64" for x by (auto simp: FILE_MODES_def)
  show ?thesis
    by (cases r; cases e)
      (auto simp: make_capsule_entry_def capsule_u64_Inr capsule_sha_Inr MAX_MEMBER_BYTES_def dest: modes capsule_relpath_Inr)
qed

lemma entry_ok_iff:
  "entry_ok e \<longleftrightarrow> capsule_relpath (PyStr (ce_path e)) = Inr (ce_path e) \<and> ce_role e \<in> set FILE_ROLES \<and> ce_mode e \<in> set FILE_MODES \<and>
   ((ce_role e \<in> set EXECUTABLE_ROLES) = (ce_mode e = 365)) \<and> 0 \<le> ce_size e \<and> ce_size e \<le> int MAX_MEMBER_BYTES \<and>
   lower_hex_exactly 64 (ce_sha256 e)"
  by (simp add: entry_ok_def make_capsule_entry_Inr)

lemma make_capsule_entry_ok:
  "make_capsule_entry p r m z d = Inr e \<longleftrightarrow>
   p = PyStr (ce_path e) \<and> r = PyStr (ce_role e) \<and> m = PyInt (ce_mode e) \<and> z = PyInt (ce_size e) \<and> d = PyStr (ce_sha256 e) \<and> entry_ok e"
  by (auto simp: make_capsule_entry_Inr entry_ok_iff)

lemma member_ok_iff:
  "member_ok m \<longleftrightarrow> entry_ok (cm_entry m) \<and> int (length (cm_payload m)) = ce_size (cm_entry m) \<and>
   hexdigest (sha256 (cm_payload m)) = ce_sha256 (cm_entry m)"
  by (auto simp: member_ok_def make_member_def)

lemma ascii_round_trip: "list_all (\<lambda>c. c < 128) s \<Longrightarrow> map unat (ascii_bytes s) = s \<and> list_all (\<lambda>x. unat x < 128) (ascii_bytes s)"
  by (induction s) (auto simp: ascii_bytes_def unat_of_nat)

lemma decode_ascii_iff: "decode_ascii b = Inr s \<longleftrightarrow> b = ascii_bytes s \<and> list_all (\<lambda>c. c < 128) s"
proof
  assume "decode_ascii b = Inr s"
  then have "s = map unat b" "list_all (\<lambda>x. unat x < 128) b" by (auto simp: decode_ascii_def split: if_splits)
  then show "b = ascii_bytes s \<and> list_all (\<lambda>c. c < 128) s" by (induction b arbitrary: s) (auto simp: ascii_bytes_def)
next
  assume "b = ascii_bytes s \<and> list_all (\<lambda>c. c < 128) s"
  then show "decode_ascii b = Inr s" using ascii_round_trip [of s] by (simp add: decode_ascii_def)
qed

lemma length_ascii_bytes [simp]: "length (ascii_bytes s) = length s" "ascii_bytes s = [] \<longleftrightarrow> s = []"
  by (simp_all add: ascii_bytes_def)

lemma entry_ok_shape:
  assumes "entry_ok e"
  shows "ce_path e \<noteq> []" "length (ce_path e) \<le> 1024" "list_all (\<lambda>c. c < 128) (ce_path e)"
    "ce_role e \<noteq> []" "length (ce_role e) \<le> 64" "list_all (\<lambda>c. c < 128) (ce_role e)"
    "0 \<le> ce_mode e" "ce_mode e < 2 ^ 64" "0 \<le> ce_size e" "ce_size e \<le> 536870912" "lower_hex_exactly 64 (ce_sha256 e)"
  using assms capsule_relpath_Inr [of "PyStr (ce_path e)" "ce_path e"] file_role_shape [of "ce_role e"]
  by (auto simp: entry_ok_iff FILE_MODES_def MAX_MEMBER_BYTES_def)


section \<open>Members\<close>

lemma checked_add_iff: "checked_add a b m = Inr c \<longleftrightarrow> c = a + b \<and> a + b \<le> m"
  by (auto simp: checked_add_def)

lemma sha_header:
  assumes "lower_hex_exactly 64 s"
  shows "length (bytes_fromhex s) = 32" "hexdigest (bytes_fromhex s) = s"
  using hexdigest_fromhex [of 32 s] assms by simp_all

lemma parse_member_built:
  assumes "member_ok m" "acc + length (cm_payload m) \<le> MAX_ARCHIVE_BYTES"
  shows "parse_member acc (entry_header (cm_entry m) @ cm_payload m @ r) =
    Inr (cm_entry m, cm_payload m, acc + length (cm_payload m), r)"
proof -
  let ?e = "cm_entry m"
  have e: "entry_ok ?e" and z: "nat (ce_size ?e) = length (cm_payload m)" "ce_size ?e = int (length (cm_payload m))"
    and d: "hexdigest (sha256 (cm_payload m)) = ce_sha256 ?e" using assms(1) by (auto simp: member_ok_iff)
  note s = entry_ok_shape [OF e]
  have lp: "lp_ok MAX_PATH_BYTES (ascii_bytes (ce_path ?e))" "lp_ok MAX_ROLE_BYTES (ascii_bytes (ce_role ?e))"
    using s by (simp_all add: lp_ok_def MAX_PATH_BYTES_def MAX_ROLE_BYTES_def)
  have a: "decode_ascii (ascii_bytes (ce_path ?e)) = Inr (ce_path ?e)" "decode_ascii (ascii_bytes (ce_role ?e)) = Inr (ce_role ?e)"
    using s by (simp_all add: decode_ascii_iff)
  have n: "nat (ce_mode ?e) < 2 ^ 64" "int (nat (ce_mode ?e)) = ce_mode ?e" "length (cm_payload m) < 2 ^ 64" "length (cm_payload m) \<le> MAX_MEMBER_BYTES"
    using s z by (auto simp: MAX_MEMBER_BYTES_def)
  have mk: "make_capsule_entry (PyStr (ce_path ?e)) (PyStr (ce_role ?e)) (PyInt (ce_mode ?e)) (PyInt (int (length (cm_payload m)))) (PyStr (ce_sha256 ?e)) = Inr ?e"
    using e z by (simp add: make_capsule_entry_ok)
  show ?thesis
    by (simp add: parse_member_def entry_header_def lp_reader.dec_enc lp a u64_reader.dec_enc [OF n(1)] u64_reader.dec_enc [OF n(3)] s(7) n(4) not_less [THEN iffD2, OF n(4)] z(1) fixed_reader.dec_enc
        sha_header [OF s(11)] mk d checked_add_iff [THEN iffD2, OF conjI [OF refl assms(2)]] del: and_then_eq_Inr)
qed

lemma parse_member_sound:
  assumes "parse_member acc b = Inr (e, p, acc', r)"
  shows "member_ok \<lparr>cm_entry = e, cm_payload = p\<rparr> \<and> acc' = acc + length p \<and> acc' \<le> MAX_ARCHIVE_BYTES \<and> b = entry_header e @ p @ r"
proof -
  obtain path role m z d r1 r2 r3 r4 r5 where
    h: "lp_ok MAX_PATH_BYTES (ascii_bytes path)" "b = length_prefix (ascii_bytes path) @ r1"
       "lp_ok MAX_ROLE_BYTES (ascii_bytes role)" "r1 = length_prefix (ascii_bytes role) @ r2"
       "m < 2 ^ 64" "r2 = to_bytes 8 m @ r3" "z < 2 ^ 64" "r3 = to_bytes 8 z @ r4" "length d = 32" "r4 = d @ r5"
       "acc' = acc + z" "acc + z \<le> MAX_ARCHIVE_BYTES" "length p = z" "r5 = p @ r"
       "make_capsule_entry (PyStr path) (PyStr role) (PyInt (int m)) (PyInt (int z)) (PyStr (hexdigest d)) = Inr e"
       "hexdigest (sha256 p) = hexdigest d"
    using assms unfolding parse_member_def and_then_eq_Inr
    by (auto simp: lp_reader.dec_iff u64_reader.dec_iff fixed_reader.dec_iff decode_ascii_iff checked_add_iff split: if_splits)
  then have e: "entry_ok e" "ce_path e = path" "ce_role e = role" "ce_mode e = int m" "ce_size e = int z" "ce_sha256 e = hexdigest d"
    by (auto simp: make_capsule_entry_ok)
  then show ?thesis using h by (simp add: member_ok_iff entry_header_def fromhex_hexdigest)
qed

definition member_bytes :: "capsule_member \<Rightarrow> bytes" where
  "member_bytes m = entry_header (cm_entry m) @ cm_payload m"

definition members_of :: "capsule_entry list \<Rightarrow> bytes list \<Rightarrow> capsule_member list" where
  "members_of es ps = map2 (\<lambda>e p. \<lparr>cm_entry = e, cm_payload = p\<rparr>) es ps"

definition payload_total :: "capsule_member list \<Rightarrow> nat" where
  "payload_total ms = sum_list (map (\<lambda>m. length (cm_payload m)) ms)"

lemma parse_members_built:
  "list_all member_ok ms \<Longrightarrow> acc + payload_total ms \<le> MAX_ARCHIVE_BYTES \<Longrightarrow>
   parse_members (length ms) acc (concat (map member_bytes ms) @ r) = Inr (map cm_entry ms, map cm_payload ms, r)"
proof (induction ms arbitrary: acc)
  case (Cons m ms)
  then have "parse_members (length ms) (acc + length (cm_payload m)) (concat (map member_bytes ms) @ r) = Inr (map cm_entry ms, map cm_payload ms, r)"
    by (simp add: payload_total_def)
  moreover have "parse_member acc (entry_header (cm_entry m) @ cm_payload m @ concat (map member_bytes ms) @ r) =
      Inr (cm_entry m, cm_payload m, acc + length (cm_payload m), concat (map member_bytes ms) @ r)"
    using Cons.prems by (intro parse_member_built) (auto simp: payload_total_def)
  ultimately show ?case by (simp add: member_bytes_def [of m] del: and_then_eq_Inr)
qed simp

lemma parse_members_sound:
  "parse_members n acc b = Inr (es, ps, r) \<Longrightarrow>
   length es = n \<and> length ps = n \<and> list_all member_ok (members_of es ps) \<and> b = concat (map member_bytes (members_of es ps)) @ r"
proof (induction n arbitrary: acc b es ps)
  case (Suc n)
  then obtain e p acc' b' es' ps' where h: "parse_member acc b = Inr (e, p, acc', b')" "parse_members n acc' b' = Inr (es', ps', r)"
    "es = e # es'" "ps = p # ps'" by (auto split: prod.splits)
  then show ?case using parse_member_sound [OF h(1)] Suc.IH [OF h(2)] by (simp add: members_of_def member_bytes_def)
qed (simp add: members_of_def)

section \<open>The archive\<close>

lemma length_entry_header:
  "entry_ok e \<Longrightarrow> length (entry_header e) = 8 + length (ce_path e) + 8 + length (ce_role e) + 8 + 8 + 32"
  using entry_ok_shape(11) [of e] by (simp add: entry_header_def length_prefix_def sha_header)

lemma frame_step_iff:
  assumes "member_ok m"
  shows "frame_step out m = Inr b \<longleftrightarrow> b = out @ member_bytes m \<and> length b \<le> MAX_IN_MEMORY_ARCHIVE_BYTES"
proof -
  have "length (member_bytes m) = 8 + length (ce_path (cm_entry m)) + 8 + length (ce_role (cm_entry m)) + 8 + 8 + 32 + nat (ce_size (cm_entry m))"
    using assms length_entry_header [of "cm_entry m"] by (auto simp: member_bytes_def member_ok_iff)
  then show ?thesis by (auto simp: frame_step_def Let_def member_bytes_def)
qed

lemma frames_iff:
  "list_all member_ok ms \<Longrightarrow>
   foldM frame_step out ms = Inr b \<longleftrightarrow> b = out @ concat (map member_bytes ms) \<and> (ms = [] \<or> length b \<le> MAX_IN_MEMORY_ARCHIVE_BYTES)"
proof (induction ms arbitrary: out)
  case (Cons m ms)
  then have "foldM frame_step out (m # ms) = Inr b \<longleftrightarrow>
      (\<exists>o'. o' = out @ member_bytes m \<and> length o' \<le> MAX_IN_MEMORY_ARCHIVE_BYTES \<and>
        b = o' @ concat (map member_bytes ms) \<and> (ms = [] \<or> length b \<le> MAX_IN_MEMORY_ARCHIVE_BYTES))"
    by (auto simp: frame_step_iff)
  then show ?case by auto
qed auto

lemma validated_entries_Inr: "validated_entries es = Inr vs \<Longrightarrow> vs = es \<and> es \<noteq> [] \<and> length es \<le> MAX_MEMBER_COUNT \<and> list_all entry_ok es"
  by (auto simp: validated_entries_def bounded_tuple_def Let_def list_ex_iff list_all_iff split: if_splits)

lemma entry_steps_bound: "foldM (entry_step S) acc es = Inr t \<Longrightarrow> t = acc + sum_list (map (\<lambda>e. nat (ce_size e)) es) \<and> (es = [] \<or> t \<le> MAX_ARCHIVE_BYTES)"
proof (induction es arbitrary: acc)
  case (Cons e es)
  then obtain acc' where "entry_step S acc e = Inr acc'" "foldM (entry_step S) acc' es = Inr t" by auto
  moreover from this(1) have "acc' = acc + nat (ce_size e)" "acc' \<le> MAX_ARCHIVE_BYTES"
    by (auto simp: entry_step_def checked_add_iff split: if_splits)
  ultimately show ?case using Cons.IH [of acc'] by (cases es) auto
qed simp

lemma validated_entries_total: "validated_entries es = Inr vs \<Longrightarrow> sum_list (map (\<lambda>e. nat (ce_size e)) es) \<le> MAX_ARCHIVE_BYTES"
  using entry_steps_bound [of "ce_path ` set es" 0 es]
  by (auto simp: validated_entries_def bounded_tuple_def Let_def split: if_splits)

lemma payload_total_entries: "list_all member_ok ms \<Longrightarrow> payload_total ms = sum_list (map (\<lambda>e. nat (ce_size e)) (map cm_entry ms))"
  unfolding payload_total_def by (induction ms) (auto simp: member_ok_iff)

lemma encode_capsule_iff:
  "encode_capsule ms = Inr b \<longleftrightarrow>
   list_all member_ok ms \<and> validated_entries (map cm_entry ms) = Inr (map cm_entry ms) \<and>
   b = CAPSULE_MAGIC @ to_bytes 8 (length ms) @ concat (map member_bytes ms) \<and> length b \<le> MAX_IN_MEMORY_ARCHIVE_BYTES"
proof (cases "list_all member_ok ms")
  case ok: True
  have v: "(\<exists>vs. validated_entries (map cm_entry ms) = Inr vs \<and> Q) \<longleftrightarrow> validated_entries (map cm_entry ms) = Inr (map cm_entry ms) \<and> Q" for Q
    using validated_entries_Inr by metis
  have "length ms \<le> MAX_MEMBER_COUNT \<and> ms \<noteq> []" if "validated_entries (map cm_entry ms) = Inr (map cm_entry ms)"
    using validated_entries_Inr [OF that] by simp
  then show ?thesis using ok frames_iff [OF ok, of "CAPSULE_MAGIC @ to_bytes 8 (length ms)" b]
    unfolding encode_capsule_def and_then_eq_Inr v by (auto simp: bounded_tuple_def list_ex_iff list_all_iff dest: validated_entries_Inr)
next
  case False
  then show ?thesis by (auto simp: encode_capsule_def bounded_tuple_def list_ex_iff list_all_iff split: if_splits)
qed

lemma members_of_map: "members_of (map cm_entry ms) (map cm_payload ms) = ms"
  by (induction ms) (auto simp: members_of_def)

lemma map_members_of:
  assumes "length es = length ps"
  shows "map cm_entry (members_of es ps) = es" "map cm_payload (members_of es ps) = ps" "length (members_of es ps) = length ps"
  using assms by (induction es ps rule: list_induct2) (auto simp: members_of_def)

definition parsed_of :: "capsule_entry list \<Rightarrow> bytes list \<Rightarrow> parsed_capsule" where
  "parsed_of es ps =
     (let canonical = INVENTORY_MAGIC @ to_bytes 8 (length es) @ concat (map entry_header es) in
      \<lparr>pc_entries = es, pc_payloads = ps, pc_inventory_bytes = canonical, pc_inventory_sha256 = hexdigest (sha256 canonical)\<rparr>)"

lemma parse_capsule_iff:
  "parse_capsule_bytes (PyBytes b) PyNone = Inr p \<longleftrightarrow>
   (\<exists>n es ps. length b \<le> MAX_IN_MEMORY_ARCHIVE_BYTES \<and> n \<noteq> 0 \<and> n \<le> MAX_MEMBER_COUNT \<and>
     (\<exists>r. b = CAPSULE_MAGIC @ to_bytes 8 n @ r \<and> parse_members n 0 r = Inr (es, ps, [])) \<and>
     validated_entries es = Inr es \<and> p = parsed_of es ps)"
proof -
  have v: "validated_entries es = Inr vs \<longleftrightarrow> vs = es \<and> validated_entries es = Inr es" for es vs
    using validated_entries_Inr by auto
  have c: "canonical_inventory_bytes es = Inr c \<longleftrightarrow>
      validated_entries es = Inr es \<and> c = INVENTORY_MAGIC @ to_bytes 8 (length es) @ concat (map entry_header es)" for es c
    unfolding canonical_inventory_bytes_def and_then_eq_Inr by (subst v) auto
  show ?thesis
  proof
    assume "parse_capsule_bytes (PyBytes b) PyNone = Inr p"
    then show "\<exists>n es ps. length b \<le> MAX_IN_MEMORY_ARCHIVE_BYTES \<and> n \<noteq> 0 \<and> n \<le> MAX_MEMBER_COUNT \<and>
     (\<exists>r. b = CAPSULE_MAGIC @ to_bytes 8 n @ r \<and> parse_members n 0 r = Inr (es, ps, [])) \<and>
     validated_entries es = Inr es \<and> p = parsed_of es ps"
      unfolding parse_capsule_bytes_def
      by (auto simp: fixed_reader.dec_iff u64_reader.dec_iff c parsed_of_def Let_def not_less dest: validated_entries_Inr split: if_splits)
  next
    assume "\<exists>n es ps. length b \<le> MAX_IN_MEMORY_ARCHIVE_BYTES \<and> n \<noteq> 0 \<and> n \<le> MAX_MEMBER_COUNT \<and>
     (\<exists>r. b = CAPSULE_MAGIC @ to_bytes 8 n @ r \<and> parse_members n 0 r = Inr (es, ps, [])) \<and>
     validated_entries es = Inr es \<and> p = parsed_of es ps"
    then obtain n es ps r where h: "length b \<le> MAX_IN_MEMORY_ARCHIVE_BYTES" "n \<noteq> 0" "n \<le> MAX_MEMBER_COUNT"
      "b = CAPSULE_MAGIC @ to_bytes 8 n @ r" "parse_members n 0 r = Inr (es, ps, [])" "validated_entries es = Inr es" "p = parsed_of es ps"
      by blast
    have n: "n < 2 ^ 64" using h(3) by (simp add: MAX_MEMBER_COUNT_def)
    have cc: "canonical_inventory_bytes es = Inr (INVENTORY_MAGIC @ to_bytes 8 (length es) @ concat (map entry_header es))" using c h(6) by blast
    show "parse_capsule_bytes (PyBytes b) PyNone = Inr p"
      unfolding parse_capsule_bytes_def h(4) using h(1) [unfolded h(4)]
      by (simp add: fixed_reader.dec_enc u64_reader.dec_enc [OF n] h(2,5,6,7) not_less [THEN iffD2, OF h(3)] cc parsed_of_def Let_def del: and_then_eq_Inr)
  qed
qed

text \<open>
  C7. The archive format is a bijection between accepted member lists and accepted documents: the
  encoder writes a document for a list of members exactly when the parser reads that document back as
  the same entries and payloads, with the canonical inventory of those entries and its digest.
\<close>

theorem capsule_codec_bijective:
  "encode_capsule ms = Inr b \<longleftrightarrow>
   (\<exists>p. parse_capsule_bytes (PyBytes b) PyNone = Inr p \<and> pc_entries p = map cm_entry ms \<and> pc_payloads p = map cm_payload ms \<and>
        canonical_inventory_bytes (map cm_entry ms) = Inr (pc_inventory_bytes p) \<and>
        inventory_sha256 (map cm_entry ms) = Inr (pc_inventory_sha256 p))"
  (is "?E \<longleftrightarrow> (\<exists>p. ?P p)")
proof
  assume ?E
  then have h: "list_all member_ok ms" "validated_entries (map cm_entry ms) = Inr (map cm_entry ms)"
    "b = CAPSULE_MAGIC @ to_bytes 8 (length ms) @ concat (map member_bytes ms) @ []" "length b \<le> MAX_IN_MEMORY_ARCHIVE_BYTES"
    unfolding encode_capsule_iff by auto
  have pm: "parse_members (length ms) 0 (concat (map member_bytes ms) @ []) = Inr (map cm_entry ms, map cm_payload ms, [])"
    using validated_entries_total [OF h(2)] payload_total_entries [OF h(1)] by (intro parse_members_built [OF h(1)]) simp
  have "length ms \<noteq> 0 \<and> length ms \<le> MAX_MEMBER_COUNT" using validated_entries_Inr [OF h(2)] by simp
  then have "parse_capsule_bytes (PyBytes b) PyNone = Inr (parsed_of (map cm_entry ms) (map cm_payload ms))"
    unfolding parse_capsule_iff using pm h(2-4) by blast
  moreover have "canonical_inventory_bytes (map cm_entry ms) = Inr (pc_inventory_bytes (parsed_of (map cm_entry ms) (map cm_payload ms)))"
    using h(2) by (simp add: canonical_inventory_bytes_def parsed_of_def Let_def del: and_then_eq_Inr)
  ultimately have "?P (parsed_of (map cm_entry ms) (map cm_payload ms))"
    by (simp add: parsed_of_def Let_def inventory_sha256_def)
  then show "\<exists>p. ?P p" ..
next
  assume "\<exists>p. ?P p"
  then obtain p where p: "?P p" ..
  obtain n es ps r where h: "length b \<le> MAX_IN_MEMORY_ARCHIVE_BYTES" "b = CAPSULE_MAGIC @ to_bytes 8 n @ r"
      "parse_members n 0 r = Inr (es, ps, [])" "validated_entries es = Inr es" "p = parsed_of es ps"
    using p unfolding parse_capsule_iff by blast
  have q: "es = map cm_entry ms" "ps = map cm_payload ms" using p h(5) by (auto simp: parsed_of_def Let_def)
  have "n = length ms" "list_all member_ok ms" "r = concat (map member_bytes ms)"
    using parse_members_sound [OF h(3)] unfolding q members_of_map by auto
  then show ?E using h(1,2,4) unfolding encode_capsule_iff q by simp
qed

text \<open>One source-lock member: constructed, encoded and read back.\<close>

lemma sample_member:
  "\<exists>m. make_capsule_member (PyStr (lit ''a/b'')) (PyStr (lit ''source_lock'')) (PyInt 292) (PyBytes [1]) = Inr m \<and> member_ok m \<and>
     ce_path (cm_entry m) = lit ''a/b'' \<and> ce_size (cm_entry m) = 1 \<and> ce_role (cm_entry m) = lit ''source_lock''"
proof -
  let ?e = "\<lparr>ce_path = lit ''a/b'', ce_role = lit ''source_lock'', ce_mode = 292, ce_size = 1, ce_sha256 = hexdigest (sha256 [1])\<rparr>"
  have "capsule_relpath (PyStr (lit ''a/b'')) = Inr (lit ''a/b'')"
    by (simp add: capsule_relpath_def lit_def is_ascii_text_def MAX_PATH_BYTES_def MAX_PATH_COMPONENT_BYTES_def PATH_COMPONENT_def is_alnum_def)
  moreover have "lower_hex_exactly 64 (hexdigest (sha256 [1]))" using hexdigest_shape [of "sha256 [1]"] by simp
  ultimately have e: "entry_ok ?e"
    by (auto simp: entry_ok_iff FILE_ROLES_def FILE_MODES_def EXECUTABLE_ROLES_def MAX_MEMBER_BYTES_def lit_def)
  then have "make_capsule_entry (PyStr (lit ''a/b'')) (PyStr (lit ''source_lock'')) (PyInt 292) (PyInt 1) (PyStr (hexdigest (sha256 [1]))) = Inr ?e"
    by (simp add: make_capsule_entry_ok)
  then show ?thesis using e
    by (intro exI [of _ "\<lparr>cm_entry = ?e, cm_payload = [1]\<rparr>"]) (simp add: make_capsule_member_def make_member_def member_ok_iff)
qed

lemma sample_capsule_encodes:
  assumes "member_ok m" "ce_size (cm_entry m) = 1" "ce_path (cm_entry m) = lit ''a/b''" "ce_role (cm_entry m) = lit ''source_lock''"
  shows "\<exists>b. encode_capsule [m] = Inr b"
proof -
  have e: "entry_ok (cm_entry m)" "length (cm_payload m) = 1" using assms by (auto simp: member_ok_iff)
  have "path_ancestors (lit ''a/b'') = [lit ''a'']" by (simp add: path_ancestors_def lit_def join_with_def upt_rec)
  then have "validated_entries [cm_entry m] = Inr [cm_entry m]"
    using e assms(2,3) by (simp add: validated_entries_def bounded_tuple_def MAX_MEMBER_COUNT_def entry_step_def checked_add_def MAX_ARCHIVE_BYTES_def lit_def)
  moreover have "length (CAPSULE_MAGIC @ to_bytes 8 (length [m]) @ concat (map member_bytes [m])) \<le> MAX_IN_MEMORY_ARCHIVE_BYTES"
    using assms e length_entry_header [OF e(1)] by (simp add: member_bytes_def CAPSULE_MAGIC_def blit_def MAX_IN_MEMORY_ARCHIVE_BYTES_def lit_def)
  ultimately show ?thesis using assms(1) encode_capsule_iff [of "[m]"] by auto
qed

theorem capsule_codec_bijective_witness:
  "\<exists>m b p. make_capsule_member (PyStr (lit ''a/b'')) (PyStr (lit ''source_lock'')) (PyInt 292) (PyBytes [1]) = Inr m \<and>
     encode_capsule [m] = Inr b \<and> parse_capsule_bytes (PyBytes b) PyNone = Inr p \<and> pc_payloads p = map cm_payload [m]"
  using sample_member sample_capsule_encodes capsule_codec_bijective by metis

end
