(* ===== verification/Capsule_Profile_Correct.thy ===== *)
theory Capsule_Profile_Correct
  imports Capsule_Profile Capsule_Correct
begin

text \<open>
  Correctness of the records around a capsule: the source lock is free of output identities at every
  depth, search paths stay inside the capsule root, and an accepted native closure resolves every
  needed library exactly once inside the capsule.
\<close>

section \<open>The source lock\<close>

text \<open>The values that occur in a value, at any depth of lists and mappings.\<close>

inductive occurs_in :: "pyval \<Rightarrow> pyval \<Rightarrow> bool" where
  occurs_refl: "occurs_in v v"
| occurs_list: "x \<in> set xs \<Longrightarrow> occurs_in v x \<Longrightarrow> occurs_in v (PyList xs)"
| occurs_dict: "(k, c) \<in> set d \<Longrightarrow> occurs_in v c \<Longrightarrow> occurs_in v (PyDict d)"

inductive_simps occurs_PyList: "occurs_in v (PyList xs)"
inductive_simps occurs_PyDict: "occurs_in v (PyDict d)"

definition lock_clean :: "pyval \<Rightarrow> bool" where
  "lock_clean v \<longleftrightarrow> (\<forall>d k c. occurs_in (PyDict d) v \<longrightarrow> (k, c) \<in> set d \<longrightarrow> lock_key k c = Inr ())"

lemma lock_clean_simps [simp]:
  "lock_clean (PyList xs) \<longleftrightarrow> (\<forall>x \<in> set xs. lock_clean x)"
  "lock_clean (PyDict d) \<longleftrightarrow> (\<forall>(k, c) \<in> set d. lock_key k c = Inr () \<and> lock_clean c)"
  unfolding lock_clean_def occurs_PyList occurs_PyDict by blast+

lemma lock_clean_scalar:
  "(\<forall>d. v \<noteq> PyDict d) \<Longrightarrow> (\<forall>xs. v \<noteq> PyList xs) \<Longrightarrow> lock_clean v"
  by (auto simp: lock_clean_def elim: occurs_in.cases)

lemma visit_lock_clean:
  "visit_lock v = Inr () \<longleftrightarrow> lock_clean v"
  "visit_lock_list xs = Inr () \<longleftrightarrow> (\<forall>x \<in> set xs. lock_clean x)"
  "visit_lock_items d = Inr () \<longleftrightarrow> (\<forall>(k, c) \<in> set d. lock_key k c = Inr () \<and> lock_clean c)"
proof (induction v and xs and d rule: visit_lock_visit_lock_list_visit_lock_items.induct)
qed (auto simp: lock_clean_scalar)

text \<open>
  C37. An accepted embedded source lock is acyclic: at every depth of the record, no mapping has one of
  the forbidden output-identity keys, and no \<^verbatim>\<open>archive\<close> or \<^verbatim>\<open>profile\<close> entry is an object with a digest or
  size.
\<close>

theorem source_lock_acyclic:
  assumes "validate_embedded_source_lock depth payload = Inr rec" "occurs_in (PyDict d) rec" "(k, c) \<in> set d"
  shows "\<exists>key. k = PyStr key \<and> key \<notin> set SOURCE_LOCK_FORBIDDEN_OUTPUT_KEYS \<and>
    (key \<in> {lit ''archive'', lit ''profile''} \<longrightarrow> \<not> has_identity_member c)"
proof -
  have "visit_lock rec = Inr ()"
    using assms(1) by (auto simp: validate_embedded_source_lock_def)
  then have "lock_key k c = Inr ()" using assms(2,3) unfolding visit_lock_clean lock_clean_def by blast
  then show ?thesis by (auto simp: lock_key_def split: pyval.splits if_splits)
qed

definition SAMPLE_LOCK :: "(pyval \<times> pyval) list" where
  "SAMPLE_LOCK = [(PyStr (lit ''checkpoint''), PyStr (lit ''CP2-D'')),
     (PyStr (lit ''formal_execution_permitted_by_this_record''), PyBool False),
     (PyStr (lit ''record_type''), PyStr (lit ''cp2_d_minimal_two_capsule_source_lock'')), (PyStr (lit ''schema_version''), PyInt 2)]"

lemma sample_lock_normal: "json_normal 1 (PyDict SAMPLE_LOCK)"
  by (simp add: SAMPLE_LOCK_def One_nat_def scalar_normal_def lit_def is_scalar_def)

lemma sample_lock_short: "json_dumps False 1 (PyDict SAMPLE_LOCK) = Inr t \<Longrightarrow> length t \<le> 1000 \<and> list_all (\<lambda>c. c < 128) t"
  by (auto simp: SAMPLE_LOCK_def dump_object_def dump_member_def is_container_def quote_def lit_def escape_char_def int_repr_def dec_text.simps)

lemma capsule_utf8_ascii: "list_all (\<lambda>c. c < 128) t \<Longrightarrow> utf8_encode t = Some (ascii_bytes t)"
  by (induction t) (auto simp: utf8_encode_def is_scalar_def cp_octets_def ascii_bytes_def split: if_splits)

lemma sample_lock_accepted: "\<exists>raw. validate_embedded_source_lock 1 (PyBytes raw) = Inr (PyDict SAMPLE_LOCK)"
proof -
  obtain t where t: "json_dumps False 1 (PyDict SAMPLE_LOCK) = Inr t" "t \<noteq> []" "strict_json_loads 1 (PyStr t) = Inr (PyDict SAMPLE_LOCK)"
    using line_bytes_normal [OF sample_lock_normal] by blast
  have a: "length t \<le> 1000" "utf8_encode t = Some (ascii_bytes t)" using sample_lock_short [OF t(1)] capsule_utf8_ascii by auto
  have "strict_json_loads 1 (PyBytes (ascii_bytes t)) = Inr (PyDict SAMPLE_LOCK)"
    using t(3) utf8_decode_encode [OF a(2)] by (auto simp: strict_json_loads_def document_text_def)
  moreover have "ascii_bytes t \<noteq> []" "length (ascii_bytes t) \<le> MAX_SOURCE_LOCK_BYTES"
    using t(2) a(1) by (simp_all add: MAX_SOURCE_LOCK_BYTES_def)
  moreover have "visit_lock (PyDict SAMPLE_LOCK) = Inr ()"
    by (simp add: SAMPLE_LOCK_def lock_key_def SOURCE_LOCK_FORBIDDEN_OUTPUT_KEYS_def lit_def)
  ultimately show ?thesis
    by (intro exI [of _ "ascii_bytes t"])
      (simp add: validate_embedded_source_lock_def not_less SAMPLE_LOCK_def capsule_field_def str_is_def lit_def)
qed

theorem source_lock_acyclic_witness:
  "\<exists>raw rec. validate_embedded_source_lock 1 (PyBytes raw) = Inr rec \<and>
     (\<exists>key. PyStr (lit ''checkpoint'') = PyStr key \<and> key \<notin> set SOURCE_LOCK_FORBIDDEN_OUTPUT_KEYS \<and>
       (key \<in> {lit ''archive'', lit ''profile''} \<longrightarrow> \<not> has_identity_member (PyStr (lit ''CP2-D''))))"
proof -
  obtain raw where r: "validate_embedded_source_lock 1 (PyBytes raw) = Inr (PyDict SAMPLE_LOCK)" using sample_lock_accepted ..
  have m: "(PyStr (lit ''checkpoint''), PyStr (lit ''CP2-D'')) \<in> set SAMPLE_LOCK" by (simp add: SAMPLE_LOCK_def)
  from source_lock_acyclic [OF r occurs_refl m] r show ?thesis by blast
qed

section \<open>Search paths\<close>

definition component_safe :: "pystr \<Rightarrow> bool" where
  "component_safe c \<longleftrightarrow> PATH_COMPONENT c \<and> c \<noteq> lit ''.'' \<and> c \<noteq> lit ''..''"

lemma resolve_component_safe: "resolve_component r c = Inr r' \<Longrightarrow> list_all component_safe r \<Longrightarrow> list_all component_safe r'"
  by (auto simp: resolve_component_def component_safe_def list_all_iff dest: in_set_butlastD split: if_splits)

lemma resolve_components_safe: "foldM resolve_component r cs = Inr r' \<Longrightarrow> list_all component_safe r \<Longrightarrow> list_all component_safe r'"
  by (induction cs arbitrary: r) (auto dest: resolve_component_safe)

lemma relpath_components_safe: "capsule_relpath (PyStr p) = Inr p \<Longrightarrow> list_all component_safe (split_on 47 p)"
  by (auto simp: capsule_relpath_def component_safe_def list_ex_iff list_all_iff split: if_splits)

lemma parent_parts_safe: "capsule_relpath (PyStr p) = Inr p \<Longrightarrow> list_all component_safe (parent_parts p)"
  using relpath_components_safe [of p] by (auto simp: parent_parts_def list_all_iff dest: in_set_butlastD)

definition resolves_to :: "pystr \<Rightarrow> pystr \<Rightarrow> pystr \<Rightarrow> bool" where
  "resolves_to consumer text directory \<longleftrightarrow>
     (\<exists>suffix resolved. origin_suffix text = Inr suffix \<and> foldM resolve_component (parent_parts consumer) suffix = Inr resolved \<and>
        directory = path_text resolved \<and> list_all component_safe resolved)"

lemma search_fold:
  assumes "capsule_relpath (PyStr consumer) = Inr consumer"
  shows "foldM (search_step consumer allowed) st items = Inr st' \<Longrightarrow> distinct (fst st) \<Longrightarrow>
    list_all2 (\<lambda>t d. d \<in> allowed \<and> resolves_to consumer t d) (fst st) (snd st) \<Longrightarrow>
    distinct (fst st') \<and> list_all2 (\<lambda>t d. d \<in> allowed \<and> resolves_to consumer t d) (fst st') (snd st')"
proof (induction items arbitrary: st)
  case (Cons item items)
  then obtain st1 where s: "search_step consumer allowed st item = Inr st1" "foldM (search_step consumer allowed) st1 items = Inr st'" by auto
  then obtain t suffix resolved where h: "origin_suffix t = Inr suffix" "foldM resolve_component (parent_parts consumer) suffix = Inr resolved"
    "path_text resolved \<in> allowed" "t \<notin> set (fst st)" "st1 = (fst st @ [t], snd st @ [path_text resolved])"
    by (auto simp: search_step_def)
  have "resolves_to consumer t (path_text resolved)"
    using h(1,2) resolve_components_safe [OF h(2) parent_parts_safe [OF assms]] by (auto simp: resolves_to_def)
  then show ?case using Cons.IH [OF s(2)] Cons.prems(2,3) h(3-5) by (simp add: list_all2_appendI)
qed simp



section \<open>The native closure\<close>

definition edge_resolves :: "native_closure \<Rightarrow> native_edge \<Rightarrow> bool" where
  "edge_resolves cl e \<longleftrightarrow>
     ne_provider e \<in> set (cl_mapped_paths cl) \<and> parent_text (ne_provider e) \<in> set (cl_effective_library_directories cl) \<and>
     (\<exists>c \<in> set (cl_consumers cl). nc_path c = ne_provider e \<and> nc_soname c = ne_needed e)"

definition closure_complete :: "capsule_entry list \<Rightarrow> native_closure \<Rightarrow> bool" where
  "closure_complete entries cl \<longleftrightarrow>
     set (map nc_path (cl_consumers cl)) = role_path_set entries NATIVE_CONSUMER_ROLES \<and>
     set (cl_mapped_paths cl) = role_path_set entries (map lit [''native_loader'', ''native_library'']) \<and>
     (\<forall>c \<in> set (cl_consumers cl). \<forall>needed \<in> set (nc_needed c).
        (\<exists>!e. e \<in> set (cl_needed_edges cl) \<and> ne_consumer e = nc_path c \<and> ne_needed e = needed)) \<and>
     (\<forall>e \<in> set (cl_needed_edges cl). edge_resolves cl e \<and> (\<exists>c \<in> set (cl_consumers cl). nc_path c = ne_consumer e \<and> ne_needed e \<in> set (nc_needed c))) \<and>
     (\<forall>p \<in> set (cl_mapped_paths cl). p = cl_loader_path cl \<or> (\<exists>e \<in> set (cl_needed_edges cl). ne_provider e = p))"

lemma edge_record_Inr: "native_edge_record C mapped item = Inr e \<Longrightarrow> ne_consumer e \<in> C \<and> ne_provider e \<in> set mapped"
  by (auto simp: native_edge_record_def)

lemma provider_step_Inr:
  "provider_step consumers dirs e = Inr u \<Longrightarrow>
   parent_text (ne_provider e) \<in> set dirs \<and> (\<exists>c \<in> set consumers. nc_path c = ne_provider e \<and> nc_soname c = ne_needed e)"
  by (fastforce simp: provider_step_def dest!: map_of_SomeD)

lemma validate_edges_Inr:
  assumes "validate_edges consumers mapped dirs loader v = Inr edges"
  shows "distinct (map edge_key edges)" "set (map edge_key edges) = (\<Union>c \<in> set consumers. Pair (nc_path c) ` set (nc_needed c))"
    "\<forall>e \<in> set edges. ne_provider e \<in> set mapped \<and> parent_text (ne_provider e) \<in> set dirs \<and>
      (\<exists>c \<in> set consumers. nc_path c = ne_provider e \<and> nc_soname c = ne_needed e)"
    "insert loader (set (map ne_provider edges)) = set mapped"
proof -
  obtain items us where h: "mapM (native_edge_record (set (map nc_path consumers)) mapped) items = Inr edges"
    "distinct (map edge_key edges)" "set (map edge_key edges) = set (concat (map (\<lambda>c. map (\<lambda>needed. (nc_path c, needed)) (nc_needed c)) consumers))"
    "mapM (provider_step consumers dirs) edges = Inr us" "insert loader (set (map ne_provider edges)) = set mapped"
    using assms by (auto simp: validate_edges_def)
  show "distinct (map edge_key edges)" "insert loader (set (map ne_provider edges)) = set mapped" by fact+
  show "set (map edge_key edges) = (\<Union>c \<in> set consumers. Pair (nc_path c) ` set (nc_needed c))" using h(3) by auto
  show "\<forall>e \<in> set edges. ne_provider e \<in> set mapped \<and> parent_text (ne_provider e) \<in> set dirs \<and>
      (\<exists>c \<in> set consumers. nc_path c = ne_provider e \<and> nc_soname c = ne_needed e)"
    using mapM_in_set [OF h(1)] mapM_member [OF h(4)] edge_record_Inr provider_step_Inr by metis
qed

lemma distinct_key_unique: "distinct (map f xs) \<Longrightarrow> x \<in> set xs \<Longrightarrow> y \<in> set xs \<Longrightarrow> f x = f y \<Longrightarrow> x = y"
  by (metis distinct_map inj_onD)

lemma role_paths_set: "set (role_paths entries r1 @ role_paths entries r2) = role_path_set entries (map lit [r1, r2])"
  by (auto simp: role_paths_def role_path_set_def)

text \<open>
  C10. An accepted native closure is complete and closed: its consumers are exactly the native-code
  members of the inventory, its mapped libraries exactly the loader and library members; every needed
  name of every consumer is realised by exactly one edge, whose provider is a mapped member in a launcher
  library directory with that very soname; there is no other edge, and every mapped library but the
  loader provides for some edge.
\<close>

theorem native_closure_complete:
  assumes "validate_native_closure entries kind target module_name v = Inr cl"
  shows "closure_complete entries cl"
proof -
  obtain items edge_arg where
    c: "validate_consumers entries (ti_elf_interpreter target) (cl_mapped_paths cl) items = Inr (cl_consumers cl)" and
    e: "validate_edges (cl_consumers cl) (cl_mapped_paths cl) (cl_effective_library_directories cl) (cl_loader_path cl) edge_arg = Inr (cl_needed_edges cl)" and
    m: "cl_mapped_paths cl = sort (role_paths entries ''native_loader'' @ role_paths entries ''native_library'')"
    using assms unfolding validate_native_closure_def by auto
  note ee = validate_edges_Inr [OF e]
  have p: "set (map nc_path (cl_consumers cl)) = role_path_set entries NATIVE_CONSUMER_ROLES" using c by (auto simp: validate_consumers_def Let_def)
  have mp: "set (cl_mapped_paths cl) = role_path_set entries (map lit [''native_loader'', ''native_library''])"
    unfolding m set_sort by (rule role_paths_set)
  have u: "\<exists>!e. e \<in> set (cl_needed_edges cl) \<and> ne_consumer e = nc_path c \<and> ne_needed e = needed"
    if "c \<in> set (cl_consumers cl)" "needed \<in> set (nc_needed c)" for c needed
  proof -
    have "(nc_path c, needed) \<in> set (map edge_key (cl_needed_edges cl))" unfolding ee(2) using that by blast
    then obtain e where "e \<in> set (cl_needed_edges cl)" "edge_key e = (nc_path c, needed)" by auto
    then show ?thesis using distinct_key_unique [OF ee(1)] by (metis edge_key_def prod.inject)
  qed
  have w: "\<exists>c \<in> set (cl_consumers cl). nc_path c = ne_consumer e \<and> ne_needed e \<in> set (nc_needed c)" if "e \<in> set (cl_needed_edges cl)" for e
  proof -
    have "edge_key e \<in> set (map edge_key (cl_needed_edges cl))" using that by simp
    then show ?thesis unfolding ee(2) by (auto simp: edge_key_def)
  qed
  have l: "q = cl_loader_path cl \<or> (\<exists>e \<in> set (cl_needed_edges cl). ne_provider e = q)" if "q \<in> set (cl_mapped_paths cl)" for q
    using that unfolding ee(4) [symmetric] by auto
  show ?thesis unfolding closure_complete_def edge_resolves_def using p mp u w ee(3) l by (intro conjI) blast+
qed

section \<open>A concrete closure\<close>

text \<open>Records built field by field, in the order of their key list.\<close>

definition fields_of :: "string list \<Rightarrow> pyval list \<Rightarrow> (pyval \<times> pyval) list" where
  "fields_of keys vs = zip (map (\<lambda>k. PyStr (lit k)) keys) vs"

definition record_of :: "string list \<Rightarrow> pyval list \<Rightarrow> pyval" where
  "record_of keys vs = PyDict (fields_of keys vs)"

lemma exact_keys_built:
  assumes "distinct keys" "length vs = length keys"
  shows "capsule_exact_keys (record_of keys vs) keys = Inr (fields_of keys vs)"
proof -
  have "map fst (fields_of keys vs) = map (\<lambda>k. PyStr (lit k)) keys" using assms(2) by (simp add: fields_of_def)
  then have "fst ` set (fields_of keys vs) = set (map (\<lambda>k. PyStr (lit k)) keys)" by (metis set_map)
  moreover have "distinct (map (\<lambda>k. PyStr (lit k)) keys)" using assms(1) by (simp add: distinct_map inj_on_def lit_eq)
  ultimately show ?thesis
    using distinct_card [of "map (\<lambda>k. PyStr (lit k)) keys"]
    by (simp add: record_of_def capsule_exact_keys_def exact_object_keys_def as_capsule_error_def list_ex_iff)
qed

lemma field_built:
  "capsule_field (fields_of (k # keys) (v # vs)) key = (if key = k then v else capsule_field (fields_of keys vs) key)"
  by (auto simp: fields_of_def capsule_field_def lit_eq)

definition SAMPLE_ENTRIES :: "capsule_entry list" where
  "SAMPLE_ENTRIES =
     [\<lparr>ce_path = lit ''native/c.so'', ce_role = lit ''native_library'', ce_mode = 292, ce_size = 1, ce_sha256 = replicate 64 48\<rparr>,
      \<lparr>ce_path = lit ''native/ld.so'', ce_role = lit ''native_loader'', ce_mode = 365, ce_size = 1, ce_sha256 = replicate 64 48\<rparr>]"

definition SAMPLE_CONSUMERS :: "native_consumer list" where
  "SAMPLE_CONSUMERS =
     [\<lparr>nc_path = lit ''native/c.so'', nc_elf_type = lit ''ET_DYN'', nc_linkage = lit ''shared-object'', nc_interpreter = lit ''none'',
       nc_rpath = [], nc_runpath = [], nc_soname = lit ''c.so'', nc_needed = []\<rparr>,
      \<lparr>nc_path = lit ''native/ld.so'', nc_elf_type = lit ''ET_DYN'', nc_linkage = lit ''dynamic-loader'', nc_interpreter = lit ''none'',
       nc_rpath = [], nc_runpath = [], nc_soname = lit ''ld.so'', nc_needed = [lit ''c.so'']\<rparr>]"

definition SAMPLE_EDGES :: "native_edge list" where
  "SAMPLE_EDGES = [\<lparr>ne_consumer = lit ''native/ld.so'', ne_needed = lit ''c.so'', ne_provider = lit ''native/c.so''\<rparr>]"

definition consumer_value :: "native_consumer \<Rightarrow> pyval" where
  "consumer_value c = record_of [''path'', ''elf_type'', ''linkage'', ''interpreter'', ''rpath'', ''runpath'', ''soname'', ''needed'']
     [PyStr (nc_path c), PyStr (nc_elf_type c), PyStr (nc_linkage c), PyStr (nc_interpreter c), PyList (map PyStr (nc_rpath c)),
      PyList (map PyStr (nc_runpath c)), PyStr (nc_soname c), PyList (map PyStr (nc_needed c))]"

definition edge_value :: "native_edge \<Rightarrow> pyval" where
  "edge_value e = record_of [''consumer'', ''needed'', ''provider''] [PyStr (ne_consumer e), PyStr (ne_needed e), PyStr (ne_provider e)]"

lemma sample_relpaths:
  "capsule_relpath (PyStr (lit ''native/c.so'')) = Inr (lit ''native/c.so'')" "capsule_relpath (PyStr (lit ''native/ld.so'')) = Inr (lit ''native/ld.so'')"
  "capsule_relpath (PyStr (lit ''native'')) = Inr (lit ''native'')" "capsule_relpath (PyStr (lit ''python/lib'')) = Inr (lit ''python/lib'')"
  by (simp_all add: capsule_relpath_def lit_def is_ascii_text_def MAX_PATH_BYTES_def MAX_PATH_COMPONENT_BYTES_def PATH_COMPONENT_def is_alnum_def is_digit_def)

lemma sample_entries_valid: "validated_entries SAMPLE_ENTRIES = Inr SAMPLE_ENTRIES"
proof -
  have "list_all entry_ok SAMPLE_ENTRIES"
    by (simp add: SAMPLE_ENTRIES_def entry_ok_iff sample_relpaths FILE_ROLES_def FILE_MODES_def EXECUTABLE_ROLES_def lit_eq MAX_MEMBER_BYTES_def
        lower_hex_exactly_def is_lower_hex_def list_all_iff)
  then show ?thesis
    by (simp add: validated_entries_def bounded_tuple_def MAX_MEMBER_COUNT_def SAMPLE_ENTRIES_def Let_def entry_step_def checked_add_def
        MAX_ARCHIVE_BYTES_def path_ancestors_def lit_def ascii_bytes_def upt_rec join_with_def)
qed

lemma sample_subset: "\<exists>D. subset_sha256 SAMPLE_ENTRIES [lit ''native/c.so'', lit ''native/ld.so''] = Inr D \<and> lower_hex_exactly 64 D"
proof -
  have "map (\<lambda>path. the (by_path SAMPLE_ENTRIES path)) [lit ''native/c.so'', lit ''native/ld.so''] = SAMPLE_ENTRIES"
    by (simp add: SAMPLE_ENTRIES_def by_path_def lit_eq)
  then show ?thesis
    using hexdigest_shape [of "sha256 b" for b]
    by (simp add: subset_sha256_def inventory_sha256_def canonical_inventory_bytes_def sample_entries_valid del: and_then_eq_Inr)
qed

lemma sample_digests:
  "\<exists>D. digest_of (native_consumers_bytes SAMPLE_CONSUMERS) = Inr D \<and> lower_hex_exactly 64 D"
  "\<exists>D. digest_of (native_edges_bytes SAMPLE_EDGES) = Inr D \<and> lower_hex_exactly 64 D"
  using hexdigest_shape [of "sha256 b" for b]
  by (simp_all add: digest_of_def native_consumers_bytes_def native_edges_bytes_def SAMPLE_CONSUMERS_def SAMPLE_EDGES_def native_consumer_row_def
      lp_ascii_def lp_ascii_list_def ascii_encode_def lit_def del: and_then_eq_Inr)

lemma sample_safe_texts:
  "safe_text (PyStr (lit s)) n = Inr (lit s)" if "s \<noteq> []" "length s \<le> n" "list_all (\<lambda>c. 32 \<le> (of_char c :: nat) \<and> of_char c < (127 :: nat)) s"
proof -
  have a: "list_all (\<lambda>c. c < 128) (lit s)" "0 \<notin> set (lit s)" "lit s \<noteq> []" "length (lit s) \<le> n" "list_all (\<lambda>c. 32 \<le> c \<and> c < 127) (lit s)"
    using that by (auto simp: lit_def list_all_iff)
  have "\<not> list_ex (\<lambda>b :: byte. b < 32 \<or> b = 127) (ascii_bytes (lit s))"
    using a(5) by (auto simp: ascii_bytes_def list_ex_iff list_all_iff word_less_nat_alt unat_of_nat word_of_nat_eq_iff
        dest!: arg_cong [of _ "127 :: byte" unat])
  then show ?thesis using a capsule_utf8_ascii [OF a(1)] by (simp add: safe_text_def)
qed

lemma sample_consumers_accepted:
  "validate_consumers SAMPLE_ENTRIES (lit ''/lib64/ld-linux-x86-64.so.2'') [lit ''native/c.so'', lit ''native/ld.so''] (PyList (map consumer_value SAMPLE_CONSUMERS))
   = Inr SAMPLE_CONSUMERS"
proof -
  have roles: "role_of SAMPLE_ENTRIES (lit ''native/c.so'') = Some (lit ''native_library'')" "role_of SAMPLE_ENTRIES (lit ''native/ld.so'') = Some (lit ''native_loader'')"
    by (simp_all add: role_of_def by_path_def SAMPLE_ENTRIES_def lit_eq)
  have n: "NEEDED_NAME (lit ''c.so'')" "NEEDED_NAME (lit ''ld.so'')" by (simp_all add: NEEDED_NAME_def lit_def is_alnum_def is_digit_def)
  have t: "ascii_safe_text 1024 (PyStr (lit ''c.so'')) = Inr (lit ''c.so'')"
    using sample_safe_texts [of "''c.so''" 1024] by (simp add: ascii_safe_text_def is_ascii_text_def) (simp add: lit_def)
  have "mapM (native_consumer_record SAMPLE_ENTRIES (lit ''/lib64/ld-linux-x86-64.so.2'') [lit ''native/c.so'', lit ''native/ld.so''])
      (map consumer_value SAMPLE_CONSUMERS) = Inr SAMPLE_CONSUMERS"
    by (simp add: SAMPLE_CONSUMERS_def native_consumer_record_def consumer_value_def exact_keys_built field_built sample_relpaths roles
        NATIVE_CONSUMER_ROLES_def lit_eq one_of_def consumer_interpreter_def str_is_def linkage_consistent_def Let_def loader_search_paths_def
        consumer_soname_def n ordered_ascii_texts_def t del: and_then_eq_Inr)
  moreover have "role_path_set SAMPLE_ENTRIES NATIVE_CONSUMER_ROLES = {lit ''native/c.so'', lit ''native/ld.so''}"
    by (auto simp: role_path_set_def SAMPLE_ENTRIES_def NATIVE_CONSUMER_ROLES_def lit_eq)
  ultimately show ?thesis by (simp add: validate_consumers_def SAMPLE_CONSUMERS_def Let_def lit_def)
qed

lemma sample_edges_accepted:
  "validate_edges SAMPLE_CONSUMERS [lit ''native/c.so'', lit ''native/ld.so''] [lit ''native'', lit ''python/lib''] (lit ''native/ld.so'')
     (PyList (map edge_value SAMPLE_EDGES)) = Inr SAMPLE_EDGES"
proof -
  have n: "NEEDED_NAME (lit ''c.so'')" by (simp add: NEEDED_NAME_def lit_def is_alnum_def is_digit_def)
  have r: "mapM (native_edge_record (set (map nc_path SAMPLE_CONSUMERS)) [lit ''native/c.so'', lit ''native/ld.so'']) (map edge_value SAMPLE_EDGES) = Inr SAMPLE_EDGES"
    by (simp add: SAMPLE_CONSUMERS_def SAMPLE_EDGES_def native_edge_record_def edge_value_def exact_keys_built field_built
        sample_relpaths n del: and_then_eq_Inr)
  have p: "provider_step SAMPLE_CONSUMERS [lit ''native'', lit ''python/lib''] (hd SAMPLE_EDGES) = Inr ()"
    by (simp add: provider_step_def SAMPLE_CONSUMERS_def SAMPLE_EDGES_def lit_eq) (simp add: parent_text_def parent_parts_def path_text_def join_with_def lit_def)
  show ?thesis using r p by (simp add: validate_edges_def) (simp add: SAMPLE_CONSUMERS_def SAMPLE_EDGES_def edge_key_def lit_eq insert_commute)
qed

definition sample_closure_value :: "pystr \<Rightarrow> pystr \<Rightarrow> pystr \<Rightarrow> pyval" where
  "sample_closure_value d1 d2 d3 = record_of [''loader_path'', ''loader_argv_prefix'', ''effective_library_directories'', ''cache_policy'',
       ''default_search_policy'', ''pathname_policy'', ''mapped_paths'', ''consumers'', ''needed_edges'', ''inventory_sha256'',
       ''consumers_sha256'', ''edges_sha256'']
     [PyStr (lit ''native/ld.so''), PyList (map PyStr (loader_prefix [lit ''native'', lit ''python/lib''] (lit ''m''))),
      PyList [PyStr (lit ''native''), PyStr (lit ''python/lib'')], PyStr (lit ''inhibit-cache''), PyStr (lit ''runtime-maps-reject-outside-capsule''),
      PyStr (lit ''descriptor-held-loader-python-and-library-directories''), PyList [PyStr (lit ''native/c.so''), PyStr (lit ''native/ld.so'')],
      PyList (map consumer_value SAMPLE_CONSUMERS), PyList (map edge_value SAMPLE_EDGES), PyStr d1, PyStr d2, PyStr d3]"

definition SAMPLE_TARGET :: target_identity where
  "SAMPLE_TARGET = \<lparr>ti_machine = lit ''x86_64'', ti_libc_abi = lit ''glibc'', ti_loader_abi = lit ''ld'',
     ti_elf_interpreter = lit ''/lib64/ld-linux-x86-64.so.2'', ti_cpu_dispatch_policy = lit ''p''\<rparr>"

lemma sample_sorted_paths:
  "sorted_paths (PyList [PyStr (lit ''native/c.so''), PyStr (lit ''native/ld.so'')]) = Inr [lit ''native/c.so'', lit ''native/ld.so'']"
  "sorted_paths (PyList [PyStr (lit ''native''), PyStr (lit ''python/lib'')]) = Inr [lit ''native'', lit ''python/lib'']"
  by (simp_all add: sorted_paths_def sample_relpaths) (simp_all add: lit_def)

lemma sample_prefix_text: "join_with 58 (map library_token [lit ''native'', lit ''python/lib'']) = lit ''${HELD_NATIVE_DIR}:${HELD_PYTHON_LIB_DIR}''"
  by (simp add: library_token_def lit_eq join_with_def) (simp add: lit_def)

lemma sample_prefix:
  "ordered_ascii_texts (PyList (map PyStr (loader_prefix [lit ''native'', lit ''python/lib''] (lit ''m'')))) 16 = Inr (loader_prefix [lit ''native'', lit ''python/lib''] (lit ''m''))"
proof -
  have "ascii_safe_text 1024 (PyStr x) = Inr x" if "x \<in> set (loader_prefix [lit ''native'', lit ''python/lib''] (lit ''m''))" for x
    using that unfolding loader_prefix_def sample_prefix_text
    by (auto simp: ascii_safe_text_def sample_safe_texts) (auto simp: is_ascii_text_def lit_def)
  then have "mapM (ascii_safe_text 1024) (map PyStr (loader_prefix [lit ''native'', lit ''python/lib''] (lit ''m''))) = Inr (map (\<lambda>x. x) (loader_prefix [lit ''native'', lit ''python/lib''] (lit ''m'')))"
    unfolding mapM_map by (intro mapM_Inr) simp
  moreover have "distinct (loader_prefix [lit ''native'', lit ''python/lib''] (lit ''m''))" "length (loader_prefix [lit ''native'', lit ''python/lib''] (lit ''m'')) \<le> 16"
    unfolding loader_prefix_def sample_prefix_text by (simp_all add: lit_eq)
  ultimately show ?thesis by (simp add: ordered_ascii_texts_def)
qed

lemma sample_closure_accepted: "\<exists>v cl. validate_native_closure SAMPLE_ENTRIES (lit ''evaluator'') SAMPLE_TARGET (lit ''m'') v = Inr cl"
proof -
  obtain d1 where d1: "subset_sha256 SAMPLE_ENTRIES [lit ''native/c.so'', lit ''native/ld.so''] = Inr d1" "lower_hex_exactly 64 d1" using sample_subset by blast
  obtain d2 where d2: "digest_of (native_consumers_bytes SAMPLE_CONSUMERS) = Inr d2" "lower_hex_exactly 64 d2" using sample_digests(1) by blast
  obtain d3 where d3: "digest_of (native_edges_bytes SAMPLE_EDGES) = Inr d3" "lower_hex_exactly 64 d3" using sample_digests(2) by blast
  have m: "sha_matches (PyStr d1) (Inr d1) = Inr d1" "sha_matches (PyStr d2) (Inr d2) = Inr d2" "sha_matches (PyStr d3) (Inr d3) = Inr d3"
    using d1(2) d2(2) d3(2) by (simp_all add: sha_matches_def capsule_sha_Inr)
  have r: "role_paths SAMPLE_ENTRIES ''native_loader'' = [lit ''native/ld.so'']" "role_paths SAMPLE_ENTRIES ''native_library'' = [lit ''native/c.so'']"
    by (simp_all add: role_paths_def SAMPLE_ENTRIES_def lit_eq)
  have s: "sort [lit ''native/ld.so'', lit ''native/c.so''] = [lit ''native/c.so'', lit ''native/ld.so'']" by (simp add: lit_def)
  have l: "library_directories (lit ''evaluator'') = [lit ''native'', lit ''python/lib'']" by (simp add: library_directories_def lit_eq)
  show ?thesis
    by (rule exI [of _ "sample_closure_value d1 d2 d3"])
      (simp add: validate_native_closure_def sample_closure_value_def exact_keys_built field_built sample_relpaths sample_sorted_paths r s l
        sample_prefix str_is_def SAMPLE_TARGET_def sample_consumers_accepted sample_edges_accepted d1(1) d2(1) d3(1) m
        del: and_then_eq_Inr sort_key_simps list.map mapM.simps)
qed

theorem native_closure_complete_witness:
  "\<exists>v cl. validate_native_closure SAMPLE_ENTRIES (lit ''evaluator'') SAMPLE_TARGET (lit ''m'') v = Inr cl \<and> closure_complete SAMPLE_ENTRIES cl"
  using sample_closure_accepted native_closure_complete by blast

end
