(* ===== verification/Py_State.thy ===== *)
theory Py_State
  imports Timing_Publication Py_Json
begin

text \<open>
  Computations over an explicit state that may raise: the state at the moment of the exception is kept,
  as Python keeps the attributes an aborted method has already assigned. Each combinator is the Python
  construct it names: sequencing, \<^verbatim>\<open>try\<close>, a loop, and a method call on a component of the
  object (the lens combinator). The predicate \<open>upholds\<close> carries the invariant proofs of the
  stateful components.
\<close>

type_synonym ('s, 'a) sx = "'s \<Rightarrow> 'a py \<times> 's"

definition sx_return :: "'a \<Rightarrow> ('s, 'a) sx" where
  "sx_return x s = (Inr x, s)"

definition sx_raise :: "exn \<Rightarrow> ('s, 'a) sx" where
  "sx_raise e s = (Inl e, s)"

definition sx_bind :: "('s, 'a) sx \<Rightarrow> ('a \<Rightarrow> ('s, 'b) sx) \<Rightarrow> ('s, 'b) sx" where
  "sx_bind m f s = (case m s of (Inl e, s') \<Rightarrow> (Inl e, s') | (Inr x, s') \<Rightarrow> f x s')"

definition sx_then :: "('s, 'a) sx \<Rightarrow> ('s, 'b) sx \<Rightarrow> ('s, 'b) sx" where
  "sx_then m n = sx_bind m (\<lambda>_. n)"

text \<open>\<^verbatim>\<open>try: m except BaseException as e: h(e)\<close>.\<close>

definition sx_try :: "('s, 'a) sx \<Rightarrow> (exn \<Rightarrow> ('s, 'a) sx) \<Rightarrow> ('s, 'a) sx" where
  "sx_try m h s = (case m s of (Inl e, s') \<Rightarrow> h e s' | (Inr x, s') \<Rightarrow> (Inr x, s'))"

text \<open>The outcome of a computation as a value: what a handler that only records the exception sees.\<close>

definition sx_catch :: "('s, 'a) sx \<Rightarrow> ('s, 'a py) sx" where
  "sx_catch m s = (case m s of (r, s') \<Rightarrow> (Inr r, s'))"

definition sx_read :: "('s \<Rightarrow> 'a py) \<Rightarrow> ('s, 'a) sx" where
  "sx_read f s = (f s, s)"

definition sx_modify :: "('s \<Rightarrow> 's) \<Rightarrow> ('s, unit) sx" where
  "sx_modify f s = (Inr (), f s)"

primrec sx_each :: "('a \<Rightarrow> ('s, unit) sx) \<Rightarrow> 'a list \<Rightarrow> ('s, unit) sx" where
  "sx_each f [] = sx_return ()"
| "sx_each f (x # xs) = sx_bind (f x) (\<lambda>_. sx_each f xs)"

definition sx_on :: "('s \<Rightarrow> 't) \<Rightarrow> ('t \<Rightarrow> 's \<Rightarrow> 's) \<Rightarrow> ('t, 'a) sx \<Rightarrow> ('s, 'a) sx" where
  "sx_on get put m s = (case m (get s) of (r, t) \<Rightarrow> (r, put t s))"

lemma sx_simps [simp]:
  "sx_return x s = (Inr x, s)" "sx_raise e s = (Inl e, s)" "sx_read f s = (f s, s)" "sx_modify g s = (Inr (), g s)"
  by (simp_all add: sx_return_def sx_raise_def sx_read_def sx_modify_def)

lemma sx_bind_Inr: "sx_bind m f s = (Inr y, s') \<longleftrightarrow> (\<exists>x s1. m s = (Inr x, s1) \<and> f x s1 = (Inr y, s'))"
  by (auto simp: sx_bind_def split: prod.splits sum.splits)

lemma sx_bind_Inl:
  "sx_bind m f s = (Inl e, s') \<longleftrightarrow> m s = (Inl e, s') \<or> (\<exists>x s1. m s = (Inr x, s1) \<and> f x s1 = (Inl e, s'))"
  by (auto simp: sx_bind_def split: prod.splits sum.splits)

lemma sx_then_Inr: "sx_then m n s = (Inr y, s') \<longleftrightarrow> (\<exists>x s1. m s = (Inr x, s1) \<and> n s1 = (Inr y, s'))"
  by (simp add: sx_then_def sx_bind_Inr)

lemma sx_then_Inl:
  "sx_then m n s = (Inl e, s') \<longleftrightarrow> m s = (Inl e, s') \<or> (\<exists>x s1. m s = (Inr x, s1) \<and> n s1 = (Inl e, s'))"
  by (simp add: sx_then_def sx_bind_Inl)

lemma sx_try_Inr:
  "sx_try m h s = (Inr y, s') \<longleftrightarrow> m s = (Inr y, s') \<or> (\<exists>e s1. m s = (Inl e, s1) \<and> h e s1 = (Inr y, s'))"
  by (auto simp: sx_try_def split: prod.splits sum.splits)

lemma sx_try_Inl: "sx_try m h s = (Inl e, s') \<longleftrightarrow> (\<exists>e1 s1. m s = (Inl e1, s1) \<and> h e1 s1 = (Inl e, s'))"
  by (auto simp: sx_try_def split: prod.splits sum.splits)

lemma sx_catch_eq: "sx_catch m s = (r, s') \<longleftrightarrow> (\<exists>r0. r = Inr r0 \<and> m s = (r0, s'))"
  by (auto simp: sx_catch_def split: prod.splits)

lemma sx_on_run: "sx_on get put m s = (r, s') \<longleftrightarrow> (\<exists>t. m (get s) = (r, t) \<and> s' = put t s)"
  by (auto simp: sx_on_def split: prod.splits)

lemma sx_run_simps [simp]:
  "m s = (Inr x, s') \<Longrightarrow> sx_bind m f s = f x s'" "m s = (Inl e, s') \<Longrightarrow> sx_bind m f s = (Inl e, s')"
  "m s = (Inr x, s') \<Longrightarrow> sx_then m n s = n s'" "m s = (Inl e, s') \<Longrightarrow> sx_then m n s = (Inl e, s')"
  by (simp_all add: sx_bind_def sx_then_def)

section \<open>Relations every run upholds\<close>

text \<open>Whatever the outcome, the state before and after is in the relation.\<close>

definition upholds :: "('s \<Rightarrow> 's \<Rightarrow> bool) \<Rightarrow> ('s, 'a) sx \<Rightarrow> bool" where
  "upholds R m \<longleftrightarrow> (\<forall>s r s'. m s = (r, s') \<longrightarrow> R s s')"

lemma upholdsD: "upholds R m \<Longrightarrow> m s = (r, s') \<Longrightarrow> R s s'"
  by (simp add: upholds_def)

lemma upholdsI: "(\<And>s. R s (snd (m s))) \<Longrightarrow> upholds R m"
  by (metis upholds_def snd_conv)

text \<open>A preorder on states is kept by every combinator when its parts keep it.\<close>

locale state_order =
  fixes R :: "'s \<Rightarrow> 's \<Rightarrow> bool"
  assumes order_refl: "R s s" and order_trans: "R s t \<Longrightarrow> R t u \<Longrightarrow> R s u"
begin

lemma upholds_return: "upholds R (sx_return x)"
  by (simp add: upholds_def order_refl)

lemma upholds_raise: "upholds R (sx_raise e)"
  by (simp add: upholds_def order_refl)

lemma upholds_read: "upholds R (sx_read f)"
  by (simp add: upholds_def order_refl)

lemma upholds_modify: "(\<And>s. R s (f s)) \<Longrightarrow> upholds R (sx_modify f)"
  by (simp add: upholds_def)

lemma upholds_bind: "upholds R m \<Longrightarrow> (\<And>x. upholds R (f x)) \<Longrightarrow> upholds R (sx_bind m f)"
  unfolding upholds_def sx_bind_def by (fastforce split: prod.splits sum.splits intro: order_trans)

lemma upholds_then: "upholds R m \<Longrightarrow> upholds R n \<Longrightarrow> upholds R (sx_then m n)"
  unfolding sx_then_def by (rule upholds_bind)

lemma upholds_try: "upholds R m \<Longrightarrow> (\<And>e. upholds R (h e)) \<Longrightarrow> upholds R (sx_try m h)"
  unfolding upholds_def sx_try_def by (fastforce split: prod.splits sum.splits intro: order_trans)

lemma upholds_catch: "upholds R m \<Longrightarrow> upholds R (sx_catch m)"
  by (auto simp: upholds_def sx_catch_def split: prod.splits)

lemma upholds_each: "(\<And>x. x \<in> set xs \<Longrightarrow> upholds R (f x)) \<Longrightarrow> upholds R (sx_each f xs)"
  by (induction xs) (auto intro!: upholds_return upholds_bind)

lemma upholds_if: "(b \<Longrightarrow> upholds R m) \<Longrightarrow> (\<not> b \<Longrightarrow> upholds R n) \<Longrightarrow> upholds R (if b then m else n)"
  by simp

lemma upholds_pure: "upholds R (\<lambda>s. (r s, s))"
  by (simp add: upholds_def order_refl)

lemma upholds_cond: "upholds R m \<Longrightarrow> upholds R n \<Longrightarrow> upholds R (\<lambda>s. if P s then m s else n s)"
  by (simp add: upholds_def)

lemmas upholds_intros = upholds_return upholds_raise upholds_read upholds_bind upholds_then upholds_try upholds_catch upholds_each upholds_if

end

text \<open>An observation that a run leaves alone.\<close>

definition same :: "('s \<Rightarrow> 'b) \<Rightarrow> 's \<Rightarrow> 's \<Rightarrow> bool" where
  "same f s t \<longleftrightarrow> f s = f t"

interpretation same: state_order "same f" for f :: "'s \<Rightarrow> 'b"
  by unfold_locales (simp_all add: same_def)

end
