(* ===== verification/Control_Values.thy ===== *)
theory Control_Values
  imports Py_State
begin

text \<open>
  The value syntax of the host controls, from \<^verbatim>\<open>src/scripts/cp2/cp2_timing_controls.py\<close>: control
  texts, CPU lists and masks, approved paths, the captured snapshot and its journal record, and the
  control-state receipts. Two tables of the interpreter's Unicode database (the digits beyond ASCII) are
  a parameter, because \<^verbatim>\<open>str.isdigit\<close> and \<^verbatim>\<open>int\<close> consult them.
\<close>

section \<open>Texts and numbers\<close>

definition control_fail :: "string \<Rightarrow> 'a py" where
  "control_fail message = Inl (TimingControlError message)"

lemma control_fail_not_Inr [simp]: "control_fail m \<noteq> Inr x"
  by (simp add: control_fail_def)

lemma if_control_fail_eq [simp]: "(if b then control_fail m else r) = Inr x \<longleftrightarrow> \<not> b \<and> r = Inr x"
  by simp

record unicode_db =
  udb_isdigit :: "nat \<Rightarrow> bool"
  udb_decimal :: "nat \<Rightarrow> nat option"

definition char_isdigit :: "unicode_db \<Rightarrow> nat \<Rightarrow> bool" where
  "char_isdigit u c = (if c < 128 then is_digit c else udb_isdigit u c)"

definition str_isdigit :: "unicode_db \<Rightarrow> pystr \<Rightarrow> bool" where
  "str_isdigit u s \<longleftrightarrow> s \<noteq> [] \<and> list_all (char_isdigit u) s"

definition char_decimal :: "unicode_db \<Rightarrow> nat \<Rightarrow> nat py" where
  "char_decimal u c =
     (case (if c < 128 then (if is_digit c then Some (c - 48) else None) else udb_decimal u c) of
        None \<Rightarrow> Inl (ValueError ''invalid literal for int()'') | Some d \<Rightarrow> Inr d)"

text \<open>\<^verbatim>\<open>int(text)\<close> of a text that passed \<^verbatim>\<open>isdigit\<close>.\<close>

definition int_of_digits :: "unicode_db \<Rightarrow> pystr \<Rightarrow> nat py" where
  "int_of_digits u s = and_then (mapM (char_decimal u) s) (\<lambda>ds. Inr (of_digits 10 ds))"

definition MAX_CONTROL_TEXT_BYTES :: nat where "MAX_CONTROL_TEXT_BYTES = 65536"
definition MAX_COMMAND_OUTPUT_BYTES :: nat where "MAX_COMMAND_OUTPUT_BYTES = 1048576"
definition MAX_JOURNAL_BYTES :: nat where "MAX_JOURNAL_BYTES = 8388608"
definition MAX_JOURNAL_RECORDS :: nat where "MAX_JOURNAL_RECORDS = 4096"
definition ALLOWED_MODULES :: "pystr list" where "ALLOWED_MODULES = [lit ''k10temp'', lit ''msr'']"
definition ALLOWED_SERVICE :: pystr where "ALLOWED_SERVICE = lit ''irqbalance''"

definition plain_u64 :: "pyval \<Rightarrow> nat py" where
  "plain_u64 value =
     (case value of
        PyInt n \<Rightarrow> if n < 0 \<or> 2 ^ 64 - 1 < n then control_fail ''is outside the unsigned 64-bit domain'' else Inr (nat n)
      | _ \<Rightarrow> control_fail ''is outside the unsigned 64-bit domain'')"

text \<open>\<^verbatim>\<open>sorted(set(xs))\<close> and the test \<^verbatim>\<open>xs == tuple(sorted(set(xs)))\<close>.\<close>

definition sorted_set :: "'a :: linorder list \<Rightarrow> 'a list" where
  "sorted_set xs = sort (remdups xs)"

lemma sorted_set_fixed: "xs = sorted_set xs \<longleftrightarrow> sorted xs \<and> distinct xs"
proof
  assume "xs = sorted_set xs"
  then show "sorted xs \<and> distinct xs" unfolding sorted_set_def by (metis distinct_remdups distinct_sort sorted_sort)
qed (auto simp: sorted_set_def distinct_remdups_id sorted_sort_id)

definition rstrip_newlines :: "pystr \<Rightarrow> pystr" where
  "rstrip_newlines s = rev (dropWhile (\<lambda>c. c = 10) (rev s))"

definition normalize_control_text :: "bytes \<Rightarrow> pystr py" where
  "normalize_control_text value =
     (if value = [] \<or> MAX_CONTROL_TEXT_BYTES < length value then control_fail ''bytes are empty or oversized''
      else if \<not> list_all (\<lambda>b. unat b < 128) value then control_fail ''is not ASCII''
      else
      let text = rstrip_newlines (map unat value) in
      if text = [] \<or> 0 \<in> set text \<or> 13 \<in> set text \<or> 10 \<in> set text
      then control_fail ''is not one canonical text line'' else Inr text)"

section \<open>CPU lists and masks\<close>

definition cpu_list_token :: "unicode_db \<Rightarrow> pystr \<Rightarrow> nat list py" where
  "cpu_list_token u token =
     (case split_on 45 token of
        [piece] \<Rightarrow>
          if str_isdigit u piece then and_then (int_of_digits u piece) (\<lambda>cpu. Inr [cpu])
          else control_fail ''CPU list has invalid syntax''
      | [first, second] \<Rightarrow>
          if str_isdigit u first \<and> str_isdigit u second then
            and_then (int_of_digits u first) (\<lambda>low.
            and_then (int_of_digits u second) (\<lambda>high.
            if high < low \<or> 4095 < high then control_fail ''CPU-list range is invalid''
            else Inr [low..<high + 1]))
          else control_fail ''CPU list has invalid syntax''
      | _ \<Rightarrow> control_fail ''CPU list has invalid syntax'')"

definition parse_cpu_list :: "unicode_db \<Rightarrow> pystr \<Rightarrow> nat list py" where
  "parse_cpu_list u text =
     and_then (mapM (cpu_list_token u) (split_on 44 text)) (\<lambda>parts.
     let retained = concat parts in
     if retained = [] \<or> retained \<noteq> sorted_set retained
     then control_fail ''CPU list is empty, duplicate, or unordered'' else Inr retained)"

text \<open>The set bits of one 32-bit chunk, as CPU numbers.\<close>

definition mask_chunk_cpus :: "nat \<Rightarrow> pystr \<Rightarrow> nat list" where
  "mask_chunk_cpus word_index chunk = map (\<lambda>b. word_index * 32 + b) (filter (bit (int_base16 chunk)) [0..<32])"

definition parse_cpu_mask :: "pystr \<Rightarrow> nat list py" where
  "parse_cpu_mask text =
     (let chunks = split_on 44 text in
      if chunks = [] \<or> 128 < length chunks \<or> list_ex (\<lambda>chunk. \<not> lower_hex_exactly 8 chunk) chunks
      then control_fail ''CPU mask is not canonical lowercase 32-bit chunks''
      else
      let retained = concat (map (\<lambda>(word_index, chunk). mask_chunk_cpus word_index chunk) (enumerate 0 (rev chunks))) in
      if retained = [] \<or> 4095 < last retained then control_fail ''CPU mask is empty or exceeds the CPU bound''
      else Inr retained)"

text \<open>The parsed value: a text, an integer, or a tuple of CPU numbers.\<close>

definition cpu_tuple :: "nat list \<Rightarrow> pyval" where
  "cpu_tuple cpus = PyTuple (map (\<lambda>cpu. PyInt (int cpu)) cpus)"

definition on_text :: "pyval \<Rightarrow> (pystr \<Rightarrow> 'a py) \<Rightarrow> 'a py" where
  "on_text value f = (case value of PyStr s \<Rightarrow> f s | _ \<Rightarrow> Inl (AttributeError ''object has no string method''))"

definition parse_control_value :: "unicode_db \<Rightarrow> pyval \<Rightarrow> pyval \<Rightarrow> pyval py" where
  "parse_control_value u text parser =
     (if parser = PyStr (lit ''text'') then Inr text
      else if parser = PyStr (lit ''integer'') then
        on_text text (\<lambda>s.
          if \<not> str_isdigit u s then control_fail ''integer control has nondecimal syntax''
          else and_then (int_of_digits u s) (\<lambda>n. Inr (PyInt (int n))))
      else if parser = PyStr (lit ''cpu_list'') then on_text text (\<lambda>s. and_then (parse_cpu_list u s) (\<lambda>cpus. Inr (cpu_tuple cpus)))
      else if parser = PyStr (lit ''cpu_mask'') then on_text text (\<lambda>s. and_then (parse_cpu_mask s) (\<lambda>cpus. Inr (cpu_tuple cpus)))
      else control_fail ''control parser is unsupported'')"

definition isabs :: "pystr \<Rightarrow> bool" where
  "isabs path \<longleftrightarrow> starts_with (lit ''/'') path"

definition approved_control_write_path :: "pyval \<Rightarrow> bool" where
  "approved_control_write_path path =
     (case path of
        PyStr s \<Rightarrow> isabs s \<and> normpath s = s \<and>
          list_ex (\<lambda>prefix. starts_with prefix s)
            [lit ''/sys/devices/system/cpu/'', lit ''/proc/irq/'', lit ''/sys/fs/cgroup/'']
      | _ \<Rightarrow> False)"

section \<open>Canonical records\<close>

text \<open>\<open>depth\<close> is the interpreter's remaining recursion limit for the calls into \<^verbatim>\<open>json\<close>.\<close>

definition control_json :: "nat \<Rightarrow> pyval \<Rightarrow> bytes py" where
  "control_json depth value =
     and_then (json_dumps False depth value) (\<lambda>text.
       case utf8_encode text of None \<Rightarrow> Inl (ValueError ''surrogates not allowed'') | Some b \<Rightarrow> Inr (b @ [10]))"

definition str_record :: "(string \<times> pyval) list \<Rightarrow> pyval" where
  "str_record kvs = PyDict (map (\<lambda>(k, v). (PyStr (lit k), v)) kvs)"

definition record_field :: "(pyval \<times> pyval) list \<Rightarrow> string \<Rightarrow> pyval py" where
  "record_field kvs key = (case map_of kvs (PyStr (lit key)) of None \<Rightarrow> Inl (KeyError key) | Some v \<Rightarrow> Inr v)"

text \<open>\<^verbatim>\<open>set(value) == {...}\<close> over the keys of a mapping.\<close>

definition keys_are :: "string list \<Rightarrow> (pyval \<times> pyval) list \<Rightarrow> bool" where
  "keys_are keys kvs \<longleftrightarrow> fst ` set kvs = (\<lambda>k. PyStr (lit k)) ` set keys"

record control_snapshot =
  cs_values :: "(pystr \<times> pystr \<times> pyval) list"
  cs_modules_preexisting :: "pystr list"
  cs_services_active :: "pystr list"
  cs_process_affinity :: "nat list"

definition snapshot_as_record :: "control_snapshot \<Rightarrow> pyval" where
  "snapshot_as_record s = str_record
     [(''schema_version'', PyInt 1),
      (''record_type'', PyStr (lit ''cp2_timing_control_prior_state'')),
      (''values'', PyList (map (\<lambda>(path, parser, text).
         str_record [(''path'', PyStr path), (''parser'', PyStr parser), (''text'', text)]) (cs_values s))),
      (''modules_preexisting'', PyList (map PyStr (cs_modules_preexisting s))),
      (''services_active'', PyList (map PyStr (cs_services_active s))),
      (''process_affinity'', PyList (map (\<lambda>cpu. PyInt (int cpu)) (cs_process_affinity s)))]"

definition snapshot_digest :: "nat \<Rightarrow> control_snapshot \<Rightarrow> pystr py" where
  "snapshot_digest depth s = and_then (control_json depth (snapshot_as_record s)) (\<lambda>b. Inr (hexdigest (sha256 b)))"

text \<open>Reading a snapshot back from its journal record.\<close>

definition snapshot_value_item :: "unicode_db \<Rightarrow> pyval \<Rightarrow> (pystr \<times> pystr \<times> pyval) py" where
  "snapshot_value_item u item =
     (case item of
        PyDict kvs \<Rightarrow>
          if \<not> keys_are [''path'', ''parser'', ''text''] kvs then control_fail ''control snapshot value keys differ''
          else
          and_then (record_field kvs ''path'') (\<lambda>path.
          and_then (record_field kvs ''parser'') (\<lambda>parser.
          and_then (record_field kvs ''text'') (\<lambda>text.
          case path of
            PyStr p \<Rightarrow>
              if \<not> isabs p \<or> normpath p \<noteq> p then control_fail ''control snapshot path is not exact absolute syntax''
              else
              and_then (parse_control_value u text parser) (\<lambda>_. 
              case parser of PyStr q \<Rightarrow> Inr (p, q, text) | _ \<Rightarrow> control_fail ''control parser is unsupported'')
          | _ \<Rightarrow> Inl (TypeError ''expected str, bytes or os.PathLike object''))))
      | _ \<Rightarrow> control_fail ''control snapshot value keys differ'')"

definition str_items :: "pyval list \<Rightarrow> pystr list option" where
  "str_items xs = (if list_all (\<lambda>x. case x of PyStr _ \<Rightarrow> True | _ \<Rightarrow> False) xs
                   then Some (map (\<lambda>x. case x of PyStr s \<Rightarrow> s | _ \<Rightarrow> []) xs) else None)"

text \<open>
  A list of names that equals its sorted set and lies in the allowed population. A list with an item that
  is no string fails as well, here always with the population error (in the code, comparing or hashing
  such items may raise a \<^verbatim>\<open>TypeError\<close> first).
\<close>

definition canonical_names :: "pystr list \<Rightarrow> string \<Rightarrow> pyval \<Rightarrow> pystr list py" where
  "canonical_names allowed message value =
     (case value of
        PyList xs \<Rightarrow>
          (case str_items xs of
             None \<Rightarrow> control_fail message
           | Some names \<Rightarrow>
               if names \<noteq> sorted_set names \<or> list_ex (\<lambda>name. name \<notin> set allowed) names
               then control_fail message else Inr names)
      | _ \<Rightarrow> control_fail message)"

definition snapshot_affinity :: "pyval \<Rightarrow> nat list py" where
  "snapshot_affinity value =
     (case value of
        PyList xs \<Rightarrow>
          and_then (mapM plain_u64 xs) (\<lambda>cpus.
          if cpus = [] \<or> cpus \<noteq> sorted_set cpus \<or> 4095 < last cpus
          then control_fail ''control snapshot affinity is not sorted, unique, and bounded'' else Inr cpus)
      | _ \<Rightarrow> control_fail ''control snapshot affinity is not a list'')"

definition SNAPSHOT_KEYS :: "string list" where
  "SNAPSHOT_KEYS = [''schema_version'', ''record_type'', ''values'', ''modules_preexisting'', ''services_active'', ''process_affinity'']"

text \<open>\<^verbatim>\<open>==\<close> against the literals 1 and a string: \<^verbatim>\<open>True\<close> and \<^verbatim>\<open>1.0\<close> equal 1.\<close>

definition equals_one :: "pyval \<Rightarrow> bool" where
  "equals_one v = (case v of PyInt n \<Rightarrow> n = 1 | PyBool b \<Rightarrow> b | PyFloat x \<Rightarrow> x = 0x3FF0000000000000 | _ \<Rightarrow> False)"

definition snapshot_from_record :: "unicode_db \<Rightarrow> pyval \<Rightarrow> control_snapshot py" where
  "snapshot_from_record u value =
     (case value of
        PyDict kvs \<Rightarrow>
          if \<not> keys_are SNAPSHOT_KEYS kvs then control_fail ''control snapshot journal keys differ''
          else
          and_then (record_field kvs ''schema_version'') (\<lambda>version.
          and_then (record_field kvs ''record_type'') (\<lambda>record_type.
          if \<not> equals_one version \<or> record_type \<noteq> PyStr (lit ''cp2_timing_control_prior_state'')
          then control_fail ''control snapshot journal identity differs''
          else
          and_then (record_field kvs ''values'') (\<lambda>values_field.
          case values_field of
            PyList items \<Rightarrow>
              and_then (mapM (snapshot_value_item u) items) (\<lambda>retained_values.
              and_then (record_field kvs ''modules_preexisting'') (\<lambda>modules.
              and_then (record_field kvs ''services_active'') (\<lambda>services.
              and_then (record_field kvs ''process_affinity'') (\<lambda>affinity.
              and_then (canonical_names ALLOWED_MODULES ''control snapshot module population is not canonical'' modules) (\<lambda>module_names.
              and_then (canonical_names [ALLOWED_SERVICE] ''control snapshot service population is not canonical'' services) (\<lambda>service_names.
              and_then (snapshot_affinity affinity) (\<lambda>cpus.
                Inr \<lparr>cs_values = retained_values, cs_modules_preexisting = module_names,
                     cs_services_active = service_names, cs_process_affinity = cpus\<rparr>)))))))
          | _ \<Rightarrow> control_fail ''control snapshot values are not a list'')))
      | _ \<Rightarrow> control_fail ''control snapshot journal keys differ'')"

section \<open>Receipts\<close>

record control_receipt =
  cr_profile_sha256 :: pystr
  cr_phase :: pystr
  cr_captured_monotonic_ns :: nat
  cr_state :: pyval
  cr_state_bytes :: bytes

definition make_receipt :: "nat \<Rightarrow> pystr \<Rightarrow> pystr \<Rightarrow> nat \<Rightarrow> pyval \<Rightarrow> control_receipt py" where
  "make_receipt depth profile_sha256 phase instant state =
     (if \<not> lower_hex_exactly 64 profile_sha256 then control_fail ''control-state receipt profile SHA-256 is invalid''
      else if phase \<notin> {lit ''prior'', lit ''applied'', lit ''restored''} then control_fail ''control-state receipt phase is invalid''
      else
      and_then (plain_u64 (PyInt (int instant))) (\<lambda>_.
      case state of
        PyDict _ \<Rightarrow> and_then (control_json depth state) (\<lambda>canonical.
          Inr \<lparr>cr_profile_sha256 = profile_sha256, cr_phase = phase, cr_captured_monotonic_ns = instant,
               cr_state = state, cr_state_bytes = canonical\<rparr>)
      | _ \<Rightarrow> control_fail ''control-state receipt state is not one exact mapping''))"

definition receipt_state_sha256 :: "control_receipt \<Rightarrow> pystr" where
  "receipt_state_sha256 r = hexdigest (sha256 (cr_state_bytes r))"

end
