(* ===== verification/Host_Backend.thy ===== *)
theory Host_Backend
  imports Control_Values
begin

text \<open>
  The host backend of the control transaction. A backend is a record of operations over a host state:
  observations are functions of the state, mutations return the new state and may raise after a partial
  change. The transaction is generic in it, as in the code, where tests inject their own. The production
  \<^verbatim>\<open>HostBackend\<close> is one instance; the operating system below it (subprocesses, sysfs and procfs,
  the scheduler, the DMA-latency device) is a record of parameters.
\<close>

section \<open>The interface\<close>

record 'h backend =
  be_external_recovery_supported :: bool
  be_require_privilege :: "'h \<Rightarrow> unit py"
  be_read_text :: "pystr \<Rightarrow> 'h \<Rightarrow> pystr py"
  be_module_loaded :: "pystr \<Rightarrow> 'h \<Rightarrow> bool py"
  be_service_active :: "pystr \<Rightarrow> 'h \<Rightarrow> bool py"
  be_affinity :: "'h \<Rightarrow> nat list py"
  be_smt_sibling_groups :: "(nat list \<Rightarrow> 'h \<Rightarrow> nat list list py) option"
  be_dma_latency_active :: "('h \<Rightarrow> bool py) option"
  be_write_text :: "pystr \<Rightarrow> pyval \<Rightarrow> ('h, unit) sx"
  be_command :: "pystr list \<Rightarrow> ('h, unit) sx"
  be_set_affinity :: "nat list \<Rightarrow> ('h, unit) sx"
  be_hold_dma_latency :: "int \<Rightarrow> ('h, unit) sx"
  be_release_dma_latency :: "('h, unit) sx"

section \<open>The production backend\<close>

record 'x host_os =
  os_run :: "pystr list \<Rightarrow> bytes \<Rightarrow> ('x, int \<times> bytes \<times> bytes) sx"
  os_open_file :: "pystr \<Rightarrow> 'x \<Rightarrow> (bool \<times> bytes) py"
  os_isdir :: "pystr \<Rightarrow> 'x \<Rightarrow> bool"
  os_service_query :: "pystr list \<Rightarrow> 'x \<Rightarrow> int py"
  os_geteuid :: "'x \<Rightarrow> nat"
  os_sched_getaffinity :: "'x \<Rightarrow> nat list py"
  os_sched_setaffinity :: "nat list \<Rightarrow> ('x, unit) sx"
  os_dma_open :: "('x, unit) sx"
  os_dma_write :: "bytes \<Rightarrow> ('x, nat) sx"
  os_dma_close :: "'x \<Rightarrow> 'x"

text \<open>The object's own attribute besides the operating system: is the DMA-latency descriptor held.\<close>

record 'x host =
  hb_system :: 'x
  hb_dma_held :: bool

definition on_system :: "('x, 'a) sx \<Rightarrow> ('x host, 'a) sx" where
  "on_system = sx_on hb_system (\<lambda>x h. h\<lparr>hb_system := x\<rparr>)"

definition SUDO :: "pystr list" where
  "SUDO = [lit ''/usr/bin/sudo'', lit ''-n'']"

text \<open>\<^verbatim>\<open>subprocess.run\<close> raising \<^verbatim>\<open>OSError\<close> or \<^verbatim>\<open>SubprocessError\<close> is translated, anything else passes.\<close>

definition as_control_error :: "string \<Rightarrow> ('s, 'a) sx \<Rightarrow> ('s, 'a) sx" where
  "as_control_error message m = sx_try m (\<lambda>e.
     case e of OSError _ \<Rightarrow> sx_raise (TimingControlError message) | _ \<Rightarrow> sx_raise e)"

definition host_run :: "'x host_os \<Rightarrow> pystr list \<Rightarrow> bytes \<Rightarrow> ('x host, bytes) sx" where
  "host_run ops argv stdin =
     (if argv = [] \<or> \<not> isabs (hd argv) then sx_read (\<lambda>_. control_fail ''host command executable is not absolute'')
      else
      sx_bind (as_control_error ''host command failed to execute'' (on_system (os_run ops argv stdin))) (\<lambda>(returncode, stdout, stderr).
      if MAX_COMMAND_OUTPUT_BYTES < length stdout \<or> MAX_COMMAND_OUTPUT_BYTES < length stderr
      then sx_read (\<lambda>_. control_fail ''host command output exceeds the resource bound'')
      else if returncode \<noteq> 0 then sx_read (\<lambda>_. control_fail ''host command exited nonzero'')
      else sx_return stdout))"

text \<open>
  \<^verbatim>\<open>require_privilege\<close> runs \<^verbatim>\<open>sudo -n true\<close>, which changes nothing: its outcome is a query.
\<close>

definition host_require_privilege :: "'x host_os \<Rightarrow> 'x host \<Rightarrow> unit py" where
  "host_require_privilege ops h =
     and_then (fst (host_run ops (SUDO @ [lit ''/usr/bin/true'']) [] h)) (\<lambda>_.
     if os_geteuid ops (hb_system h) \<noteq> 0
     then control_fail ''root-only DMA/MSR descriptor authority requires an audited privileged helper''
     else Inr ())"

text \<open>The read loop: at most 4096 bytes a call, one byte past the bound is an error.\<close>

function read_loop :: "nat \<Rightarrow> nat \<Rightarrow> bytes \<Rightarrow> bytes \<Rightarrow> bytes py" where
  "read_loop maximum received chunks rest =
     (let chunk = take (min 4096 (maximum + 1 - received)) rest in
      if chunk = [] then Inr chunks
      else if maximum < received + length chunk then control_fail ''raw control bytes exceed the resource bound''
      else read_loop maximum (received + length chunk) (chunks @ chunk) (drop (length chunk) rest))"
  by pat_completeness auto
termination
  by (relation "measure (\<lambda>(maximum, received, chunks, rest). length rest)") (auto simp: neq_Nil_conv)

declare read_loop.simps [simp del]

definition host_read_raw :: "'x host_os \<Rightarrow> pystr \<Rightarrow> nat \<Rightarrow> 'x host \<Rightarrow> bytes py" where
  "host_read_raw ops path maximum_bytes h =
     (if maximum_bytes = 0 \<or> MAX_COMMAND_OUTPUT_BYTES < maximum_bytes then control_fail ''raw-read byte bound is invalid''
      else
      and_then (os_open_file ops path (hb_system h)) (\<lambda>(regular, content).
      if \<not> regular then control_fail ''control path is not a regular sysfs/procfs file''
      else read_loop maximum_bytes 0 [] content))"

definition host_read_text :: "'x host_os \<Rightarrow> pystr \<Rightarrow> 'x host \<Rightarrow> pystr py" where
  "host_read_text ops path h = and_then (host_read_raw ops path MAX_CONTROL_TEXT_BYTES h) normalize_control_text"

definition host_write_text :: "'x host_os \<Rightarrow> pystr \<Rightarrow> pyval \<Rightarrow> ('x host, unit) sx" where
  "host_write_text ops path value =
     (if \<not> approved_control_write_path (PyStr path)
      then sx_read (\<lambda>_. control_fail ''control write path is outside the approved host surfaces'')
      else
      case value of
        PyStr text \<Rightarrow>
          if text = [] \<or> 0 \<in> set text \<or> 13 \<in> set text \<or> 10 \<in> set text
          then sx_read (\<lambda>_. control_fail ''control write value is not one text line'')
          else if list_ex (\<lambda>c. 128 \<le> c) text then sx_raise (ValueError ''ordinal not in range(128)'')
          else sx_bind (host_run ops (SUDO @ [lit ''/usr/bin/tee'', lit ''--'', path]) (ascii_bytes text @ [10])) (\<lambda>_. sx_return ())
      | _ \<Rightarrow> sx_raise (TypeError ''argument is not a string''))"

definition host_module_loaded :: "'x host_os \<Rightarrow> pystr \<Rightarrow> 'x host \<Rightarrow> bool py" where
  "host_module_loaded ops name h =
     (if name \<notin> set ALLOWED_MODULES then control_fail ''module is outside the approved telemetry set''
      else Inr (os_isdir ops (lit ''/sys/module/'' @ name) (hb_system h)))"

definition host_service_active :: "'x host_os \<Rightarrow> pystr \<Rightarrow> 'x host \<Rightarrow> bool py" where
  "host_service_active ops name h =
     (if name \<noteq> ALLOWED_SERVICE then control_fail ''service is outside the approved timing service''
      else
      and_then (os_service_query ops [lit ''/usr/bin/systemctl'', lit ''is-active'', lit ''--quiet'', name] (hb_system h)) (\<lambda>returncode.
      if returncode \<noteq> 0 \<and> returncode \<noteq> 3 then control_fail ''service state query failed'' else Inr (returncode = 0)))"

text \<open>The exact set of mutating commands: load or remove a telemetry module, start or stop the service.\<close>

definition command_permitted :: "pystr list \<Rightarrow> bool" where
  "command_permitted command \<longleftrightarrow>
     (case command of
        [executable, separator, name] \<Rightarrow>
          executable = lit ''/usr/sbin/modprobe'' \<and> separator = lit ''--'' \<and> name \<in> set ALLOWED_MODULES \<or>
          executable = lit ''/usr/bin/systemctl'' \<and> (separator = lit ''start'' \<or> separator = lit ''stop'') \<and> name = ALLOWED_SERVICE
      | [executable, flag, separator, name] \<Rightarrow>
          executable = lit ''/usr/sbin/modprobe'' \<and> flag = lit ''-r'' \<and> separator = lit ''--'' \<and> name \<in> set ALLOWED_MODULES
      | _ \<Rightarrow> False)"

definition host_command :: "'x host_os \<Rightarrow> pystr list \<Rightarrow> ('x host, unit) sx" where
  "host_command ops argv =
     (if take 2 argv \<noteq> SUDO then sx_read (\<lambda>_. control_fail ''host mutation command lacks the exact sudo -n prefix'')
      else if \<not> command_permitted (drop 2 argv)
      then sx_read (\<lambda>_. control_fail ''host mutation command is outside the approved exact set'')
      else sx_bind (host_run ops argv []) (\<lambda>_. sx_return ()))"

definition host_affinity :: "'x host_os \<Rightarrow> 'x host \<Rightarrow> nat list py" where
  "host_affinity ops h = and_then (os_sched_getaffinity ops (hb_system h)) (\<lambda>cpus. Inr (sort cpus))"

definition host_set_affinity :: "'x host_os \<Rightarrow> nat list \<Rightarrow> ('x host, unit) sx" where
  "host_set_affinity ops cpus =
     (if cpus = [] then sx_read (\<lambda>_. control_fail ''empty affinity is forbidden'')
      else
      sx_bind (on_system (os_sched_setaffinity ops cpus)) (\<lambda>_.
      sx_bind (sx_read (host_affinity ops)) (\<lambda>observed.
      if observed \<noteq> sort cpus then sx_read (\<lambda>_. control_fail ''process affinity did not take effect exactly'')
      else sx_return ())))"

text \<open>\<^verbatim>\<open>struct.pack("=i", value)\<close> on a little-endian host.\<close>

definition pack_i32 :: "int \<Rightarrow> bytes py" where
  "pack_i32 v =
     (if v < - (2 ^ 31) \<or> 2 ^ 31 - 1 < v then Inl (OtherException ''struct.error'')
      else Inr (rev (to_bytes 4 (nat (v mod 2 ^ 32)))))"

definition host_hold_dma_latency :: "'x host_os \<Rightarrow> int \<Rightarrow> ('x host, unit) sx" where
  "host_hold_dma_latency ops value_us =
     sx_bind (sx_read (\<lambda>h.
        if hb_dma_held h then control_fail ''DMA-latency descriptor is already held''
        else if os_geteuid ops (hb_system h) \<noteq> 0
        then control_fail ''DMA-latency hold requires a source-bound privileged descriptor helper''
        else Inr ())) (\<lambda>_.
     sx_bind (on_system (os_dma_open ops)) (\<lambda>_.
     sx_bind (sx_try
        (sx_bind (sx_read (\<lambda>_. pack_i32 value_us)) (\<lambda>payload.
         sx_bind (on_system (os_dma_write ops payload)) (\<lambda>written.
         if written \<noteq> length payload then sx_read (\<lambda>_. control_fail ''DMA-latency write was incomplete'')
         else sx_return ())))
        (\<lambda>e. sx_bind (sx_modify (\<lambda>h. h\<lparr>hb_system := os_dma_close ops (hb_system h)\<rparr>)) (\<lambda>_. sx_raise e))) (\<lambda>_.
     sx_modify (\<lambda>h. h\<lparr>hb_dma_held := True\<rparr>))))"

definition host_release_dma_latency :: "'x host_os \<Rightarrow> ('x host, unit) sx" where
  "host_release_dma_latency ops =
     sx_modify (\<lambda>h. if hb_dma_held h then h\<lparr>hb_system := os_dma_close ops (hb_system h), hb_dma_held := False\<rparr> else h)"

definition sibling_path :: "nat \<Rightarrow> pystr" where
  "sibling_path cpu = lit ''/sys/devices/system/cpu/cpu'' @ dec_text cpu @ lit ''/topology/thread_siblings_list''"

definition host_smt_sibling_groups :: "'x host_os \<Rightarrow> unicode_db \<Rightarrow> nat list \<Rightarrow> 'x host \<Rightarrow> nat list list py" where
  "host_smt_sibling_groups ops u cpus h =
     and_then (mapM (\<lambda>cpu.
        and_then (host_read_text ops (sibling_path cpu) h) (\<lambda>text.
        and_then (parse_cpu_list u text) (\<lambda>group.
        if cpu \<notin> set group then control_fail ''CPU topology surface omits its owning CPU'' else Inr group))) cpus) (\<lambda>groups.
     Inr (sorted_set groups))"

definition host_backend :: "'x host_os \<Rightarrow> unicode_db \<Rightarrow> 'x host backend" where
  "host_backend ops u =
     \<lparr>be_external_recovery_supported = True,
      be_require_privilege = host_require_privilege ops,
      be_read_text = host_read_text ops,
      be_module_loaded = host_module_loaded ops,
      be_service_active = host_service_active ops,
      be_affinity = host_affinity ops,
      be_smt_sibling_groups = Some (host_smt_sibling_groups ops u),
      be_dma_latency_active = Some (\<lambda>h. Inr (hb_dma_held h)),
      be_write_text = host_write_text ops,
      be_command = host_command ops,
      be_set_affinity = host_set_affinity ops,
      be_hold_dma_latency = host_hold_dma_latency ops,
      be_release_dma_latency = host_release_dma_latency ops\<rparr>"

end
