(* ===== verification/Control_Journal.thy ===== *)
theory Control_Journal
  imports Host_Backend
begin

text \<open>
  The recovery journal of \<^verbatim>\<open>src/scripts/cp2/cp2_timing_controls.py\<close>: an append-only file of canonical
  JSON lines, each holding the SHA-256 of the line before it, behind a handle that keeps its inode. The
  file system is that of the publication module. What the operating system decides (how many bytes a
  write accepts, the random transaction identifiers, the advisory lock) is the record \<open>journal_os\<close>.
\<close>

section \<open>File operations\<close>

record journal_os =
  jo_write :: "bytes \<Rightarrow> world \<Rightarrow> nat py"
  jo_urandom :: "nat \<Rightarrow> bytes"
  jo_flock :: "inode \<Rightarrow> world \<Rightarrow> unit py"
  jo_depth :: nat
  jo_unicode :: unicode_db

text \<open>\<^verbatim>\<open>os.write\<close> on a descriptor opened with \<^verbatim>\<open>O_APPEND\<close>: the accepted prefix goes to the end.\<close>

definition os_append :: "journal_os \<Rightarrow> inode \<Rightarrow> bytes \<Rightarrow> (world, nat) sx" where
  "os_append os fd payload w =
     (case jo_write os payload w of
        Inl e \<Rightarrow> (Inl e, w)
      | Inr n \<Rightarrow> (let k = min n (length payload) in
          (Inr k, update_node fd (\<lambda>node. node\<lparr>n_data := n_data node @ take k payload\<rparr>) w)))"

function write_all :: "journal_os \<Rightarrow> inode \<Rightarrow> bytes \<Rightarrow> world \<Rightarrow> unit py \<times> world" where
  "write_all os fd payload w =
     (if payload = [] then (Inr (), w)
      else case os_append os fd payload w of
        (Inl e, w') \<Rightarrow> (Inl e, w')
      | (Inr written, w') \<Rightarrow>
          if written = 0 then (control_fail ''descriptor write made no progress'', w')
          else write_all os fd (drop written payload) w')"
  by pat_completeness auto
termination
  by (relation "measure (\<lambda>(os, fd, payload, w). length payload)") auto

declare write_all.simps [simp del]

text \<open>\<^verbatim>\<open>os.open(name, O_RDWR|O_APPEND|O_CREAT|O_EXCL|O_CLOEXEC|O_NOFOLLOW, 0o600, dir_fd=fd)\<close>.\<close>

definition os_create_file :: "inode \<Rightarrow> pystr \<Rightarrow> nat \<Rightarrow> (world, inode) sx" where
  "os_create_file fd name mode w =
     (if dir_lookup fd name w \<noteq> None then (Inl (OSError EEXIST), w)
      else
        let i = w_next w;
            fresh = \<lparr>n_kind = KReg, n_uid = w_euid w, n_mode = mode, n_nlink = 1, n_entries = [], n_data = []\<rparr>;
            w' = w\<lparr>w_fs := (w_fs w)(i \<mapsto> fresh), w_next := (fst i, Suc (snd i))\<rparr>
        in (Inr i, update_node fd (\<lambda>n. n\<lparr>n_entries := n_entries n @ [(name, i)]\<rparr>) w'))"

text \<open>Opening every component of an absolute path without following links; \<open>w_abs\<close> names the root.\<close>

definition open_component :: "inode \<Rightarrow> pystr \<Rightarrow> world \<Rightarrow> inode py" where
  "open_component descriptor component w =
     (if component = [] \<or> component = lit ''.'' \<or> component = lit ''..''
      then control_fail ''journal parent contains an unsafe component''
      else open_directory_at descriptor component w)"

definition open_absolute_directory_nofollow :: "pystr \<Rightarrow> world \<Rightarrow> inode py" where
  "open_absolute_directory_nofollow path w =
     (if \<not> isabs path \<or> path = lit ''/'' \<or> normpath path \<noteq> path
      then control_fail ''journal parent is not a normalized non-root absolute path''
      else
      case w_abs w (lit ''/'') of
        None \<Rightarrow> Inl (OSError ENOENT)
      | Some root_fd \<Rightarrow>
          and_then (foldM (\<lambda>descriptor component. open_component descriptor component w) root_fd (tl (split_on 47 path))) (\<lambda>descriptor.
          and_then (fstat descriptor w) (\<lambda>status.
          if n_kind status \<noteq> KDir then control_fail ''journal parent descriptor is not a directory'' else Inr descriptor)))"

section \<open>Strict records\<close>

definition journal_pairs_hook :: "(pystr \<times> pyval) list \<Rightarrow> pyval py" where
  "journal_pairs_hook pairs =
     and_then (foldM (put_new (TimingControlError ''control journal contains a duplicate JSON key'')) [] pairs)
       (\<lambda>value. Inr (PyDict (string_items value)))"

definition journal_hooks :: json_hooks where
  "journal_hooks = \<lparr>object_pairs_hook = journal_pairs_hook,
     parse_float = (\<lambda>_. control_fail ''control journal contains a float''),
     parse_constant = (\<lambda>_. control_fail ''control journal contains a non-JSON constant'')\<rparr>"

text \<open>\<^verbatim>\<open>except (UnicodeDecodeError, ValueError, json.JSONDecodeError)\<close>: all of them are \<^verbatim>\<open>ValueError\<close>.\<close>

definition as_strict_json :: "'a py \<Rightarrow> 'a py" where
  "as_strict_json m = (case m of Inl (ValueError _) \<Rightarrow> control_fail ''control journal record is not strict JSON'' | _ \<Rightarrow> m)"

definition strict_journal_json :: "nat \<Rightarrow> bytes \<Rightarrow> (pyval \<times> pyval) list py" where
  "strict_journal_json depth payload =
     and_then (case utf8_decode payload of
        None \<Rightarrow> control_fail ''control journal record is not strict JSON''
      | Some text \<Rightarrow> as_strict_json (json_loads journal_hooks depth text)) (\<lambda>value.
     case value of
       PyDict kvs \<Rightarrow>
         and_then (control_json depth value) (\<lambda>canonical.
         if canonical \<noteq> payload @ [10] then control_fail ''control journal record is not canonically encoded'' else Inr kvs)
     | _ \<Rightarrow> control_fail ''control journal record is not canonically encoded'')"

section \<open>The handle\<close>

record journal =
  j_parent_fd :: inode
  j_file_fd :: inode
  j_parent :: pystr
  j_name :: pystr
  j_profile_sha256 :: pystr
  j_transaction_id :: pystr
  j_next_sequence :: nat
  j_previous_sha256 :: pystr
  j_closed :: bool

type_synonym 'a jx = "(journal \<times> world, 'a) sx"

definition on_world :: "(world, 'a) sx \<Rightarrow> 'a jx" where
  "on_world = sx_on snd (\<lambda>w (j, _). (j, w))"

definition on_handle :: "(journal \<Rightarrow> journal) \<Rightarrow> unit jx" where
  "on_handle f = sx_modify (\<lambda>(j, w). (f j, w))"

definition ZERO_SHA256 :: pystr where
  "ZERO_SHA256 = replicate 64 48"

definition journal_path :: "pystr \<Rightarrow> pystr \<Rightarrow> pystr" where
  "journal_path parent name = (if last parent = 47 then parent @ name else parent @ [47] @ name)"

text \<open>The device and inode of a descriptor are the descriptor itself in this file system.\<close>

definition verify_name :: "unit jx" where
  "verify_name =
     sx_read (\<lambda>(j, w).
       if j_closed j then control_fail ''recovery journal handle is closed''
       else
       and_then (os_stat (j_parent_fd j) (j_name j) w) (\<lambda>(i, status).
       and_then (fstat (j_file_fd j) w) (\<lambda>held.
       if i \<noteq> j_file_fd j \<or> n_nlink status \<noteq> 1 \<or> n_nlink held \<noteq> 1 \<or> n_kind status \<noteq> KReg \<or>
          n_mode status \<noteq> 384 \<or> n_uid status \<noteq> w_euid w
       then control_fail ''recovery journal name no longer resolves to its held safe inode'' else Inr ())))"

text \<open>The pattern \<^verbatim>\<open>[a-z0-9_.:-]+\<close> over at most 192 characters. Mode 384 is octal 0600.\<close>

definition event_ok :: "pystr \<Rightarrow> bool" where
  "event_ok event \<longleftrightarrow> event \<noteq> [] \<and> length event \<le> 192 \<and>
     list_all (\<lambda>c. 97 \<le> c \<and> c \<le> 122 \<or> is_digit c \<or> c \<in> set (lit ''_.:-'')) event"

definition journal_record :: "journal \<Rightarrow> pystr \<Rightarrow> pyval \<Rightarrow> pyval" where
  "journal_record j event snapshot = str_record
     [(''event'', PyStr event), (''previous_sha256'', PyStr (j_previous_sha256 j)),
      (''profile_sha256'', PyStr (j_profile_sha256 j)), (''record_type'', PyStr (lit ''cp2_timing_control_journal_event'')),
      (''schema_version'', PyInt 1), (''sequence'', PyInt (int (j_next_sequence j))), (''snapshot'', snapshot),
      (''transaction_id'', PyStr (j_transaction_id j))]"

definition journal_append :: "journal_os \<Rightarrow> pystr \<Rightarrow> pyval \<Rightarrow> unit jx" where
  "journal_append os event snapshot =
     (if \<not> event_ok event then sx_read (\<lambda>_. control_fail ''recovery journal event name is invalid'')
      else
      sx_then verify_name
      (sx_bind (sx_read (\<lambda>(j, w). control_json (jo_depth os) (journal_record j event snapshot))) (\<lambda>payload.
      sx_then (sx_read (\<lambda>(j, w). and_then (fstat (j_file_fd j) w) (\<lambda>node.
        if MAX_JOURNAL_BYTES < length (n_data node) + length payload
        then control_fail ''recovery journal exceeds its byte bound'' else Inr ())))
      (sx_bind (sx_read (\<lambda>(j, w). Inr (j_file_fd j))) (\<lambda>file_fd.
      sx_then (on_world (write_all os file_fd payload))
      (sx_then (on_world (os_fsync file_fd))
      (sx_then (on_handle (\<lambda>j. j\<lparr>j_previous_sha256 := hexdigest (sha256 payload), j_next_sequence := j_next_sequence j + 1\<rparr>))
      (sx_read (\<lambda>(j, w). if MAX_JOURNAL_RECORDS < j_next_sequence j
         then control_fail ''recovery journal exceeds its record bound'' else Inr ())))))))))"

definition JOURNAL_KEYS :: "string list" where
  "JOURNAL_KEYS = [''event'', ''previous_sha256'', ''profile_sha256'', ''record_type'', ''schema_version'', ''sequence'',
     ''snapshot'', ''transaction_id'']"

text \<open>One line of \<^verbatim>\<open>records()\<close>, with its sequence number and the digest of the line before it.\<close>

definition equals_index :: "nat \<Rightarrow> pyval \<Rightarrow> bool" where
  "equals_index k v =
     (case v of PyInt n \<Rightarrow> n = int k | PyBool b \<Rightarrow> (if b then k = 1 else k = 0) | _ \<Rightarrow> False)"

definition journal_line :: "journal_os \<Rightarrow> journal \<Rightarrow> nat \<Rightarrow> pystr \<Rightarrow> bytes \<Rightarrow> (pyval \<times> pyval) list py" where
  "journal_line os j sequence previous line =
     (if line = [] \<or> last line \<noteq> 10 then control_fail ''recovery journal has an unterminated record''
      else
      and_then (strict_journal_json (jo_depth os) (butlast line)) (\<lambda>rec.
      if \<not> keys_are JOURNAL_KEYS rec then control_fail ''recovery journal record keys differ''
      else
      and_then (record_field rec ''schema_version'') (\<lambda>version.
      and_then (record_field rec ''record_type'') (\<lambda>record_type.
      and_then (record_field rec ''profile_sha256'') (\<lambda>profile.
      and_then (record_field rec ''transaction_id'') (\<lambda>transaction.
      and_then (record_field rec ''sequence'') (\<lambda>number.
      and_then (record_field rec ''previous_sha256'') (\<lambda>digest.
      if \<not> equals_one version \<or> record_type \<noteq> PyStr (lit ''cp2_timing_control_journal_event'') \<or>
         profile \<noteq> PyStr (j_profile_sha256 j) \<or> transaction \<noteq> PyStr (j_transaction_id j) \<or>
         \<not> equals_index sequence number \<or> digest \<noteq> PyStr previous
      then control_fail ''recovery journal identity or hash chain differs''
      else
      and_then (record_field rec ''event'') (\<lambda>event.
      and_then (record_field rec ''snapshot'') (\<lambda>snapshot.
      if sequence = 0 then
        (if event \<noteq> PyStr (lit ''prior_state_captured'') \<or> snapshot = PyNone
         then control_fail ''recovery journal lacks its unique prior-state record''
         else and_then (snapshot_from_record (jo_unicode os) snapshot) (\<lambda>_. Inr rec))
      else if snapshot \<noteq> PyNone then control_fail ''recovery journal repeats the prior-state snapshot''
      else Inr rec))))))))))"

fun journal_lines :: "journal_os \<Rightarrow> journal \<Rightarrow> nat \<Rightarrow> pystr \<Rightarrow> bytes list \<Rightarrow> (pyval \<times> pyval) list list py" where
  "journal_lines os j sequence previous [] = Inr []"
| "journal_lines os j sequence previous (line # lines) =
     and_then (journal_line os j sequence previous line) (\<lambda>rec.
     and_then (journal_lines os j (Suc sequence) (hexdigest (sha256 line)) lines) (\<lambda>recs. Inr (rec # recs)))"

definition journal_records :: "journal_os \<Rightarrow> journal \<Rightarrow> world \<Rightarrow> (pyval \<times> pyval) list list py" where
  "journal_records os j w =
     and_then (fstat (j_file_fd j) w) (\<lambda>status.
     let payload = n_data status in
     if payload = [] \<or> MAX_JOURNAL_BYTES < length payload then control_fail ''recovery journal byte count is invalid''
     else if last payload \<noteq> 10 then control_fail ''recovery journal read is incomplete''
     else
     let lines = splitlines_keep payload in
     if lines = [] \<or> MAX_JOURNAL_RECORDS < length lines then control_fail ''recovery journal record count is invalid''
     else journal_lines os j 0 ZERO_SHA256 lines)"

definition refresh_chain :: "journal_os \<Rightarrow> unit jx" where
  "refresh_chain os =
     sx_bind (sx_read (\<lambda>(j, w). journal_records os j w)) (\<lambda>records.
     sx_then (on_handle (\<lambda>j. j\<lparr>j_next_sequence := length records\<rparr>))
     (sx_bind (sx_read (\<lambda>(j, w). fstat (j_file_fd j) w)) (\<lambda>status.
     on_handle (\<lambda>j. j\<lparr>j_previous_sha256 := hexdigest (sha256 (last (splitlines_keep (n_data status))))\<rparr>))))"

definition journal_close :: "unit jx" where
  "journal_close = on_handle (\<lambda>j. j\<lparr>j_closed := True\<rparr>)"

definition journal_remove :: "unit jx" where
  "journal_remove =
     sx_then verify_name
     (sx_bind (sx_read (\<lambda>(j, w). Inr j)) (\<lambda>j.
      sx_then (on_world (os_unlink (j_parent_fd j) (j_name j)))
      (sx_then (on_world (os_fsync (j_parent_fd j))) journal_close)))"

section \<open>Creation\<close>

definition hex_text :: "bytes \<Rightarrow> pystr" where
  "hex_text = hexdigest"

definition journal_name :: "pystr \<Rightarrow> pystr" where
  "journal_name transaction_id = lit ''schurvio-cp2e-control-'' @ transaction_id @ lit ''.jsonl''"

text \<open>Whatever fails after the allocation removes the name again; an \<^verbatim>\<open>OSError\<close> there is ignored.\<close>

definition discard_journal :: "inode \<Rightarrow> pystr \<Rightarrow> (world, unit) sx" where
  "discard_journal parent_fd name =
     sx_try (sx_then (os_unlink parent_fd name) (os_fsync parent_fd))
       (\<lambda>e. case e of OSError _ \<Rightarrow> sx_return () | _ \<Rightarrow> sx_raise e)"

text \<open>
  The 128 attempts at a name that does not exist yet: an existing file continues the loop, any other
  error ends it.
\<close>

fun allocate_journal :: "journal_os \<Rightarrow> inode \<Rightarrow> nat list \<Rightarrow> (world, (pystr \<times> inode) option) sx" where
  "allocate_journal os parent_fd [] w = (Inr None, w)"
| "allocate_journal os parent_fd (attempt # attempts) w =
     (let transaction_id = hex_text (jo_urandom os attempt) in
      case os_create_file parent_fd (journal_name transaction_id) 384 w of
        (Inr file_fd, w') \<Rightarrow> (Inr (Some (transaction_id, file_fd)), w')
      | (Inl e, w') \<Rightarrow>
          if e = OSError EEXIST then allocate_journal os parent_fd attempts w'
          else sx_then (discard_journal parent_fd (journal_name transaction_id)) (sx_raise e) w')"

definition fresh_journal :: "inode \<Rightarrow> inode \<Rightarrow> pystr \<Rightarrow> pystr \<Rightarrow> pystr \<Rightarrow> journal" where
  "fresh_journal parent_fd file_fd parent profile_sha256 transaction_id =
     \<lparr>j_parent_fd = parent_fd, j_file_fd = file_fd, j_parent = parent, j_name = journal_name transaction_id,
      j_profile_sha256 = profile_sha256, j_transaction_id = transaction_id, j_next_sequence = 0,
      j_previous_sha256 = ZERO_SHA256, j_closed = False\<rparr>"

definition prepare_journal :: "journal_os \<Rightarrow> inode \<Rightarrow> inode \<Rightarrow> pystr \<Rightarrow> pystr \<Rightarrow> pystr \<Rightarrow> control_snapshot \<Rightarrow> (world, journal) sx" where
  "prepare_journal os parent_fd file_fd parent profile_sha256 transaction_id snapshot =
     sx_then (fchmod file_fd 384)
     (sx_bind (sx_read (fstat file_fd)) (\<lambda>status.
      sx_then (sx_read (\<lambda>w. if n_kind status \<noteq> KReg \<or> n_nlink status \<noteq> 1 \<or> n_mode status \<noteq> 384 \<or> n_uid status \<noteq> w_euid w
        then control_fail ''recovery journal inode metadata is unsafe'' else Inr ()))
      (sx_then (sx_read (jo_flock os file_fd))
      (sx_bind (\<lambda>w. case journal_append os (lit ''prior_state_captured'') (snapshot_as_record snapshot)
                      (fresh_journal parent_fd file_fd parent profile_sha256 transaction_id, w) of
                    (Inl e, (j, w')) \<Rightarrow> (Inl e, w')
                  | (Inr _, (j, w')) \<Rightarrow> (Inr j, w')) (\<lambda>handle.
      sx_then (os_fsync parent_fd) (sx_return handle))))))"

text \<open>
  When no attempt succeeds the handler unlinks the last name it tried: the variable still holds it,
  although another process created that file.
\<close>

definition create_journal :: "journal_os \<Rightarrow> pystr \<Rightarrow> pystr \<Rightarrow> control_snapshot \<Rightarrow> (world, journal) sx" where
  "create_journal os parent profile_sha256 snapshot =
     sx_bind (sx_read (open_absolute_directory_nofollow parent)) (\<lambda>parent_fd.
     sx_bind (allocate_journal os parent_fd [0..<128]) (\<lambda>allocated.
     case allocated of
       None \<Rightarrow>
         sx_then (discard_journal parent_fd (journal_name (hex_text (jo_urandom os 127))))
           (sx_read (\<lambda>_. control_fail ''could not allocate a unique recovery journal''))
     | Some (transaction_id, file_fd) \<Rightarrow>
         sx_try (prepare_journal os parent_fd file_fd parent profile_sha256 transaction_id snapshot)
           (\<lambda>e. sx_then (discard_journal parent_fd (journal_name transaction_id)) (sx_raise e))))"

end
