(* ===== verification/Host_Control.thy ===== *)
theory Host_Control
  imports Control_Journal
begin

text \<open>
  The reversible host-control transaction of \<^verbatim>\<open>src/scripts/cp2/cp2_timing_controls.py\<close>: restoring
  and verifying a captured snapshot, the external recovery guardian, the transaction object with its
  states, and the recovery of a journal left by a dead transaction. The object is a record of its
  attributes next to the two things it acts on, the host and the file system.

  The profile is the typed view of a validated \<^verbatim>\<open>FrozenTimingProfile\<close>; it is immutable, so the
  repeated reloading of its bytes is left out. The environment supplies the backend, the fault injector
  (which sees the boundaries passed so far), the clock and what may befall the guardian process. A
  guardian that is not killed runs its recovery to the end when it is told to. Signals are delivered
  between two calls of the object's methods.
\<close>

section \<open>Profile and environment\<close>

record write_action =
  wa_path :: pystr
  wa_desired_text :: pystr
  wa_parser :: pystr

record module_action =
  ma_name :: pystr
  ma_modprobe_argv :: "pystr list"
  ma_remove_argv :: "pystr list"

record service_action =
  sa_name :: pystr
  sa_deactivate_argv :: "pystr list"
  sa_activate_argv :: "pystr list"

record control_profile =
  cp_sha256 :: pystr
  cp_writes :: "write_action list"
  cp_module_actions :: "module_action list"
  cp_service_actions :: "service_action list"
  cp_cpu_ids :: "nat list"
  cp_dma_latency_us :: int
  cp_smt_sibling_groups :: "nat list list"
  cp_recovery_journal_parent :: pystr

record 'h control_env =
  ce_profile :: control_profile
  ce_backend :: "'h backend"
  ce_os :: journal_os
  ce_fault :: "pystr list \<Rightarrow> exn option"
  ce_guardian_enabled :: bool
  ce_guardian_start :: "unit py"
  ce_guardian_killed :: "pystr list \<Rightarrow> bool"
  ce_main_thread :: bool
  ce_clock :: "nat \<Rightarrow> nat"

section \<open>Verification and restoration of a snapshot\<close>

text \<open>Exceptions collected instead of raised.\<close>

definition errors_of :: "'a py \<Rightarrow> exn list" where
  "errors_of r = (case r of Inl e \<Rightarrow> [e] | Inr _ \<Rightarrow> [])"

definition attempt :: "('s, 'a) sx \<Rightarrow> ('s, exn list) sx" where
  "attempt m = sx_bind (sx_catch m) (\<lambda>r. sx_return (errors_of r))"

primrec collect :: "('a \<Rightarrow> ('s, exn list) sx) \<Rightarrow> 'a list \<Rightarrow> ('s, exn list) sx" where
  "collect f [] = sx_return []"
| "collect f (x # xs) = sx_bind (f x) (\<lambda>es. sx_bind (collect f xs) (\<lambda>rest. sx_return (es @ rest)))"

definition verify_value :: "unicode_db \<Rightarrow> 'h backend \<Rightarrow> 'h \<Rightarrow> pystr \<times> pystr \<times> pyval \<Rightarrow> unit py" where
  "verify_value u be h = (\<lambda>(path, parser, prior).
     and_then (be_read_text be path h) (\<lambda>observed.
     and_then (parse_control_value u (PyStr observed) (PyStr parser)) (\<lambda>_.
     if PyStr observed \<noteq> prior then control_fail ''restored text differs byte-for-byte'' else Inr ())))"

definition verify_module :: "'h backend \<Rightarrow> control_snapshot \<Rightarrow> 'h \<Rightarrow> module_action \<Rightarrow> unit py" where
  "verify_module be s h action =
     and_then (be_module_loaded be (ma_name action) h) (\<lambda>loaded.
     if loaded \<noteq> (ma_name action \<in> set (cs_modules_preexisting s)) then control_fail ''module state differs from prior'' else Inr ())"

definition verify_service :: "'h backend \<Rightarrow> control_snapshot \<Rightarrow> 'h \<Rightarrow> service_action \<Rightarrow> unit py" where
  "verify_service be s h action =
     and_then (be_service_active be (sa_name action) h) (\<lambda>active.
     if active \<noteq> (sa_name action \<in> set (cs_services_active s)) then control_fail ''service state differs from prior'' else Inr ())"

definition verify_affinity :: "'h backend \<Rightarrow> control_snapshot \<Rightarrow> 'h \<Rightarrow> unit py" where
  "verify_affinity be s h =
     and_then (be_affinity be h) (\<lambda>cpus.
     if cpus \<noteq> cs_process_affinity s then control_fail ''process affinity differs from prior'' else Inr ())"

definition verify_snapshot_exact ::
  "unicode_db \<Rightarrow> control_profile \<Rightarrow> control_snapshot \<Rightarrow> 'h backend \<Rightarrow> bool \<Rightarrow> 'h \<Rightarrow> exn list" where
  "verify_snapshot_exact u profile s be process_local h =
     concat (map (\<lambda>v. errors_of (verify_value u be h v)) (cs_values s)) @
     concat (map (\<lambda>a. errors_of (verify_module be s h a)) (cp_module_actions profile)) @
     concat (map (\<lambda>a. errors_of (verify_service be s h a)) (cp_service_actions profile)) @
     (if process_local then errors_of (verify_affinity be s h) else [])"

text \<open>The state of the recovery is any state with a host in it.\<close>

definition recover_operation ::
  "(pystr \<Rightarrow> ('s, unit) sx) option \<Rightarrow> pystr \<Rightarrow> ('s, unit) sx \<Rightarrow> ('s, exn list) sx" where
  "recover_operation boundary label function =
     sx_bind (case boundary of None \<Rightarrow> sx_return [] | Some b \<Rightarrow> attempt (b (lit ''before_'' @ label))) (\<lambda>before_errors.
     sx_bind (attempt function) (\<lambda>errors.
     sx_bind (case boundary of None \<Rightarrow> sx_return [] | Some b \<Rightarrow> attempt (b (lit ''after_'' @ label))) (\<lambda>after_errors.
     sx_return (before_errors @ errors @ after_errors))))"

definition restore_write :: "unicode_db \<Rightarrow> 'h backend \<Rightarrow> pystr \<Rightarrow> pystr \<Rightarrow> pyval \<Rightarrow> ('h, unit) sx" where
  "restore_write u be path parser value =
     sx_then (be_write_text be path value)
     (sx_bind (sx_read (be_read_text be path)) (\<lambda>observed.
      sx_then (sx_read (\<lambda>_. parse_control_value u (PyStr observed) (PyStr parser)))
      (sx_read (\<lambda>_. if PyStr observed \<noteq> value then control_fail ''restored host-control text differs exactly'' else Inr ()))))"

definition restore_service :: "'h backend \<Rightarrow> service_action \<Rightarrow> bool \<Rightarrow> ('h, unit) sx" where
  "restore_service be item active =
     sx_bind (sx_read (be_service_active be (sa_name item))) (\<lambda>observed.
     sx_then (if observed \<noteq> active then be_command be (if active then sa_activate_argv item else sa_deactivate_argv item)
              else sx_return ())
     (sx_bind (sx_read (be_service_active be (sa_name item))) (\<lambda>now.
      sx_read (\<lambda>_. if now \<noteq> active then control_fail ''service did not return to its exact prior state'' else Inr ()))))"

definition restore_module :: "'h backend \<Rightarrow> module_action \<Rightarrow> bool \<Rightarrow> ('h, unit) sx" where
  "restore_module be item loaded =
     sx_bind (sx_read (be_module_loaded be (ma_name item))) (\<lambda>observed.
     sx_then (if observed \<noteq> loaded then be_command be (if loaded then ma_modprobe_argv item else ma_remove_argv item)
              else sx_return ())
     (sx_bind (sx_read (be_module_loaded be (ma_name item))) (\<lambda>now.
      sx_read (\<lambda>_. if now \<noteq> loaded then control_fail ''module did not return to its exact prior state'' else Inr ()))))"

definition indexed :: "string \<Rightarrow> nat \<Rightarrow> pystr" where
  "indexed prefix index = lit prefix @ dec_text index"

text \<open>
  \<open>on\<close> runs a host operation inside the surrounding state. Every operation is tried whatever happened
  before; only a write whose path the snapshot lacks (a \<^verbatim>\<open>KeyError\<close> outside the guarded operation)
  ends the recovery. The errors of the final verification are added, and any error raises.
\<close>

definition recover_snapshot_exact ::
  "unicode_db \<Rightarrow> control_profile \<Rightarrow> control_snapshot \<Rightarrow> 'h backend \<Rightarrow> (('h, unit) sx \<Rightarrow> ('s, unit) sx) \<Rightarrow> ('s \<Rightarrow> 'h) \<Rightarrow>
   bool \<Rightarrow> (pystr \<Rightarrow> ('s, unit) sx) option \<Rightarrow> ('s, unit) sx" where
  "recover_snapshot_exact u profile s be on host_of process_local boundary =
     sx_bind (if process_local then
         sx_bind (recover_operation boundary (lit ''dma_latency_release'') (on (be_release_dma_latency be))) (\<lambda>e1.
         sx_bind (recover_operation boundary (lit ''process_affinity'') (on (be_set_affinity be (cs_process_affinity s)))) (\<lambda>e2.
         sx_return (e1 @ e2)))
       else sx_return []) (\<lambda>local_errors.
     sx_bind (collect (\<lambda>(index, write).
         case map_of (rev (cs_values s)) (wa_path write) of
           None \<Rightarrow> sx_raise (KeyError ''prior_by_path'')
         | Some (parser, prior) \<Rightarrow>
             recover_operation boundary (indexed ''write_'' index) (on (restore_write u be (wa_path write) parser prior)))
       (rev (enumerate 0 (cp_writes profile)))) (\<lambda>write_errors.
     sx_bind (collect (\<lambda>(index, action).
         recover_operation boundary (indexed ''service_'' index)
           (on (restore_service be action (sa_name action \<in> set (cs_services_active s)))))
       (rev (enumerate 0 (cp_service_actions profile)))) (\<lambda>service_errors.
     sx_bind (collect (\<lambda>(index, action).
         recover_operation boundary (indexed ''module_'' index)
           (on (restore_module be action (ma_name action \<in> set (cs_modules_preexisting s)))))
       (rev (enumerate 0 (cp_module_actions profile)))) (\<lambda>module_errors.
     sx_read (\<lambda>st.
       let errors = local_errors @ write_errors @ service_errors @ module_errors @
                    verify_snapshot_exact u profile s be process_local (host_of st)
       in if errors \<noteq> [] then Inl (TimingControlIndeterminate ''host controls were not restored exactly'') else Inr ())))))"

section \<open>The guardian process\<close>

record guardian =
  g_snapshot :: control_snapshot
  g_journal :: journal
  g_finished :: bool

datatype guardian_status = GuardianCancelled | GuardianRecovered | GuardianError

text \<open>The child's state: its copy of the journal handle, the file system, and the host.\<close>

type_synonym 'h child = "(journal \<times> world) \<times> 'h"

definition child_journal :: "'a jx \<Rightarrow> ('h child, 'a) sx" where
  "child_journal = sx_on fst (\<lambda>jw (_, h). (jw, h))"

definition child_host :: "('h, 'a) sx \<Rightarrow> ('h child, 'a) sx" where
  "child_host = sx_on snd (\<lambda>h (jw, _). (jw, h))"

definition guardian_note :: "journal_os \<Rightarrow> string \<Rightarrow> ('h child, exn list) sx" where
  "guardian_note os event = attempt (child_journal (sx_then (refresh_chain os) (journal_append os (lit event) PyNone)))"

definition guardian_recovery :: "'h control_env \<Rightarrow> control_snapshot \<Rightarrow> ('h child, guardian_status) sx" where
  "guardian_recovery env s =
     sx_bind (guardian_note (ce_os env) ''guardian_recovery_started'') (\<lambda>started.
     sx_bind (attempt (recover_snapshot_exact (jo_unicode (ce_os env)) (ce_profile env) s (ce_backend env)
        child_host snd False None)) (\<lambda>failed.
     if failed \<noteq> [] then
       sx_bind (guardian_note (ce_os env) ''guardian_recovery_failed'') (\<lambda>_. sx_return GuardianError)
     else
       sx_bind (guardian_note (ce_os env) ''guardian_recovery_verified'') (\<lambda>verified.
       sx_return (if started = [] \<and> verified = [] then GuardianRecovered else GuardianError))))"

section \<open>The transaction object\<close>

datatype tx_state =
    New | Captured | Journaled | Applying | Applied | Restoring | Restored | Indeterminate | RecoveredByGuardian

record 'h transaction =
  tx_host :: 'h
  tx_fs :: world
  tx_state :: tx_state
  tx_snapshot :: "control_snapshot option"
  tx_prior_receipt :: "control_receipt option"
  tx_applied_receipt :: "control_receipt option"
  tx_restored_receipt :: "control_receipt option"
  tx_journal_path :: "pystr option"
  tx_had_abnormal_recovery :: bool
  tx_boundary_history :: "pystr list"
  tx_journal :: "journal option"
  tx_guardian :: "guardian option"
  tx_signal_handlers :: bool
  tx_clock_reads :: nat

type_synonym ('h, 'a) tx = "('h transaction, 'a) sx"

definition tx_on_host :: "('h, 'a) sx \<Rightarrow> ('h, 'a) tx" where
  "tx_on_host = sx_on tx_host (\<lambda>h t. t\<lparr>tx_host := h\<rparr>)"

definition tx_on_journal :: "'a jx \<Rightarrow> ('h, 'a) tx" where
  "tx_on_journal m t =
     (case tx_journal t of
        None \<Rightarrow> (Inl (AttributeError ''no journal''), t)
      | Some j \<Rightarrow> (case m (j, tx_fs t) of (r, (j', w')) \<Rightarrow> (r, t\<lparr>tx_journal := Some j', tx_fs := w'\<rparr>)))"

definition new_transaction :: "'h control_env \<Rightarrow> 'h \<Rightarrow> world \<Rightarrow> 'h transaction py" where
  "new_transaction env h w =
     (if ce_guardian_enabled env \<and> \<not> be_external_recovery_supported (ce_backend env)
      then control_fail ''requested backend cannot support process-external recovery''
      else Inr \<lparr>tx_host = h, tx_fs = w, tx_state = New, tx_snapshot = None, tx_prior_receipt = None,
        tx_applied_receipt = None, tx_restored_receipt = None, tx_journal_path = None,
        tx_had_abnormal_recovery = False, tx_boundary_history = [], tx_journal = None, tx_guardian = None,
        tx_signal_handlers = False, tx_clock_reads = 0\<rparr>)"

definition set_state :: "tx_state \<Rightarrow> ('h, unit) tx" where
  "set_state st = sx_modify (\<lambda>t. t\<lparr>tx_state := st\<rparr>)"

definition monotonic_ns :: "'h control_env \<Rightarrow> ('h, nat) tx" where
  "monotonic_ns env t = (Inr (ce_clock env (tx_clock_reads t)), t\<lparr>tx_clock_reads := tx_clock_reads t + 1\<rparr>)"

subsection \<open>The guardian seen from the transaction\<close>

definition guardian_assert_alive :: "'h control_env \<Rightarrow> ('h, unit) tx" where
  "guardian_assert_alive env t =
     (case tx_guardian t of
        None \<Rightarrow> (Inr (), t)
      | Some g \<Rightarrow>
          if g_finished g then (control_fail ''external recovery guardian is no longer active'', t)
          else if ce_guardian_killed env (tx_boundary_history t)
          then (control_fail ''external recovery guardian exited early'', t\<lparr>tx_guardian := Some (g\<lparr>g_finished := True\<rparr>)\<rparr>)
          else (Inr (), t))"

text \<open>\<^verbatim>\<open>_finish\<close>: a killed child is reported as malformed, a living one runs its command.\<close>

definition guardian_finish :: "'h control_env \<Rightarrow> bool \<Rightarrow> ('h, guardian_status) tx" where
  "guardian_finish env recover t =
     (case tx_guardian t of
        None \<Rightarrow> (Inl (AttributeError ''no guardian''), t)
      | Some g \<Rightarrow>
          if g_finished g then (control_fail ''external recovery guardian already finished'', t)
          else
          let t' = t\<lparr>tx_guardian := Some (g\<lparr>g_finished := True\<rparr>)\<rparr> in
          if ce_guardian_killed env (tx_boundary_history t)
          then (control_fail ''external recovery guardian completion is malformed'', t')
          else if \<not> recover then (Inr GuardianCancelled, t')
          else
          (case guardian_recovery env (g_snapshot g) ((g_journal g, tx_fs t), tx_host t) of
             (r, ((_, w'), h')) \<Rightarrow> (r, t'\<lparr>tx_fs := w', tx_host := h'\<rparr>)))"

definition guardian_cancel :: "'h control_env \<Rightarrow> ('h, unit) tx" where
  "guardian_cancel env = sx_bind (guardian_finish env False) (\<lambda>status.
     sx_read (\<lambda>_. if status \<noteq> GuardianCancelled
       then control_fail ''external recovery guardian did not acknowledge cancellation'' else Inr ()))"

definition guardian_recover :: "'h control_env \<Rightarrow> ('h, unit) tx" where
  "guardian_recover env = sx_bind (guardian_finish env True) (\<lambda>status.
     sx_read (\<lambda>_. if status \<noteq> GuardianRecovered
       then Inl (TimingControlIndeterminate ''external recovery guardian failed'') else Inr ()))"

definition guardian_active :: "'h transaction \<Rightarrow> bool" where
  "guardian_active t = (case tx_guardian t of None \<Rightarrow> False | Some g \<Rightarrow> \<not> g_finished g)"

subsection \<open>Boundaries, capture and validation\<close>

definition colons :: "pystr \<Rightarrow> pystr" where
  "colons name = map (\<lambda>c. if c = 47 then 58 else c) name"

definition checkpoint :: "'h control_env \<Rightarrow> bool \<Rightarrow> pystr \<Rightarrow> ('h, unit) tx" where
  "checkpoint env journal name =
     sx_then (\<lambda>t. if journal \<and> tx_journal t \<noteq> None then tx_on_journal (journal_append (ce_os env) (colons name) PyNone) t else (Inr (), t))
     (sx_then (sx_modify (\<lambda>t. t\<lparr>tx_boundary_history := tx_boundary_history t @ [name]\<rparr>))
     (sx_then (if starts_with (lit ''apply:'') name then guardian_assert_alive env else sx_return ())
     (sx_read (\<lambda>t. case ce_fault env (tx_boundary_history t) of None \<Rightarrow> Inr () | Some e \<Rightarrow> Inl e))))"

definition capture_values :: "'h control_env \<Rightarrow> 'h \<Rightarrow> (pystr \<times> pystr \<times> pyval) list py" where
  "capture_values env h =
     mapM (\<lambda>write.
       and_then (be_read_text (ce_backend env) (wa_path write) h) (\<lambda>text.
       and_then (parse_control_value (jo_unicode (ce_os env)) (PyStr text) (PyStr (wa_parser write))) (\<lambda>_.
       Inr (wa_path write, wa_parser write, PyStr text)))) (cp_writes (ce_profile env))"

text \<open>The names whose query answers true, a list comprehension with a condition.\<close>

definition filterM_names :: "(pystr \<Rightarrow> bool py) \<Rightarrow> pystr list \<Rightarrow> pystr list py" where
  "filterM_names query names =
     and_then (mapM query names) (\<lambda>answers. Inr (map fst (filter snd (zip names answers))))"

definition module_names :: "'h control_env \<Rightarrow> pystr list" where
  "module_names env = map ma_name (cp_module_actions (ce_profile env))"

definition service_names :: "'h control_env \<Rightarrow> pystr list" where
  "service_names env = map sa_name (cp_service_actions (ce_profile env))"

definition capture :: "'h control_env \<Rightarrow> 'h \<Rightarrow> control_snapshot py" where
  "capture env h =
     and_then (capture_values env h) (\<lambda>observed_values.
     and_then (filterM_names (\<lambda>n. be_module_loaded (ce_backend env) n h) (module_names env)) (\<lambda>modules.
     and_then (filterM_names (\<lambda>n. be_service_active (ce_backend env) n h) (service_names env)) (\<lambda>services.
     and_then (be_affinity (ce_backend env) h) (\<lambda>affinity.
     if affinity = [] \<or> affinity \<noteq> sorted_set affinity
     then control_fail ''captured process affinity is empty or noncanonical''
     else Inr \<lparr>cs_values = observed_values, cs_modules_preexisting = sort modules, cs_services_active = sort services,
               cs_process_affinity = affinity\<rparr>))))"

definition validate_smt_topology :: "'h control_env \<Rightarrow> 'h \<Rightarrow> unit py" where
  "validate_smt_topology env h =
     (case be_smt_sibling_groups (ce_backend env) of
        None \<Rightarrow> Inr ()
      | Some query \<Rightarrow>
          and_then (query (cp_cpu_ids (ce_profile env)) h) (\<lambda>observed.
          if sort observed \<noteq> sort (cp_smt_sibling_groups (ce_profile env))
          then control_fail ''host SMT sibling topology differs from the frozen placement'' else Inr ()))"

definition all_checked :: "('a \<Rightarrow> unit py) \<Rightarrow> 'a list \<Rightarrow> unit py" where
  "all_checked f xs = and_then (mapM f xs) (\<lambda>_. Inr ())"

text \<open>The checks of \<^verbatim>\<open>validate_applied\<close> on a host, without the test of the transaction's state.\<close>

definition controls_applied :: "'h control_env \<Rightarrow> 'h \<Rightarrow> unit py" where
  "controls_applied env h =
     and_then (validate_smt_topology env h) (\<lambda>_.
     and_then (all_checked (\<lambda>write.
        and_then (be_read_text (ce_backend env) (wa_path write) h) (\<lambda>observed.
        and_then (parse_control_value (jo_unicode (ce_os env)) (PyStr observed) (PyStr (wa_parser write))) (\<lambda>_.
        if observed \<noteq> wa_desired_text write then control_fail ''host control drifted from the exact frozen text'' else Inr ())))
        (cp_writes (ce_profile env))) (\<lambda>_.
     and_then (be_affinity (ce_backend env) h) (\<lambda>affinity.
     if affinity \<noteq> cp_cpu_ids (ce_profile env) then control_fail ''runner affinity drifted from the frozen profile''
     else
     and_then (all_checked (\<lambda>name.
        and_then (be_module_loaded (ce_backend env) name h) (\<lambda>loaded.
        if \<not> loaded then control_fail ''required telemetry module is no longer loaded'' else Inr ())) (module_names env)) (\<lambda>_.
     and_then (all_checked (\<lambda>name.
        and_then (be_service_active (ce_backend env) name h) (\<lambda>active.
        if active then control_fail ''timing service unexpectedly became active'' else Inr ())) (service_names env)) (\<lambda>_.
     case be_dma_latency_active (ce_backend env) of
       None \<Rightarrow> Inr ()
     | Some query \<Rightarrow> and_then (query h) (\<lambda>held.
         if \<not> held then control_fail ''DMA-latency descriptor is no longer held'' else Inr ()))))))"

definition validate_applied :: "'h control_env \<Rightarrow> ('h, unit) tx" where
  "validate_applied env =
     sx_read (\<lambda>t. if tx_state t \<noteq> Applied \<and> tx_state t \<noteq> Restoring
       then control_fail ''host controls are not in a validate-able state'' else controls_applied env (tx_host t))"

definition applied_record :: "'h control_env \<Rightarrow> 'h \<Rightarrow> pyval py" where
  "applied_record env h =
     and_then (filterM_names (\<lambda>n. be_service_active (ce_backend env) n h) (service_names env)) (\<lambda>services.
     and_then (filterM_names (\<lambda>n. be_module_loaded (ce_backend env) n h) (module_names env)) (\<lambda>modules.
     and_then (mapM (\<lambda>write. and_then (be_read_text (ce_backend env) (wa_path write) h) (\<lambda>text.
        Inr (str_record [(''path'', PyStr (wa_path write)), (''parser'', PyStr (wa_parser write)), (''text'', PyStr text)])))
        (cp_writes (ce_profile env))) (\<lambda>value_records.
     and_then (be_affinity (ce_backend env) h) (\<lambda>affinity.
     Inr (str_record [(''values'', PyList value_records), (''modules_loaded'', PyList (map PyStr (sort modules))),
       (''services_active'', PyList (map PyStr (sort services))), (''process_affinity'', PyList (map (\<lambda>c. PyInt (int c)) affinity)),
       (''dma_latency_us'', PyInt (cp_dma_latency_us (ce_profile env)))])))))"

definition capture_applied_state :: "'h control_env \<Rightarrow> ('h, pyval) tx" where
  "capture_applied_state env =
     sx_then (sx_read (\<lambda>t. if tx_state t \<noteq> Applied
       then control_fail ''applied control state is unavailable outside the applied state'' else Inr ()))
     (sx_then (validate_applied env) (sx_read (\<lambda>t. applied_record env (tx_host t))))"

definition new_receipt :: "'h control_env \<Rightarrow> string \<Rightarrow> pyval \<Rightarrow> ('h, control_receipt) tx" where
  "new_receipt env phase state =
     sx_bind (monotonic_ns env) (\<lambda>now.
       sx_read (\<lambda>_. make_receipt (jo_depth (ce_os env)) (cp_sha256 (ce_profile env)) (lit phase) now state))"

subsection \<open>Restoring\<close>

definition restore_recapture :: "'h control_env \<Rightarrow> ('h, unit) tx" where
  "restore_recapture env =
     sx_bind (sx_read (\<lambda>t. and_then (capture env (tx_host t)) (\<lambda>s.
        if Some s \<noteq> tx_snapshot t then control_fail ''restored control snapshot differs from the captured prior state''
        else Inr s))) (\<lambda>s.
     sx_bind (new_receipt env ''restored'' (snapshot_as_record s)) (\<lambda>receipt.
     sx_modify (\<lambda>t. t\<lparr>tx_restored_receipt := Some receipt\<rparr>)))"

definition restore_failed :: "'h control_env \<Rightarrow> ('h, unit) tx" where
  "restore_failed env =
     sx_then (sx_modify (\<lambda>t. t\<lparr>tx_had_abnormal_recovery := True\<rparr>))
     (sx_bind (\<lambda>t. if guardian_active t then sx_bind (attempt (guardian_recover env)) (\<lambda>errors. sx_return (errors = [])) t else (Inr False, t)) (\<lambda>recovered_by_guardian.
      sx_then (set_state (if recovered_by_guardian then RecoveredByGuardian else Indeterminate))
      (sx_raise (TimingControlIndeterminate ''host controls were not restored exactly''))))"

definition restore_cleanup :: "'h control_env \<Rightarrow> ('h, unit) tx" where
  "restore_cleanup env =
     sx_then (\<lambda>t. if guardian_active t then
         sx_then (checkpoint env True (lit ''restore:before_guardian_cancel''))
         (sx_then (guardian_cancel env) (checkpoint env True (lit ''restore:after_guardian_cancel''))) t
       else (Inr (), t))
     (sx_then (\<lambda>t. if tx_journal t \<noteq> None then
         sx_then (checkpoint env True (lit ''restore:before_journal_remove''))
         (sx_then (tx_on_journal journal_remove) (sx_modify (\<lambda>t. t\<lparr>tx_journal := None\<rparr>))) t
       else (Inr (), t))
     (sx_modify (\<lambda>t. t\<lparr>tx_journal_path := None, tx_state := Restored\<rparr>)))"

definition restore_guarded :: "'h control_env \<Rightarrow> control_snapshot \<Rightarrow> ('h, exn list) tx" where
  "restore_guarded env s =
     sx_bind (attempt (checkpoint env True (lit ''restore:begin''))) (\<lambda>begin_errors.
     sx_bind (attempt (recover_snapshot_exact (jo_unicode (ce_os env)) (ce_profile env) s (ce_backend env)
        tx_on_host tx_host True (Some (\<lambda>name. checkpoint env True (lit ''restore:'' @ name))))) (\<lambda>recover_errors.
     sx_bind (if begin_errors @ recover_errors = [] then attempt (restore_recapture env) else sx_return []) (\<lambda>capture_errors.
     sx_bind (attempt (checkpoint env True (lit ''restore:state_verified''))) (\<lambda>verified_errors.
     sx_return (begin_errors @ recover_errors @ capture_errors @ verified_errors)))))"

definition restore_refresh :: "'h control_env \<Rightarrow> ('h, unit) tx" where
  "restore_refresh env t =
     (if (tx_state t = Indeterminate \<or> tx_state t = RecoveredByGuardian) \<and> tx_journal t \<noteq> None
      then sx_bind (attempt (tx_on_journal (refresh_chain (ce_os env)))) (\<lambda>_. sx_return ()) t
      else (Inr (), t))"

definition restore_finish :: "'h control_env \<Rightarrow> exn list \<Rightarrow> ('h, unit) tx" where
  "restore_finish env errors =
     (if errors \<noteq> [] then restore_failed env
      else sx_try (restore_cleanup env) (\<lambda>_.
        sx_then (sx_modify (\<lambda>t. t\<lparr>tx_had_abnormal_recovery := True, tx_state := Indeterminate\<rparr>))
        (sx_raise (TimingControlIndeterminate ''controls were restored but recovery evidence cleanup was indeterminate''))))"

definition restore :: "'h control_env \<Rightarrow> ('h, unit) tx" where
  "restore env t =
     (if tx_state t = Restored then (Inr (), t)
      else case tx_snapshot t of
        None \<Rightarrow> (Inr (), t)
      | Some s \<Rightarrow>
          sx_then (restore_refresh env)
          (sx_then (set_state Restoring)
          (sx_bind (restore_guarded env s) (\<lambda>errors.
           sx_then (sx_modify (\<lambda>t. t\<lparr>tx_signal_handlers := False\<rparr>)) (restore_finish env errors)))) t)"

subsection \<open>Applying\<close>

definition mutation :: "'h control_env \<Rightarrow> pystr \<Rightarrow> ('h, unit) sx \<Rightarrow> ('h, unit) tx" where
  "mutation env label function =
     sx_then (checkpoint env True (lit ''apply:before_'' @ label))
     (sx_then (tx_on_host function) (checkpoint env True (lit ''apply:after_'' @ label)))"

definition apply_module :: "'h control_env \<Rightarrow> control_snapshot \<Rightarrow> nat \<times> module_action \<Rightarrow> ('h, unit) tx" where
  "apply_module env s = (\<lambda>(index, action).
     if ma_name action \<in> set (cs_modules_preexisting s) then sx_return ()
     else
     sx_then (mutation env (indexed ''module_'' index) (be_command (ce_backend env) (ma_modprobe_argv action)))
     (sx_read (\<lambda>t. and_then (be_module_loaded (ce_backend env) (ma_name action) (tx_host t)) (\<lambda>loaded.
        if \<not> loaded then control_fail ''telemetry module did not become loaded'' else Inr ()))))"

definition apply_service :: "'h control_env \<Rightarrow> control_snapshot \<Rightarrow> nat \<times> service_action \<Rightarrow> ('h, unit) tx" where
  "apply_service env s = (\<lambda>(index, action).
     if sa_name action \<notin> set (cs_services_active s) then sx_return ()
     else
     sx_then (mutation env (indexed ''service_'' index) (be_command (ce_backend env) (sa_deactivate_argv action)))
     (sx_read (\<lambda>t. and_then (be_service_active (ce_backend env) (sa_name action) (tx_host t)) (\<lambda>active.
        if active then control_fail ''timing service did not become inactive'' else Inr ()))))"

definition apply_write :: "'h control_env \<Rightarrow> nat \<times> write_action \<Rightarrow> ('h, unit) tx" where
  "apply_write env = (\<lambda>(index, write).
     sx_then (mutation env (indexed ''write_'' index) (be_write_text (ce_backend env) (wa_path write) (PyStr (wa_desired_text write))))
     (sx_read (\<lambda>t. and_then (be_read_text (ce_backend env) (wa_path write) (tx_host t)) (\<lambda>observed.
        and_then (parse_control_value (jo_unicode (ce_os env)) (PyStr observed) (PyStr (wa_parser write))) (\<lambda>_.
        if observed \<noteq> wa_desired_text write then control_fail ''host control did not assume its exact requested text'' else Inr ())))))"

definition apply_mutations :: "'h control_env \<Rightarrow> control_snapshot \<Rightarrow> ('h, unit) tx" where
  "apply_mutations env s =
     sx_then (sx_each (apply_module env s) (enumerate 0 (cp_module_actions (ce_profile env))))
     (sx_then (sx_each (apply_service env s) (enumerate 0 (cp_service_actions (ce_profile env))))
     (sx_then (sx_each (apply_write env) (enumerate 0 (cp_writes (ce_profile env))))
     (sx_then (mutation env (lit ''process_affinity'') (be_set_affinity (ce_backend env) (cp_cpu_ids (ce_profile env))))
     (mutation env (lit ''dma_latency_hold'') (be_hold_dma_latency (ce_backend env) (cp_dma_latency_us (ce_profile env)))))))"

definition start_journal :: "'h control_env \<Rightarrow> control_snapshot \<Rightarrow> ('h, unit) tx" where
  "start_journal env s =
     sx_then (checkpoint env False (lit ''apply:before_journal''))
     (sx_bind (sx_on tx_fs (\<lambda>w t. t\<lparr>tx_fs := w\<rparr>)
        (create_journal (ce_os env) (cp_recovery_journal_parent (ce_profile env)) (cp_sha256 (ce_profile env)) s)) (\<lambda>j.
     sx_then (sx_modify (\<lambda>t. t\<lparr>tx_journal := Some j, tx_journal_path := Some (journal_path (j_parent j) (j_name j)), tx_state := Journaled\<rparr>))
     (checkpoint env True (lit ''apply:after_journal''))))"

text \<open>The fork copies the journal handle; the thread check and the fork may fail.\<close>

definition start_guardian :: "'h control_env \<Rightarrow> control_snapshot \<Rightarrow> ('h, unit) tx" where
  "start_guardian env s =
     (if \<not> ce_guardian_enabled env then sx_return ()
      else
      sx_then (checkpoint env True (lit ''apply:before_guardian''))
      (sx_then (sx_read (\<lambda>_. ce_guardian_start env))
      (sx_then (sx_modify (\<lambda>t. case tx_journal t of
          None \<Rightarrow> t | Some j \<Rightarrow> t\<lparr>tx_guardian := Some \<lparr>g_snapshot = s, g_journal = j, g_finished = False\<rparr>\<rparr>))
      (checkpoint env True (lit ''apply:after_guardian'')))))"

definition install_signal_handlers :: "'h control_env \<Rightarrow> ('h, unit) tx" where
  "install_signal_handlers env =
     (if \<not> ce_main_thread env then sx_read (\<lambda>_. control_fail ''host-control signal restoration requires the main thread'')
      else sx_modify (\<lambda>t. t\<lparr>tx_signal_handlers := True\<rparr>))"

definition apply_validated :: "'h control_env \<Rightarrow> ('h, unit) tx" where
  "apply_validated env =
     sx_then (validate_applied env)
     (sx_bind (monotonic_ns env) (\<lambda>now.
      sx_bind (capture_applied_state env) (\<lambda>state.
      sx_bind (sx_read (\<lambda>_. make_receipt (jo_depth (ce_os env)) (cp_sha256 (ce_profile env)) (lit ''applied'') now state)) (\<lambda>receipt.
      sx_then (sx_modify (\<lambda>t. t\<lparr>tx_applied_receipt := Some receipt\<rparr>))
      (checkpoint env True (lit ''apply:validated''))))))"

definition apply_guarded :: "'h control_env \<Rightarrow> control_snapshot \<Rightarrow> ('h, unit) tx" where
  "apply_guarded env s =
     sx_then (start_journal env s)
     (sx_then (start_guardian env s)
     (sx_then (install_signal_handlers env)
     (sx_then (set_state Applying)
     (sx_then (apply_mutations env s)
     (sx_then (set_state Applied)
     (apply_validated env))))))"

definition apply_preflight :: "'h control_env \<Rightarrow> ('h, unit) tx" where
  "apply_preflight env =
     sx_then (checkpoint env False (lit ''apply:before_privilege''))
     (sx_then (sx_read (\<lambda>t. be_require_privilege (ce_backend env) (tx_host t)))
     (sx_then (checkpoint env False (lit ''apply:after_privilege''))
     (sx_then (sx_read (\<lambda>t. validate_smt_topology env (tx_host t)))
     (checkpoint env False (lit ''apply:before_capture'')))))"

definition confirm_capture :: "'h control_env \<Rightarrow> ('h, unit) tx" where
  "confirm_capture env =
     sx_try (checkpoint env False (lit ''apply:after_capture''))
       (\<lambda>e. sx_then (sx_modify (\<lambda>t. t\<lparr>tx_snapshot := None, tx_prior_receipt := None, tx_state := New\<rparr>)) (sx_raise e))"

definition apply_capture :: "'h control_env \<Rightarrow> ('h, control_snapshot) tx" where
  "apply_capture env =
     sx_then (apply_preflight env)
     (sx_bind (sx_read (\<lambda>t. capture env (tx_host t))) (\<lambda>s.
      sx_then (sx_modify (\<lambda>t. t\<lparr>tx_snapshot := Some s\<rparr>))
      (sx_bind (new_receipt env ''prior'' (snapshot_as_record s)) (\<lambda>receipt.
      sx_then (sx_modify (\<lambda>t. t\<lparr>tx_prior_receipt := Some receipt, tx_state := Captured\<rparr>))
      (sx_then (confirm_capture env) (sx_return s))))))"

definition apply_handler :: "'h control_env \<Rightarrow> exn \<Rightarrow> ('h, unit) tx" where
  "apply_handler env apply_error =
     sx_bind (attempt (restore env)) (\<lambda>restore_errors.
       sx_raise (if restore_errors \<noteq> []
         then TimingControlIndeterminate ''host-control apply failed and exact restoration also failed'' else apply_error))"

definition apply_transaction :: "'h control_env \<Rightarrow> ('h, control_snapshot) tx" where
  "apply_transaction env t =
     (if tx_state t \<noteq> New then (control_fail ''host-control transaction cannot be applied from state'', t)
      else sx_bind (apply_capture env) (\<lambda>s.
        sx_then (sx_try (apply_guarded env s) (apply_handler env)) (sx_return s)) t)"

subsection \<open>Receipts and signals\<close>

definition control_receipts :: "'h transaction \<Rightarrow> (control_receipt \<times> control_receipt \<times> control_receipt) py" where
  "control_receipts t =
     (case (tx_prior_receipt t, tx_applied_receipt t, tx_restored_receipt t) of
        (Some prior, Some applied, Some restored) \<Rightarrow>
          if tx_state t \<noteq> Restored \<or> tx_had_abnormal_recovery t
          then control_fail ''passing control receipts require one clean complete transaction''
          else if cr_state_bytes prior \<noteq> cr_state_bytes restored then control_fail ''prior and restored control states differ''
          else Inr (prior, applied, restored)
      | _ \<Rightarrow> control_fail ''passing control receipts require one clean complete transaction'')"

definition signal_handler :: "'h control_env \<Rightarrow> ('h, unit) tx" where
  "signal_handler env = sx_then (restore env) (sx_raise (OtherException ''KeyboardInterrupt''))"

section \<open>Recovering a dead transaction's journal\<close>

text \<open>\<^verbatim>\<open>os.path.split\<close>.\<close>

definition path_tail :: "pystr \<Rightarrow> pystr" where
  "path_tail p = rev (takeWhile (\<lambda>c. c \<noteq> 47) (rev p))"

definition path_head :: "pystr \<Rightarrow> pystr" where
  "path_head p =
     (let head = take (length p - length (path_tail p)) p in
      if list_all (\<lambda>c. c = 47) head then head else rev (dropWhile (\<lambda>c. c = 47) (rev head)))"

definition journal_name_ok :: "pystr \<Rightarrow> bool" where
  "journal_name_ok name \<longleftrightarrow> (let id = take 32 (drop 22 name) in lower_hex_exactly 32 id \<and> name = journal_name id)"

definition flock_existing :: "journal_os \<Rightarrow> inode \<Rightarrow> world \<Rightarrow> unit py" where
  "flock_existing os file_fd w =
     (case jo_flock os file_fd w of
        Inl e \<Rightarrow> if e = OSError 11 then control_fail ''recovery journal belongs to a live transaction'' else Inl e
      | Inr x \<Rightarrow> Inr x)"

definition existing_handle :: "journal_os \<Rightarrow> control_profile \<Rightarrow> pystr \<Rightarrow> inode \<Rightarrow> inode \<Rightarrow> bytes \<Rightarrow> journal py" where
  "existing_handle os profile name parent_fd file_fd payload =
     (let first_line = hd (splitlines_keep payload) in
      if last first_line \<noteq> 10 then control_fail ''existing recovery journal first record is incomplete''
      else
      and_then (strict_journal_json (jo_depth os) (butlast first_line)) (\<lambda>first.
      case map_of first (PyStr (lit ''transaction_id'')) of
        Some (PyStr transaction_id) \<Rightarrow>
          if \<not> lower_hex_exactly 32 transaction_id then control_fail ''existing recovery journal transaction ID is invalid''
          else Inr ((fresh_journal parent_fd file_fd (cp_recovery_journal_parent profile) (cp_sha256 profile) transaction_id)\<lparr>j_name := name\<rparr>)
      | _ \<Rightarrow> control_fail ''existing recovery journal transaction ID is invalid''))"

definition open_existing_journal :: "journal_os \<Rightarrow> control_profile \<Rightarrow> pystr \<Rightarrow> world \<Rightarrow> journal py" where
  "open_existing_journal os profile path w =
     (if normpath path \<noteq> path \<or> path_head path \<noteq> cp_recovery_journal_parent profile
      then control_fail ''recovery journal path is outside its frozen parent''
      else if \<not> journal_name_ok (path_tail path) then control_fail ''recovery journal filename is invalid''
      else
      and_then (open_absolute_directory_nofollow (cp_recovery_journal_parent profile) w) (\<lambda>parent_fd.
      and_then (open_file_at parent_fd (path_tail path) w) (\<lambda>file_fd.
      and_then (fstat file_fd w) (\<lambda>status.
      if n_kind status \<noteq> KReg \<or> n_nlink status \<noteq> 1 \<or> n_mode status \<noteq> 384 \<or> n_uid status \<noteq> w_euid w
      then control_fail ''existing recovery journal inode metadata is unsafe''
      else
      and_then (flock_existing os file_fd w) (\<lambda>_.
      if n_data status = [] \<or> MAX_JOURNAL_BYTES < length (n_data status)
      then control_fail ''existing recovery journal byte count is invalid''
      else
      and_then (existing_handle os profile (path_tail path) parent_fd file_fd (n_data status)) (\<lambda>handle.
      case refresh_chain os (handle, w) of (Inl e, _) \<Rightarrow> Inl e | (Inr _, (j, _)) \<Rightarrow> Inr j))))))"

definition recovery_receipt :: "'h control_env \<Rightarrow> pystr \<Rightarrow> control_snapshot \<Rightarrow> (pyval \<times> bytes \<times> pystr) py" where
  "recovery_receipt env path s =
     and_then (snapshot_digest (jo_depth (ce_os env)) s) (\<lambda>digest.
     let receipt = str_record [(''schema_version'', PyInt 1), (''record_type'', PyStr (lit ''cp2_timing_control_manual_recovery'')),
       (''profile_sha256'', PyStr (cp_sha256 (ce_profile env))), (''journal_path'', PyStr path),
       (''snapshot_sha256'', PyStr digest), (''passed'', PyBool True)] in
     and_then (control_json (jo_depth (ce_os env)) receipt) (\<lambda>canonical.
     Inr (receipt, canonical, hexdigest (sha256 canonical))))"

definition manual_recovery :: "'h control_env \<Rightarrow> pystr \<Rightarrow> ('h child, pyval \<times> bytes \<times> pystr) sx" where
  "manual_recovery env path =
     sx_bind (sx_read (\<lambda>((j, w), h). journal_records (ce_os env) j w)) (\<lambda>records.
     sx_bind (sx_read (\<lambda>_. and_then (record_field (hd records) ''snapshot'') (snapshot_from_record (jo_unicode (ce_os env))))) (\<lambda>s.
     sx_then (sx_read (\<lambda>(_, h). be_require_privilege (ce_backend env) h))
     (sx_bind (attempt (child_journal (journal_append (ce_os env) (lit ''manual_recovery_started'') PyNone))) (\<lambda>started.
     sx_then (recover_snapshot_exact (jo_unicode (ce_os env)) (ce_profile env) s (ce_backend env) child_host snd False None)
     (sx_bind (guardian_note (ce_os env) ''manual_recovery_verified'') (\<lambda>verified.
     if started @ verified \<noteq> []
     then sx_raise (TimingControlIndeterminate ''host controls were recovered but journal proof failed'')
     else sx_read (\<lambda>_. recovery_receipt env path s)))))))"

definition recover_control_journal :: "'h control_env \<Rightarrow> pystr \<Rightarrow> (world \<times> 'h, pyval \<times> bytes \<times> pystr) sx" where
  "recover_control_journal env path = (\<lambda>(w, h).
     case open_existing_journal (ce_os env) (ce_profile env) path w of
       Inl e \<Rightarrow> (Inl e, (w, h))
     | Inr handle \<Rightarrow>
         (case sx_try (manual_recovery env path) (\<lambda>e.
             sx_bind (guardian_note (ce_os env) ''manual_recovery_failed'') (\<lambda>_.
             sx_raise (case e of TimingControlIndeterminate m \<Rightarrow> TimingControlIndeterminate m
                       | _ \<Rightarrow> TimingControlIndeterminate ''manual control recovery failed''))) ((handle, w), h) of
            (r, ((_, w'), h')) \<Rightarrow> (r, (w', h'))))"

end
