(* ===== verification/Control_Journal_Correct.thy ===== *)
theory Control_Journal_Correct
  imports Control_Journal Cp2_Schema_Correct
begin

text \<open>
  Correctness of the recovery journal: one line reads back, appending extends the chain, the chain that
  was written is the chain that is read, and an append never alters what is already in the file.
\<close>

section \<open>One line\<close>

interpretation journal_reader: json_reader journal_hooks
proof
  fix kvs :: "(pystr \<times> pyval) list"
  assume "distinct (map fst kvs)"
  then show "object_pairs_hook journal_hooks kvs = Inr (PyDict (string_items kvs))"
    using put_new_distinct [of "[]" kvs] by (simp add: journal_hooks_def journal_pairs_hook_def)
qed

lemma cp_octets_printable: "32 \<le> c \<Longrightarrow> b \<in> set (cp_octets c) \<Longrightarrow> 32 \<le> b"
  by (auto simp: cp_octets_def split: if_splits)

lemma utf8_text_ok:
  assumes "text_ok False t"
  shows "\<exists>b. utf8_encode t = Some b \<and> 10 \<notin> set b \<and> 13 \<notin> set b"
proof -
  have s: "list_all is_scalar t" using assms by (rule text_ok_scalars)
  have "unat (word_of_nat x :: byte) = x \<and> 32 \<le> x" if "x \<in> set (concat (map cp_octets t))" for x
  proof -
    from that obtain c where c: "c \<in> set t" "x \<in> set (cp_octets c)" by auto
    have "is_scalar c" "32 \<le> c" using s c(1) assms by (auto simp: list_all_iff text_ok_def)
    then show ?thesis using cp_octets_bytes [OF _ c(2)] cp_octets_printable [OF _ c(2)] by (simp add: unat_of_nat)
  qed
  then have "\<forall>b \<in> set (map (word_of_nat :: nat \<Rightarrow> byte) (concat (map cp_octets t))). 32 \<le> unat b" by auto
  then have "10 \<notin> set (map (word_of_nat :: nat \<Rightarrow> byte) (concat (map cp_octets t)))"
    "13 \<notin> set (map (word_of_nat :: nat \<Rightarrow> byte) (concat (map cp_octets t)))" by fastforce+
  then show ?thesis using s by (simp add: utf8_encode_def)
qed

lemma line_reads_back:
  assumes "json_wf (Suc d) (PyDict kvs)"
  shows "\<exists>t b. json_dumps False (Suc d) (PyDict kvs) = Inr t \<and> utf8_encode t = Some b \<and>
    control_json (Suc d) (PyDict kvs) = Inr (b @ [10]) \<and> 10 \<notin> set b \<and> 13 \<notin> set b \<and>
    strict_journal_json (Suc d) b = Inr (sorted_items d kvs)"
proof -
  have n: "json_normal (Suc d) (PyDict (sorted_items d kvs))" using json_sort_normal [OF assms] unfolding json_sort_dict .
  have e: "json_dumps a (Suc d) (PyDict (sorted_items d kvs)) = json_dumps a (Suc d) (PyDict kvs)" for a
    using dumps_sort [OF assms, of a] unfolding json_sort_dict .
  obtain t where t: "json_dumps False (Suc d) (PyDict kvs) = Inr t" "json_loads journal_hooks (Suc d) t = Inr (PyDict (sorted_items d kvs))"
    using journal_reader.loads_dumps [OF n, of False] unfolding e by blast
  have "text_ok False t" using text_ok_dumps [OF n] t(1) e by metis
  then obtain b where b: "utf8_encode t = Some b" "10 \<notin> set b" "13 \<notin> set b" using utf8_text_ok by blast
  then have "utf8_decode b = Some t" by (simp add: utf8_decode_encode)
  then show ?thesis using t b e [of False]
    by (auto simp: control_json_def strict_journal_json_def as_strict_json_def simp del: json_dumps.simps)
qed

section \<open>Appending to a file\<close>

definition append_data :: "inode \<Rightarrow> bytes \<Rightarrow> world \<Rightarrow> world" where
  "append_data fd payload = update_node fd (\<lambda>node. node\<lparr>n_data := n_data node @ payload\<rparr>)"

lemma append_data_simps [simp]:
  "append_data fd [] w = w" "append_data fd q (append_data fd p w) = append_data fd (p @ q) w"
  "w_euid (append_data fd p w) = w_euid w" "w_disk (append_data fd p w) = w_disk w" "w_abs (append_data fd p w) = w_abs w"
  "w_next (append_data fd p w) = w_next w"
  by (auto simp: append_data_def update_node_def fun_eq_iff option.map_comp comp_def option.map_id0 option.map_ident intro!: world.equality)

lemma append_data_node [simp]:
  "w_fs (append_data fd p w) i = (if i = fd then map_option (\<lambda>node. node\<lparr>n_data := n_data node @ p\<rparr>) (w_fs w fd) else w_fs w i)"
  by (simp add: append_data_def update_node_def)

lemma append_data_lookup [simp]: "dir_lookup d name (append_data fd p w) = dir_lookup d name w"
  by (auto simp: dir_lookup_def split: option.splits)

lemma write_all_Nil [simp]: "write_all os fd [] w = (Inr (), w)"
  by (simp add: write_all.simps)

lemma on_world_run: "on_world m jw = (r, jw') \<longleftrightarrow> m (snd jw) = (r, snd jw') \<and> fst jw' = fst jw"
  by (cases jw; cases jw') (auto simp: on_world_def sx_on_def split: prod.splits)

lemma on_handle_run: "on_handle f jw = (r, jw') \<longleftrightarrow> r = Inr () \<and> jw' = (f (fst jw), snd jw)"
  by (cases jw) (auto simp: on_handle_def)

text \<open>Whatever the operating system accepts, a prefix of the payload is appended; all of it on success.\<close>

lemma write_all_appends:
  assumes "write_all os fd payload w = (r, w')"
  shows "\<exists>k. w' = append_data fd (take k payload) w \<and> (r = Inr () \<longrightarrow> take k payload = payload)"
  using assms
proof (induction os fd payload w rule: write_all.induct)
  case (1 os fd payload w)
  show ?case
  proof (cases "payload = []")
    case True
    then show ?thesis using "1.prems" by (simp add: write_all.simps)
  next
    case ne: False
    show ?thesis
    proof (cases "jo_write os payload w")
      case (Inl e)
      then have "w' = append_data fd (take 0 payload) w \<and> r \<noteq> Inr ()"
        using "1.prems" ne by (auto simp: write_all.simps [of os fd payload w] os_append_def)
      then show ?thesis by blast
    next
      case (Inr n)
      let ?k = "min n (length payload)"
      have a: "os_append os fd payload w = (Inr ?k, append_data fd (take ?k payload) w)" using Inr
        by (simp add: os_append_def append_data_def Let_def)
      show ?thesis
      proof (cases "?k = 0")
        case True
        then have "w' = append_data fd (take ?k payload) w \<and> r \<noteq> Inr ()"
          using "1.prems" ne a by (auto simp: write_all.simps [of os fd payload w] control_fail_def)
        then show ?thesis by blast
      next
        case False
        have "write_all os fd payload w = write_all os fd (drop ?k payload) (append_data fd (take ?k payload) w)"
          by (subst write_all.simps) (simp only: ne a False prod.case sum.case if_False)
        then have "write_all os fd (drop ?k payload) (append_data fd (take ?k payload) w) = (r, w')" using "1.prems" by simp
        from "1.IH" [OF ne a [symmetric] refl False this]
        obtain m where "w' = append_data fd (take m (drop ?k payload)) (append_data fd (take ?k payload) w)"
          "r = Inr () \<longrightarrow> take m (drop ?k payload) = drop ?k payload" by blast
        moreover have "take ?k payload @ take m (drop ?k payload) = take (?k + m) payload" by (simp add: take_add)
        ultimately have "w' = append_data fd (take (?k + m) payload) w \<and> (r = Inr () \<longrightarrow> take (?k + m) payload = payload)"
          by (metis append_data_simps(2) append_take_drop_id)
        then show ?thesis by blast
      qed
    qed
  qed
qed

definition makes_progress :: "journal_os \<Rightarrow> bool" where
  "makes_progress os \<longleftrightarrow> (\<forall>p w. p \<noteq> [] \<longrightarrow> (\<exists>n. jo_write os p w = Inr n \<and> 0 < n))"

lemma write_all_completes: "makes_progress os \<Longrightarrow> fst (write_all os fd payload w) = Inr ()"
proof (induction os fd payload w rule: write_all.induct)
  case (1 os fd payload w)
  show ?case
  proof (cases "payload = []")
    case False
    then obtain n where n: "jo_write os payload w = Inr n" "0 < n" using "1.prems" by (auto simp: makes_progress_def)
    let ?k = "min n (length payload)"
    have a: "os_append os fd payload w = (Inr ?k, append_data fd (take ?k payload) w)" using n
      by (simp add: os_append_def append_data_def Let_def)
    have k: "?k \<noteq> 0" using n False by simp
    from "1.IH" [OF False a [symmetric] refl k "1.prems"] show ?thesis using False a k by (simp add: write_all.simps [of os fd payload w])
  qed simp
qed

section \<open>The chain\<close>

text \<open>The lines a sequence of events gives, from a sequence number and the digest before them.\<close>

type_synonym journal_entry = "pystr \<times> pyval"

definition entry_line :: "journal_os \<Rightarrow> journal \<Rightarrow> nat \<Rightarrow> pystr \<Rightarrow> journal_entry \<Rightarrow> bytes py" where
  "entry_line os j sequence previous entry =
     control_json (jo_depth os) (journal_record (j\<lparr>j_next_sequence := sequence, j_previous_sha256 := previous\<rparr>) (fst entry) (snd entry))"

fun chain_lines :: "journal_os \<Rightarrow> journal \<Rightarrow> nat \<Rightarrow> pystr \<Rightarrow> journal_entry list \<Rightarrow> bytes list py" where
  "chain_lines os j sequence previous [] = Inr []"
| "chain_lines os j sequence previous (entry # entries) =
     and_then (entry_line os j sequence previous entry) (\<lambda>line.
     and_then (chain_lines os j (Suc sequence) (hexdigest (sha256 line)) entries) (\<lambda>lines. Inr (line # lines)))"

definition chain_digest :: "pystr \<Rightarrow> bytes list \<Rightarrow> pystr" where
  "chain_digest previous lines = (if lines = [] then previous else hexdigest (sha256 (last lines)))"

lemma chain_lines_snoc:
  "chain_lines os j sequence previous (entries @ [entry]) = Inr lines' \<longleftrightarrow>
     (\<exists>lines line. chain_lines os j sequence previous entries = Inr lines \<and>
        entry_line os j (sequence + length entries) (chain_digest previous lines) entry = Inr line \<and> lines' = lines @ [line])"
proof (induction entries arbitrary: sequence previous lines')
  case (Cons e entries)
  then show ?case by (fastforce simp: chain_digest_def)
qed (auto simp: chain_digest_def)

text \<open>What the handle claims of its file.\<close>

definition journal_written :: "journal_os \<Rightarrow> journal \<Rightarrow> world \<Rightarrow> journal_entry list \<Rightarrow> bool" where
  "journal_written os j w entries \<longleftrightarrow>
     (\<exists>lines node. chain_lines os j 0 ZERO_SHA256 entries = Inr lines \<and> w_fs w (j_file_fd j) = Some node \<and>
        n_data node = concat lines \<and> length (n_data node) \<le> MAX_JOURNAL_BYTES \<and>
        j_next_sequence j = length entries \<and> length entries \<le> MAX_JOURNAL_RECORDS \<and>
        j_previous_sha256 j = chain_digest ZERO_SHA256 lines)"

lemma chain_lines_cong:
  assumes "j_profile_sha256 j' = j_profile_sha256 j" "j_transaction_id j' = j_transaction_id j"
  shows "chain_lines os j' sequence previous entries = chain_lines os j sequence previous entries"
  by (induction entries arbitrary: sequence previous) (simp_all add: entry_line_def journal_record_def assms)

text \<open>One append, taken apart.\<close>

lemma journal_append_run:
  assumes "journal_append os event snapshot (j, w) = (Inr u, (j', w'))"
  obtains payload node where "event_ok event" "control_json (jo_depth os) (journal_record j event snapshot) = Inr payload"
    "w_fs w (j_file_fd j) = Some node" "length (n_data node) + length payload \<le> MAX_JOURNAL_BYTES"
    "j' = j\<lparr>j_previous_sha256 := hexdigest (sha256 payload), j_next_sequence := j_next_sequence j + 1\<rparr>"
    "w_fs w' = w_fs (append_data (j_file_fd j) payload w)"
    "w_disk w' (j_file_fd j) = Some (node\<lparr>n_data := n_data node @ payload\<rparr>)"
    "j_next_sequence j' \<le> MAX_JOURNAL_RECORDS"
proof -
  from assms obtain payload node w1 where p: "event_ok event" "control_json (jo_depth os) (journal_record j event snapshot) = Inr payload"
    "w_fs w (j_file_fd j) = Some node" "length (n_data node) + length payload \<le> MAX_JOURNAL_BYTES"
    "write_all os (j_file_fd j) payload w = (Inr (), w1)" "os_fsync (j_file_fd j) w1 = (Inr (), w')"
    "j' = j\<lparr>j_previous_sha256 := hexdigest (sha256 payload), j_next_sequence := j_next_sequence j + 1\<rparr>"
    "j_next_sequence j' \<le> MAX_JOURNAL_RECORDS"
    by (auto simp: journal_append_def verify_name_def sx_then_Inr sx_bind_Inr on_world_run on_handle_run fstat_def
        split: if_splits prod.splits option.splits)
  from write_all_appends [OF p(5)] have "w1 = append_data (j_file_fd j) payload w" by auto
  with p that show ?thesis by (auto simp: os_fsync_def split: option.splits)
qed

lemma journal_append_written:
  assumes "journal_append os event snapshot (j, w) = (Inr u, (j', w'))" "journal_written os j w entries"
  shows "journal_written os j' w' (entries @ [(event, snapshot)])"
proof -
  from assms(2) obtain lines node where w: "chain_lines os j 0 ZERO_SHA256 entries = Inr lines" "w_fs w (j_file_fd j) = Some node"
    "n_data node = concat lines" "j_next_sequence j = length entries" "j_previous_sha256 j = chain_digest ZERO_SHA256 lines"
    by (auto simp: journal_written_def)
  from assms(1) obtain payload node' where a: "control_json (jo_depth os) (journal_record j event snapshot) = Inr payload"
    "w_fs w (j_file_fd j) = Some node'" "length (n_data node') + length payload \<le> MAX_JOURNAL_BYTES"
    "j' = j\<lparr>j_previous_sha256 := hexdigest (sha256 payload), j_next_sequence := j_next_sequence j + 1\<rparr>"
    "w_fs w' = w_fs (append_data (j_file_fd j) payload w)" "j_next_sequence j' \<le> MAX_JOURNAL_RECORDS"
    by (rule journal_append_run)
  have "j\<lparr>j_next_sequence := length entries, j_previous_sha256 := chain_digest ZERO_SHA256 lines\<rparr> = j" using w by simp
  then have "entry_line os j (length entries) (chain_digest ZERO_SHA256 lines) (event, snapshot) = Inr payload"
    using a(1) by (simp add: entry_line_def)
  then have "chain_lines os j 0 ZERO_SHA256 (entries @ [(event, snapshot)]) = Inr (lines @ [payload])"
    using w(1) by (auto simp: chain_lines_snoc)
  moreover have "chain_lines os j' 0 ZERO_SHA256 (entries @ [(event, snapshot)]) = chain_lines os j 0 ZERO_SHA256 (entries @ [(event, snapshot)])"
    using a(4) by (intro chain_lines_cong) simp_all
  ultimately show ?thesis using a w by (auto simp: journal_written_def chain_digest_def)
qed

section \<open>Records read back\<close>

lemma lit_scalar: "list_all is_scalar (lit t)"
proof -
  have "is_scalar (of_char c)" for c :: char
  proof -
    have "of_char c < (256 :: nat)" by simp
    then show ?thesis unfolding is_scalar_def by linarith
  qed
  then show ?thesis by (simp add: lit_def list_all_iff)
qed

lemma lit_member_scalar: "x \<in> set (lit t) \<Longrightarrow> is_scalar x"
  using lit_scalar by (auto simp: list_all_iff)

lemma lower_hex_scalars: "lower_hex_exactly k t \<Longrightarrow> list_all is_scalar t"
  by (auto simp: lower_hex_exactly_def list_all_iff is_lower_hex_def is_scalar_def)

lemma event_ok_scalar: "event_ok event \<Longrightarrow> list_all is_scalar event"
  by (auto simp: event_ok_def list_all_iff is_scalar_def is_digit_def lit_def)

definition lit_items :: "(string \<times> pyval) list \<Rightarrow> (pyval \<times> pyval) list" where
  "lit_items kvs = map (\<lambda>(k, v). (PyStr (lit k), v)) kvs"

lemma str_record_items: "str_record kvs = PyDict (lit_items kvs)"
  by (simp add: str_record_def lit_items_def)

lemma wf_lit_items:
  "json_wf (Suc d) (PyDict (lit_items kvs)) \<longleftrightarrow> distinct (map fst kvs) \<and> (\<forall>(k, v) \<in> set kvs. json_wf d v)"
proof -
  have "map (key_text \<circ> fst) (lit_items kvs) = map lit (map fst kvs)" by (induction kvs) (auto simp: lit_items_def)
  moreover have "inj lit" by (simp add: inj_def lit_eq)
  ultimately have "distinct (map (key_text \<circ> fst) (lit_items kvs)) \<longleftrightarrow> distinct (map fst kvs)"
    by (metis distinct_map inj_on_subset subset_UNIV)
  then show ?thesis by (auto simp: lit_items_def list_all_iff dest: lit_member_scalar)
qed

lemma record_field_items: "record_field (lit_items kvs) key = (case map_of kvs key of None \<Rightarrow> Inl (KeyError key) | Some v \<Rightarrow> Inr v)"
proof -
  have "map_of (lit_items kvs) (PyStr (lit key)) = map_of kvs key" by (induction kvs) (auto simp: lit_items_def lit_eq)
  then show ?thesis by (simp add: record_field_def)
qed

lemma record_field_sorted:
  assumes "json_wf (Suc d) (PyDict kvs)"
  shows "record_field (sorted_items d kvs) key = and_then (record_field kvs key) (\<lambda>v. Inr (json_sort d v))"
proof -
  have "list_all (\<lambda>kv. key_ok (fst kv)) kvs" "distinct (map (key_text \<circ> fst) kvs)" using assms by (auto simp: list_all_iff)
  from map_of_sorted_items [OF this] show ?thesis by (simp add: record_field_def split: option.splits)
qed

lemma keys_are_sorted: "keys_are keys (sorted_items d (lit_items kvs)) \<longleftrightarrow> set keys = fst ` set kvs"
proof -
  have "fst ` set (sorted_items d (lit_items kvs)) = (\<lambda>k. PyStr (lit k)) ` fst ` set kvs"
    by (force simp: set_sorted_items lit_items_def image_image)
  moreover have "inj (\<lambda>k. PyStr (lit k))" by (simp add: inj_def lit_eq)
  ultimately show ?thesis by (auto simp: keys_are_def inj_image_eq_iff)
qed

lemma json_sort_scalars: "list_all scalar_normal xs \<Longrightarrow> map (json_sort d) xs = xs"
  by (auto simp: list_all_iff json_sort_scalar intro!: map_idI)

definition snapshot_ok :: "unicode_db \<Rightarrow> control_snapshot \<Rightarrow> bool" where
  "snapshot_ok u s \<longleftrightarrow>
     (\<forall>(path, parser, text) \<in> set (cs_values s). isabs path \<and> normpath path = path \<and> list_all is_scalar path \<and>
        list_all is_scalar parser \<and> scalar_normal text \<and> (\<exists>v. parse_control_value u text (PyStr parser) = Inr v)) \<and>
     sorted (cs_modules_preexisting s) \<and> distinct (cs_modules_preexisting s) \<and> set (cs_modules_preexisting s) \<subseteq> set ALLOWED_MODULES \<and>
     sorted (cs_services_active s) \<and> distinct (cs_services_active s) \<and> set (cs_services_active s) \<subseteq> {ALLOWED_SERVICE} \<and>
     cs_process_affinity s \<noteq> [] \<and> sorted (cs_process_affinity s) \<and> distinct (cs_process_affinity s) \<and> last (cs_process_affinity s) \<le> 4095"

lemma canonical_names_ok:
  assumes "sorted names" "distinct names" "set names \<subseteq> set allowed"
  shows "canonical_names allowed m (PyList (map PyStr names)) = Inr names"
proof -
  have "str_items (map PyStr names) = Some names" by (simp add: str_items_def list_all_iff comp_def)
  moreover have "names = sorted_set names" using sorted_set_fixed assms by blast
  ultimately show ?thesis using assms(3) by (auto simp: canonical_names_def list_ex_iff)
qed

lemma sorted_le_last: "sorted xs \<Longrightarrow> x \<in> set xs \<Longrightarrow> x \<le> last xs"
  by (induction xs) (auto split: if_splits)

lemma snapshot_affinity_ok:
  assumes "cpus \<noteq> []" "sorted cpus" "distinct cpus" "last cpus \<le> 4095"
  shows "snapshot_affinity (PyList (map (\<lambda>cpu. PyInt (int cpu)) cpus)) = Inr cpus"
proof -
  have "cpu \<le> 4095" if "cpu \<in> set cpus" for cpu
    using assms(4) sorted_le_last [OF assms(2) that] by simp
  then have "plain_u64 (PyInt (int cpu)) = Inr cpu" if "cpu \<in> set cpus" for cpu using that by (fastforce simp: plain_u64_def)
  then have "mapM plain_u64 (map (\<lambda>cpu. PyInt (int cpu)) cpus) = Inr (map (\<lambda>cpu. cpu) cpus)"
    unfolding mapM_map by (intro mapM_Inr) simp
  moreover have "cpus = sorted_set cpus" using sorted_set_fixed assms by blast
  ultimately show ?thesis using assms by (auto simp: snapshot_affinity_def)
qed

definition value_record :: "pystr \<times> pystr \<times> pyval \<Rightarrow> pyval" where
  "value_record = (\<lambda>(path, parser, text).
     PyDict (lit_items [(''path'', PyStr path), (''parser'', PyStr parser), (''text'', text)]))"

definition snapshot_items :: "control_snapshot \<Rightarrow> (string \<times> pyval) list" where
  "snapshot_items s =
     [(''schema_version'', PyInt 1),
      (''record_type'', PyStr (lit ''cp2_timing_control_prior_state'')),
      (''values'', PyList (map value_record (cs_values s))),
      (''modules_preexisting'', PyList (map PyStr (cs_modules_preexisting s))),
      (''services_active'', PyList (map PyStr (cs_services_active s))),
      (''process_affinity'', PyList (map (\<lambda>cpu. PyInt (int cpu)) (cs_process_affinity s)))]"

lemma snapshot_record_items: "snapshot_as_record s = PyDict (lit_items (snapshot_items s))"
  by (simp add: snapshot_as_record_def snapshot_items_def str_record_items value_record_def)

lemma value_item_ok:
  assumes "isabs path" "normpath path = path" "scalar_normal text" "list_all is_scalar path" "list_all is_scalar parser"
    and "parse_control_value u text (PyStr parser) = Inr v"
  shows "json_wf (Suc d) (PyDict (lit_items [(''path'', PyStr path), (''parser'', PyStr parser), (''text'', text)]))"
    and "snapshot_value_item u (json_sort (Suc d) (PyDict (lit_items [(''path'', PyStr path), (''parser'', PyStr parser), (''text'', text)]))) = Inr (path, parser, text)"
proof -
  let ?kvs = "[(''path'', PyStr path), (''parser'', PyStr parser), (''text'', text)]"
  have sc: "json_wf d (PyStr path)" "json_wf d (PyStr parser)" "json_wf d text"
    using assms(3-5) by (cases d; auto simp: scalar_normal_def split: pyval.splits)+
  then show w: "json_wf (Suc d) (PyDict (lit_items ?kvs))" by (simp add: wf_lit_items del: json_wf.simps)
  have f: "record_field (sorted_items d (lit_items ?kvs)) key = and_then (record_field (lit_items ?kvs) key) (\<lambda>v. Inr (json_sort d v))" for key
    by (rule record_field_sorted [OF w])
  have "json_sort d text = text" "json_sort d (PyStr path) = PyStr path" "json_sort d (PyStr parser) = PyStr parser"
    using assms(3-5) by (simp_all add: json_sort_scalar scalar_normal_def)
  then show "snapshot_value_item u (json_sort (Suc d) (PyDict (lit_items ?kvs))) = Inr (path, parser, text)"
    unfolding json_sort_dict using assms
    by (simp add: snapshot_value_item_def keys_are_sorted f record_field_items del: and_then_eq_Inr)
qed

lemma snapshot_values_ok:
  assumes "snapshot_ok u s"
  shows "mapM (snapshot_value_item u) (map (json_sort (Suc d)) (map value_record (cs_values s))) = Inr (cs_values s)"
    and "json_wf (Suc (Suc d)) (PyList (map value_record (cs_values s)))"
proof -
  have ok: "snapshot_value_item u (json_sort (Suc d) (value_record x)) = Inr x \<and> json_wf (Suc d) (value_record x)"
    if h: "x \<in> set (cs_values s)" for x
  proof -
    obtain p q t where x: "x = (p, q, t)" by (cases x) auto
    then obtain v where v: "isabs p" "normpath p = p" "scalar_normal t" "list_all is_scalar p" "list_all is_scalar q"
      "parse_control_value u t (PyStr q) = Inr v" using assms h by (fastforce simp: snapshot_ok_def)
    show ?thesis unfolding x value_record_def prod.case using value_item_ok [OF v] by blast
  qed
  have "mapM (snapshot_value_item u \<circ> json_sort (Suc d) \<circ> value_record) (cs_values s) = Inr (map (\<lambda>x. x) (cs_values s))"
    by (rule mapM_Inr) (use ok in auto)
  then show "mapM (snapshot_value_item u) (map (json_sort (Suc d)) (map value_record (cs_values s))) = Inr (cs_values s)"
    by (simp add: mapM_map comp_def del: json_sort.simps)
  show "json_wf (Suc (Suc d)) (PyList (map value_record (cs_values s)))"
    using ok unfolding json_wf.simps(2) [of "Suc d"] by (simp add: list_all_iff del: json_wf.simps)
qed

lemma wf_scalar: "scalar_normal v \<Longrightarrow> json_wf d v"
  by (cases d) (auto simp: scalar_normal_def split: pyval.splits)

lemma wf_scalar_list: "list_all scalar_normal vs \<Longrightarrow> json_wf (Suc d) (PyList vs)"
  by (auto simp: list_all_iff wf_scalar)

lemma wf_snapshot: "snapshot_ok u s \<Longrightarrow> json_wf (Suc (Suc (Suc d))) (snapshot_as_record s)"
proof -
  assume s: "snapshot_ok u s"
  have m: "list_all scalar_normal (map PyStr (cs_modules_preexisting s))" "list_all scalar_normal (map PyStr (cs_services_active s))"
    using s by (auto simp: snapshot_ok_def list_all_iff scalar_normal_def ALLOWED_MODULES_def ALLOWED_SERVICE_def dest!: subsetD dest: lit_member_scalar)
  have c: "list_all scalar_normal (map (\<lambda>cpu. PyInt (int cpu)) (cs_process_affinity s))" by (simp add: list_all_iff scalar_normal_def)
  show ?thesis unfolding snapshot_record_items wf_lit_items
    using snapshot_values_ok(2) [OF s] wf_scalar_list [OF m(1)] wf_scalar_list [OF m(2)] wf_scalar_list [OF c]
    by (auto simp: snapshot_items_def scalar_normal_def lit_scalar intro!: wf_scalar simp del: json_wf.simps)
qed

text \<open>A snapshot survives its canonical record, whatever order the keys come back in.\<close>

lemma snapshot_reads_back:
  assumes "snapshot_ok u s"
  shows "snapshot_from_record u (json_sort (Suc (Suc (Suc d))) (snapshot_as_record s)) = Inr s"
proof -
  let ?kvs = "lit_items (snapshot_items s)"
  have w: "json_wf (Suc (Suc (Suc d))) (PyDict ?kvs)" using wf_snapshot [OF assms] unfolding snapshot_record_items .
  note f = record_field_sorted [OF w]
  have v: "json_sort (Suc (Suc d)) (PyList (map value_record (cs_values s))) = PyList (map (json_sort (Suc d)) (map value_record (cs_values s)))" by simp
  have n: "json_sort (Suc (Suc d)) (PyList (map PyStr ns)) = PyList (map PyStr ns)" for ns by simp
  have c: "json_sort (Suc (Suc d)) (PyList (map (\<lambda>cpu. PyInt (int cpu)) cs)) = PyList (map (\<lambda>cpu. PyInt (int cpu)) cs)" for cs by simp
  have sc: "json_sort (Suc (Suc d)) (PyInt 1) = PyInt 1" "json_sort (Suc (Suc d)) (PyStr t) = PyStr t" for t by simp_all
  have names: "canonical_names ALLOWED_MODULES m (PyList (map PyStr (cs_modules_preexisting s))) = Inr (cs_modules_preexisting s)"
    "canonical_names [ALLOWED_SERVICE] m (PyList (map PyStr (cs_services_active s))) = Inr (cs_services_active s)"
    "snapshot_affinity (PyList (map (\<lambda>cpu. PyInt (int cpu)) (cs_process_affinity s))) = Inr (cs_process_affinity s)" for m
    using assms by (auto simp: snapshot_ok_def intro!: canonical_names_ok snapshot_affinity_ok)
  have k: "keys_are SNAPSHOT_KEYS (sorted_items (Suc (Suc d)) ?kvs)" by (simp add: keys_are_sorted SNAPSHOT_KEYS_def snapshot_items_def)
  have e: "equals_one (PyInt 1)" by (simp add: equals_one_def)
  let ?rf = "record_field (sorted_items (Suc (Suc d)) ?kvs)"
  have r: "?rf ''schema_version'' = Inr (PyInt 1)" "?rf ''record_type'' = Inr (PyStr (lit ''cp2_timing_control_prior_state''))"
    "?rf ''values'' = Inr (PyList (map (json_sort (Suc d)) (map value_record (cs_values s))))"
    "?rf ''modules_preexisting'' = Inr (PyList (map PyStr (cs_modules_preexisting s)))"
    "?rf ''services_active'' = Inr (PyList (map PyStr (cs_services_active s)))"
    "?rf ''process_affinity'' = Inr (PyList (map (\<lambda>cpu. PyInt (int cpu)) (cs_process_affinity s)))"
    unfolding f by (simp_all add: record_field_items snapshot_items_def v n c sc del: json_sort.simps map_map)
  show ?thesis unfolding snapshot_record_items json_sort_dict snapshot_from_record_def
    by (simp add: k r names snapshot_values_ok(1) [OF assms] e del: json_sort.simps map_map and_then_eq_Inr)
qed

section \<open>The chain reads back\<close>

definition journal_items :: "journal \<Rightarrow> nat \<Rightarrow> pystr \<Rightarrow> journal_entry \<Rightarrow> (string \<times> pyval) list" where
  "journal_items j sequence previous entry =
     [(''event'', PyStr (fst entry)), (''previous_sha256'', PyStr previous),
      (''profile_sha256'', PyStr (j_profile_sha256 j)), (''record_type'', PyStr (lit ''cp2_timing_control_journal_event'')),
      (''schema_version'', PyInt 1), (''sequence'', PyInt (int sequence)), (''snapshot'', snd entry),
      (''transaction_id'', PyStr (j_transaction_id j))]"

lemma entry_line_items: "entry_line os j sequence previous entry = control_json (jo_depth os) (PyDict (lit_items (journal_items j sequence previous entry)))"
  by (simp add: entry_line_def journal_record_def journal_items_def str_record_items)

text \<open>The record a reader gets for an entry.\<close>

definition entry_record :: "nat \<Rightarrow> journal \<Rightarrow> nat \<Rightarrow> pystr \<Rightarrow> journal_entry \<Rightarrow> (pyval \<times> pyval) list" where
  "entry_record d j sequence previous entry = sorted_items d (lit_items (journal_items j sequence previous entry))"

definition identity_ok :: "journal \<Rightarrow> bool" where
  "identity_ok j \<longleftrightarrow> lower_hex_exactly 64 (j_profile_sha256 j) \<and> lower_hex_exactly 32 (j_transaction_id j)"

definition journal_entry_ok :: "nat \<Rightarrow> journal_entry \<Rightarrow> bool" where
  "journal_entry_ok d entry \<longleftrightarrow> event_ok (fst entry) \<and> json_wf d (snd entry)"

lemma wf_entry:
  assumes "identity_ok j" "journal_entry_ok d entry" "lower_hex_exactly 64 previous"
  shows "json_wf (Suc d) (PyDict (lit_items (journal_items j sequence previous entry)))"
  unfolding wf_lit_items using assms
  by (auto simp: journal_items_def identity_ok_def journal_entry_ok_def scalar_normal_def lit_scalar lower_hex_scalars event_ok_scalar
      intro!: wf_scalar simp del: json_wf.simps)

lemma entry_fields:
  assumes "identity_ok j" "journal_entry_ok d entry" "lower_hex_exactly 64 previous"
  shows "keys_are JOURNAL_KEYS (entry_record d j sequence previous entry)"
    and "record_field (entry_record d j sequence previous entry) ''event'' = Inr (PyStr (fst entry))"
    and "record_field (entry_record d j sequence previous entry) ''previous_sha256'' = Inr (PyStr previous)"
    and "record_field (entry_record d j sequence previous entry) ''profile_sha256'' = Inr (PyStr (j_profile_sha256 j))"
    and "record_field (entry_record d j sequence previous entry) ''record_type'' = Inr (PyStr (lit ''cp2_timing_control_journal_event''))"
    and "record_field (entry_record d j sequence previous entry) ''schema_version'' = Inr (PyInt 1)"
    and "record_field (entry_record d j sequence previous entry) ''sequence'' = Inr (PyInt (int sequence))"
    and "record_field (entry_record d j sequence previous entry) ''snapshot'' = Inr (json_sort d (snd entry))"
    and "record_field (entry_record d j sequence previous entry) ''transaction_id'' = Inr (PyStr (j_transaction_id j))"
proof -
  have sc: "json_sort d (PyStr t) = PyStr t" "json_sort d (PyInt n) = PyInt n" for t n by (cases d; simp)+
  show "keys_are JOURNAL_KEYS (entry_record d j sequence previous entry)"
    by (simp add: entry_record_def keys_are_sorted JOURNAL_KEYS_def journal_items_def)
  note f = record_field_sorted [OF wf_entry [OF assms, of sequence]]
  show "record_field (entry_record d j sequence previous entry) ''event'' = Inr (PyStr (fst entry))"
    "record_field (entry_record d j sequence previous entry) ''previous_sha256'' = Inr (PyStr previous)"
    "record_field (entry_record d j sequence previous entry) ''profile_sha256'' = Inr (PyStr (j_profile_sha256 j))"
    "record_field (entry_record d j sequence previous entry) ''record_type'' = Inr (PyStr (lit ''cp2_timing_control_journal_event''))"
    "record_field (entry_record d j sequence previous entry) ''schema_version'' = Inr (PyInt 1)"
    "record_field (entry_record d j sequence previous entry) ''sequence'' = Inr (PyInt (int sequence))"
    "record_field (entry_record d j sequence previous entry) ''snapshot'' = Inr (json_sort d (snd entry))"
    "record_field (entry_record d j sequence previous entry) ''transaction_id'' = Inr (PyStr (j_transaction_id j))"
    unfolding entry_record_def f by (simp_all add: record_field_items journal_items_def sc)
qed

lemma journal_line_ok:
  assumes "jo_depth os = Suc d" "identity_ok j" "journal_entry_ok d entry" "lower_hex_exactly 64 previous"
    and "entry_line os j sequence previous entry = Inr line"
    and "sequence = 0 \<Longrightarrow> fst entry = lit ''prior_state_captured'' \<and> snd entry \<noteq> PyNone \<and>
           (\<exists>s. snapshot_from_record (jo_unicode os) (json_sort d (snd entry)) = Inr s)"
    and "0 < sequence \<Longrightarrow> snd entry = PyNone"
  shows "journal_line os j sequence previous line = Inr (entry_record d j sequence previous entry)"
    and "\<exists>b. line = b @ [10] \<and> 10 \<notin> set b \<and> 13 \<notin> set b"
proof -
  from line_reads_back [OF wf_entry [OF assms(2-4), of sequence]] assms(1,5)
  obtain b where b: "line = b @ [10]" "10 \<notin> set b" "13 \<notin> set b"
    "strict_journal_json (Suc d) b = Inr (entry_record d j sequence previous entry)"
    by (auto simp: entry_line_items entry_record_def)
  then show "\<exists>b. line = b @ [10] \<and> 10 \<notin> set b \<and> 13 \<notin> set b" by blast
  have e: "equals_one (PyInt 1)" "equals_index sequence (PyInt (int sequence))" by (simp_all add: equals_one_def equals_index_def)
  have n: "json_sort d PyNone = PyNone" "json_sort d (snd entry) \<noteq> PyNone \<longleftrightarrow> snd entry \<noteq> PyNone"
    by (cases d; cases "snd entry"; simp)+
  show "journal_line os j sequence previous line = Inr (entry_record d j sequence previous entry)"
  proof (cases "sequence = 0")
    case True
    then show ?thesis using b assms(1) assms(6) entry_fields [OF assms(2-4), of sequence] e n
      by (auto simp: journal_line_def simp del: and_then_eq_Inr)
  next
    case False
    then show ?thesis using b assms(1) assms(7) entry_fields [OF assms(2-4), of sequence] e n
      by (auto simp: journal_line_def simp del: and_then_eq_Inr)
  qed
qed

lemma sha_hex: "lower_hex_exactly 64 (hexdigest (sha256 m))"
  using hexdigest_shape [of "sha256 m"] by simp

lemma zero_sha_hex: "lower_hex_exactly 64 ZERO_SHA256"
  by (simp add: lower_hex_exactly_def ZERO_SHA256_def is_lower_hex_def)

fun chain_records :: "nat \<Rightarrow> journal \<Rightarrow> nat \<Rightarrow> pystr \<Rightarrow> journal_entry list \<Rightarrow> bytes list \<Rightarrow> (pyval \<times> pyval) list list" where
  "chain_records d j sequence previous (entry # entries) (line # lines) =
     entry_record d j sequence previous entry # chain_records d j (Suc sequence) (hexdigest (sha256 line)) entries lines"
| "chain_records d j sequence previous entries lines = []"

definition whole_lines :: "bytes list \<Rightarrow> bool" where
  "whole_lines lines \<longleftrightarrow> (\<forall>line \<in> set lines. \<exists>b. line = b @ [10] \<and> 10 \<notin> set b \<and> 13 \<notin> set b)"

lemma splitlines_whole: "whole_lines lines \<Longrightarrow> splitlines_keep (concat lines) = lines"
proof (induction lines)
  case (Cons line lines)
  then obtain b where "line = b @ [10]" "10 \<notin> set b" "13 \<notin> set b" by (auto simp: whole_lines_def)
  then show ?case using splitlines_line [of b "concat lines"] Cons by (simp add: whole_lines_def)
qed simp

lemma chain_events:
  assumes "identity_ok j" "\<forall>e \<in> set entries. journal_entry_ok d e" "chain_lines os j sequence previous entries = Inr lines" "lower_hex_exactly 64 previous"
  shows "map (\<lambda>r. record_field r ''event'') (chain_records d j sequence previous entries lines) = map (\<lambda>e. Inr (PyStr (fst e))) entries"
  using assms
proof (induction entries arbitrary: sequence previous lines)
  case (Cons e entries)
  then obtain line ls where "lines = line # ls" "chain_lines os j (Suc sequence) (hexdigest (sha256 line)) entries = Inr ls" by auto
  then show ?case using Cons entry_fields(2) [of j d e previous sequence] sha_hex by auto
qed simp

lemma later_lines_read:
  assumes "jo_depth os = Suc d" "identity_ok j" "\<forall>e \<in> set entries. journal_entry_ok d e \<and> snd e = PyNone"
    and "chain_lines os j sequence previous entries = Inr lines" "lower_hex_exactly 64 previous" "0 < sequence"
  shows "journal_lines os j sequence previous lines = Inr (chain_records d j sequence previous entries lines) \<and> whole_lines lines"
  using assms(3-)
proof (induction entries arbitrary: sequence previous lines)
  case (Cons e entries)
  then obtain line ls where l: "lines = line # ls" "entry_line os j sequence previous e = Inr line"
    "chain_lines os j (Suc sequence) (hexdigest (sha256 line)) entries = Inr ls" by auto
  have ok: "journal_entry_ok d e" "snd e = PyNone" using Cons.prems(1) by auto
  note j = journal_line_ok [OF assms(1,2) ok(1) Cons.prems(3) l(2)]
  have "journal_lines os j (Suc sequence) (hexdigest (sha256 line)) ls = Inr (chain_records d j (Suc sequence) (hexdigest (sha256 line)) entries ls) \<and> whole_lines ls"
    using Cons.IH [OF _ l(3) sha_hex] Cons.prems(1) by simp
  then show ?case using j ok Cons.prems(4) l(1) by (auto simp: whole_lines_def simp del: and_then_eq_Inr)
qed (simp add: whole_lines_def)

lemma chain_lines_length: "chain_lines os j sequence previous entries = Inr lines \<Longrightarrow> length lines = length entries"
  by (induction entries arbitrary: sequence previous lines) auto

lemma whole_lines_last: "whole_lines lines \<Longrightarrow> lines \<noteq> [] \<Longrightarrow> concat lines \<noteq> [] \<and> last (concat lines) = 10"
proof (induction lines)
  case (Cons line lines)
  then show ?case by (cases "lines = []") (auto simp: whole_lines_def)
qed simp

text \<open>What the handle wrote is what \<^verbatim>\<open>records()\<close> reads.\<close>

lemma journal_written_lines:
  assumes "journal_written os j w ((lit ''prior_state_captured'', snapshot_as_record s) # entries)"
    and "jo_depth os = Suc (Suc (Suc (Suc d)))" "identity_ok j" "snapshot_ok (jo_unicode os) s"
    and "\<forall>e \<in> set entries. event_ok (fst e) \<and> snd e = PyNone"
  obtains line ls node recs where "w_fs w (j_file_fd j) = Some node" "n_data node = concat (line # ls)" "whole_lines (line # ls)"
    "journal_line os j 0 ZERO_SHA256 line =
       Inr (entry_record (Suc (Suc (Suc d))) j 0 ZERO_SHA256 (lit ''prior_state_captured'', snapshot_as_record s))"
    "journal_lines os j (Suc 0) (hexdigest (sha256 line)) ls = Inr recs"
    "map (\<lambda>r. record_field r ''event'') recs = map (\<lambda>e. Inr (PyStr (fst e))) entries" "length ls = length entries"
    "j_previous_sha256 j = hexdigest (sha256 (last (line # ls)))"
proof -
  let ?d = "Suc (Suc (Suc d))" and ?first = "(lit ''prior_state_captured'', snapshot_as_record s)"
  from assms(1) obtain lines node where w: "chain_lines os j 0 ZERO_SHA256 (?first # entries) = Inr lines"
    "w_fs w (j_file_fd j) = Some node" "n_data node = concat lines" "j_previous_sha256 j = chain_digest ZERO_SHA256 lines"
    by (auto simp: journal_written_def)
  from w(1) obtain line ls where l: "lines = line # ls" "entry_line os j 0 ZERO_SHA256 ?first = Inr line"
    "chain_lines os j (Suc 0) (hexdigest (sha256 line)) entries = Inr ls" by auto
  have f: "journal_entry_ok ?d ?first" using wf_snapshot [OF assms(4)]
    by (simp add: journal_entry_ok_def event_ok_def lit_def is_digit_def del: json_wf.simps)
  have e: "\<forall>e \<in> set entries. journal_entry_ok ?d e \<and> snd e = PyNone"
    using assms(5) by (auto simp: journal_entry_ok_def wf_scalar scalar_normal_def)
  have rb: "snapshot_from_record (jo_unicode os) (json_sort ?d (snapshot_as_record s)) = Inr s" by (rule snapshot_reads_back [OF assms(4)])
  have n: "snapshot_as_record s \<noteq> PyNone" by (simp add: snapshot_record_items)
  note j = journal_line_ok [OF assms(2,3) f zero_sha_hex l(2)]
  have "\<exists>b. line = b @ [10] \<and> 10 \<notin> set b \<and> 13 \<notin> set b" using j(2) rb n by simp
  moreover have rest: "journal_lines os j (Suc 0) (hexdigest (sha256 line)) ls = Inr (chain_records ?d j (Suc 0) (hexdigest (sha256 line)) entries ls) \<and> whole_lines ls"
    by (rule later_lines_read [OF assms(2,3) e l(3) sha_hex]) simp
  ultimately have "whole_lines (line # ls)" by (simp add: whole_lines_def)
  moreover have "journal_line os j 0 ZERO_SHA256 line = Inr (entry_record ?d j 0 ZERO_SHA256 ?first)" using j(1) rb n by simp
  ultimately show ?thesis using that w(2-4) l(1) rest chain_events [OF assms(3) _ l(3) sha_hex, of ?d] e chain_lines_length [OF l(3)]
    by (simp add: chain_digest_def)
qed

lemma journal_written_reads:
  assumes "journal_written os j w ((lit ''prior_state_captured'', snapshot_as_record s) # entries)"
    and "jo_depth os = Suc (Suc (Suc (Suc d)))" "identity_ok j" "snapshot_ok (jo_unicode os) s"
    and "\<forall>e \<in> set entries. event_ok (fst e) \<and> snd e = PyNone"
  shows "\<exists>recs. journal_records os j w = Inr recs \<and>
    map (\<lambda>r. record_field r ''event'') recs = map (\<lambda>e. Inr (PyStr e)) (lit ''prior_state_captured'' # map fst entries) \<and>
    and_then (record_field (hd recs) ''snapshot'') (snapshot_from_record (jo_unicode os)) = Inr s"
proof -
  let ?d = "Suc (Suc (Suc d))" and ?first = "(lit ''prior_state_captured'', snapshot_as_record s)"
  obtain line ls node recs where w: "w_fs w (j_file_fd j) = Some node" "n_data node = concat (line # ls)" "whole_lines (line # ls)"
    and l: "journal_line os j 0 ZERO_SHA256 line = Inr (entry_record ?d j 0 ZERO_SHA256 ?first)"
    "journal_lines os j (Suc 0) (hexdigest (sha256 line)) ls = Inr recs"
    and r: "map (\<lambda>r. record_field r ''event'') recs = map (\<lambda>e. Inr (PyStr (fst e))) entries" and len: "length ls = length entries"
    by (rule journal_written_lines [OF assms])
  have b: "length (n_data node) \<le> MAX_JOURNAL_BYTES" "Suc (length entries) \<le> MAX_JOURNAL_RECORDS"
    using assms(1) w(1) by (auto simp: journal_written_def)
  have f: "journal_entry_ok ?d ?first" using wf_snapshot [OF assms(4)]
    by (simp add: journal_entry_ok_def event_ok_def lit_def is_digit_def del: json_wf.simps)
  have "journal_records os j w = Inr (entry_record ?d j 0 ZERO_SHA256 ?first # recs)"
    using w(1,2) b l splitlines_whole [OF w(3)] len whole_lines_last [OF w(3)]
    by (simp add: journal_records_def fstat_def Let_def del: and_then_eq_Inr)
  then show ?thesis using r entry_fields(2,8) [OF assms(3) f zero_sha_hex, of 0] snapshot_reads_back [OF assms(4), of d]
    by (intro exI [of _ "entry_record ?d j 0 ZERO_SHA256 ?first # recs"]) (simp add: comp_def)
qed

section \<open>How long a line can be\<close>

definition scalar_bound :: "pyval \<Rightarrow> nat" where
  "scalar_bound v = (case v of PyInt n \<Rightarrow> nat \<bar>n\<bar> + 2 | PyStr s \<Rightarrow> 12 * length s + 2 | _ \<Rightarrow> 5)"

primrec dump_bound :: "nat \<Rightarrow> pyval \<Rightarrow> nat" where
  "dump_bound 0 v = scalar_bound v"
| "dump_bound (Suc d) v =
     (case v of
        PyList xs \<Rightarrow> 2 + sum_list (map (\<lambda>x. 1 + dump_bound d x) xs)
      | PyDict kvs \<Rightarrow> 2 + sum_list (map (\<lambda>kv. 12 * length (key_text (fst kv)) + 4 + dump_bound d (snd kv)) kvs)
      | _ \<Rightarrow> scalar_bound v)"

lemma dec_text_length: "length (dec_text n) \<le> n + 1"
proof (induction n rule: dec_text.induct)
  case (1 n)
  then show ?case by (subst dec_text.simps) (auto split: if_splits)
qed

lemma escape_length: "length (escape_char a c) \<le> 12"
  by (simp add: escape_char_def unicode_escape_def)

lemma quote_length: "length (quote a s) \<le> 12 * length s + 2"
proof -
  have "length (concat (map (escape_char a) s)) \<le> 12 * length s"
  proof (induction s)
    case (Cons c s)
    then show ?case using escape_length [of a c] by simp
  qed simp
  then show ?thesis by (simp add: quote_def)
qed

lemma scalar_length: "scalar_normal v \<Longrightarrow> dump_scalar a v = Inr t \<Longrightarrow> length t \<le> scalar_bound v"
proof (cases v)
  case (PyInt n)
  assume "dump_scalar a v = Inr t"
  then show ?thesis using PyInt dec_text_length [of "nat \<bar>n\<bar>"] by (auto simp: scalar_bound_def int_repr_def)
qed (use quote_length in \<open>auto simp: scalar_normal_def scalar_bound_def lit_def\<close>)

lemma join_length: "length (join_with [44] ts) \<le> sum_list (map (\<lambda>t. 1 + length t) ts)"
proof (induction ts)
  case (Cons t ts)
  then show ?case by (cases ts) auto
qed simp

lemma mapM_sum_bound:
  assumes "mapM f xs = Inr ts" "\<And>x t. x \<in> set xs \<Longrightarrow> f x = Inr t \<Longrightarrow> length t \<le> g x"
  shows "sum_list (map (\<lambda>t. 1 + length t) ts) \<le> sum_list (map (\<lambda>x. 1 + g x) xs)"
  using assms
proof (induction xs arbitrary: ts)
  case (Cons x xs)
  then obtain t ts' where "ts = t # ts'" "f x = Inr t" "mapM f xs = Inr ts'" by auto
  moreover have "sum_list (map (\<lambda>t. 1 + length t) ts') \<le> sum_list (map (\<lambda>x. 1 + g x) xs)"
    using Cons calculation by auto
  ultimately show ?case using Cons.prems(2) [of x t] by simp
qed simp

lemma sum_sort: "sum_list (map f (sort_key g xs)) = sum_list (map f xs)" for f :: "'a \<Rightarrow> nat"
  by (metis mset_map mset_sort sum_mset_sum_list)

lemma dump_length: "json_wf d v \<Longrightarrow> json_dumps a d v = Inr t \<Longrightarrow> length t \<le> dump_bound d v"
proof (induction d arbitrary: v t)
  case 0
  then show ?case using scalar_length [of v a t] by (auto split: if_splits)
next
  case (Suc d)
  show ?case
  proof (cases v)
    case (PyList xs)
    then obtain ts where ts: "mapM (json_dumps a d) xs = Inr ts" "t = [91] @ join_with [44] ts @ [93]"
      using Suc.prems(2) by (auto simp: dump_array_def)
    have "sum_list (map (\<lambda>t. 1 + length t) ts) \<le> sum_list (map (\<lambda>x. 1 + dump_bound d x) xs)"
      using Suc PyList by (intro mapM_sum_bound [OF ts(1)]) (auto simp: list_all_iff)
    then show ?thesis using join_length [of ts] ts(2) PyList by simp
  next
    case (PyDict kvs)
    have k: "list_all (\<lambda>kv. key_ok (fst kv)) kvs" using Suc.prems(1) PyDict by (auto simp: list_all_iff)
    obtain ts where ts: "mapM (dump_member a (json_dumps a d)) (sort_key fst (text_items kvs)) = Inr ts" "t = [123] @ join_with [44] ts @ [125]"
      using Suc.prems(2) PyDict by (auto simp: dump_object_def mapM_string_key [OF k])
    let ?g = "\<lambda>kv. 12 * length (fst kv) + 3 + dump_bound d (snd kv)"
    have "sum_list (map (\<lambda>t. 1 + length t) ts) \<le> sum_list (map (\<lambda>kv. 1 + ?g kv) (sort_key fst (text_items kvs)))"
    proof (rule mapM_sum_bound [OF ts(1)])
      fix kv m assume kv: "kv \<in> set (sort_key fst (text_items kvs))" and m: "dump_member a (json_dumps a d) kv = Inr m"
      then obtain t1 where "json_dumps a d (snd kv) = Inr t1" "m = quote a (fst kv) @ [58] @ t1" by (auto simp: dump_member_def)
      moreover have "json_wf d (snd kv)" using kv Suc.prems(1) PyDict by (auto simp: text_items_def list_all_iff)
      ultimately show "length m \<le> ?g kv" using Suc.IH quote_length [of a "fst kv"] by fastforce
    qed
    also have "\<dots> = sum_list (map (\<lambda>kv. 1 + ?g kv) (text_items kvs))" by (rule sum_sort)
    also have "\<dots> = sum_list (map (\<lambda>kv. 12 * length (key_text (fst kv)) + 4 + dump_bound d (snd kv)) kvs)"
      by (simp add: text_items_def comp_def add.commute add.left_commute)
    finally show ?thesis using join_length [of ts] ts(2) PyDict by simp
  qed (use Suc.prems scalar_length [of v a t] in \<open>auto simp: scalar_normal_def\<close>)
qed

lemma utf8_length: "utf8_encode t = Some b \<Longrightarrow> length b \<le> 4 * length t"
proof -
  have o: "length (cp_octets c) \<le> 4" for c by (simp add: cp_octets_def)
  have "length (concat (map cp_octets t)) \<le> 4 * length t"
  proof (induction t)
    case (Cons c t)
    then show ?case using o [of c] by simp
  qed simp
  then show "utf8_encode t = Some b \<Longrightarrow> length b \<le> 4 * length t" by (auto simp: utf8_encode_def split: if_splits)
qed

lemma line_length:
  assumes "json_wf (Suc d) (PyDict kvs)" "control_json (Suc d) (PyDict kvs) = Inr line"
  shows "length line \<le> 4 * dump_bound (Suc d) (PyDict kvs) + 1"
proof -
  from line_reads_back [OF assms(1)] assms(2) obtain t b where "json_dumps False (Suc d) (PyDict kvs) = Inr t" "utf8_encode t = Some b" "line = b @ [10]"
    by auto
  with dump_length [OF assms(1), of False t] utf8_length [of t b] show ?thesis by simp
qed

section \<open>A journal that takes appends\<close>

text \<open>
  An open handle whose name resolves to its inode, with room for more. \<open>used\<close> bounds the bytes in the
  file. On an operating system whose writes make progress, an event can then be appended.
\<close>

definition journal_ready :: "journal \<Rightarrow> world \<Rightarrow> nat \<Rightarrow> bool" where
  "journal_ready j w used \<longleftrightarrow> \<not> j_closed j \<and> identity_ok j \<and> lower_hex_exactly 64 (j_previous_sha256 j) \<and>
     dir_lookup (j_parent_fd j) (j_name j) w = Some (j_file_fd j) \<and>
     (\<exists>node. w_fs w (j_file_fd j) = Some node \<and> n_kind node = KReg \<and> n_mode node = 384 \<and> n_nlink node = 1 \<and>
        n_uid node = w_euid w \<and> length (n_data node) \<le> used)"

lemma verify_name_ready: "journal_ready j w used \<Longrightarrow> verify_name (j, w) = (Inr (), (j, w))"
  by (cases "j_file_fd j") (auto simp: journal_ready_def verify_name_def os_stat_def stat_at_def fstat_def)

lemma append_ready:
  assumes "makes_progress os" "jo_depth os = Suc d" "journal_ready j w used" "event_ok event" "json_wf d snapshot"
    and "used + 4 * dump_bound (Suc d) (PyDict (lit_items (journal_items j (j_next_sequence j) (j_previous_sha256 j) (event, snapshot)))) + 1 \<le> MAX_JOURNAL_BYTES"
    and "j_next_sequence j < MAX_JOURNAL_RECORDS"
  shows "\<exists>j' w'. journal_append os event snapshot (j, w) = (Inr (), (j', w')) \<and>
    journal_ready j' w' (used + 4 * dump_bound (Suc d) (PyDict (lit_items (journal_items j (j_next_sequence j) (j_previous_sha256 j) (event, snapshot)))) + 1) \<and>
    j_next_sequence j' = j_next_sequence j + 1 \<and> j_parent_fd j' = j_parent_fd j"
proof -
  let ?r = "lit_items (journal_items j (j_next_sequence j) (j_previous_sha256 j) (event, snapshot))"
  have i: "identity_ok j" "lower_hex_exactly 64 (j_previous_sha256 j)" using assms(3) by (auto simp: journal_ready_def)
  have w: "json_wf (Suc d) (PyDict ?r)" using i assms(4,5) by (intro wf_entry) (auto simp: journal_entry_ok_def)
  obtain line where l: "control_json (Suc d) (PyDict ?r) = Inr line" using line_reads_back [OF w] by blast
  then have rec: "control_json (Suc d) (journal_record j event snapshot) = Inr line"
    by (simp add: journal_record_def journal_items_def str_record_items)
  have len: "length line \<le> 4 * dump_bound (Suc d) (PyDict ?r) + 1" by (rule line_length [OF w l])
  from assms(3) obtain node where n: "w_fs w (j_file_fd j) = Some node" "n_kind node = KReg" "n_mode node = 384" "n_nlink node = 1"
    "n_uid node = w_euid w" "length (n_data node) \<le> used" by (auto simp: journal_ready_def)
  obtain w1 where w1: "write_all os (j_file_fd j) line w = (Inr (), w1)"
    using write_all_completes [OF assms(1), of "j_file_fd j" line w] by (cases "write_all os (j_file_fd j) line w") auto
  then have w1': "w1 = append_data (j_file_fd j) line w" using write_all_appends [OF w1] by auto
  let ?w' = "w1\<lparr>w_disk := (w_disk w1)(j_file_fd j \<mapsto> node\<lparr>n_data := n_data node @ line\<rparr>)\<rparr>"
  have s: "os_fsync (j_file_fd j) w1 = (Inr (), ?w')" using n w1' by (simp add: os_fsync_def)
  let ?j' = "j\<lparr>j_previous_sha256 := hexdigest (sha256 line), j_next_sequence := j_next_sequence j + 1\<rparr>"
  have "journal_append os event snapshot (j, w) = (Inr (), (?j', ?w'))"
    using assms(4,7) verify_name_ready [OF assms(3)] rec len n(6) assms(2,6) w1 s n(1)
    by (simp add: journal_append_def sx_then_Inr sx_bind_Inr on_world_run on_handle_run fstat_def del: dump_bound.simps)
  moreover have "journal_ready ?j' ?w' (used + 4 * dump_bound (Suc d) (PyDict ?r) + 1)"
    using assms(3) n len sha_hex w1' by (auto simp: journal_ready_def identity_ok_def dir_lookup_def simp del: dump_bound.simps split: option.splits)
  ultimately show ?thesis by auto
qed

text \<open>An event without a snapshot takes at most 40000 bytes.\<close>

lemma event_room:
  assumes "identity_ok j" "lower_hex_exactly 64 previous" "event_ok event" "sequence < MAX_JOURNAL_RECORDS"
  shows "4 * dump_bound (Suc d) (PyDict (lit_items (journal_items j sequence previous (event, PyNone)))) + 1 \<le> 40000"
proof -
  have s: "dump_bound d (PyStr t) = 12 * length t + 2" "dump_bound d (PyInt n) = nat \<bar>n\<bar> + 2" "dump_bound d PyNone = 5" for t n
    by (cases d; simp add: scalar_bound_def)+
  have l: "length (lit t) = length t" for t by (simp add: lit_def)
  show ?thesis using assms
    by (simp add: lit_items_def journal_items_def s l identity_ok_def lower_hex_exactly_def event_ok_def MAX_JOURNAL_RECORDS_def)
qed

lemma append_event_ready:
  assumes "makes_progress os" "0 < jo_depth os" "journal_ready j w used" "event_ok event"
    and "used + 40000 \<le> MAX_JOURNAL_BYTES" "j_next_sequence j < MAX_JOURNAL_RECORDS"
  shows "\<exists>j' w'. journal_append os event PyNone (j, w) = (Inr (), (j', w')) \<and> journal_ready j' w' (used + 40000) \<and>
    j_next_sequence j' = j_next_sequence j + 1 \<and> j_parent_fd j' = j_parent_fd j"
proof -
  obtain d where d: "jo_depth os = Suc d" using assms(2) by (cases "jo_depth os") auto
  have i: "identity_ok j" "lower_hex_exactly 64 (j_previous_sha256 j)" using assms(3) by (auto simp: journal_ready_def)
  note room = event_room [OF i assms(4,6), of d]
  have "json_wf d PyNone" by (cases d) (simp_all add: scalar_normal_def)
  from append_ready [OF assms(1) d assms(3,4) this _ assms(6)] room assms(5)
  obtain j' w' used' where r: "journal_append os event PyNone (j, w) = (Inr (), (j', w'))" "journal_ready j' w' used'" "used' \<le> used + 40000"
    "j_next_sequence j' = j_next_sequence j + 1" "j_parent_fd j' = j_parent_fd j" by (fastforce simp del: dump_bound.simps)
  then have "journal_ready j' w' (used + 40000)" by (auto simp: journal_ready_def)
  with r show ?thesis by blast
qed

section \<open>Creation\<close>

lemma allocate_journal_some:
  assumes "allocate_journal os fd attempts w = (Inr (Some (txn, ino)), w')"
  shows "\<exists>k. txn = hexdigest (jo_urandom os k)" "\<exists>node. w_fs w' ino = Some node \<and> n_data node = []" "w_disk w' = w_disk w"
proof -
  have "(\<exists>k. txn = hexdigest (jo_urandom os k)) \<and> (\<exists>node. w_fs w' ino = Some node \<and> n_data node = []) \<and> w_disk w' = w_disk w"
    using assms
  proof (induction attempts arbitrary: w)
    case (Cons a attempts)
    show ?case
    proof (cases "dir_lookup fd (journal_name (hex_text (jo_urandom os a))) w = None")
      case True
      then show ?thesis using Cons.prems
        by (auto simp: os_create_file_def Let_def hex_text_def update_node_def)
    next
      case False
      then show ?thesis using Cons by (auto simp: os_create_file_def Let_def)
    qed
  qed simp
  then show "\<exists>k. txn = hexdigest (jo_urandom os k)" "\<exists>node. w_fs w' ino = Some node \<and> n_data node = []" "w_disk w' = w_disk w" by auto
qed

lemma first_append_run:
  "(case m of (Inl e, (j, w)) \<Rightarrow> (Inl e, w) | (Inr u, (j, w)) \<Rightarrow> (Inr j, w)) = (Inr j1, w1) \<longleftrightarrow> m = (Inr (), (j1, w1))"
  for m :: "unit py \<times> journal \<times> world"
  by (auto split: prod.splits sum.splits)

lemma create_journal_written:
  assumes "create_journal os parent profile s w = (Inr j, w')" "\<forall>k. length (jo_urandom os k) = 16" "lower_hex_exactly 64 profile"
  shows "journal_written os j w' [(lit ''prior_state_captured'', snapshot_as_record s)]" "identity_ok j"
    "\<exists>node. w_disk w' (j_file_fd j) = Some node \<and> w_fs w' (j_file_fd j) = Some node"
proof -
  from assms(1) obtain parent_fd txn ino w1 where a: "allocate_journal os parent_fd [0..<128] w = (Inr (Some (txn, ino)), w1)"
    and p: "prepare_journal os parent_fd ino parent profile txn s w1 = (Inr j, w')"
    by (auto simp: create_journal_def sx_bind_Inr sx_then_Inr sx_try_Inr split: option.splits)
  let ?j = "fresh_journal parent_fd ino parent profile txn"
  from allocate_journal_some [OF a] assms(2) obtain k node where k: "txn = hexdigest (jo_urandom os k)" and n: "w_fs w1 ino = Some node" "n_data node = []"
    by blast
  from p n obtain w2 w3 where f: "fchmod ino 384 w1 = (Inr (), w2)"
    and ap: "journal_append os (lit ''prior_state_captured'') (snapshot_as_record s) (?j, w2) = (Inr (), (j, w3))"
    and fs: "os_fsync parent_fd w3 = (Inr (), w')"
    by (auto simp: prepare_journal_def sx_then_Inr sx_bind_Inr first_append_run)
  have n2: "w_fs w2 ino = Some (node\<lparr>n_mode := 384\<rparr>)" using f n by (auto simp: fchmod_def update_node_def)
  have "journal_written os ?j w2 []" using n2 n(2)
    by (simp add: journal_written_def fresh_journal_def chain_digest_def)
  from journal_append_written [OF ap this] have w3: "journal_written os j w3 [(lit ''prior_state_captured'', snapshot_as_record s)]" by simp
  have same: "w_fs w' = w_fs w3" "w_disk w' = (w_disk w3)(parent_fd := w_fs w3 parent_fd)" using fs by (auto simp: os_fsync_def split: option.splits)
  show "journal_written os j w' [(lit ''prior_state_captured'', snapshot_as_record s)]" using w3 same by (simp add: journal_written_def)
  from ap obtain payload where j: "j = ?j\<lparr>j_previous_sha256 := hexdigest (sha256 payload), j_next_sequence := j_next_sequence ?j + 1\<rparr>"
    and d: "w_disk w3 ino = Some (node\<lparr>n_mode := 384, n_data := n_data node @ payload\<rparr>)"
    and fsw: "w_fs w3 = w_fs (append_data ino payload w2)"
    by (rule journal_append_run) (use n2 in \<open>auto simp: fresh_journal_def\<close>)
  have "lower_hex_exactly 32 txn" using hexdigest_shape [of "jo_urandom os k"] k assms(2) by simp
  then show "identity_ok j" using j assms(3) by (simp add: identity_ok_def fresh_journal_def)
  have "j_file_fd j = ino" using j by (simp add: fresh_journal_def)
  then show "\<exists>node. w_disk w' (j_file_fd j) = Some node \<and> w_fs w' (j_file_fd j) = Some node"
    using same d fsw n2 by auto
qed

text \<open>The first record's room, for any transaction identifier of the right shape.\<close>

definition first_room :: "nat \<Rightarrow> control_snapshot \<Rightarrow> nat" where
  "first_room d s = 40000 + 4 * dump_bound d (snapshot_as_record s)"

lemma first_record_room:
  assumes "identity_ok j" "j_next_sequence j = 0" "lower_hex_exactly 64 (j_previous_sha256 j)"
  shows "4 * dump_bound (Suc d) (PyDict (lit_items (journal_items j (j_next_sequence j) (j_previous_sha256 j)
    (lit ''prior_state_captured'', snapshot_as_record s)))) + 1 \<le> first_room d s"
proof -
  have s: "dump_bound d (PyStr t) = 12 * length t + 2" "dump_bound d (PyInt n) = nat \<bar>n\<bar> + 2" for t n
    by (cases d; simp add: scalar_bound_def)+
  have l: "length (lit t) = length t" for t by (simp add: lit_def)
  show ?thesis using assms
    by (simp add: lit_items_def journal_items_def s l identity_ok_def lower_hex_exactly_def first_room_def)
qed

lemma prepare_journal_run:
  assumes "fchmod ino 384 w1 = (Inr (), w2)" "w_fs w2 ino = Some node" "n_kind node = KReg" "n_nlink node = 1" "n_mode node = 384"
    and "n_uid node = w_euid w2" "jo_flock os ino w2 = Inr ()" "os_fsync parent_fd w3 = (Inr (), w4)"
    and "journal_append os (lit ''prior_state_captured'') (snapshot_as_record s) (fresh_journal parent_fd ino parent profile txn, w2) = (Inr (), (j, w3))"
  shows "prepare_journal os parent_fd ino parent profile txn s w1 = (Inr j, w4)"
  using assms by (simp add: prepare_journal_def fstat_def)

lemma create_journal_ready:
  assumes "makes_progress os" "jo_depth os = Suc (Suc (Suc (Suc d)))" "\<forall>k. length (jo_urandom os k) = 16" "lower_hex_exactly 64 profile"
    and "snapshot_ok (jo_unicode os) s" "first_room (Suc (Suc (Suc d))) s \<le> MAX_JOURNAL_BYTES"
    and "open_absolute_directory_nofollow parent w = Inr parent_fd" "w_fs w parent_fd = Some pnode" "parent_fd \<noteq> w_next w"
    and "dir_lookup parent_fd (journal_name (hexdigest (jo_urandom os 0))) w = None" "\<forall>fd w. jo_flock os fd w = Inr ()"
  shows "\<exists>j w'. create_journal os parent profile s w = (Inr j, w') \<and>
    journal_ready j w' (first_room (Suc (Suc (Suc d))) s) \<and> j_next_sequence j = 1 \<and> w_fs w' (j_parent_fd j) \<noteq> None"
proof -
  let ?txn = "hexdigest (jo_urandom os 0)" and ?i = "w_next w" and ?room = "first_room (Suc (Suc (Suc d))) s"
  let ?j = "fresh_journal parent_fd ?i parent profile ?txn"
  let ?node = "\<lparr>n_kind = KReg, n_uid = w_euid w, n_mode = 384, n_nlink = 1, n_entries = [], n_data = []\<rparr>"
  let ?w1 = "update_node parent_fd (\<lambda>n. n\<lparr>n_entries := n_entries n @ [(journal_name ?txn, ?i)]\<rparr>)
    (w\<lparr>w_fs := (w_fs w)(?i \<mapsto> ?node), w_next := (fst ?i, Suc (snd ?i))\<rparr>)"
  have al: "allocate_journal os parent_fd [0..<128] w = (Inr (Some (?txn, ?i)), ?w1)"
    using assms(10) by (simp add: upt_conv_Cons os_create_file_def Let_def hex_text_def)
  let ?w2 = "update_node ?i (\<lambda>n. n\<lparr>n_mode := 384\<rparr>) ?w1"
  have n1: "w_fs ?w1 ?i = Some ?node" using assms(9) by (simp add: update_node_def)
  then have f: "fchmod ?i 384 ?w1 = (Inr (), ?w2)" by (simp add: fchmod_def)
  have n2: "w_fs ?w2 ?i = Some ?node" using n1 by (simp add: update_node_def)
  have p2: "w_fs ?w2 parent_fd = Some (pnode\<lparr>n_entries := n_entries pnode @ [(journal_name ?txn, ?i)]\<rparr>)"
    using assms(8,9) by (simp add: update_node_def)
  have lk: "dir_lookup parent_fd (journal_name ?txn) ?w2 = Some ?i"
    using p2 assms(10) assms(8) by (auto simp: dir_lookup_def map_add_def split: option.splits)
  have "lower_hex_exactly 32 ?txn" using hexdigest_shape [of "jo_urandom os 0"] assms(3) by simp
  then have i: "identity_ok ?j" using assms(4) by (simp add: identity_ok_def fresh_journal_def)
  have ready: "journal_ready ?j ?w2 0" using i n2 lk zero_sha_hex
    by (simp add: journal_ready_def fresh_journal_def update_node_def)
  have ev: "event_ok (lit ''prior_state_captured'')" by (simp add: event_ok_def lit_def is_digit_def)
  have room: "4 * dump_bound (Suc (Suc (Suc (Suc d)))) (PyDict (lit_items (journal_items ?j (j_next_sequence ?j) (j_previous_sha256 ?j)
    (lit ''prior_state_captured'', snapshot_as_record s)))) + 1 \<le> ?room"
    by (rule first_record_room) (use i zero_sha_hex in \<open>simp_all add: fresh_journal_def\<close>)
  have fit: "0 + 4 * dump_bound (Suc (Suc (Suc (Suc d)))) (PyDict (lit_items (journal_items ?j (j_next_sequence ?j) (j_previous_sha256 ?j)
    (lit ''prior_state_captured'', snapshot_as_record s)))) + 1 \<le> MAX_JOURNAL_BYTES"
    using room assms(6) by linarith
  have few: "j_next_sequence ?j < MAX_JOURNAL_RECORDS" by (simp add: fresh_journal_def MAX_JOURNAL_RECORDS_def)
  from append_ready [OF assms(1,2) ready ev wf_snapshot [OF assms(5)] fit few] room
  obtain j w3 used where ap: "journal_append os (lit ''prior_state_captured'') (snapshot_as_record s) (?j, ?w2) = (Inr (), (j, w3))"
    and r3: "journal_ready j w3 used" "used \<le> ?room" "j_next_sequence j = 1" "j_parent_fd j = parent_fd"
    by (fastforce simp: fresh_journal_def simp del: dump_bound.simps)
  from ap obtain payload where fsw: "w_fs w3 = w_fs (append_data ?i payload ?w2)"
    by (rule journal_append_run) (auto simp: fresh_journal_def)
  have p3: "w_fs w3 parent_fd = w_fs ?w2 parent_fd" using fsw assms(9) by simp
  let ?w4 = "w3\<lparr>w_disk := (w_disk w3)(parent_fd := w_fs w3 parent_fd)\<rparr>"
  have s4: "os_fsync parent_fd w3 = (Inr (), ?w4)" using p3 p2 by (simp add: os_fsync_def)
  have "prepare_journal os parent_fd ?i parent profile ?txn s ?w1 = (Inr j, ?w4)"
    by (rule prepare_journal_run [OF f n2 _ _ _ _ _ s4 ap]) (simp_all add: assms(11) update_node_def)
  then have "create_journal os parent profile s w = (Inr j, ?w4)"
    using assms(7) al by (simp add: create_journal_def sx_try_def)
  moreover have "journal_ready j ?w4 ?room" using r3 by (auto simp: journal_ready_def dir_lookup_def)
  moreover have "w_fs ?w4 (j_parent_fd j) \<noteq> None" using p3 p2 r3 by simp
  ultimately show ?thesis using r3(3) by blast
qed

section \<open>Properties\<close>

lemma append_events_written:
  "sx_each (\<lambda>event. journal_append os event PyNone) events (j, w) = (Inr (), (j', w')) \<Longrightarrow> journal_written os j w entries \<Longrightarrow>
   journal_written os j' w' (entries @ map (\<lambda>event. (event, PyNone)) events) \<and> list_all event_ok events \<and>
   j_profile_sha256 j' = j_profile_sha256 j \<and> j_transaction_id j' = j_transaction_id j"
proof (induction events arbitrary: j w entries)
  case (Cons event events)
  then obtain j1 w1 where a: "journal_append os event PyNone (j, w) = (Inr (), (j1, w1))"
    and r: "sx_each (\<lambda>event. journal_append os event PyNone) events (j1, w1) = (Inr (), (j', w'))" by (auto simp: sx_bind_Inr)
  from a have "event_ok event" "j_profile_sha256 j1 = j_profile_sha256 j" "j_transaction_id j1 = j_transaction_id j"
    by (auto elim: journal_append_run)
  with Cons.IH [OF r journal_append_written [OF a Cons.prems(2)]] show ?case by simp
qed simp

text \<open>
  C13. The recovery journal reads back. After a journal is created for a well-formed snapshot and any events
  are appended, \<^verbatim>\<open>records()\<close> accepts the file: it returns the prior-state record followed by the
  events in order, with the hash chain verified, and the snapshot of the first record is the captured one.
\<close>

theorem journal_reads_back:
  assumes "create_journal os parent profile s w = (Inr j, w1)"
    and "sx_each (\<lambda>event. journal_append os event PyNone) events (j, w1) = (Inr (), (j', w2))"
    and "snapshot_ok (jo_unicode os) s" "lower_hex_exactly 64 profile" "\<forall>k. length (jo_urandom os k) = 16" "4 \<le> jo_depth os"
  shows "\<exists>recs. journal_records os j' w2 = Inr recs \<and>
    map (\<lambda>r. record_field r ''event'') recs = map (\<lambda>e. Inr (PyStr e)) (lit ''prior_state_captured'' # events) \<and>
    and_then (record_field (hd recs) ''snapshot'') (snapshot_from_record (jo_unicode os)) = Inr s"
proof -
  note c = create_journal_written [OF assms(1,5,4)]
  from append_events_written [OF assms(2) c(1)] have w: "journal_written os j' w2 ((lit ''prior_state_captured'', snapshot_as_record s) # map (\<lambda>event. (event, PyNone)) events)"
    and e: "list_all event_ok events" and i: "identity_ok j'" using c(2) by (auto simp: identity_ok_def)
  obtain d where "jo_depth os = 4 + d" using le_Suc_ex [OF assms(6)] by blast
  then have d: "jo_depth os = Suc (Suc (Suc (Suc d)))" by (simp add: eval_nat_numeral)
  from journal_written_reads [OF w d i assms(3)] e show ?thesis by (auto simp: list_all_iff comp_def)
qed

definition plain_unicode :: unicode_db where
  "plain_unicode = \<lparr>udb_isdigit = (\<lambda>_. False), udb_decimal = (\<lambda>_. None)\<rparr>"

definition sample_os :: journal_os where
  "sample_os = \<lparr>jo_write = (\<lambda>p w. Inr (min 7 (length p))), jo_urandom = (\<lambda>k. replicate 16 (word_of_nat k)),
     jo_flock = (\<lambda>fd w. Inr ()), jo_depth = 4, jo_unicode = plain_unicode\<rparr>"

definition sample_dir :: "(pystr \<times> inode) list \<Rightarrow> node" where
  "sample_dir es = \<lparr>n_kind = KDir, n_uid = 0, n_mode = 448, n_nlink = 2, n_entries = es, n_data = []\<rparr>"

definition sample_world :: world where
  "sample_world = \<lparr>w_fs = [(1, 2) \<mapsto> sample_dir [(lit ''tmp'', (1, 3))], (1, 3) \<mapsto> sample_dir []], w_disk = Map.empty,
     w_abs = [lit ''/'' \<mapsto> (1, 2)], w_euid = 0, w_next = (1, 4)\<rparr>"

definition sample_snapshot :: control_snapshot where
  "sample_snapshot = \<lparr>cs_values = [(lit ''/proc/irq/9'', lit ''cpu_list'', PyStr (lit ''0-2,5''))], cs_modules_preexisting = [lit ''msr''],
     cs_services_active = [], cs_process_affinity = [0, 3]\<rparr>"

lemma sample_os_works: "makes_progress sample_os" "jo_depth sample_os = Suc (Suc (Suc (Suc 0)))"
  "\<forall>k. length (jo_urandom sample_os k) = 16" "\<forall>fd w. jo_flock sample_os fd w = Inr ()"
  by (auto simp: makes_progress_def sample_os_def)

lemma sample_parent: "open_absolute_directory_nofollow (lit ''/tmp'') sample_world = Inr (1, 3)"
  by (simp add: open_absolute_directory_nofollow_def open_component_def open_directory_at_def os_stat_def stat_at_def dir_lookup_def
      fstat_def sample_world_def sample_dir_def isabs_def starts_with_def lit_def normpath_def posix_root_def norm_step_def join_with_def
      Cp2_Schema.join_with_def del: and_then_eq_Inr)

lemma sample_snapshot_ok: "snapshot_ok plain_unicode sample_snapshot"
  by (simp add: snapshot_ok_def sample_snapshot_def isabs_def starts_with_def lit_def normpath_def posix_root_def norm_step_def
      Cp2_Schema.join_with_def is_scalar_def scalar_normal_def parse_control_value_def on_text_def parse_cpu_list_def cpu_list_token_def
      str_isdigit_def char_isdigit_def is_digit_def int_of_digits_def char_decimal_def of_digits_def sorted_set_def
      ALLOWED_MODULES_def upt_rec del: and_then_eq_Inr)

lemma sample_room: "first_room (Suc (Suc (Suc 0))) sample_snapshot \<le> 200000"
  by (simp add: first_room_def snapshot_record_items lit_items_def snapshot_items_def value_record_def sample_snapshot_def scalar_bound_def lit_def)

lemma sample_journal:
  "\<exists>j w. create_journal sample_os (lit ''/tmp'') ZERO_SHA256 sample_snapshot sample_world = (Inr j, w) \<and>
     journal_ready j w 200000 \<and> j_next_sequence j = 1"
proof -
  have "first_room (Suc (Suc (Suc 0))) sample_snapshot \<le> MAX_JOURNAL_BYTES" using sample_room by (simp add: MAX_JOURNAL_BYTES_def)
  moreover have "snapshot_ok (jo_unicode sample_os) sample_snapshot" using sample_snapshot_ok by (simp add: sample_os_def)
  moreover have "w_fs sample_world (1, 3) = Some (sample_dir [])" "(1, 3) \<noteq> w_next sample_world"
    "dir_lookup (1, 3) (journal_name (hexdigest (jo_urandom sample_os 0))) sample_world = None"
    by (simp_all add: sample_world_def dir_lookup_def sample_dir_def)
  ultimately have "\<exists>j w'. create_journal sample_os (lit ''/tmp'') ZERO_SHA256 sample_snapshot sample_world = (Inr j, w') \<and>
    journal_ready j w' (first_room (Suc (Suc (Suc 0))) sample_snapshot) \<and> j_next_sequence j = 1 \<and> w_fs w' (j_parent_fd j) \<noteq> None"
    using sample_parent zero_sha_hex by (intro create_journal_ready [OF sample_os_works(1-3)]) (auto simp: sample_os_works)
  then show ?thesis using sample_room by (fastforce simp: journal_ready_def)
qed

theorem journal_reads_back_witness:
  "\<exists>j w1 j' w2. create_journal sample_os (lit ''/tmp'') ZERO_SHA256 sample_snapshot sample_world = (Inr j, w1) \<and>
     sx_each (\<lambda>event. journal_append sample_os event PyNone) [lit ''apply:after_journal''] (j, w1) = (Inr (), (j', w2)) \<and>
     (\<exists>recs. journal_records sample_os j' w2 = Inr recs \<and>
        map (\<lambda>r. record_field r ''event'') recs = map (\<lambda>e. Inr (PyStr e)) [lit ''prior_state_captured'', lit ''apply:after_journal''] \<and>
        and_then (record_field (hd recs) ''snapshot'') (snapshot_from_record plain_unicode) = Inr sample_snapshot)"
proof -
  obtain j w1 where c: "create_journal sample_os (lit ''/tmp'') ZERO_SHA256 sample_snapshot sample_world = (Inr j, w1)"
    and r: "journal_ready j w1 200000" "j_next_sequence j = 1" using sample_journal by blast
  have "event_ok (lit ''apply:after_journal'')" by (simp add: event_ok_def lit_def is_digit_def)
  with append_event_ready [OF sample_os_works(1) _ r(1)] r(2)
  obtain j' w2 where "journal_append sample_os (lit ''apply:after_journal'') PyNone (j, w1) = (Inr (), (j', w2))"
    by (fastforce simp: sample_os_works MAX_JOURNAL_BYTES_def MAX_JOURNAL_RECORDS_def)
  then have e: "sx_each (\<lambda>event. journal_append sample_os event PyNone) [lit ''apply:after_journal''] (j, w1) = (Inr (), (j', w2))" by simp
  have u: "jo_unicode sample_os = plain_unicode" by (simp add: sample_os_def)
  show ?thesis using c e journal_reads_back [OF c e] sample_snapshot_ok zero_sha_hex sample_os_works
    unfolding u by (auto simp del: sx_each.simps)
qed

end
