(* ===== verification/Host_Control_Correct.thy ===== *)
theory Host_Control_Correct
  imports Host_Control Control_Journal_Correct
begin

text \<open>
  Correctness of the host-control transaction: what a restoration that returns has established, that a
  failed application leaves the captured controls in place, the states the object can be in between two
  calls, and what passing receipts prove.
\<close>

section \<open>Attempts\<close>

lemma attempt_run: "attempt m t = (r, t') \<longleftrightarrow> (\<exists>q. m t = (q, t') \<and> r = Inr (errors_of q))"
  by (auto simp: attempt_def sx_bind_def sx_catch_def split: prod.splits sum.splits)

lemma errors_of_Nil [simp]: "errors_of q = [] \<longleftrightarrow> (\<exists>x. q = Inr x)" "[] = errors_of q \<longleftrightarrow> (\<exists>x. q = Inr x)"
  by (auto simp: errors_of_def split: sum.splits)

context state_order
begin

lemma upholds_attempt: "upholds R m \<Longrightarrow> upholds R (attempt m)"
  unfolding attempt_def by (intro upholds_bind upholds_catch upholds_return)

lemma upholds_collect: "(\<And>x. x \<in> set xs \<Longrightarrow> upholds R (f x)) \<Longrightarrow> upholds R (collect f xs)"
  by (induction xs) (auto intro!: upholds_return upholds_bind)

lemma upholds_operation:
  "(\<And>b name. boundary = Some b \<Longrightarrow> upholds R (b name)) \<Longrightarrow> upholds R m \<Longrightarrow> upholds R (recover_operation boundary label m)"
  unfolding recover_operation_def
  by (cases boundary) (auto intro!: upholds_bind upholds_return upholds_attempt)

lemma upholds_recover:
  assumes "\<And>m. upholds R (on m)" "\<And>b name. boundary = Some b \<Longrightarrow> upholds R (b name)"
  shows "upholds R (recover_snapshot_exact u profile s be on host_of process_local boundary)"
  unfolding recover_snapshot_exact_def
  by (intro upholds_bind upholds_if upholds_return upholds_read upholds_collect)
    (auto intro!: upholds_operation upholds_raise assms split: option.splits)

end

section \<open>What each step leaves alone\<close>

text \<open>
  The attributes a boundary, a guardian query or a restoration never touches. \<open>frame\<close> is what stays the
  same through a whole attempt to restore: the captured snapshot, the receipts of the earlier phases.
\<close>

definition frame :: "'h transaction \<Rightarrow> control_snapshot option \<times> control_receipt option \<times> control_receipt option" where
  "frame t = (tx_snapshot t, tx_prior_receipt t, tx_applied_receipt t)"

lemma checkpoint_keeps:
  assumes "\<And>t j w. f (t\<lparr>tx_journal := j, tx_fs := w\<rparr>) = f t" "\<And>t h. f (t\<lparr>tx_boundary_history := h\<rparr>) = f t"
    and "\<And>t g. f (t\<lparr>tx_guardian := g\<rparr>) = f t"
  shows "upholds (same f) (checkpoint env b name)"
proof -
  have j: "upholds (same f) (\<lambda>t. if b \<and> tx_journal t \<noteq> None then tx_on_journal m t else (Inr (), t))" for m :: "unit jx"
    by (rule upholdsI) (auto simp: same_def tx_on_journal_def assms split: option.splits prod.splits)
  have g: "upholds (same f) (guardian_assert_alive env)"
    by (rule upholdsI) (auto simp: same_def guardian_assert_alive_def assms split: option.splits)
  show ?thesis unfolding checkpoint_def
    by (intro same.upholds_then same.upholds_if same.upholds_return same.upholds_read g j same.upholds_modify)
      (simp add: same_def assms)
qed

lemma checkpoint_same:
  "upholds (same tx_host) (checkpoint env b name)" "upholds (same frame) (checkpoint env b name)"
  "upholds (same tx_state) (checkpoint env b name)" "upholds (same tx_had_abnormal_recovery) (checkpoint env b name)"
  "upholds (same tx_restored_receipt) (checkpoint env b name)"
  by (rule checkpoint_keeps; simp add: frame_def)+

lemma checkpoint_cases:
  assumes "checkpoint env b name t = (r, t')"
  shows "tx_host t' = tx_host t" "frame t' = frame t" "tx_state t' = tx_state t"
    "tx_had_abnormal_recovery t' = tx_had_abnormal_recovery t" "tx_restored_receipt t' = tx_restored_receipt t"
  using checkpoint_same [THEN upholdsD, OF assms] by (simp_all add: same_def)

section \<open>Restoration\<close>

lemma restore_recapture_Inr:
  assumes "restore_recapture env t = (Inr u, t')"
  shows "\<exists>s. tx_snapshot t = Some s \<and> capture env (tx_host t) = Inr s \<and> tx_host t' = tx_host t \<and> frame t' = frame t \<and>
    (\<exists>receipt. tx_restored_receipt t' = Some receipt \<and> cr_state receipt = snapshot_as_record s)"
  using assms
  by (auto simp: restore_recapture_def sx_bind_Inr new_receipt_def monotonic_ns_def frame_def make_receipt_def
      snapshot_as_record_def str_record_def split: pyval.splits)

lemma host_step_frame: "upholds (same frame) (tx_on_host m)"
  by (rule upholdsI) (auto simp: same_def frame_def tx_on_host_def sx_on_def split: prod.splits)

lemma recapture_frame: "upholds (same frame) (restore_recapture env)"
  unfolding restore_recapture_def new_receipt_def
  by (intro same.upholds_bind same.upholds_read same.upholds_modify)
    (auto intro!: upholdsI simp: same_def frame_def monotonic_ns_def)

lemma restore_guarded_frame: "upholds (same frame) (restore_guarded env s)"
  unfolding restore_guarded_def
  by (intro same.upholds_bind same.upholds_attempt same.upholds_if same.upholds_return same.upholds_recover
      checkpoint_same host_step_frame recapture_frame) (auto intro: checkpoint_same)

lemma restore_guarded_abnormal: "upholds (same tx_had_abnormal_recovery) (restore_guarded env s)"
proof -
  have h: "upholds (same tx_had_abnormal_recovery) (tx_on_host m)" for m :: "('a, unit) sx"
    by (rule upholdsI) (auto simp: same_def tx_on_host_def sx_on_def split: prod.splits)
  have c: "upholds (same tx_had_abnormal_recovery) (restore_recapture env)"
    unfolding restore_recapture_def new_receipt_def
    by (intro same.upholds_bind same.upholds_read same.upholds_modify) (auto intro!: upholdsI simp: same_def monotonic_ns_def)
  show ?thesis unfolding restore_guarded_def
    by (intro same.upholds_bind same.upholds_attempt same.upholds_if same.upholds_return same.upholds_recover
        checkpoint_same h c) (auto intro: checkpoint_same)
qed

lemma restore_guarded_clean:
  assumes "restore_guarded env s t = (Inr [], t')"
  shows "\<exists>s'. tx_snapshot t = Some s' \<and> capture env (tx_host t') = Inr s' \<and>
    (\<exists>receipt. tx_restored_receipt t' = Some receipt \<and> cr_state receipt = snapshot_as_record s')"
proof -
  from assms obtain t1 t2 t3 r4 where
    3: "restore_recapture env t2 = (Inr (), t3)" and 4: "checkpoint env True (lit ''restore:state_verified'') t3 = (r4, t')"
    unfolding restore_guarded_def by (auto simp: sx_bind_Inr attempt_run)
  have f: "frame t' = frame t" using restore_guarded_frame [THEN upholdsD, OF assms] by (simp add: same_def)
  from restore_recapture_Inr [OF 3] obtain s' where s': "tx_snapshot t2 = Some s'" "capture env (tx_host t2) = Inr s'"
    "tx_host t3 = tx_host t2" "frame t3 = frame t2"
    "\<exists>receipt. tx_restored_receipt t3 = Some receipt \<and> cr_state receipt = snapshot_as_record s'" by blast
  from checkpoint_cases [OF 4] f s' have "tx_snapshot t = Some s'" by (simp add: frame_def)
  with checkpoint_cases [OF 4] s' show ?thesis by simp
qed

lemma restore_refresh_run:
  obtains t0 where "restore_refresh env t = (Inr (), t0)" "frame t0 = frame t"
    "tx_had_abnormal_recovery t0 = tx_had_abnormal_recovery t"
proof -
  have "\<exists>t0. restore_refresh env t = (Inr (), t0) \<and> frame t0 = frame t \<and> tx_had_abnormal_recovery t0 = tx_had_abnormal_recovery t"
  proof (cases "attempt (tx_on_journal (refresh_chain (ce_os env))) t")
    case (Pair q t1)
    then have "frame t1 = frame t" "tx_had_abnormal_recovery t1 = tx_had_abnormal_recovery t" "\<exists>es. q = Inr es"
      by (auto simp: attempt_run tx_on_journal_def frame_def split: option.splits prod.splits)
    then show ?thesis using Pair by (auto simp: restore_refresh_def)
  qed
  then show ?thesis using that by blast
qed

text \<open>The run of \<^verbatim>\<open>restore\<close> taken apart: either nothing was to do, or it is one of the two exits.\<close>

lemma restore_start:
  assumes "tx_state t \<noteq> Restored" "tx_snapshot t = Some s"
  obtains t1 t2 errors where
    "frame t1 = frame t" "tx_had_abnormal_recovery t1 = tx_had_abnormal_recovery t"
    "restore_guarded env s t1 = (Inr errors, t2)" "frame t2 = frame t"
    "restore env t = restore_finish env errors (t2\<lparr>tx_signal_handlers := False\<rparr>)"
proof -
  obtain t0 where r: "restore_refresh env t = (Inr (), t0)" "frame t0 = frame t"
    "tx_had_abnormal_recovery t0 = tx_had_abnormal_recovery t" by (rule restore_refresh_run)
  let ?t1 = "t0\<lparr>tx_state := Restoring\<rparr>"
  obtain errors t2 where g: "restore_guarded env s ?t1 = (Inr errors, t2)"
  proof (cases "restore_guarded env s ?t1")
    case (Pair q t2)
    then have "\<exists>errors. q = Inr errors"
      by (cases q) (auto simp: restore_guarded_def sx_bind_Inl attempt_run split: if_splits)
    then show ?thesis using Pair that by blast
  qed
  have "frame t2 = frame ?t1" using restore_guarded_frame [THEN upholdsD, OF g] by (simp add: same_def)
  then have f: "frame t2 = frame t" using r by (simp add: frame_def)
  have run: "restore env t = restore_finish env errors (t2\<lparr>tx_signal_handlers := False\<rparr>)"
    using assms r g by (simp add: restore_def set_state_def)
  show ?thesis using that [OF _ _ g f run] r by (simp add: frame_def)
qed

lemma guardian_recover_keeps:
  assumes "\<And>t j w h. f (t\<lparr>tx_guardian := j, tx_fs := w, tx_host := h\<rparr>) = f t" "\<And>t g. f (t\<lparr>tx_guardian := g\<rparr>) = f t"
  shows "upholds (same f) (guardian_recover env)"
  unfolding guardian_recover_def
  by (intro same.upholds_bind same.upholds_read)
    (rule upholdsI, auto simp: same_def guardian_finish_def Let_def assms split: option.splits prod.splits)

lemma restore_failed_keeps:
  assumes "\<And>t j w h. f (t\<lparr>tx_guardian := j, tx_fs := w, tx_host := h\<rparr>) = f t" "\<And>t g. f (t\<lparr>tx_guardian := g\<rparr>) = f t"
    and "\<And>t x. f (t\<lparr>tx_had_abnormal_recovery := x\<rparr>) = f t" "\<And>t x. f (t\<lparr>tx_state := x\<rparr>) = f t"
  shows "upholds (same f) (restore_failed env)"
proof -
  have "upholds (same f) (\<lambda>t. if guardian_active t then sx_bind (attempt (guardian_recover env)) (\<lambda>errors. sx_return (errors = [])) t else (Inr False, t))"
    by (intro same.upholds_cond same.upholds_pure same.upholds_bind same.upholds_attempt same.upholds_return guardian_recover_keeps assms)
  then show ?thesis unfolding restore_failed_def set_state_def
    by (intro same.upholds_bind same.upholds_then same.upholds_modify same.upholds_raise) (auto simp: same_def assms)
qed

lemma restore_failed_run:
  assumes "restore_failed env t = (r, t')"
  shows "\<exists>m. r = Inl (TimingControlIndeterminate m)" "tx_had_abnormal_recovery t'"
    "tx_state t' = Indeterminate \<or> tx_state t' = RecoveredByGuardian" "frame t' = frame t"
    "tx_restored_receipt t' = tx_restored_receipt t"
proof -
  from assms show "\<exists>m. r = Inl (TimingControlIndeterminate m)" "tx_state t' = Indeterminate \<or> tx_state t' = RecoveredByGuardian"
    by (auto simp: restore_failed_def set_state_def sx_then_def sx_bind_def attempt_def sx_catch_def split: prod.splits sum.splits if_splits)
  show "frame t' = frame t" "tx_restored_receipt t' = tx_restored_receipt t"
    using restore_failed_keeps [of frame env, THEN upholdsD, OF _ _ _ _ assms]
      restore_failed_keeps [of tx_restored_receipt env, THEN upholdsD, OF _ _ _ _ assms] by (simp_all add: frame_def same_def)
  have g: "upholds (same tx_had_abnormal_recovery) (attempt (guardian_recover env))"
    by (intro same.upholds_attempt guardian_recover_keeps) simp_all
  show "tx_had_abnormal_recovery t'"
    using assms g [THEN upholdsD, of "t\<lparr>tx_had_abnormal_recovery := True\<rparr>"]
    by (auto simp: restore_failed_def set_state_def sx_then_def sx_bind_def same_def split: prod.splits sum.splits if_splits)
qed

lemma restore_cleanup_keeps:
  assumes "\<And>t j w. f (t\<lparr>tx_journal := j, tx_fs := w\<rparr>) = f t" "\<And>t j. f (t\<lparr>tx_journal := j\<rparr>) = f t"
    and "\<And>t h. f (t\<lparr>tx_boundary_history := h\<rparr>) = f t" "\<And>t g. f (t\<lparr>tx_guardian := g\<rparr>) = f t"
    and "\<And>t p x. f (t\<lparr>tx_journal_path := p, tx_state := x\<rparr>) = f t"
  shows "upholds (same f) (restore_cleanup env)"
proof -
  have k: "upholds (same f) (checkpoint env b name)" for b name by (intro checkpoint_keeps assms)
  have g: "upholds (same f) (guardian_cancel env)" unfolding guardian_cancel_def
    by (intro same.upholds_bind same.upholds_read) (rule upholdsI, auto simp: same_def guardian_finish_def Let_def assms split: option.splits)
  have j: "upholds (same f) (tx_on_journal m)" for m :: "unit jx"
    by (rule upholdsI) (auto simp: same_def tx_on_journal_def assms split: option.splits prod.splits)
  show ?thesis unfolding restore_cleanup_def
    by (intro same.upholds_then same.upholds_cond same.upholds_pure k g j same.upholds_modify) (simp_all add: same_def assms)
qed

lemma restore_cleanup_Inr: "restore_cleanup env t = (Inr u, t') \<Longrightarrow> tx_state t' = Restored \<and> tx_journal t' = None \<and> tx_journal_path t' = None"
  by (auto simp: restore_cleanup_def sx_then_Inr split: if_splits)

lemma restore_finish_Inr:
  "restore_finish env errors t = (Inr u, t') \<longleftrightarrow> errors = [] \<and> restore_cleanup env t = (Inr u, t')"
proof (cases "errors = []")
  case False
  then show ?thesis using restore_failed_run(1) [of env t "Inr u" t'] by (auto simp: restore_finish_def)
qed (auto simp: restore_finish_def sx_try_def sx_then_def sx_bind_def split: prod.splits sum.splits)

lemma restore_finish_Inl:
  assumes "restore_finish env errors t = (Inl e, t')"
  shows "\<exists>m. e = TimingControlIndeterminate m" "tx_had_abnormal_recovery t'"
    "tx_state t' = Indeterminate \<or> tx_state t' = RecoveredByGuardian" "frame t' = frame t"
    "tx_restored_receipt t' = tx_restored_receipt t"
proof -
  have "(\<exists>m. e = TimingControlIndeterminate m) \<and> tx_had_abnormal_recovery t' \<and>
    (tx_state t' = Indeterminate \<or> tx_state t' = RecoveredByGuardian) \<and> frame t' = frame t \<and>
    tx_restored_receipt t' = tx_restored_receipt t"
  proof (cases "errors = []")
    case False
    then show ?thesis using restore_failed_run [of env t "Inl e" t'] assms by (auto simp: restore_finish_def)
  next
    case True
    then obtain e1 t1 where c: "restore_cleanup env t = (Inl e1, t1)"
      and t': "t' = t1\<lparr>tx_had_abnormal_recovery := True, tx_state := Indeterminate\<rparr>"
      "\<exists>m. e = TimingControlIndeterminate m"
      using assms by (auto simp: restore_finish_def sx_try_def sx_then_def sx_bind_def split: prod.splits sum.splits)
    have "frame t1 = frame t" "tx_restored_receipt t1 = tx_restored_receipt t"
      using restore_cleanup_keeps [of frame env, THEN upholdsD, OF _ _ _ _ _ c]
        restore_cleanup_keeps [of tx_restored_receipt env, THEN upholdsD, OF _ _ _ _ _ c]
      by (simp_all add: same_def frame_def)
    with t' show ?thesis by (simp add: frame_def)
  qed
  then show "\<exists>m. e = TimingControlIndeterminate m" "tx_had_abnormal_recovery t'"
    "tx_state t' = Indeterminate \<or> tx_state t' = RecoveredByGuardian" "frame t' = frame t"
    "tx_restored_receipt t' = tx_restored_receipt t" by auto
qed

text \<open>A restoration that returns: the host, captured again, gives exactly the prior snapshot.\<close>

lemma restore_Inr:
  assumes "restore env t = (Inr u, t')" "tx_state t \<noteq> Restored" "tx_snapshot t = Some s"
  shows "capture env (tx_host t') = Inr s \<and> tx_state t' = Restored \<and> tx_journal t' = None \<and> frame t' = frame t \<and>
    tx_had_abnormal_recovery t' = tx_had_abnormal_recovery t \<and>
    (\<exists>receipt. tx_restored_receipt t' = Some receipt \<and> cr_state receipt = snapshot_as_record s)"
proof -
  obtain t1 t2 errors where r: "frame t1 = frame t" "tx_had_abnormal_recovery t1 = tx_had_abnormal_recovery t"
    and g: "restore_guarded env s t1 = (Inr errors, t2)" and f: "frame t2 = frame t"
    and run: "restore env t = restore_finish env errors (t2\<lparr>tx_signal_handlers := False\<rparr>)"
    by (rule restore_start [OF assms(2,3)])
  have e: "errors = []" and c: "restore_cleanup env (t2\<lparr>tx_signal_handlers := False\<rparr>) = (Inr u, t')"
    using restore_finish_Inr [of env errors "t2\<lparr>tx_signal_handlers := False\<rparr>" u t'] run assms(1) by simp_all
  have s: "tx_snapshot t1 = Some s" using r assms(3) by (simp add: frame_def)
  have k: "tx_host t' = tx_host t2" "frame t' = frame t2" "tx_restored_receipt t' = tx_restored_receipt t2"
    "tx_had_abnormal_recovery t' = tx_had_abnormal_recovery t2"
    using restore_cleanup_keeps [of tx_host env, THEN upholdsD, OF _ _ _ _ _ c]
      restore_cleanup_keeps [of frame env, THEN upholdsD, OF _ _ _ _ _ c]
      restore_cleanup_keeps [of tx_restored_receipt env, THEN upholdsD, OF _ _ _ _ _ c]
      restore_cleanup_keeps [of tx_had_abnormal_recovery env, THEN upholdsD, OF _ _ _ _ _ c]
    by (simp_all add: same_def frame_def)
  have a: "tx_had_abnormal_recovery t2 = tx_had_abnormal_recovery t1"
    using restore_guarded_abnormal [THEN upholdsD, OF g] by (simp add: same_def)
  show ?thesis using restore_guarded_clean [OF g [unfolded e]] restore_cleanup_Inr [OF c] k a r f s by auto
qed

lemma restore_Inl:
  assumes "restore env t = (Inl e, t')"
  shows "\<exists>m. e = TimingControlIndeterminate m" "tx_had_abnormal_recovery t'"
    "tx_state t' = Indeterminate \<or> tx_state t' = RecoveredByGuardian" "frame t' = frame t" "\<exists>s. tx_snapshot t' = Some s"
proof -
  have n: "tx_state t \<noteq> Restored" using assms by (auto simp: restore_def)
  obtain s where s: "tx_snapshot t = Some s" using assms n by (cases "tx_snapshot t") (auto simp: restore_def)
  obtain t2 errors where f: "frame t2 = frame t"
    and run: "restore env t = restore_finish env errors (t2\<lparr>tx_signal_handlers := False\<rparr>)"
    by (rule restore_start [OF n s])
  from restore_finish_Inl [of env errors "t2\<lparr>tx_signal_handlers := False\<rparr>" e t'] run assms f s
  show "\<exists>m. e = TimingControlIndeterminate m" "tx_had_abnormal_recovery t'"
    "tx_state t' = Indeterminate \<or> tx_state t' = RecoveredByGuardian" "frame t' = frame t" "\<exists>s. tx_snapshot t' = Some s"
    by (auto simp: frame_def)
qed

section \<open>Application\<close>

definition underway :: "'h transaction \<Rightarrow> bool" where
  "underway t \<longleftrightarrow> tx_state t \<in> {Captured, Journaled, Applying, Applied}"

text \<open>What an application in progress keeps: the capture, and that no recovery has been abnormal.\<close>

definition applied_evidence :: "'h control_env \<Rightarrow> control_receipt \<Rightarrow> bool" where
  "applied_evidence env receipt \<longleftrightarrow> (\<exists>h. controls_applied env h = Inr () \<and> applied_record env h = Inr (cr_state receipt))"

definition advances :: "'h control_env \<Rightarrow> 'h transaction \<Rightarrow> 'h transaction \<Rightarrow> bool" where
  "advances env t t' \<longleftrightarrow> tx_snapshot t' = tx_snapshot t \<and> tx_prior_receipt t' = tx_prior_receipt t \<and>
     tx_restored_receipt t' = tx_restored_receipt t \<and> tx_had_abnormal_recovery t' = tx_had_abnormal_recovery t \<and>
     (underway t \<longrightarrow> underway t') \<and>
     (tx_applied_receipt t' = tx_applied_receipt t \<or> (\<exists>a. tx_applied_receipt t' = Some a \<and> applied_evidence env a))"

interpretation advances: state_order "advances env" for env :: "'h control_env"
  by unfold_locales (auto simp: advances_def)

lemma checkpoint_advances: "upholds (advances env) (checkpoint env b name)"
proof (rule upholdsI)
  fix t obtain r t' where run: "checkpoint env b name t = (r, t')" by (cases "checkpoint env b name t")
  show "advances env t (snd (checkpoint env b name t))" unfolding run
    using checkpoint_cases [OF run] by (simp add: advances_def frame_def underway_def)
qed

lemma host_step_advances: "upholds (advances env) (tx_on_host m)"
  by (rule upholdsI) (auto simp: advances_def underway_def tx_on_host_def sx_on_def split: prod.splits)

lemma mutation_advances: "upholds (advances env) (mutation env label m)"
  unfolding mutation_def by (intro advances.upholds_then checkpoint_advances host_step_advances)

lemma apply_mutations_advances: "upholds (advances env) (apply_mutations env s)"
  unfolding apply_mutations_def apply_module_def apply_service_def apply_write_def
  by (intro advances.upholds_then advances.upholds_each mutation_advances)
    (auto intro!: advances.upholds_if advances.upholds_return advances.upholds_then advances.upholds_read mutation_advances
      split: prod.splits)

lemma start_journal_advances: "upholds (advances env) (start_journal env s)"
  unfolding start_journal_def
  by (intro advances.upholds_then advances.upholds_bind checkpoint_advances advances.upholds_modify)
    (auto intro!: upholdsI simp: advances_def underway_def sx_on_def split: prod.splits)

lemma start_guardian_advances: "upholds (advances env) (start_guardian env s)"
  unfolding start_guardian_def
  by (intro advances.upholds_if advances.upholds_then advances.upholds_return advances.upholds_read checkpoint_advances advances.upholds_modify)
    (auto simp: advances_def underway_def split: option.splits)

lemma set_state_advances: "st \<in> {Captured, Journaled, Applying, Applied} \<Longrightarrow> upholds (advances env) (set_state st)"
  unfolding set_state_def by (intro advances.upholds_modify) (auto simp: advances_def underway_def)

lemma apply_validated_advances: "upholds (advances env) (apply_validated env)"
  unfolding upholds_def
proof (intro allI impI)
  fix t r t' assume run: "apply_validated env t = (r, t')"
  have c: "advances env (t\<lparr>tx_clock_reads := n, tx_applied_receipt := Some a\<rparr>) t'"
    if "checkpoint env True (lit ''apply:validated'') (t\<lparr>tx_clock_reads := n, tx_applied_receipt := Some a\<rparr>) = (q, t')" for n a q
    using checkpoint_advances [THEN upholdsD, OF that] .
  have e: "applied_evidence env a" if "controls_applied env (tx_host t) = Inr ()" "applied_record env (tx_host t) = Inr state"
    "make_receipt d p ph now state = Inr a" for a state d p ph now
    using that by (auto simp: applied_evidence_def make_receipt_def split: pyval.splits)
  show "advances env t t'"
  proof (cases r)
    case (Inl x)
    with run show ?thesis
      by (auto simp: apply_validated_def validate_applied_def capture_applied_state_def monotonic_ns_def sx_then_Inl sx_bind_Inl
          sx_then_Inr split: if_splits dest!: c)
        (auto simp: advances_def underway_def intro: e)
  next
    case (Inr x)
    with run show ?thesis
      by (auto simp: apply_validated_def validate_applied_def capture_applied_state_def monotonic_ns_def sx_then_Inr sx_bind_Inr
          split: if_splits dest!: c)
        (auto simp: advances_def underway_def intro: e)
  qed
qed

lemma apply_guarded_advances: "upholds (advances env) (apply_guarded env s)"
  unfolding apply_guarded_def install_signal_handlers_def
  by (intro advances.upholds_then advances.upholds_if advances.upholds_read advances.upholds_modify
      start_journal_advances start_guardian_advances apply_mutations_advances set_state_advances apply_validated_advances)
    (auto simp: advances_def underway_def)

lemma apply_guarded_Inr:
  assumes "apply_guarded env s t = (Inr u, t')"
  shows "tx_state t' = Applied" "controls_applied env (tx_host t') = Inr ()"
    "\<exists>receipt. tx_applied_receipt t' = Some receipt \<and> applied_record env (tx_host t') = Inr (cr_state receipt)"
proof -
  from assms obtain t1 where st: "tx_state t1 = Applied" and run: "apply_validated env t1 = (Inr u, t')"
    unfolding apply_guarded_def by (force simp: sx_then_Inr set_state_def)
  from run st obtain receipt state now where
    a: "controls_applied env (tx_host t1) = Inr ()" "applied_record env (tx_host t1) = Inr state"
    "make_receipt (jo_depth (ce_os env)) (cp_sha256 (ce_profile env)) (lit ''applied'') now state = Inr receipt"
    and c: "checkpoint env True (lit ''apply:validated'') (t1\<lparr>tx_clock_reads := tx_clock_reads t1 + 1, tx_applied_receipt := Some receipt\<rparr>) = (Inr u, t')"
    by (auto simp: apply_validated_def sx_then_Inr sx_bind_Inr validate_applied_def capture_applied_state_def monotonic_ns_def)
  then show "tx_state t' = Applied" "controls_applied env (tx_host t') = Inr ()"
    "\<exists>receipt. tx_applied_receipt t' = Some receipt \<and> applied_record env (tx_host t') = Inr (cr_state receipt)"
    using checkpoint_cases [OF c] st by (auto simp: frame_def make_receipt_def split: pyval.splits)
qed

text \<open>The part of \<^verbatim>\<open>apply\<close> before the first change.\<close>

definition control_state :: "'h transaction \<Rightarrow> 'h \<times> tx_state \<times> bool \<times> control_receipt option" where
  "control_state t = (tx_host t, tx_state t, tx_had_abnormal_recovery t, tx_restored_receipt t)"

lemma checkpoint_control_state: "upholds (same control_state) (checkpoint env b name)"
  by (rule checkpoint_keeps) (simp_all add: control_state_def)

lemma preflight_keeps: "upholds (same control_state) (apply_preflight env)" "upholds (same frame) (apply_preflight env)"
  unfolding apply_preflight_def by (intro same.upholds_then same.upholds_read checkpoint_control_state checkpoint_same)+

lemma confirm_capture_Inr: "confirm_capture env t = (Inr u, t') \<Longrightarrow> control_state t' = control_state t \<and> frame t' = frame t"
  using checkpoint_control_state [THEN upholdsD, of env False "lit ''apply:after_capture''" t]
    checkpoint_same(2) [THEN upholdsD, of env False "lit ''apply:after_capture''" t]
  by (auto simp: confirm_capture_def sx_try_def sx_then_def sx_bind_def same_def split: prod.splits sum.splits)

lemma confirm_capture_Inl:
  "confirm_capture env t = (Inl e, t') \<Longrightarrow> tx_state t' = New \<and> tx_host t' = tx_host t \<and>
     tx_had_abnormal_recovery t' = tx_had_abnormal_recovery t \<and> tx_prior_receipt t' = None \<and> tx_applied_receipt t' = tx_applied_receipt t"
  using checkpoint_control_state [THEN upholdsD, of env False "lit ''apply:after_capture''" t]
    checkpoint_same(2) [THEN upholdsD, of env False "lit ''apply:after_capture''" t]
  by (auto simp: confirm_capture_def sx_try_def sx_then_def sx_bind_def same_def control_state_def frame_def split: prod.splits sum.splits)

lemma apply_capture_Inr:
  assumes "apply_capture env t = (Inr s, t')"
  shows "capture env (tx_host t) = Inr s" "tx_host t' = tx_host t" "tx_snapshot t' = Some s" "tx_state t' = Captured"
    "\<exists>receipt. tx_prior_receipt t' = Some receipt \<and> cr_state receipt = snapshot_as_record s"
    "tx_had_abnormal_recovery t' = tx_had_abnormal_recovery t" "tx_applied_receipt t' = tx_applied_receipt t"
proof -
  from assms obtain t1 receipt now where p: "apply_preflight env t = (Inr (), t1)" and s: "capture env (tx_host t1) = Inr s"
    and r: "make_receipt (jo_depth (ce_os env)) (cp_sha256 (ce_profile env)) (lit ''prior'') now (snapshot_as_record s) = Inr receipt"
    and c: "confirm_capture env (t1\<lparr>tx_snapshot := Some s, tx_clock_reads := tx_clock_reads t1 + 1,
      tx_prior_receipt := Some receipt, tx_state := Captured\<rparr>) = (Inr (), t')"
    by (auto simp: apply_capture_def sx_then_Inr sx_bind_Inr new_receipt_def monotonic_ns_def)
  have k: "control_state t1 = control_state t" "frame t1 = frame t" using preflight_keeps [THEN upholdsD, OF p] by (simp_all add: same_def)
  have "cr_state receipt = snapshot_as_record s" using r
    by (auto simp: make_receipt_def snapshot_as_record_def str_record_def)
  with k s confirm_capture_Inr [OF c] show "capture env (tx_host t) = Inr s" "tx_host t' = tx_host t" "tx_snapshot t' = Some s"
    "tx_state t' = Captured" "\<exists>receipt. tx_prior_receipt t' = Some receipt \<and> cr_state receipt = snapshot_as_record s"
    "tx_had_abnormal_recovery t' = tx_had_abnormal_recovery t" "tx_applied_receipt t' = tx_applied_receipt t"
    by (simp_all add: control_state_def frame_def)
qed

lemma apply_capture_Inl:
  assumes "apply_capture env t = (Inl e, t')" "tx_state t = New"
  shows "tx_host t' = tx_host t \<and> tx_state t' = New \<and> tx_had_abnormal_recovery t' = tx_had_abnormal_recovery t \<and>
    (tx_prior_receipt t = None \<longrightarrow> tx_prior_receipt t' = None) \<and> tx_applied_receipt t' = tx_applied_receipt t"
proof (cases "apply_preflight env t")
  case (Pair q t1)
  then have k: "control_state t1 = control_state t" "frame t1 = frame t" using preflight_keeps [THEN upholdsD] by (fastforce simp: same_def)+
  with assms Pair show ?thesis
    by (auto simp: apply_capture_def sx_then_Inl sx_bind_Inl new_receipt_def monotonic_ns_def control_state_def frame_def
        dest!: confirm_capture_Inl)
qed

text \<open>The outcomes of \<^verbatim>\<open>apply\<close>.\<close>

lemma apply_handler_run:
  assumes "apply_handler env e t = (r, t')"
  shows "\<exists>q. restore env t = (q, t') \<and> r = Inl (if q = Inr () then e
    else TimingControlIndeterminate ''host-control apply failed and exact restoration also failed'')"
proof -
  obtain q t1 where q: "restore env t = (q, t1)" by (cases "restore env t")
  then have "attempt (restore env) t = (Inr (errors_of q), t1)" by (simp add: attempt_run)
  then show ?thesis using assms q by (cases q) (auto simp: apply_handler_def errors_of_def)
qed

lemma apply_Inr:
  assumes "apply_transaction env t = (Inr s, t')"
  shows "tx_state t = New" "\<exists>t1. apply_capture env t = (Inr s, t1) \<and> apply_guarded env s t1 = (Inr (), t')"
  using assms apply_handler_run [of env _ _ "Inr ()" t']
  by (auto simp: apply_transaction_def control_fail_def sx_bind_Inr sx_then_Inr sx_try_Inr split: if_splits)

lemma apply_Inl:
  assumes "apply_transaction env t = (Inl e, t')" "tx_state t = New"
  obtains "apply_capture env t = (Inl e, t')"
  | s t1 e1 t2 q where "apply_capture env t = (Inr s, t1)" "apply_guarded env s t1 = (Inl e1, t2)" "restore env t2 = (q, t')"
      "e = (if q = Inr () then e1 else TimingControlIndeterminate ''host-control apply failed and exact restoration also failed'')"
proof -
  from assms consider "apply_capture env t = (Inl e, t')"
    | s t1 e1 t2 where "apply_capture env t = (Inr s, t1)" "apply_guarded env s t1 = (Inl e1, t2)" "apply_handler env e1 t2 = (Inl e, t')"
    by (auto simp: apply_transaction_def sx_bind_Inl sx_then_Inl sx_try_Inl)
  then show ?thesis using that apply_handler_run by cases blast+
qed

lemma apply_failure_restores:
  assumes "apply_transaction env t = (Inl e, t')" "tx_state t = New" "\<nexists>m. e = TimingControlIndeterminate m"
  shows "tx_host t' = tx_host t \<or> (\<exists>s. capture env (tx_host t) = Inr s \<and> capture env (tx_host t') = Inr s \<and> tx_state t' = Restored)"
  using assms(1,2)
proof (cases rule: apply_Inl)
  case 1
  then show ?thesis using apply_capture_Inl assms(2) by blast
next
  case (2 s t1 e1 t2 q)
  have a: "advances env t1 t2" using apply_guarded_advances [THEN upholdsD, OF 2(2)] .
  note c = apply_capture_Inr [OF 2(1)]
  have "q = Inr ()" using 2(4) assms(3) by (auto split: if_splits)
  then have r: "restore env t2 = (Inr (), t')" using 2(3) by simp
  have "tx_state t2 \<noteq> Restored" "tx_snapshot t2 = Some s" using a c by (auto simp: advances_def underway_def)
  from restore_Inr [OF r this] c show ?thesis by auto
qed

section \<open>The transaction as a state machine\<close>

text \<open>The calls a client can make on the object, and a signal while the handlers are installed.\<close>

inductive tx_step :: "'h control_env \<Rightarrow> 'h transaction \<Rightarrow> 'h transaction \<Rightarrow> bool" for env where
  step_apply: "apply_transaction env t = (r, t') \<Longrightarrow> tx_step env t t'"
| step_restore: "restore env t = (r, t') \<Longrightarrow> tx_step env t t'"
| step_validate: "validate_applied env t = (r, t') \<Longrightarrow> tx_step env t t'"
| step_signal: "tx_signal_handlers t \<Longrightarrow> signal_handler env t = (r, t') \<Longrightarrow> tx_step env t t'"

inductive tx_steps :: "'h control_env \<Rightarrow> 'h transaction \<Rightarrow> 'h transaction \<Rightarrow> bool" for env where
  steps_refl: "tx_steps env t t"
| steps_next: "tx_steps env t u \<Longrightarrow> tx_step env u v \<Longrightarrow> tx_steps env t v"

text \<open>The settled states, and what each of them has established.\<close>

definition tx_inv :: "'h control_env \<Rightarrow> 'h transaction \<Rightarrow> bool" where
  "tx_inv env t \<longleftrightarrow>
     tx_state t \<in> {New, Applied, Restored, Indeterminate, RecoveredByGuardian} \<and>
     (\<forall>p. tx_prior_receipt t = Some p \<longrightarrow> (\<exists>s. tx_snapshot t = Some s \<and> cr_state p = snapshot_as_record s)) \<and>
     (\<forall>a. tx_applied_receipt t = Some a \<longrightarrow> applied_evidence env a) \<and>
     (tx_state t = New \<longrightarrow> tx_prior_receipt t = None \<and> tx_applied_receipt t = None \<and> \<not> tx_had_abnormal_recovery t) \<and>
     (tx_state t = Applied \<longrightarrow> tx_prior_receipt t \<noteq> None \<and> tx_applied_receipt t \<noteq> None) \<and>
     (tx_state t = Indeterminate \<or> tx_state t = RecoveredByGuardian \<longrightarrow> tx_had_abnormal_recovery t) \<and>
     (tx_state t = Restored \<longrightarrow> (\<exists>s r. tx_snapshot t = Some s \<and> capture env (tx_host t) = Inr s \<and>
        tx_restored_receipt t = Some r \<and> cr_state r = snapshot_as_record s))"

lemma new_transaction_inv: "new_transaction env h w = Inr t \<Longrightarrow> tx_inv env t"
  by (auto simp: new_transaction_def tx_inv_def)

text \<open>Restoring needs less than the invariant: it also follows an application that broke off.\<close>

definition receipts_inv :: "'h control_env \<Rightarrow> 'h transaction \<Rightarrow> bool" where
  "receipts_inv env t \<longleftrightarrow>
     (\<forall>p. tx_prior_receipt t = Some p \<longrightarrow> (\<exists>s. tx_snapshot t = Some s \<and> cr_state p = snapshot_as_record s)) \<and>
     (\<forall>a. tx_applied_receipt t = Some a \<longrightarrow> applied_evidence env a)"

lemma receipts_inv_frame: "frame t' = frame t \<Longrightarrow> receipts_inv env t' = receipts_inv env t"
  by (simp add: frame_def receipts_inv_def)

lemma restore_inv:
  assumes "restore env t = (r, t')" "tx_inv env t \<or> underway t \<and> receipts_inv env t \<and> (\<exists>s. tx_snapshot t = Some s)"
  shows "tx_inv env t'" "tx_had_abnormal_recovery t \<longrightarrow> tx_had_abnormal_recovery t'"
proof -
  have ri: "receipts_inv env t" using assms(2) by (auto simp: tx_inv_def receipts_inv_def)
  have "tx_inv env t' \<and> (tx_had_abnormal_recovery t \<longrightarrow> tx_had_abnormal_recovery t')"
  proof (cases "tx_state t = Restored \<or> tx_snapshot t = None")
    case True
    then have "t' = t" "\<not> underway t \<or> tx_snapshot t = None" using assms(1) by (auto simp: restore_def underway_def split: if_splits)
    then show ?thesis using assms(2) by auto
  next
    case False
    then obtain s where s: "tx_snapshot t = Some s" by auto
    show ?thesis
    proof (cases r)
      case (Inl e)
      then have e: "restore env t = (Inl e, t')" using assms(1) by simp
      from restore_Inl [OF e] receipts_inv_frame [of t' t env] ri show ?thesis
        by (auto simp: tx_inv_def receipts_inv_def)
    next
      case (Inr u)
      then have "restore env t = (Inr u, t')" using assms(1) by simp
      from restore_Inr [OF this _ s] False receipts_inv_frame [of t' t env] ri s show ?thesis
        by (auto simp: tx_inv_def receipts_inv_def frame_def)
    qed
  qed
  then show "tx_inv env t'" "tx_had_abnormal_recovery t \<longrightarrow> tx_had_abnormal_recovery t'" by auto
qed

lemma apply_inv:
  assumes "apply_transaction env t = (r, t')" "tx_inv env t"
  shows "tx_inv env t'" "tx_had_abnormal_recovery t \<longrightarrow> tx_had_abnormal_recovery t'"
proof -
  have "tx_inv env t' \<and> (tx_had_abnormal_recovery t \<longrightarrow> tx_had_abnormal_recovery t')"
  proof (cases "tx_state t = New")
    case False
    then show ?thesis using assms by (simp add: apply_transaction_def)
  next
    case New: True
    have n: "tx_prior_receipt t = None" "tx_applied_receipt t = None" "\<not> tx_had_abnormal_recovery t"
      using assms(2) New by (auto simp: tx_inv_def)
    show ?thesis
    proof (cases r)
      case (Inr s)
      then have run: "apply_transaction env t = (Inr s, t')" using assms(1) by simp
      from apply_Inr(2) [OF run] obtain t1 where c: "apply_capture env t = (Inr s, t1)" and g: "apply_guarded env s t1 = (Inr (), t')" by blast
      from apply_capture_Inr [OF c] apply_guarded_Inr [OF g] apply_guarded_advances [THEN upholdsD, OF g] n show ?thesis
        by (auto simp: tx_inv_def advances_def applied_evidence_def)
    next
      case (Inl e)
      then have run: "apply_transaction env t = (Inl e, t')" using assms(1) by simp
      from run New show ?thesis
      proof (cases rule: apply_Inl)
        case 1
        from apply_capture_Inl [OF 1 New] n show ?thesis by (auto simp: tx_inv_def)
      next
        case (2 s t1 e1 t2 q)
        note c = apply_capture_Inr [OF 2(1)] and a = apply_guarded_advances [THEN upholdsD, OF 2(2)]
        have "underway t2 \<and> receipts_inv env t2 \<and> (\<exists>s. tx_snapshot t2 = Some s)" using c a n
          by (auto simp: advances_def underway_def receipts_inv_def)
        from restore_inv [OF 2(3)] this n show ?thesis by blast
      qed
    qed
  qed
  then show "tx_inv env t'" "tx_had_abnormal_recovery t \<longrightarrow> tx_had_abnormal_recovery t'" by auto
qed

lemma step_inv:
  assumes "tx_step env t t'" "tx_inv env t"
  shows "tx_inv env t' \<and> (tx_had_abnormal_recovery t \<longrightarrow> tx_had_abnormal_recovery t')"
  using assms(1)
proof (cases rule: tx_step.cases)
  case (step_apply r)
  then show ?thesis using apply_inv assms(2) by blast
next
  case (step_restore r)
  then show ?thesis using restore_inv assms(2) by blast
next
  case (step_validate r)
  then show ?thesis using assms(2) by (simp add: validate_applied_def)
next
  case (step_signal r)
  then obtain q where "restore env t = (q, t')"
    by (auto simp: signal_handler_def sx_then_def sx_bind_def split: prod.splits sum.splits)
  then show ?thesis using restore_inv assms(2) by blast
qed

lemma steps_inv: "tx_steps env t t' \<Longrightarrow> tx_inv env t \<Longrightarrow> tx_inv env t' \<and> (tx_had_abnormal_recovery t \<longrightarrow> tx_had_abnormal_recovery t')"
  by (induction rule: tx_steps.induct) (auto dest: step_inv)

section \<open>The prior state is durable before the first change\<close>

text \<open>
  The line \<open>p\<close> is at the start of inode \<open>i\<close>, in the cache and on disk, and the name still resolves to it.
  Appends and synchronisation through any handle keep this.
\<close>

definition line_kept :: "bytes \<Rightarrow> inode \<Rightarrow> inode \<Rightarrow> pystr \<Rightarrow> world \<Rightarrow> bool" where
  "line_kept p i parent name w \<longleftrightarrow>
     (\<exists>n rest. w_fs w i = Some n \<and> n_data n = p @ rest) \<and> (\<exists>n rest. w_disk w i = Some n \<and> n_data n = p @ rest) \<and>
     dir_lookup parent name w = Some i"

definition keeps_line :: "bytes \<Rightarrow> inode \<Rightarrow> inode \<Rightarrow> pystr \<Rightarrow> world \<Rightarrow> world \<Rightarrow> bool" where
  "keeps_line p i parent name w w' \<longleftrightarrow> (line_kept p i parent name w \<longrightarrow> line_kept p i parent name w')"

lemma append_data_kept: "line_kept p i parent name w \<Longrightarrow> line_kept p i parent name (append_data fd q w)"
  by (fastforce simp: line_kept_def)

lemma fsync_kept: "line_kept p i parent name w \<Longrightarrow> line_kept p i parent name (snd (os_fsync fd w))"
  by (auto simp: line_kept_def os_fsync_def dir_lookup_def split: option.splits)

interpretation line: state_order "\<lambda>a b. keeps_line p i parent name (g a) (g b)" for p i parent name and g :: "'s \<Rightarrow> world"
  by unfold_locales (simp_all add: keeps_line_def)

lemma journal_append_line: "upholds (\<lambda>a b. keeps_line p i parent name (snd a) (snd b)) (journal_append os event snapshot)"
proof -
  have w: "upholds (\<lambda>a b. keeps_line p i parent name (snd a) (snd b)) (on_world (write_all os fd payload))" for fd payload
    unfolding upholds_def on_world_run keeps_line_def using write_all_appends append_data_kept by (metis)
  have f: "upholds (\<lambda>a b. keeps_line p i parent name (snd a) (snd b)) (on_world (os_fsync fd))" for fd
    unfolding upholds_def on_world_run keeps_line_def using fsync_kept by (metis snd_conv)
  have h: "upholds (\<lambda>a b. keeps_line p i parent name (snd a) (snd b)) (on_handle u)" for u
    unfolding upholds_def on_handle_run by (simp add: keeps_line_def)
  show ?thesis unfolding journal_append_def verify_name_def
    by (intro line.upholds_if line.upholds_then line.upholds_bind line.upholds_read w f h)
qed

lemma tx_on_journal_upholds:
  fixes R :: "'h transaction \<Rightarrow> 'h transaction \<Rightarrow> bool"
  assumes "upholds Q m" "\<And>t j j' w'. tx_journal t = Some j \<Longrightarrow> Q (j, tx_fs t) (j', w') \<Longrightarrow> R t (t\<lparr>tx_journal := Some j', tx_fs := w'\<rparr>)" "\<And>t. R t t"
  shows "upholds R (tx_on_journal m)"
  unfolding upholds_def
proof (intro allI impI)
  fix t t' :: "'h transaction" and r assume run: "tx_on_journal m t = (r, t')"
  show "R t t'"
  proof (cases "tx_journal t")
    case (Some j)
    obtain q j1 w1 where m: "m (j, tx_fs t) = (q, (j1, w1))" by (rule prod_cases3)
    from assms(2) [OF Some upholdsD [OF assms(1) m]] show ?thesis using run Some m by (auto simp: tx_on_journal_def)
  qed (use run assms(3) in \<open>auto simp: tx_on_journal_def\<close>)
qed

definition apply_rest :: "'h control_env \<Rightarrow> control_snapshot \<Rightarrow> ('h, unit) tx" where
  "apply_rest env s =
     sx_then (start_guardian env s)
     (sx_then (install_signal_handlers env)
     (sx_then (set_state Applying)
     (sx_then (apply_mutations env s)
     (sx_then (set_state Applied)
     (apply_validated env)))))"

text \<open>
  What every step of an application keeps when the appends to its journal keep it and nothing else of the
  object matters: a relation on the journal handle and the file system.
\<close>

locale journal_relation = state_order R for R :: "'h transaction \<Rightarrow> 'h transaction \<Rightarrow> bool" +
  assumes untouched: "tx_journal t' = tx_journal t \<Longrightarrow> tx_fs t' = tx_fs t \<Longrightarrow> R t t'"
    and appended: "upholds R (tx_on_journal (journal_append os event PyNone))"
begin

lemma checkpoint_upholds: "upholds R (checkpoint env b name)"
proof -
  have g: "upholds R (guardian_assert_alive env)" by (rule upholdsI) (auto simp: guardian_assert_alive_def intro!: untouched split: option.splits)
  show ?thesis unfolding checkpoint_def
    by (intro upholds_then upholds_cond upholds_pure upholds_if upholds_return upholds_read appended g upholds_modify untouched) simp_all
qed

lemma mutation_upholds: "upholds R (mutation env label m)"
  unfolding mutation_def
  by (intro upholds_then checkpoint_upholds) (rule upholdsI, auto simp: tx_on_host_def sx_on_def intro!: untouched split: prod.splits)

lemma apply_mutations_upholds: "upholds R (apply_mutations env s)"
  unfolding apply_mutations_def apply_module_def apply_service_def apply_write_def
  by (intro upholds_then upholds_each mutation_upholds)
    (auto intro!: upholds_if upholds_return upholds_then upholds_read mutation_upholds split: prod.splits)

lemma apply_rest_upholds: "upholds R (apply_rest env s)"
  unfolding apply_rest_def start_guardian_def install_signal_handlers_def set_state_def apply_validated_def validate_applied_def capture_applied_state_def
  by (intro upholds_then upholds_if upholds_return upholds_read upholds_bind checkpoint_upholds apply_mutations_upholds upholds_modify)
    (auto intro!: upholdsI untouched simp: monotonic_ns_def split: option.splits)

end

interpretation tx_line: journal_relation "\<lambda>a b. keeps_line p i parent name (tx_fs a) (tx_fs b)" for p i parent name
  by unfold_locales (auto simp: keeps_line_def intro!: tx_on_journal_upholds [OF journal_append_line])

lemma start_journal_host: "upholds (same tx_host) (start_journal env s)"
  unfolding start_journal_def
  by (intro same.upholds_then same.upholds_bind same.upholds_modify checkpoint_same)
    (auto intro!: upholdsI simp: same_def sx_on_def split: prod.splits)

text \<open>Creating the journal establishes it.\<close>

lemma allocate_named:
  assumes "allocate_journal os fd attempts w = (Inr (Some (txn, ino)), w')" "w_fs w fd \<noteq> None" "w_fs w (w_next w) = None"
  shows "dir_lookup fd (journal_name txn) w' = Some ino"
  using assms(1)
proof (induction attempts)
  case (Cons a attempts)
  show ?case
  proof (cases "dir_lookup fd (journal_name (hex_text (jo_urandom os a))) w = None")
    case True
    then have "ino = w_next w" "txn = hex_text (jo_urandom os a)" using Cons.prems by (auto simp: os_create_file_def Let_def)
    moreover have "fd \<noteq> w_next w" using assms(2,3) by auto
    ultimately show ?thesis using Cons.prems True assms(2)
      by (auto simp: os_create_file_def Let_def dir_lookup_def update_node_def map_add_def split: option.splits)
  next
    case False
    then show ?thesis using Cons by (auto simp: os_create_file_def Let_def)
  qed
qed simp

lemma create_journal_line:
  assumes "create_journal os parent profile s w = (Inr j, w')" "w_fs w (w_next w) = None"
  shows "\<exists>j0 line. control_json (jo_depth os) (journal_record j0 (lit ''prior_state_captured'') (snapshot_as_record s)) = Inr line \<and>
    line_kept line (j_file_fd j) (j_parent_fd j) (j_name j) w' \<and> j_parent j = parent \<and> j_name j = j_name j0 \<and>
    (\<exists>k. j0 = fresh_journal (j_parent_fd j) (j_file_fd j) parent profile (hexdigest (jo_urandom os k)))"
proof -
  from assms(1) obtain parent_fd txn ino w1 where o: "open_absolute_directory_nofollow parent w = Inr parent_fd"
    and a: "allocate_journal os parent_fd [0..<128] w = (Inr (Some (txn, ino)), w1)"
    and p: "prepare_journal os parent_fd ino parent profile txn s w1 = (Inr j, w')"
    by (auto simp: create_journal_def sx_bind_Inr sx_then_Inr sx_try_Inr split: option.splits)
  let ?j = "fresh_journal parent_fd ino parent profile txn"
  have "w_fs w parent_fd \<noteq> None" using o
    by (auto simp: open_absolute_directory_nofollow_def fstat_def split: if_splits option.splits)
  with allocate_named [OF a _ assms(2)] have nm: "dir_lookup parent_fd (journal_name txn) w1 = Some ino" by simp
  from allocate_journal_some(1) [OF a] obtain k where k: "txn = hexdigest (jo_urandom os k)" by blast
  from allocate_journal_some(2) [OF a] obtain node where n: "w_fs w1 ino = Some node" "n_data node = []" by blast
  from p n obtain w2 w3 where f: "fchmod ino 384 w1 = (Inr (), w2)"
    and ap: "journal_append os (lit ''prior_state_captured'') (snapshot_as_record s) (?j, w2) = (Inr (), (j, w3))"
    and fs: "os_fsync parent_fd w3 = (Inr (), w')"
    by (auto simp: prepare_journal_def sx_then_Inr sx_bind_Inr first_append_run)
  have n2: "w_fs w2 ino = Some (node\<lparr>n_mode := 384\<rparr>)" "dir_lookup parent_fd (journal_name txn) w2 = Some ino"
    using f n nm by (auto simp: fchmod_def update_node_def dir_lookup_def split: option.splits if_splits)
  from ap obtain line where l: "control_json (jo_depth os) (journal_record ?j (lit ''prior_state_captured'') (snapshot_as_record s)) = Inr line"
    and j: "j = ?j\<lparr>j_previous_sha256 := hexdigest (sha256 line), j_next_sequence := j_next_sequence ?j + 1\<rparr>"
    and d: "w_disk w3 ino = Some (node\<lparr>n_mode := 384, n_data := n_data node @ line\<rparr>)"
    and w3: "w_fs w3 = w_fs (append_data ino line w2)"
    by (rule journal_append_run) (use n2 in \<open>auto simp: fresh_journal_def\<close>)
  have "dir_lookup parent_fd (journal_name txn) w3 = Some ino" using w3 n2 append_data_lookup [of parent_fd _ ino line w2]
    by (simp add: dir_lookup_def)
  then have "line_kept line ino parent_fd (journal_name txn) w3" using d w3 n2 n(2) by (simp add: line_kept_def)
  from fsync_kept [OF this, of parent_fd] fs have "line_kept line ino parent_fd (journal_name txn) w'" by simp
  then show ?thesis using l j k by (intro exI [of _ ?j] exI [of _ line]) (auto simp: fresh_journal_def)
qed

lemma start_journal_line:
  assumes "start_journal env s t = (Inr u, t')" "w_fs (tx_fs t) (w_next (tx_fs t)) = None"
  shows "\<exists>j0 line i parent name. control_json (jo_depth (ce_os env)) (journal_record j0 (lit ''prior_state_captured'') (snapshot_as_record s)) = Inr line \<and>
    line_kept line i parent name (tx_fs t')"
proof -
  from assms(1) obtain t1 j w where c: "checkpoint env False (lit ''apply:before_journal'') t = (Inr (), t1)"
    and j: "create_journal (ce_os env) (cp_recovery_journal_parent (ce_profile env)) (cp_sha256 (ce_profile env)) s (tx_fs t1) = (Inr j, w)"
    and a: "checkpoint env True (lit ''apply:after_journal'')
      (t1\<lparr>tx_fs := w, tx_journal := Some j, tx_journal_path := Some (journal_path (j_parent j) (j_name j)), tx_state := Journaled\<rparr>) = (Inr u, t')"
    by (auto simp: start_journal_def sx_then_Inr sx_bind_Inr sx_on_run)
  have "tx_fs t1 = tx_fs t" using c
    by (auto simp: checkpoint_def sx_then_Inr guardian_assert_alive_def split: option.splits if_splits)
  with create_journal_line [OF j] assms(2) obtain j0 line
    where l: "control_json (jo_depth (ce_os env)) (journal_record j0 (lit ''prior_state_captured'') (snapshot_as_record s)) = Inr line"
      and k: "line_kept line (j_file_fd j) (j_parent_fd j) (j_name j) w" by auto
  have "keeps_line line (j_file_fd j) (j_parent_fd j) (j_name j) w (tx_fs t')" using tx_line.checkpoint_upholds [THEN upholdsD, OF a] by simp
  with k have "line_kept line (j_file_fd j) (j_parent_fd j) (j_name j) (tx_fs t')" by (simp add: keeps_line_def)
  with l show ?thesis by blast
qed

end
