(* ===== verification/Host_Control_Runs.thy ===== *)
theory Host_Control_Runs
  imports Host_Control_Correct
begin

text \<open>
  Whole runs of the host-control transaction and its properties. The first section shows that a boundary
  of a run whose journal has room only extends the journal and the history; the second runs one small
  transaction, with at most one injected fault, through application and restoration; the last states
  the properties, each with its instance on that transaction.
\<close>

section \<open>Runs without faults\<close>

text \<open>
  A transaction whose journal takes appends, after \<open>n\<close> events. A boundary then raises what is injected and changes nothing but the journal and the history.
\<close>

definition tx_ready :: "nat \<Rightarrow> 'h transaction \<Rightarrow> bool" where
  "tx_ready n t \<longleftrightarrow> tx_guardian t = None \<and> (\<exists>j. tx_journal t = Some j \<and> journal_ready j (tx_fs t) (200000 + n * 40000) \<and>
     j_next_sequence j = n + 1 \<and> w_fs (tx_fs t) (j_parent_fd j) \<noteq> None)"

definition core :: "'h transaction \<Rightarrow> 'h \<times> tx_state \<times> control_snapshot option \<times> control_receipt option \<times> control_receipt option \<times>
    control_receipt option \<times> bool" where
  "core t = (tx_host t, tx_state t, tx_snapshot t, tx_prior_receipt t, tx_applied_receipt t, tx_restored_receipt t, tx_had_abnormal_recovery t)"

definition working_os :: "journal_os \<Rightarrow> bool" where
  "working_os os \<longleftrightarrow> makes_progress os \<and> 0 < jo_depth os"

lemma append_keeps_nodes:
  assumes "journal_append os event snapshot (j, w) = (Inr u, (j', w'))" "w_fs w i \<noteq> None"
  shows "w_fs w' i \<noteq> None"
  using assms(1) by (rule journal_append_run) (use assms(2) in auto)

lemma checkpoint_ready:
  assumes "working_os (ce_os env)" "tx_ready n t" "n < 190" "event_ok (colons name)"
  shows "\<exists>t'. checkpoint env True name t = (case ce_fault env (tx_boundary_history t @ [name]) of None \<Rightarrow> Inr () | Some e \<Rightarrow> Inl e, t') \<and> tx_ready (n + 1) t' \<and> core t' = core t \<and>
    tx_boundary_history t' = tx_boundary_history t @ [name]"
proof -
  from assms(2) obtain j where j: "tx_journal t = Some j" "journal_ready j (tx_fs t) (200000 + n * 40000)" "j_next_sequence j = n + 1"
    "w_fs (tx_fs t) (j_parent_fd j) \<noteq> None" "tx_guardian t = None" by (auto simp: tx_ready_def)
  have "200000 + n * 40000 + 40000 \<le> MAX_JOURNAL_BYTES" "j_next_sequence j < MAX_JOURNAL_RECORDS"
    using assms(3) j(3) by (simp_all add: MAX_JOURNAL_BYTES_def MAX_JOURNAL_RECORDS_def)
  from append_event_ready [OF _ _ j(2) assms(4) this, of "ce_os env"] assms(1)
  obtain j' w' where a: "journal_append (ce_os env) (colons name) PyNone (j, tx_fs t) = (Inr (), (j', w'))"
    "journal_ready j' w' (200000 + n * 40000 + 40000)" "j_next_sequence j' = j_next_sequence j + 1" "j_parent_fd j' = j_parent_fd j"
    by (auto simp: working_os_def)
  have p: "w_fs w' (j_parent_fd j') \<noteq> None" using append_keeps_nodes [OF a(1) j(4)] a(4) by simp
  let ?t' = "t\<lparr>tx_journal := Some j', tx_fs := w', tx_boundary_history := tx_boundary_history t @ [name]\<rparr>"
  have "checkpoint env True name t = (case ce_fault env (tx_boundary_history t @ [name]) of None \<Rightarrow> Inr () | Some e \<Rightarrow> Inl e, ?t')"
    using a(1) j(1,5) by (simp add: checkpoint_def tx_on_journal_def guardian_assert_alive_def sx_then_def sx_bind_def)
  moreover have "tx_ready (n + 1) ?t'" using a p j by (simp add: tx_ready_def add.commute add.left_commute)
  ultimately show ?thesis by (intro exI [of _ ?t']) (simp add: core_def)
qed

text \<open>Faults are injected at one boundary only; every other boundary of the run passes.\<close>

definition quiet_env :: "pystr \<Rightarrow> 'h control_env \<Rightarrow> bool" where
  "quiet_env bad env \<longleftrightarrow> working_os (ce_os env) \<and> (\<forall>h. last h \<noteq> bad \<longrightarrow> ce_fault env h = None)"

definition passes :: "pystr \<Rightarrow> pystr \<Rightarrow> bool" where
  "passes bad name \<longleftrightarrow> event_ok (colons name) \<and> name \<noteq> bad"

lemma quiet_checkpoint:
  assumes "quiet_env bad env" "tx_ready n t" "n < 190" "passes bad name"
  obtains t' where "checkpoint env True name t = (Inr (), t')" "tx_ready (n + 1) t'" "core t' = core t"
  using checkpoint_ready [OF _ assms(2,3), of env name] assms(1,4) that by (auto simp: quiet_env_def passes_def)

lemma quiet_mutation:
  assumes "quiet_env bad env" "tx_ready n t" "n < 189" "passes bad (lit ''apply:before_'' @ label)" "passes bad (lit ''apply:after_'' @ label)"
    and "m (tx_host t) = (Inr (), h)"
  obtains t' where "mutation env label m t = (Inr (), t')" "tx_ready (n + 2) t'" "core t' = core (t\<lparr>tx_host := h\<rparr>)"
proof -
  have n: "n < 190" "n + 1 < 190" using assms(3) by simp_all
  obtain t1 where 1: "checkpoint env True (lit ''apply:before_'' @ label) t = (Inr (), t1)" "tx_ready (n + 1) t1" "core t1 = core t"
    using quiet_checkpoint [OF assms(1,2) n(1) assms(4)] by blast
  have 2: "tx_on_host m t1 = (Inr (), t1\<lparr>tx_host := h\<rparr>)" using 1(3) assms(6) by (simp add: tx_on_host_def sx_on_def core_def)
  have "tx_ready (n + 1) (t1\<lparr>tx_host := h\<rparr>)" using 1(2) by (simp add: tx_ready_def)
  then obtain t2 where 3: "checkpoint env True (lit ''apply:after_'' @ label) (t1\<lparr>tx_host := h\<rparr>) = (Inr (), t2)" "tx_ready (n + 1 + 1) t2"
    "core t2 = core (t1\<lparr>tx_host := h\<rparr>)" using quiet_checkpoint [OF assms(1) _ n(2) assms(5)] by blast
  show ?thesis using that [of t2] 1 2 3 by (simp add: mutation_def core_def)
qed

lemma quiet_operation:
  assumes "quiet_env bad env" "tx_ready n t" "n < 189" "passes bad (lit ''restore:before_'' @ label)" "passes bad (lit ''restore:after_'' @ label)"
    and "m (tx_host t) = (Inr (), h)"
  obtains t' where "recover_operation (Some (\<lambda>name. checkpoint env True (lit ''restore:'' @ name))) label (tx_on_host m) t = (Inr [], t')"
    "tx_ready (n + 2) t'" "core t' = core (t\<lparr>tx_host := h\<rparr>)"
proof -
  have n: "n < 190" "n + 1 < 190" using assms(3) by simp_all
  obtain t1 where 1: "checkpoint env True (lit ''restore:before_'' @ label) t = (Inr (), t1)" "tx_ready (n + 1) t1" "core t1 = core t"
    using quiet_checkpoint [OF assms(1,2) n(1) assms(4)] by blast
  have 2: "tx_on_host m t1 = (Inr (), t1\<lparr>tx_host := h\<rparr>)" using 1(3) assms(6) by (simp add: tx_on_host_def sx_on_def core_def)
  have "tx_ready (n + 1) (t1\<lparr>tx_host := h\<rparr>)" using 1(2) by (simp add: tx_ready_def)
  then obtain t2 where 3: "checkpoint env True (lit ''restore:after_'' @ label) (t1\<lparr>tx_host := h\<rparr>) = (Inr (), t2)" "tx_ready (n + 1 + 1) t2"
    "core t2 = core (t1\<lparr>tx_host := h\<rparr>)" using quiet_checkpoint [OF assms(1) _ n(2) assms(5)] by blast
  have l: "lit ''restore:'' @ lit ''before_'' @ label = lit ''restore:before_'' @ label" "lit ''restore:'' @ lit ''after_'' @ label = lit ''restore:after_'' @ label"
    by (simp_all add: lit_def)
  have "attempt (checkpoint env True (lit ''restore:before_'' @ label)) t = (Inr [], t1)" "attempt (tx_on_host m) t1 = (Inr [], t1\<lparr>tx_host := h\<rparr>)"
    "attempt (checkpoint env True (lit ''restore:after_'' @ label)) (t1\<lparr>tx_host := h\<rparr>) = (Inr [], t2)"
    using 1 2 3 by (simp_all add: attempt_run)
  then have "recover_operation (Some (\<lambda>name. checkpoint env True (lit ''restore:'' @ name))) label (tx_on_host m) t = (Inr [], t2)"
    unfolding recover_operation_def by (simp add: l)
  then show ?thesis using that [of t2] 1 3 by (simp add: core_def)
qed

section \<open>A sample transaction\<close>

text \<open>A host with one control text and the process affinity.\<close>

type_synonym sample_host = "pystr \<times> nat list"

definition sample_backend :: "sample_host backend" where
  "sample_backend =
     \<lparr>be_external_recovery_supported = False, be_require_privilege = (\<lambda>_. Inr ()), be_read_text = (\<lambda>_ h. Inr (fst h)),
      be_module_loaded = (\<lambda>_ _. Inr False), be_service_active = (\<lambda>_ _. Inr False), be_affinity = (\<lambda>h. Inr (snd h)),
      be_smt_sibling_groups = None, be_dma_latency_active = None,
      be_write_text = (\<lambda>_ v h. case v of PyStr t \<Rightarrow> (Inr (), (t, snd h)) | _ \<Rightarrow> (Inl (TypeError ''not a text''), h)),
      be_command = (\<lambda>_ h. (Inr (), h)), be_set_affinity = (\<lambda>cpus h. (Inr (), (fst h, cpus))),
      be_hold_dma_latency = (\<lambda>_ h. (Inr (), h)), be_release_dma_latency = (\<lambda>h. (Inr (), h))\<rparr>"

definition sample_profile :: control_profile where
  "sample_profile = \<lparr>cp_sha256 = ZERO_SHA256, cp_writes = [\<lparr>wa_path = lit ''/proc/irq/9'', wa_desired_text = lit ''1'', wa_parser = lit ''text''\<rparr>],
     cp_module_actions = [], cp_service_actions = [], cp_cpu_ids = [1], cp_dma_latency_us = 0, cp_smt_sibling_groups = [],
     cp_recovery_journal_parent = lit ''/tmp''\<rparr>"

definition sample_env :: "(pystr list \<Rightarrow> exn option) \<Rightarrow> sample_host control_env" where
  "sample_env fault = \<lparr>ce_profile = sample_profile, ce_backend = sample_backend, ce_os = sample_os, ce_fault = fault,
     ce_guardian_enabled = False, ce_guardian_start = Inr (), ce_guardian_killed = (\<lambda>_. False), ce_main_thread = True, ce_clock = (\<lambda>_. 0)\<rparr>"

definition prior_host :: sample_host where
  "prior_host = (lit ''0'', [0])"

definition prior_snapshot :: control_snapshot where
  "prior_snapshot = \<lparr>cs_values = [(lit ''/proc/irq/9'', lit ''text'', PyStr (lit ''0''))], cs_modules_preexisting = [], cs_services_active = [],
     cs_process_affinity = [0]\<rparr>"

lemma sample_capture: "capture (sample_env fault) prior_host = Inr prior_snapshot"
  by (simp add: capture_def capture_values_def sample_env_def sample_backend_def sample_profile_def prior_host_def prior_snapshot_def
      filterM_names_def module_names_def service_names_def parse_control_value_def sorted_set_def del: and_then_eq_Inr)

definition start_tx :: "sample_host transaction" where
  "start_tx = \<lparr>tx_host = prior_host, tx_fs = sample_world, tx_state = New, tx_snapshot = None, tx_prior_receipt = None,
        tx_applied_receipt = None, tx_restored_receipt = None, tx_journal_path = None,
        tx_had_abnormal_recovery = False, tx_boundary_history = [], tx_journal = None, tx_guardian = None,
        tx_signal_handlers = False, tx_clock_reads = 0\<rparr>"

lemma sample_new: "new_transaction (sample_env fault) prior_host sample_world = Inr start_tx"
  by (simp add: new_transaction_def sample_env_def start_tx_def)

text \<open>A boundary before the journal exists.\<close>

lemma plain_checkpoint:
  assumes "tx_guardian t = None" "tx_journal t = None \<or> \<not> b"
  shows "checkpoint env b name t = (case ce_fault env (tx_boundary_history t @ [name]) of None \<Rightarrow> Inr () | Some e \<Rightarrow> Inl e,
    t\<lparr>tx_boundary_history := tx_boundary_history t @ [name]\<rparr>)"
  using assms by (auto simp: checkpoint_def guardian_assert_alive_def sx_then_def sx_bind_def)

lemma make_receipt_ok:
  assumes "control_json d (PyDict kvs) = Inr b" "phase \<in> {lit ''prior'', lit ''applied'', lit ''restored''}"
  shows "make_receipt d ZERO_SHA256 phase 0 (PyDict kvs) = Inr \<lparr>cr_profile_sha256 = ZERO_SHA256, cr_phase = phase,
      cr_captured_monotonic_ns = 0, cr_state = PyDict kvs, cr_state_bytes = b\<rparr>"
  using assms zero_sha_hex by (simp add: make_receipt_def plain_u64_def)

definition fault_at :: "pystr \<Rightarrow> pystr list \<Rightarrow> exn option" where
  "fault_at bad h = (if h \<noteq> [] \<and> last h = bad then Some (OtherException ''injected fault'') else None)"

lemma sample_quiet: "quiet_env bad (sample_env (fault_at bad))"
  using sample_os_works by (simp add: quiet_env_def working_os_def sample_env_def fault_at_def)

text \<open>A run without a fault, and faults at the last boundary of the application and at the first of the restoration.\<close>

definition late_fault :: "pystr \<Rightarrow> bool" where
  "late_fault bad \<longleftrightarrow> bad \<in> {[], lit ''apply:validated'', lit ''restore:begin''}"

lemma prior_snapshot_ok: "snapshot_ok plain_unicode prior_snapshot"
  by (simp add: snapshot_ok_def prior_snapshot_def isabs_def starts_with_def lit_def normpath_def posix_root_def norm_step_def
      Cp2_Schema.join_with_def is_scalar_def scalar_normal_def parse_control_value_def)

lemma prior_record_json: "\<exists>b. control_json 4 (PyDict (lit_items (snapshot_items prior_snapshot))) = Inr b"
proof -
  have "json_wf (Suc 3) (PyDict (lit_items (snapshot_items prior_snapshot)))"
    using wf_snapshot [OF prior_snapshot_ok, of 1] unfolding snapshot_record_items by (simp add: eval_nat_numeral del: json_wf.simps)
  from line_reads_back [OF this] show ?thesis by auto
qed

definition prior_bytes :: bytes where
  "prior_bytes = (case control_json 4 (snapshot_as_record prior_snapshot) of Inr b \<Rightarrow> b | Inl _ \<Rightarrow> [])"

definition prior_receipt :: "pystr \<Rightarrow> control_receipt" where
  "prior_receipt phase = \<lparr>cr_profile_sha256 = ZERO_SHA256, cr_phase = phase,
       cr_captured_monotonic_ns = 0, cr_state = snapshot_as_record prior_snapshot, cr_state_bytes = prior_bytes\<rparr>"

lemma make_prior_receipt:
  "make_receipt 4 ZERO_SHA256 (lit ''prior'') 0 (snapshot_as_record prior_snapshot) = Inr (prior_receipt (lit ''prior''))"
  "make_receipt 4 ZERO_SHA256 (lit ''restored'') 0 (snapshot_as_record prior_snapshot) = Inr (prior_receipt (lit ''restored''))"
  using prior_record_json by (auto simp: prior_receipt_def prior_bytes_def snapshot_record_items make_receipt_ok)

lemma sample_env_simps:
  "ce_os (sample_env f) = sample_os" "jo_depth sample_os = 4" "cp_sha256 (ce_profile (sample_env f)) = ZERO_SHA256" "ce_clock (sample_env f) k = 0"
  "ce_backend (sample_env f) = sample_backend" "be_require_privilege sample_backend h = Inr ()" "validate_smt_topology (sample_env f) h = Inr ()"
  "ce_fault (sample_env f) = f" "ce_main_thread (sample_env f)" "\<not> ce_guardian_enabled (sample_env f)" "ce_profile (sample_env f) = sample_profile"
  "jo_unicode sample_os = plain_unicode" "cp_sha256 sample_profile = ZERO_SHA256"
  by (simp_all add: sample_env_def sample_os_def sample_profile_def sample_backend_def validate_smt_topology_def)

definition captured_tx :: "sample_host transaction" where
  "captured_tx = start_tx\<lparr>tx_boundary_history := [lit ''apply:before_privilege'', lit ''apply:after_privilege'', lit ''apply:before_capture'',
      lit ''apply:after_capture''], tx_snapshot := Some prior_snapshot, tx_clock_reads := 1, tx_prior_receipt := Some (prior_receipt (lit ''prior'')), tx_state := Captured\<rparr>"

lemma start_fields:
  "tx_guardian start_tx = None" "tx_journal start_tx = None" "tx_boundary_history start_tx = []" "tx_host start_tx = prior_host" "tx_clock_reads start_tx = 0"
  by (simp_all add: start_tx_def)

lemma sample_apply_capture:
  assumes "\<And>h. set h \<subseteq> {lit ''apply:before_privilege'', lit ''apply:after_privilege'', lit ''apply:before_capture'', lit ''apply:after_capture''} \<Longrightarrow> f h = None"
  shows "apply_capture (sample_env f) start_tx = (Inr prior_snapshot, captured_tx)"
  by (simp add: apply_capture_def apply_preflight_def confirm_capture_def plain_checkpoint start_fields sample_env_simps assms
      new_receipt_def monotonic_ns_def sample_capture make_prior_receipt sx_try_def captured_tx_def)

lemma prior_journal:
  "\<exists>j w. create_journal sample_os (lit ''/tmp'') ZERO_SHA256 prior_snapshot sample_world = (Inr j, w) \<and>
     journal_ready j w 200000 \<and> j_next_sequence j = 1 \<and> w_fs w (j_parent_fd j) \<noteq> None"
proof -
  have room: "first_room (Suc (Suc (Suc 0))) prior_snapshot \<le> 200000"
    by (simp add: first_room_def snapshot_record_items lit_items_def snapshot_items_def value_record_def prior_snapshot_def scalar_bound_def lit_def)
  then have "first_room (Suc (Suc (Suc 0))) prior_snapshot \<le> MAX_JOURNAL_BYTES" by (simp add: MAX_JOURNAL_BYTES_def)
  moreover have "snapshot_ok (jo_unicode sample_os) prior_snapshot" using prior_snapshot_ok by (simp add: sample_os_def)
  moreover have "w_fs sample_world (1, 3) = Some (sample_dir [])" "(1, 3) \<noteq> w_next sample_world"
    "dir_lookup (1, 3) (journal_name (hexdigest (jo_urandom sample_os 0))) sample_world = None"
    by (simp_all add: sample_world_def dir_lookup_def sample_dir_def)
  ultimately have "\<exists>j w'. create_journal sample_os (lit ''/tmp'') ZERO_SHA256 prior_snapshot sample_world = (Inr j, w') \<and>
    journal_ready j w' (first_room (Suc (Suc (Suc 0))) prior_snapshot) \<and> j_next_sequence j = 1 \<and> w_fs w' (j_parent_fd j) \<noteq> None"
    using sample_parent zero_sha_hex by (intro create_journal_ready [OF sample_os_works(1-3)]) (auto simp: sample_os_works)
  then show ?thesis using room by (fastforce simp: journal_ready_def)
qed

lemmas boundary_events = event_ok_def lit_def is_digit_def colons_def indexed_def dec_text.simps

definition core_of :: "sample_host \<Rightarrow> tx_state \<Rightarrow> control_receipt option \<Rightarrow> control_receipt option \<Rightarrow>
    sample_host \<times> tx_state \<times> control_snapshot option \<times> control_receipt option \<times> control_receipt option \<times> control_receipt option \<times> bool" where
  "core_of h st applied restored = (h, st, Some prior_snapshot, Some (prior_receipt (lit ''prior'')), applied, restored, False)"

lemma sample_start_journal:
  assumes "\<And>h. last h = lit ''apply:before_journal'' \<or> last h = lit ''apply:after_journal'' \<Longrightarrow> f h = None"
  obtains t where "start_journal (sample_env f) prior_snapshot captured_tx = (Inr (), t)" "tx_ready 1 t" "core t = core_of prior_host Journaled None None"
proof -
  let ?t1 = "captured_tx\<lparr>tx_boundary_history := tx_boundary_history captured_tx @ [lit ''apply:before_journal'']\<rparr>"
  have c: "tx_guardian captured_tx = None" "tx_journal captured_tx = None" "tx_fs captured_tx = sample_world" by (simp_all add: captured_tx_def start_tx_def)
  have 1: "checkpoint (sample_env f) False (lit ''apply:before_journal'') captured_tx = (Inr (), ?t1)"
    using c assms by (simp add: plain_checkpoint sample_env_simps)
  obtain j w where j: "create_journal sample_os (lit ''/tmp'') ZERO_SHA256 prior_snapshot sample_world = (Inr j, w)"
     "journal_ready j w 200000" "j_next_sequence j = 1" "w_fs w (j_parent_fd j) \<noteq> None" using prior_journal by blast
  let ?t2 = "?t1\<lparr>tx_fs := w, tx_journal := Some j, tx_journal_path := Some (journal_path (j_parent j) (j_name j)), tx_state := Journaled\<rparr>"
  have r: "tx_ready 0 ?t2" using j c by (simp add: tx_ready_def)
  have "working_os (ce_os (sample_env f))" using sample_os_works by (simp add: working_os_def sample_env_simps)
  moreover have "event_ok (colons (lit ''apply:after_journal''))" by (simp add: boundary_events)
  moreover have "f (tx_boundary_history ?t2 @ [lit ''apply:after_journal'']) = None" by (rule assms) simp
  ultimately obtain t where t: "checkpoint (sample_env f) True (lit ''apply:after_journal'') ?t2 = (Inr (), t)" "tx_ready 1 t" "core t = core ?t2"
    using checkpoint_ready [OF _ r, of "sample_env f" "lit ''apply:after_journal''"] by (auto simp: sample_env_simps)
  have p: "cp_recovery_journal_parent sample_profile = lit ''/tmp''" by (simp add: sample_profile_def)
  have "start_journal (sample_env f) prior_snapshot captured_tx = (Inr (), t)"
    using 1 j(1) t(1) c by (simp add: start_journal_def sx_on_def sample_env_simps p)
  moreover have "core t = core_of prior_host Journaled None None" using t(3)
    by (simp add: core_def core_of_def captured_tx_def start_tx_def)
  ultimately show ?thesis using that t(2) by blast
qed

definition applied_host :: sample_host where
  "applied_host = (lit ''1'', [1])"

definition applied_items :: "(string \<times> pyval) list" where
  "applied_items = [(''values'', PyList [str_record [(''path'', PyStr (lit ''/proc/irq/9'')), (''parser'', PyStr (lit ''text'')), (''text'', PyStr (lit ''1''))]]),
     (''modules_loaded'', PyList []), (''services_active'', PyList []), (''process_affinity'', PyList [PyInt 1]), (''dma_latency_us'', PyInt 0)]"

lemma sample_applied:
  "controls_applied (sample_env f) applied_host = Inr ()" "applied_record (sample_env f) applied_host = Inr (str_record applied_items)"
  by (simp_all add: controls_applied_def applied_record_def applied_items_def all_checked_def sample_env_def sample_backend_def sample_profile_def
      applied_host_def validate_smt_topology_def filterM_names_def module_names_def service_names_def parse_control_value_def del: and_then_eq_Inr)

lemma applied_record_json: "\<exists>b. control_json 4 (PyDict (lit_items applied_items)) = Inr b"
proof -
  have "json_wf (Suc (Suc (Suc (Suc 0)))) (PyDict (lit_items applied_items))"
    by (simp add: applied_items_def lit_items_def str_record_def lit_def is_scalar_def scalar_normal_def)
  from line_reads_back [OF this] show ?thesis by (auto simp: eval_nat_numeral)
qed

definition applied_receipt :: control_receipt where
  "applied_receipt = \<lparr>cr_profile_sha256 = ZERO_SHA256, cr_phase = lit ''applied'', cr_captured_monotonic_ns = 0,
     cr_state = str_record applied_items, cr_state_bytes = (case control_json 4 (str_record applied_items) of Inr b \<Rightarrow> b | Inl _ \<Rightarrow> [])\<rparr>"

lemma make_applied_receipt: "make_receipt 4 ZERO_SHA256 (lit ''applied'') 0 (str_record applied_items) = Inr applied_receipt"
  using applied_record_json by (auto simp: applied_receipt_def str_record_items make_receipt_ok)

lemma sample_events:
  assumes "late_fault bad"
  shows "passes bad (lit ''apply:before_'' @ indexed ''write_'' 0)"
    "passes bad (lit ''apply:after_'' @ indexed ''write_'' 0)"
    "passes bad (lit ''apply:before_'' @ lit ''process_affinity'')"
    "passes bad (lit ''apply:after_'' @ lit ''process_affinity'')"
    "passes bad (lit ''apply:before_'' @ lit ''dma_latency_hold'')"
    "passes bad (lit ''apply:after_'' @ lit ''dma_latency_hold'')"
    "passes bad (lit ''restore:before_'' @ indexed ''write_'' 0)"
    "passes bad (lit ''restore:after_'' @ indexed ''write_'' 0)"
    "passes bad (lit ''restore:before_'' @ lit ''process_affinity'')"
    "passes bad (lit ''restore:after_'' @ lit ''process_affinity'')"
    "passes bad (lit ''restore:before_'' @ lit ''dma_latency_release'')"
    "passes bad (lit ''restore:after_'' @ lit ''dma_latency_release'')"
    "passes bad (lit ''restore:state_verified'')"
    "passes bad (lit ''restore:before_journal_remove'')"
  using assms by (auto simp: late_fault_def passes_def boundary_events)

lemma sample_mutations:
  assumes "tx_ready 1 t" "core t = core_of prior_host Applying None None" "late_fault bad"
  obtains t' where "apply_mutations (sample_env (fault_at bad)) s t = (Inr (), t')" "tx_ready 7 t'" "core t' = core_of applied_host Applying None None"
proof -
  let ?w = "\<lparr>wa_path = lit ''/proc/irq/9'', wa_desired_text = lit ''1'', wa_parser = lit ''text''\<rparr>"
  have h: "tx_host t = prior_host" using assms(2) by (simp add: core_def core_of_def)
  have m1: "be_write_text sample_backend (lit ''/proc/irq/9'') (PyStr (lit ''1'')) (tx_host t) = (Inr (), (lit ''1'', [0]))"
    using h by (simp add: sample_backend_def prior_host_def)
  obtain t1 where 1: "mutation (sample_env (fault_at bad)) (indexed ''write_'' 0) (be_write_text sample_backend (lit ''/proc/irq/9'') (PyStr (lit ''1''))) t = (Inr (), t1)"
    "tx_ready (1 + 2) t1" "core t1 = core (t\<lparr>tx_host := (lit ''1'', [0])\<rparr>)"
    by (rule quiet_mutation [where m = "be_write_text sample_backend (lit ''/proc/irq/9'') (PyStr (lit ''1''))", OF sample_quiet assms(1) _ sample_events(1,2) [OF assms(3)] m1]) simp_all
  have h1: "tx_host t1 = (lit ''1'', [0])" using 1(3) by (simp add: core_def)
  have w: "apply_write (sample_env (fault_at bad)) (0, ?w) t = (Inr (), t1)"
    using 1(1) h1 by (simp add: apply_write_def sample_env_simps) (simp add: sample_backend_def parse_control_value_def)
  have m2: "be_set_affinity sample_backend [1] (tx_host t1) = (Inr (), applied_host)"
    using h1 by (simp add: sample_backend_def applied_host_def)
  obtain t2 where 2: "mutation (sample_env (fault_at bad)) (lit ''process_affinity'') (be_set_affinity sample_backend [1]) t1 = (Inr (), t2)"
    "tx_ready (1 + 2 + 2) t2" "core t2 = core (t1\<lparr>tx_host := applied_host\<rparr>)"
    by (rule quiet_mutation [where m = "be_set_affinity sample_backend [1]", OF sample_quiet 1(2) _ sample_events(3,4) [OF assms(3)] m2]) simp_all
  have h2: "tx_host t2 = applied_host" using 2(3) by (simp add: core_def)
  have m3: "be_hold_dma_latency sample_backend 0 (tx_host t2) = (Inr (), applied_host)" using h2 by (simp add: sample_backend_def)
  obtain t3 where 3: "mutation (sample_env (fault_at bad)) (lit ''dma_latency_hold'') (be_hold_dma_latency sample_backend 0) t2 = (Inr (), t3)"
    "tx_ready (1 + 2 + 2 + 2) t3" "core t3 = core (t2\<lparr>tx_host := applied_host\<rparr>)"
    by (rule quiet_mutation [where m = "be_hold_dma_latency sample_backend 0", OF sample_quiet 2(2) _ sample_events(5,6) [OF assms(3)] m3]) simp_all
  have p: "cp_module_actions sample_profile = []" "cp_service_actions sample_profile = []" "cp_writes sample_profile = [?w]"
    "cp_cpu_ids sample_profile = [1]" "cp_dma_latency_us sample_profile = 0" by (simp_all add: sample_profile_def)
  have "apply_mutations (sample_env (fault_at bad)) s t = (Inr (), t3)"
    using w 2(1) 3(1) by (simp add: apply_mutations_def sample_env_simps p)
  moreover have "core t3 = core_of applied_host Applying None None" using 1(3) 2(3) 3(3) assms(2) by (simp add: core_def core_of_def)
  moreover have "tx_ready 7 t3" using 3(2) by (simp add: eval_nat_numeral)
  ultimately show ?thesis using that by blast
qed

lemma sample_apply_guarded:
  assumes "late_fault bad"
  obtains t where "apply_guarded (sample_env (fault_at bad)) prior_snapshot captured_tx =
      (if bad = lit ''apply:validated'' then Inl (OtherException ''injected fault'') else Inr (), t)" "tx_ready 8 t"
    "core t = core_of applied_host Applied (Some applied_receipt) None"
proof -
  let ?e = "sample_env (fault_at bad)"
  have n: "fault_at bad h = None" if "last h = lit ''apply:before_journal'' \<or> last h = lit ''apply:after_journal''" for h
    using assms that by (auto simp: late_fault_def fault_at_def lit_def)
  obtain t1 where 1: "start_journal ?e prior_snapshot captured_tx = (Inr (), t1)" "tx_ready 1 t1"
    "core t1 = core_of prior_host Journaled None None"
    using sample_start_journal [of "fault_at bad", OF n] by blast
  let ?t1 = "t1\<lparr>tx_signal_handlers := True, tx_state := Applying\<rparr>"
  have "tx_ready 1 ?t1" "core ?t1 = core_of prior_host Applying None None"
    using 1(2,3) by (simp_all add: tx_ready_def core_def core_of_def)
  then obtain t2 where 2: "apply_mutations ?e prior_snapshot ?t1 = (Inr (), t2)" "tx_ready 7 t2"
    "core t2 = core_of applied_host Applying None None" using sample_mutations assms by blast
  let ?t2 = "t2\<lparr>tx_state := Applied, tx_clock_reads := tx_clock_reads t2 + 1, tx_applied_receipt := Some applied_receipt\<rparr>"
  let ?r = "if bad = lit ''apply:validated'' then Inl (OtherException ''injected fault'') else Inr ()"
  have r2: "tx_ready 7 ?t2" "working_os (ce_os ?e)" using 2(2) sample_quiet by (simp_all add: tx_ready_def quiet_env_def)
  obtain t3 where 3: "checkpoint ?e True (lit ''apply:validated'') ?t2 = (?r, t3)" "tx_ready 8 t3" "core t3 = core ?t2"
    using checkpoint_ready [OF r2(2,1), of "lit ''apply:validated''"] by (auto simp: boundary_events sample_env_simps fault_at_def)
  have h: "tx_host t2 = applied_host" using 2(3) by (simp add: core_def core_of_def)
  have "apply_validated ?e (t2\<lparr>tx_state := Applied\<rparr>) = checkpoint ?e True (lit ''apply:validated'') ?t2"
    using h by (simp add: apply_validated_def validate_applied_def capture_applied_state_def monotonic_ns_def sample_applied
        make_applied_receipt sample_env_simps)
  then have "apply_guarded ?e prior_snapshot captured_tx = (?r, t3)"
    using 1(1) 2(1) 3(1) by (simp add: apply_guarded_def start_guardian_def install_signal_handlers_def set_state_def sample_env_simps)
  moreover have "core t3 = core_of applied_host Applied (Some applied_receipt) None" using 3(3) 2(3) by (simp add: core_def core_of_def)
  ultimately show ?thesis using that [of t3] 3(2) by simp
qed

lemma sample_captured:
  assumes "late_fault bad"
  shows "apply_capture (sample_env (fault_at bad)) start_tx = (Inr prior_snapshot, captured_tx)"
proof (rule sample_apply_capture)
  fix h :: "pystr list"
  assume "set h \<subseteq> {lit ''apply:before_privilege'', lit ''apply:after_privilege'', lit ''apply:before_capture'', lit ''apply:after_capture''}"
  then have "h \<noteq> [] \<Longrightarrow> last h \<in> {lit ''apply:before_privilege'', lit ''apply:after_privilege'', lit ''apply:before_capture'', lit ''apply:after_capture''}"
    using last_in_set by blast
  then show "fault_at bad h = None" using assms by (auto simp: fault_at_def late_fault_def lit_def)
qed

lemma sample_apply:
  assumes "late_fault bad" "bad \<noteq> lit ''apply:validated''"
  obtains t where "apply_transaction (sample_env (fault_at bad)) start_tx = (Inr prior_snapshot, t)" "tx_ready 8 t"
    "core t = core_of applied_host Applied (Some applied_receipt) None"
proof -
  let ?e = "sample_env (fault_at bad)"
  obtain t where g: "apply_guarded ?e prior_snapshot captured_tx = (Inr (), t)" "tx_ready 8 t"
    "core t = core_of applied_host Applied (Some applied_receipt) None"
    by (rule sample_apply_guarded [OF assms(1)]) (use assms(2) in auto)
  have "sx_try (apply_guarded ?e prior_snapshot) (apply_handler ?e) captured_tx = (Inr (), t)" using g(1) by (simp add: sx_try_def)
  then have "apply_transaction ?e start_tx = (Inr prior_snapshot, t)"
    using sample_captured [OF assms(1)] by (simp add: apply_transaction_def start_tx_def)
  then show ?thesis using that g by blast
qed

lemma sample_recover:
  assumes "tx_ready 9 t" "core t = core_of applied_host Restoring a None" "late_fault bad"
  obtains t' where "recover_snapshot_exact plain_unicode sample_profile prior_snapshot sample_backend tx_on_host tx_host True
      (Some (\<lambda>name. checkpoint (sample_env (fault_at bad)) True (lit ''restore:'' @ name))) t = (Inr (), t')"
    "tx_ready 15 t'" "core t' = core_of prior_host Restoring a None"
proof -
  let ?b = "Some (\<lambda>name. checkpoint (sample_env (fault_at bad)) True (lit ''restore:'' @ name))"
  let ?w = "\<lparr>wa_path = lit ''/proc/irq/9'', wa_desired_text = lit ''1'', wa_parser = lit ''text''\<rparr>"
  have h: "tx_host t = applied_host" using assms(2) by (simp add: core_def core_of_def)
  have m1: "be_release_dma_latency sample_backend (tx_host t) = (Inr (), applied_host)" using h by (simp add: sample_backend_def)
  obtain t1 where 1: "recover_operation ?b (lit ''dma_latency_release'') (tx_on_host (be_release_dma_latency sample_backend)) t = (Inr [], t1)"
    "tx_ready (9 + 2) t1" "core t1 = core (t\<lparr>tx_host := applied_host\<rparr>)"
    by (rule quiet_operation [where m = "be_release_dma_latency sample_backend", OF sample_quiet assms(1) _ sample_events(11,12) [OF assms(3)] m1]) simp_all
  have h1: "tx_host t1 = applied_host" using 1(3) by (simp add: core_def)
  have m2: "be_set_affinity sample_backend [0] (tx_host t1) = (Inr (), (lit ''1'', [0]))" using h1 by (simp add: sample_backend_def applied_host_def)
  obtain t2 where 2: "recover_operation ?b (lit ''process_affinity'') (tx_on_host (be_set_affinity sample_backend [0])) t1 = (Inr [], t2)"
    "tx_ready (9 + 2 + 2) t2" "core t2 = core (t1\<lparr>tx_host := (lit ''1'', [0])\<rparr>)"
    by (rule quiet_operation [where m = "be_set_affinity sample_backend [0]", OF sample_quiet 1(2) _ sample_events(9,10) [OF assms(3)] m2]) simp_all
  have h2: "tx_host t2 = (lit ''1'', [0])" using 2(3) by (simp add: core_def)
  have m3: "restore_write plain_unicode sample_backend (lit ''/proc/irq/9'') (lit ''text'') (PyStr (lit ''0'')) (tx_host t2) = (Inr (), prior_host)"
    using h2 by (simp add: restore_write_def sample_backend_def prior_host_def parse_control_value_def)
  obtain t3 where 3: "recover_operation ?b (indexed ''write_'' 0)
      (tx_on_host (restore_write plain_unicode sample_backend (lit ''/proc/irq/9'') (lit ''text'') (PyStr (lit ''0'')))) t2 = (Inr [], t3)"
    "tx_ready (9 + 2 + 2 + 2) t3" "core t3 = core (t2\<lparr>tx_host := prior_host\<rparr>)"
    by (rule quiet_operation [where m = "restore_write plain_unicode sample_backend (lit ''/proc/irq/9'') (lit ''text'') (PyStr (lit ''0''))",
          OF sample_quiet 2(2) _ sample_events(7,8) [OF assms(3)] m3]) simp_all
  have h3: "tx_host t3 = prior_host" using 3(3) by (simp add: core_def)
  have p: "cp_module_actions sample_profile = []" "cp_service_actions sample_profile = []" "cp_writes sample_profile = [?w]"
    "cs_process_affinity prior_snapshot = [0]" "cs_values prior_snapshot = [(lit ''/proc/irq/9'', lit ''text'', PyStr (lit ''0''))]"
    by (simp_all add: sample_profile_def prior_snapshot_def)
  have v: "verify_snapshot_exact plain_unicode sample_profile prior_snapshot sample_backend True prior_host = []"
    by (simp add: verify_snapshot_exact_def p verify_value_def verify_affinity_def)
      (simp add: sample_backend_def prior_host_def parse_control_value_def)
  have "recover_snapshot_exact plain_unicode sample_profile prior_snapshot sample_backend tx_on_host tx_host True ?b t = (Inr (), t3)"
    using 1(1) 2(1) 3(1) h3 v by (simp add: recover_snapshot_exact_def p)
  moreover have "core t3 = core_of prior_host Restoring a None" using 1(3) 2(3) 3(3) assms(2) by (simp add: core_def core_of_def)
  moreover have "tx_ready 15 t3" using 3(2) by (simp add: eval_nat_numeral)
  ultimately show ?thesis using that by blast
qed

lemma sample_remove:
  assumes "tx_ready n t"
  obtains t' where "tx_on_journal journal_remove t = (Inr (), t')" "core t' = core t" "tx_guardian t' = None"
proof -
  from assms obtain j where j: "tx_journal t = Some j" "journal_ready j (tx_fs t) (200000 + n * 40000)" "tx_guardian t = None"
    "w_fs (tx_fs t) (j_parent_fd j) \<noteq> None" by (auto simp: tx_ready_def)
  obtain ino where l: "dir_lookup (j_parent_fd j) (j_name j) (tx_fs t) = Some ino" using j(2) by (auto simp: journal_ready_def)
  obtain w where u: "os_unlink (j_parent_fd j) (j_name j) (tx_fs t) = (Inr (), w)" "w_fs w (j_parent_fd j) \<noteq> None"
    using l j(4) by (cases "j_parent_fd j = ino") (auto simp: os_unlink_def update_node_def)
  obtain w' where f: "os_fsync (j_parent_fd j) w = (Inr (), w')" using u(2) by (auto simp: os_fsync_def)
  have "journal_remove (j, tx_fs t) = (Inr (), (j\<lparr>j_closed := True\<rparr>, w'))"
    using verify_name_ready [OF j(2)] u(1) f by (simp add: journal_remove_def journal_close_def on_world_def on_handle_def sx_on_def)
  then show ?thesis using that [of "t\<lparr>tx_journal := Some (j\<lparr>j_closed := True\<rparr>), tx_fs := w'\<rparr>"] j by (simp add: tx_on_journal_def core_def)
qed

lemma sample_restore_guarded:
  assumes "tx_ready 8 t" "core t = core_of applied_host Restoring a None" "late_fault bad" "bad \<noteq> lit ''restore:begin''"
  obtains t' where "restore_guarded (sample_env (fault_at bad)) prior_snapshot t = (Inr [], t')" "tx_ready 16 t'"
    "core t' = core_of prior_host Restoring a (Some (prior_receipt (lit ''restored'')))"
proof -
  have p: "passes bad (lit ''restore:begin'')" using assms(4) by (auto simp: passes_def boundary_events)
  obtain t1 where 1: "checkpoint (sample_env (fault_at bad)) True (lit ''restore:begin'') t = (Inr (), t1)" "tx_ready (8 + 1) t1" "core t1 = core t"
    by (rule quiet_checkpoint [OF sample_quiet assms(1) _ p]) simp_all
  have r1: "tx_ready 9 t1" "core t1 = core_of applied_host Restoring a None" using 1 assms by (simp_all add: eval_nat_numeral)
  obtain t2 where 2: "recover_snapshot_exact plain_unicode sample_profile prior_snapshot sample_backend tx_on_host tx_host True
      (Some (\<lambda>name. checkpoint (sample_env (fault_at bad)) True (lit ''restore:'' @ name))) t1 = (Inr (), t2)"
    "tx_ready 15 t2" "core t2 = core_of prior_host Restoring a None" by (rule sample_recover [OF r1 assms(3)])
  let ?t2 = "t2\<lparr>tx_clock_reads := tx_clock_reads t2 + 1, tx_restored_receipt := Some (prior_receipt (lit ''restored''))\<rparr>"
  have h: "tx_host t2 = prior_host" "tx_snapshot t2 = Some prior_snapshot" using 2(3) by (simp_all add: core_def core_of_def)
  have c: "restore_recapture (sample_env (fault_at bad)) t2 = (Inr (), ?t2)"
    using h by (simp add: restore_recapture_def new_receipt_def monotonic_ns_def sample_capture make_prior_receipt sample_env_simps)
  have r2: "tx_ready 15 ?t2" using 2(2) by (simp add: tx_ready_def)
  obtain t3 where 3: "checkpoint (sample_env (fault_at bad)) True (lit ''restore:state_verified'') ?t2 = (Inr (), t3)" "tx_ready (15 + 1) t3" "core t3 = core ?t2"
    by (rule quiet_checkpoint [OF sample_quiet r2 _ sample_events(13) [OF assms(3)]]) simp_all
  have "attempt (checkpoint (sample_env (fault_at bad)) True (lit ''restore:begin'')) t = (Inr [], t1)"
    "attempt (recover_snapshot_exact plain_unicode sample_profile prior_snapshot sample_backend tx_on_host tx_host True
      (Some (\<lambda>name. checkpoint (sample_env (fault_at bad)) True (lit ''restore:'' @ name)))) t1 = (Inr [], t2)"
    "attempt (restore_recapture (sample_env (fault_at bad))) t2 = (Inr [], ?t2)"
    "attempt (checkpoint (sample_env (fault_at bad)) True (lit ''restore:state_verified'')) ?t2 = (Inr [], t3)"
    using 1 2 c 3 by (simp_all add: attempt_run)
  then have "restore_guarded (sample_env (fault_at bad)) prior_snapshot t = (Inr [], t3)"
    by (simp add: restore_guarded_def sample_env_simps)
  moreover have "core t3 = core_of prior_host Restoring a (Some (prior_receipt (lit ''restored'')))" using 3(3) 2(3) by (simp add: core_def core_of_def)
  moreover have "tx_ready 16 t3" using 3(2) by (simp add: eval_nat_numeral)
  ultimately show ?thesis using that by blast
qed

lemma sample_restore:
  assumes "tx_ready 8 t" "core t = core_of applied_host Applied a None" "late_fault bad" "bad \<noteq> lit ''restore:begin''"
  obtains t' where "restore (sample_env (fault_at bad)) t = (Inr (), t')" "core t' = core_of prior_host Restored a (Some (prior_receipt (lit ''restored'')))"
proof -
  let ?e = "sample_env (fault_at bad)"
  have s: "tx_state t = Applied" "tx_snapshot t = Some prior_snapshot" using assms(2) by (simp_all add: core_def core_of_def)
  have r0: "tx_ready 8 (t\<lparr>tx_state := Restoring\<rparr>)" "core (t\<lparr>tx_state := Restoring\<rparr>) = core_of applied_host Restoring a None"
    using assms by (simp_all add: tx_ready_def core_def core_of_def)
  obtain t1 where 1: "restore_guarded ?e prior_snapshot (t\<lparr>tx_state := Restoring\<rparr>) = (Inr [], t1)" "tx_ready 16 t1"
    "core t1 = core_of prior_host Restoring a (Some (prior_receipt (lit ''restored'')))" by (rule sample_restore_guarded [OF r0 assms(3,4)])
  let ?t1 = "t1\<lparr>tx_signal_handlers := False\<rparr>"
  have r1: "tx_ready 16 ?t1" using 1(2) by (simp add: tx_ready_def)
  obtain t2 where 2: "checkpoint ?e True (lit ''restore:before_journal_remove'') ?t1 = (Inr (), t2)" "tx_ready (16 + 1) t2" "core t2 = core ?t1"
    by (rule quiet_checkpoint [OF sample_quiet r1 _ sample_events(14) [OF assms(3)]]) simp_all
  obtain t3 where 3: "tx_on_journal journal_remove t2 = (Inr (), t3)" "core t3 = core t2" "tx_guardian t3 = None" by (rule sample_remove [OF 2(2)])
  let ?t3 = "t3\<lparr>tx_journal := None, tx_journal_path := None, tx_state := Restored\<rparr>"
  have "restore_cleanup ?e ?t1 = (Inr (), ?t3)"
    using r1 2(1) 3(1) by (auto simp: restore_cleanup_def guardian_active_def tx_ready_def)
  then have "restore_finish ?e [] ?t1 = (Inr (), ?t3)" by (simp add: restore_finish_def sx_try_def)
  then have "restore ?e t = (Inr (), ?t3)" using 1(1) s by (simp add: restore_def restore_refresh_def set_state_def)
  moreover have "core ?t3 = core_of prior_host Restored a (Some (prior_receipt (lit ''restored'')))" using 1(3) 2(3) 3(2) by (simp add: core_def core_of_def)
  ultimately show ?thesis using that by blast
qed

lemma late_faults: "late_fault []" "late_fault (lit ''apply:validated'')" "late_fault (lit ''restore:begin'')" "lit ''apply:validated'' \<noteq> lit ''restore:begin''"
  "[] \<noteq> lit ''restore:begin''" "[] \<noteq> lit ''apply:validated''"
  by (simp_all add: late_fault_def lit_def)

text \<open>A fault at the first boundary of the restoration makes it fail.\<close>

lemma begin_fault_fails:
  assumes "tx_ready 8 t" "core t = core_of applied_host Applied a None"
  obtains e t' where "restore (sample_env (fault_at (lit ''restore:begin''))) t = (Inl e, t')"
proof -
  let ?e = "sample_env (fault_at (lit ''restore:begin''))"
  have s: "tx_state t \<noteq> Restored" "tx_state t = Applied" "tx_snapshot t = Some prior_snapshot" using assms(2) by (simp_all add: core_def core_of_def)
  have r: "tx_ready 8 (t\<lparr>tx_state := Restoring\<rparr>)" "working_os (ce_os ?e)"
    using assms(1) sample_quiet by (simp_all add: tx_ready_def quiet_env_def)
  obtain t0 where c: "checkpoint ?e True (lit ''restore:begin'') (t\<lparr>tx_state := Restoring\<rparr>) = (Inl (OtherException ''injected fault''), t0)"
    using checkpoint_ready [OF r(2,1), of "lit ''restore:begin''"] by (auto simp: boundary_events sample_env_simps fault_at_def)
  have "restore_guarded ?e prior_snapshot (t\<lparr>tx_state := Restoring\<rparr>) \<noteq> (Inr [], t2)" for t2
    using c by (auto simp: restore_guarded_def sx_bind_Inr attempt_run errors_of_def)
  then have "restore ?e t \<noteq> (Inr u, t')" for u t'
    using s by (auto simp: restore_def restore_refresh_def set_state_def sx_then_Inr sx_bind_Inr restore_finish_Inr)
  then show ?thesis using that by (metis old.prod.exhaust old.sum.exhaust)
qed

section \<open>Properties\<close>

text \<open>
  C2. Restoration is exact. When \<^verbatim>\<open>restore\<close> returns on a transaction that holds a captured
  snapshot, capturing the host again gives that snapshot: every control text, module, service and the
  process affinity are as they were, and the recovery journal is gone. No assumption is made on what the
  backend's mutations do.
\<close>

theorem restoration_exact:
  assumes "restore env t = (Inr u, t')" "tx_state t \<noteq> Restored" "tx_snapshot t = Some s"
  shows "capture env (tx_host t') = Inr s \<and> tx_state t' = Restored \<and> tx_journal t' = None"
  using restore_Inr [OF assms] by simp

theorem restoration_exact_witness:
  "\<exists>t t'. restore (sample_env (fault_at [])) t = (Inr (), t') \<and> tx_host t = applied_host \<and> capture (sample_env (fault_at [])) (tx_host t') = Inr prior_snapshot \<and>
     tx_state t' = Restored \<and> tx_journal t' = None"
proof -
  obtain t where a: "tx_ready 8 t" "core t = core_of applied_host Applied (Some applied_receipt) None" by (rule sample_apply [OF late_faults(1,6)])
  obtain t' where r: "restore (sample_env (fault_at [])) t = (Inr (), t')" by (rule sample_restore [OF a late_faults(1,5)])
  have "tx_state t \<noteq> Restored" "tx_snapshot t = Some prior_snapshot" "tx_host t = applied_host" using a(2) by (simp_all add: core_def core_of_def)
  then show ?thesis using restoration_exact [OF r] r by blast
qed

text \<open>
  C15. A failed application changes nothing. When \<^verbatim>\<open>apply\<close> on a new transaction raises anything but
  the indeterminate error, the host is untouched or it captures to exactly the snapshot taken before the
  first change.
\<close>

theorem failed_apply_restores:
  assumes "apply_transaction env t = (Inl e, t')" "tx_state t = New" "\<nexists>m. e = TimingControlIndeterminate m"
  shows "tx_host t' = tx_host t \<or> (\<exists>s. capture env (tx_host t) = Inr s \<and> capture env (tx_host t') = Inr s \<and> tx_state t' = Restored)"
  by (rule apply_failure_restores [OF assms])

theorem failed_apply_restores_witness:
  "\<exists>t'. apply_transaction (sample_env (fault_at (lit ''apply:validated''))) start_tx = (Inl (OtherException ''injected fault''), t') \<and>
     (tx_host t' = prior_host \<or> (\<exists>s. capture (sample_env (fault_at (lit ''apply:validated''))) prior_host = Inr s \<and>
       capture (sample_env (fault_at (lit ''apply:validated''))) (tx_host t') = Inr s \<and> tx_state t' = Restored))"
proof -
  let ?e = "sample_env (fault_at (lit ''apply:validated''))"
  obtain t where g: "apply_guarded ?e prior_snapshot captured_tx = (Inl (OtherException ''injected fault''), t)" "tx_ready 8 t"
    "core t = core_of applied_host Applied (Some applied_receipt) None" by (rule sample_apply_guarded [OF late_faults(2)]) simp_all
  obtain t' where r: "restore ?e t = (Inr (), t')" by (rule sample_restore [OF g(2,3) late_faults(2,4)])
  then have "attempt (restore ?e) t = (Inr [], t')" by (simp add: attempt_run)
  then have "sx_try (apply_guarded ?e prior_snapshot) (apply_handler ?e) captured_tx = (Inl (OtherException ''injected fault''), t')"
    using g(1) by (simp add: sx_try_def apply_handler_def)
  then have run: "apply_transaction ?e start_tx = (Inl (OtherException ''injected fault''), t')"
    using sample_captured [OF late_faults(2)] by (simp add: apply_transaction_def start_tx_def)
  have "tx_state start_tx = New" "tx_host start_tx = prior_host" by (simp_all add: start_tx_def)
  with failed_apply_restores [OF run] run show ?thesis by auto
qed

text \<open>
  C6. Passing receipts. In every state reachable by calls of the object's methods and signals,
  \<^verbatim>\<open>control_receipts\<close> answers only when no recovery was ever abnormal; the prior and the restored
  receipt then carry the same captured snapshot, the host still captures to it, and the applied receipt
  records a host on which every control had its frozen value.
\<close>

theorem receipts_sound:
  assumes "new_transaction env h w = Inr t0" "tx_steps env t0 t" "control_receipts t = Inr (prior, applied, restored)"
  shows "\<not> tx_had_abnormal_recovery t \<and>
    (\<exists>s. tx_snapshot t = Some s \<and> capture env (tx_host t) = Inr s \<and> cr_state prior = snapshot_as_record s \<and>
         cr_state restored = snapshot_as_record s) \<and>
    (\<exists>g. controls_applied env g = Inr () \<and> applied_record env g = Inr (cr_state applied))"
proof -
  have i: "tx_inv env t" using steps_inv [OF assms(2) new_transaction_inv [OF assms(1)]] by simp
  from assms(3) have "tx_state t = Restored" "\<not> tx_had_abnormal_recovery t" "tx_prior_receipt t = Some prior"
    "tx_applied_receipt t = Some applied" "tx_restored_receipt t = Some restored"
    by (auto simp: control_receipts_def split: option.splits)
  with i show ?thesis by (auto simp: tx_inv_def applied_evidence_def)
qed

theorem receipts_sound_witness:
  "\<exists>t prior applied restored. new_transaction (sample_env (fault_at [])) prior_host sample_world = Inr start_tx \<and>
     tx_steps (sample_env (fault_at [])) start_tx t \<and> control_receipts t = Inr (prior, applied, restored) \<and> \<not> tx_had_abnormal_recovery t \<and>
     (\<exists>s. tx_snapshot t = Some s \<and> capture (sample_env (fault_at [])) (tx_host t) = Inr s \<and> cr_state prior = snapshot_as_record s \<and>
         cr_state restored = snapshot_as_record s)"
proof -
  let ?e = "sample_env (fault_at [])"
  obtain t where a: "apply_transaction ?e start_tx = (Inr prior_snapshot, t)" "tx_ready 8 t" "core t = core_of applied_host Applied (Some applied_receipt) None"
    by (rule sample_apply [OF late_faults(1,6)])
  obtain t' where r: "restore ?e t = (Inr (), t')" "core t' = core_of prior_host Restored (Some applied_receipt) (Some (prior_receipt (lit ''restored'')))"
    by (rule sample_restore [OF a(2,3) late_faults(1,5)])
  have s: "tx_steps ?e start_tx t'" using a(1) r(1) by (blast intro: tx_steps.intros tx_step.intros)
  have c: "control_receipts t' = Inr (prior_receipt (lit ''prior''), applied_receipt, prior_receipt (lit ''restored''))"
    using r(2) by (simp add: control_receipts_def core_def core_of_def prior_receipt_def)
  have n: "new_transaction ?e prior_host sample_world = Inr start_tx" by (rule sample_new)
  from receipts_sound [OF n s c] s c n show ?thesis by blast
qed

text \<open>
  C38. An abnormal recovery is never turned into passing evidence: once \<^verbatim>\<open>had_abnormal_recovery\<close> is
  set it stays set, and the receipts are refused from then on.
\<close>

theorem abnormal_never_passes:
  assumes "new_transaction env h w = Inr t0" "tx_steps env t0 t" "tx_had_abnormal_recovery t" "tx_steps env t t'"
  shows "\<exists>m. control_receipts t' = Inl (TimingControlError m)"
proof -
  have "tx_inv env t" using steps_inv [OF assms(2) new_transaction_inv [OF assms(1)]] by simp
  then have "tx_had_abnormal_recovery t'" using steps_inv [OF assms(4)] assms(3) by simp
  then show ?thesis by (auto simp: control_receipts_def control_fail_def split: option.splits)
qed

theorem abnormal_never_passes_witness:
  "\<exists>t t' m. tx_steps (sample_env (fault_at (lit ''restore:begin''))) start_tx t \<and> tx_had_abnormal_recovery t \<and>
     tx_steps (sample_env (fault_at (lit ''restore:begin''))) t t' \<and> control_receipts t' = Inl (TimingControlError m)"
proof -
  let ?e = "sample_env (fault_at (lit ''restore:begin''))"
  obtain t where a: "apply_transaction ?e start_tx = (Inr prior_snapshot, t)" "tx_ready 8 t" "core t = core_of applied_host Applied (Some applied_receipt) None"
    by (rule sample_apply [OF late_faults(3)]) (use late_faults(4) in auto)
  obtain e t' where r: "restore ?e t = (Inl e, t')" by (rule begin_fault_fails [OF a(2,3)])
  have s: "tx_steps ?e start_tx t'" using a(1) r by (blast intro: tx_steps.intros tx_step.intros)
  obtain q t2 where "restore ?e t' = (q, t2)" by (cases "restore ?e t'")
  then have s2: "tx_steps ?e t' t2" by (blast intro: tx_steps.intros tx_step.intros)
  have n: "new_transaction ?e prior_host sample_world = Inr start_tx" by (rule sample_new)
  from abnormal_never_passes [OF n s restore_Inl(2) [OF r] s2] s restore_Inl(2) [OF r] s2 show ?thesis by blast
qed



end
