(* ===== verification/Crash_Recovery.thy ===== *)
theory Crash_Recovery
  imports Host_Control_Runs
begin

text \<open>
  Recovery after a crash: the journal a transaction leaves behind, wherever it stopped, leads the manual
  recovery of \<^verbatim>\<open>recover_control_journal\<close> back to the snapshot that was captured before the first change.
\<close>

section \<open>The journal of a transaction\<close>

type_synonym handle_identity = "inode \<times> inode \<times> pystr \<times> pystr \<times> pystr \<times> pystr"

definition handle_id :: "journal \<Rightarrow> handle_identity" where
  "handle_id j = (j_parent_fd j, j_file_fd j, j_parent j, j_name j, j_profile_sha256 j, j_transaction_id j)"

definition tx_handle :: "'h transaction \<Rightarrow> handle_identity option" where
  "tx_handle t = map_option handle_id (tx_journal t)"

lemma journal_append_handle: "upholds (same (handle_id \<circ> fst)) (journal_append os event snapshot)"
proof -
  have w: "upholds (same (handle_id \<circ> fst)) (on_world m)" for m :: "unit io"
    by (rule upholdsI) (auto simp: same_def on_world_def sx_on_def split: prod.splits)
  have h: "upholds (same (handle_id \<circ> fst)) (on_handle (\<lambda>j. j\<lparr>j_previous_sha256 := p, j_next_sequence := f j\<rparr>))" for p f
    unfolding upholds_def on_handle_run by (simp add: same_def handle_id_def)
  show ?thesis unfolding journal_append_def verify_name_def
    by (intro same.upholds_if same.upholds_then same.upholds_bind same.upholds_read w h)
qed

interpretation tx_handle: journal_relation "same tx_handle"
  by unfold_locales (auto simp: same_def tx_handle_def intro!: tx_on_journal_upholds [OF journal_append_handle])

section \<open>Reading the first record again\<close>

lemma first_record_snapshot:
  assumes "control_json (jo_depth os) (journal_record j0 event (snapshot_as_record s)) = Inr line" "identity_ok j0" "lower_hex_exactly 64 (j_previous_sha256 j0)"
    and "event_ok event" "snapshot_ok (jo_unicode os) s" "jo_depth os = Suc (Suc (Suc (Suc d)))"
    and "w_fs w (j_file_fd j) = Some node" "n_data node = line @ rest" "journal_records os j w = Inr recs"
  shows "recs \<noteq> [] \<and> and_then (record_field (hd recs) ''snapshot'') (snapshot_from_record (jo_unicode os)) = Inr s"
proof -
  let ?d = "Suc (Suc (Suc d))" and ?entry = "(event, snapshot_as_record s)"
  have ok: "journal_entry_ok ?d ?entry" using assms(4) wf_snapshot [OF assms(5)] by (simp add: journal_entry_ok_def del: json_wf.simps)
  have r: "journal_record j0 event (snapshot_as_record s) = PyDict (lit_items (journal_items j0 (j_next_sequence j0) (j_previous_sha256 j0) ?entry))"
    by (simp add: journal_record_def journal_items_def str_record_items)
  from line_reads_back [OF wf_entry [OF assms(2) ok assms(3), of "j_next_sequence j0"]] assms(1,6) r
  obtain b where b: "line = b @ [10]" "10 \<notin> set b" "13 \<notin> set b"
    "strict_journal_json (jo_depth os) b = Inr (entry_record ?d j0 (j_next_sequence j0) (j_previous_sha256 j0) ?entry)"
    by (auto simp: entry_record_def)
  have lines: "splitlines_keep (n_data node) = line # splitlines_keep rest" using splitlines_line [OF b(2,3), of rest] assms(8) b(1) by simp
  from assms(7,9) lines obtain rec where j: "journal_line os j 0 ZERO_SHA256 line = Inr rec" and h: "recs \<noteq> []" "hd recs = rec"
    by (auto simp: journal_records_def fstat_def Let_def split: if_splits)
  have "rec = entry_record ?d j0 (j_next_sequence j0) (j_previous_sha256 j0) ?entry"
    using j b by (auto simp: journal_line_def split: if_splits)
  then show ?thesis using h entry_fields(8) [OF assms(2) ok assms(3), of "j_next_sequence j0"] snapshot_reads_back [OF assms(5)] by simp
qed

section \<open>Directories stay where they are\<close>

text \<open>The later file system has every node of the earlier one, of the same kind, with at least its entries.\<close>

definition extends :: "world \<Rightarrow> world \<Rightarrow> bool" where
  "extends w w' \<longleftrightarrow> w_abs w' = w_abs w \<and>
     (\<forall>i n. w_fs w i = Some n \<longrightarrow> (\<exists>n'. w_fs w' i = Some n' \<and> n_kind n' = n_kind n \<and>
        (\<forall>name x. map_of (n_entries n) name = Some x \<longrightarrow> map_of (n_entries n') name = Some x)))"

lemma extends_refl [simp]: "extends w w"
  by (simp add: extends_def)

lemma extends_trans: "extends u v \<Longrightarrow> extends v w \<Longrightarrow> extends u w"
  unfolding extends_def by (metis (no_types, lifting))

interpretation extends: state_order "\<lambda>a b. extends (g a) (g b)" for g :: "'s \<Rightarrow> world"
  by unfold_locales (auto intro: extends_trans)

lemma extends_update: "(\<And>n. n_kind (f n) = n_kind n \<and> (\<exists>more. n_entries (f n) = n_entries n @ more)) \<Longrightarrow> extends w (update_node fd f w)"
  unfolding extends_def update_node_def by (auto simp: map_add_def split: option.splits) (metis map_add_Some_iff map_of_append)

lemma extendsD:
  assumes "extends w w'" "w_fs w i = Some n"
  obtains n' where "w_fs w' i = Some n'" "n_kind n' = n_kind n" "\<And>name x. map_of (n_entries n) name = Some x \<Longrightarrow> map_of (n_entries n') name = Some x"
  using assms unfolding extends_def by blast

lemma open_directory_extends:
  assumes "open_directory_at fd name w = Inr i" "extends w w'"
  shows "open_directory_at fd name w' = Inr i"
proof -
  from assms(1) obtain n m where n: "w_fs w fd = Some n" "map_of (n_entries n) name = Some i" "w_fs w i = Some m" "n_kind m = KDir"
    by (auto simp: open_directory_at_def os_stat_def stat_at_def dir_lookup_def split: option.splits if_splits)
  obtain n' where "w_fs w' fd = Some n'" "map_of (n_entries n') name = Some i" by (rule extendsD [OF assms(2) n(1)]) (use n(2) in blast)
  moreover obtain m' where "w_fs w' i = Some m'" "n_kind m' = KDir" by (rule extendsD [OF assms(2) n(3)]) (use n(4) in simp)
  ultimately show ?thesis by (simp add: open_directory_at_def os_stat_def stat_at_def dir_lookup_def)
qed

lemma open_absolute_extends:
  assumes "open_absolute_directory_nofollow path w = Inr fd" "extends w w'"
  shows "open_absolute_directory_nofollow path w' = Inr fd"
proof -
  have f: "foldM (\<lambda>descriptor component. open_component descriptor component w') d cs = Inr e"
    if "foldM (\<lambda>descriptor component. open_component descriptor component w) d cs = Inr e" for d cs e
    using that by (induction cs arbitrary: d) (auto simp: open_component_def dest: open_directory_extends [OF _ assms(2)] split: if_splits)
  have a: "w_abs w' = w_abs w" using assms(2) by (simp add: extends_def)
  from assms(1) obtain root_fd node where r: "isabs path" "path \<noteq> lit ''/''" "normpath path = path" "w_abs w (lit ''/'') = Some root_fd"
    "foldM (\<lambda>descriptor component. open_component descriptor component w) root_fd (tl (split_on 47 path)) = Inr fd" "w_fs w fd = Some node" "n_kind node = KDir"
    by (auto simp: open_absolute_directory_nofollow_def fstat_def split: if_splits option.splits)
  from r(6,7) assms(2) obtain node' where "w_fs w' fd = Some node'" "n_kind node' = KDir" by (metis extendsD)
  then show ?thesis using r f [OF r(5)] a by (simp add: open_absolute_directory_nofollow_def fstat_def)
qed

lemma fsync_extends: "extends w (snd (os_fsync fd w))"
  by (auto simp: os_fsync_def extends_def split: option.splits)

lemma journal_append_extends: "upholds (\<lambda>a b. extends (snd a) (snd b)) (journal_append os event snapshot)"
proof -
  have w: "upholds (\<lambda>a b. extends (snd a) (snd b)) (on_world (write_all os fd payload))" for fd payload
    unfolding upholds_def on_world_run
  proof (intro allI impI)
    fix a r b assume "write_all os fd payload (snd a) = (r, snd b) \<and> fst b = fst a"
    then obtain k where "snd b = append_data fd (take k payload) (snd a)" using write_all_appends by blast
    then show "extends (snd a) (snd b)" by (simp add: append_data_def extends_update)
  qed
  have f: "upholds (\<lambda>a b. extends (snd a) (snd b)) (on_world (os_fsync fd))" for fd
    unfolding upholds_def on_world_run using fsync_extends by (metis snd_conv)
  have h: "upholds (\<lambda>a b. extends (snd a) (snd b)) (on_handle u)" for u
    unfolding upholds_def on_handle_run by simp
  show ?thesis unfolding journal_append_def verify_name_def
    by (intro extends.upholds_if extends.upholds_then extends.upholds_bind extends.upholds_read w f h)
qed

interpretation tx_extends: journal_relation "\<lambda>a b. extends (tx_fs a) (tx_fs b)"
  by unfold_locales (auto intro!: tx_on_journal_upholds [OF journal_append_extends] intro: extends_trans)

text \<open>Creating the journal adds one name and one node.\<close>

lemma allocate_extends:
  assumes "allocate_journal os fd attempts w = (Inr (Some (txn, ino)), w')" "w_fs w (w_next w) = None"
  shows "extends w w'"
  using assms(1)
proof (induction attempts)
  case (Cons a attempts)
  show ?case
  proof (cases "dir_lookup fd (journal_name (hex_text (jo_urandom os a))) w = None")
    case True
    let ?w1 = "w\<lparr>w_fs := (w_fs w)(w_next w \<mapsto> \<lparr>n_kind = KReg, n_uid = w_euid w, n_mode = 384, n_nlink = 1, n_entries = [], n_data = []\<rparr>),
      w_next := (fst (w_next w), Suc (snd (w_next w)))\<rparr>"
    have "w' = update_node fd (\<lambda>n. n\<lparr>n_entries := n_entries n @ [(journal_name (hex_text (jo_urandom os a)), w_next w)]\<rparr>) ?w1"
      using Cons.prems True by (auto simp: os_create_file_def Let_def)
    moreover have "extends w ?w1" using assms(2) by (auto simp: extends_def)
    moreover have "extends ?w1 (update_node fd (\<lambda>n. n\<lparr>n_entries := n_entries n @ [(journal_name (hex_text (jo_urandom os a)), w_next w)]\<rparr>) ?w1)"
      by (rule extends_update) simp
    ultimately show ?thesis using extends_trans by blast
  next
    case False
    then show ?thesis using Cons by (auto simp: os_create_file_def Let_def)
  qed
qed simp

lemma create_journal_parent:
  assumes "create_journal os parent profile s w = (Inr j, w')" "w_fs w (w_next w) = None"
  shows "extends w w'" "open_absolute_directory_nofollow parent w = Inr (j_parent_fd j)"
    "\<exists>fd ino txn. handle_id j = handle_id (fresh_journal fd ino parent profile txn)"
proof -
  from assms(1) obtain parent_fd txn ino w1 where o: "open_absolute_directory_nofollow parent w = Inr parent_fd"
    and a: "allocate_journal os parent_fd [0..<128] w = (Inr (Some (txn, ino)), w1)"
    and p: "prepare_journal os parent_fd ino parent profile txn s w1 = (Inr j, w')"
    by (auto simp: create_journal_def sx_bind_Inr sx_then_Inr sx_try_Inr split: option.splits)
  let ?j = "fresh_journal parent_fd ino parent profile txn"
  from allocate_journal_some(2) [OF a] obtain node where n: "w_fs w1 ino = Some node" by blast
  from p n obtain w2 w3 where f: "fchmod ino 384 w1 = (Inr (), w2)"
    and ap: "journal_append os (lit ''prior_state_captured'') (snapshot_as_record s) (?j, w2) = (Inr (), (j, w3))"
    and fs: "os_fsync parent_fd w3 = (Inr (), w')"
    by (auto simp: prepare_journal_def sx_then_Inr sx_bind_Inr first_append_run)
  have "extends w1 w2" using f by (auto simp: fchmod_def split: option.splits intro: extends_update)
  moreover have "extends w2 w3" using journal_append_extends [THEN upholdsD, OF ap] by simp
  moreover have "extends w3 w'" using fsync_extends [of w3 parent_fd] fs by simp
  ultimately show "extends w w'" using allocate_extends [OF a assms(2)] extends_trans by blast
  have h: "handle_id j = handle_id ?j" using journal_append_handle [THEN upholdsD, OF ap] by (simp add: same_def)
  then show "open_absolute_directory_nofollow parent w = Inr (j_parent_fd j)" using o by (simp add: handle_id_def fresh_journal_def)
  show "\<exists>fd ino txn. handle_id j = handle_id (fresh_journal fd ino parent profile txn)" using h by blast
qed

lemma start_journal_first:
  assumes "start_journal env s t = (Inr u, t')" "w_fs (tx_fs t) (w_next (tx_fs t)) = None"
  shows "\<exists>j0 line k. control_json (jo_depth (ce_os env)) (journal_record j0 (lit ''prior_state_captured'') (snapshot_as_record s)) = Inr line \<and>
    line_kept line (j_file_fd j0) (j_parent_fd j0) (j_name j0) (tx_fs t') \<and> tx_handle t' = Some (handle_id j0) \<and>
    j0 = fresh_journal (j_parent_fd j0) (j_file_fd j0) (cp_recovery_journal_parent (ce_profile env)) (cp_sha256 (ce_profile env))
      (hexdigest (jo_urandom (ce_os env) k)) \<and>
    open_absolute_directory_nofollow (cp_recovery_journal_parent (ce_profile env)) (tx_fs t') = Inr (j_parent_fd j0)"
proof -
  from assms(1) obtain t1 j w where c: "checkpoint env False (lit ''apply:before_journal'') t = (Inr (), t1)"
    and j: "create_journal (ce_os env) (cp_recovery_journal_parent (ce_profile env)) (cp_sha256 (ce_profile env)) s (tx_fs t1) = (Inr j, w)"
    and a: "checkpoint env True (lit ''apply:after_journal'')
      (t1\<lparr>tx_fs := w, tx_journal := Some j, tx_journal_path := Some (journal_path (j_parent j) (j_name j)), tx_state := Journaled\<rparr>) = (Inr u, t')"
    by (auto simp: start_journal_def sx_then_Inr sx_bind_Inr sx_on_run)
  have fs: "tx_fs t1 = tx_fs t" using c
    by (auto simp: checkpoint_def sx_then_Inr guardian_assert_alive_def split: option.splits if_splits)
  have "open_absolute_directory_nofollow (cp_recovery_journal_parent (ce_profile env)) w = Inr (j_parent_fd j)"
    using create_journal_parent [OF j] assms(2) open_absolute_extends unfolding fs by blast
  moreover have "extends w (tx_fs t')" using tx_extends.checkpoint_upholds [THEN upholdsD, OF a] by simp
  ultimately have op: "open_absolute_directory_nofollow (cp_recovery_journal_parent (ce_profile env)) (tx_fs t') = Inr (j_parent_fd j)"
    by (rule open_absolute_extends)
  from create_journal_line [OF j] fs assms(2) obtain j0 line k
    where l: "control_json (jo_depth (ce_os env)) (journal_record j0 (lit ''prior_state_captured'') (snapshot_as_record s)) = Inr line"
      and kept: "line_kept line (j_file_fd j) (j_parent_fd j) (j_name j) w" and p: "j_parent j = cp_recovery_journal_parent (ce_profile env)" "j_name j = j_name j0"
      and j0: "j0 = fresh_journal (j_parent_fd j) (j_file_fd j) (cp_recovery_journal_parent (ce_profile env)) (cp_sha256 (ce_profile env)) (hexdigest (jo_urandom (ce_os env) k))"
    by auto
  have e: "j_parent_fd j0 = j_parent_fd j" "j_file_fd j0 = j_file_fd j" "j_parent j0 = j_parent j" using j0 p by (simp_all add: fresh_journal_def)
  have "keeps_line line (j_file_fd j) (j_parent_fd j) (j_name j) w (tx_fs t')" using tx_line.checkpoint_upholds [THEN upholdsD, OF a] by simp
  with kept have "line_kept line (j_file_fd j0) (j_parent_fd j0) (j_name j0) (tx_fs t')" using e p by (simp add: keeps_line_def)
  moreover have "handle_id j = handle_id j0" using create_journal_parent(3) [OF j] assms(2) j0 p
    by (auto simp: fs handle_id_def fresh_journal_def journal_name_def)
  then have "tx_handle t' = Some (handle_id j0)" using tx_handle.checkpoint_upholds [THEN upholdsD, OF a] by (simp add: same_def tx_handle_def)
  moreover have "j0 = fresh_journal (j_parent_fd j0) (j_file_fd j0) (cp_recovery_journal_parent (ce_profile env)) (cp_sha256 (ce_profile env))
      (hexdigest (jo_urandom (ce_os env) k))" unfolding e by (rule j0)
  moreover have "open_absolute_directory_nofollow (cp_recovery_journal_parent (ce_profile env)) (tx_fs t') = Inr (j_parent_fd j0)"
    unfolding e by (rule op)
  ultimately show ?thesis using l by blast
qed

section \<open>The manual recovery\<close>

lemma recover_verified:
  "recover_snapshot_exact u profile s be on host_of process_local boundary st = (Inr x, st') \<Longrightarrow>
   verify_snapshot_exact u profile s be process_local (host_of st') = []"
  by (auto simp: recover_snapshot_exact_def sx_bind_Inr Let_def split: if_splits)

lemma child_journal_host: "upholds (same snd) (child_journal m)"
  by (rule upholdsI) (auto simp: same_def child_journal_def sx_on_def split: prod.splits)

lemma guardian_note_host: "upholds (same snd) (guardian_note os event)"
  unfolding guardian_note_def by (intro same.upholds_attempt child_journal_host)

lemma manual_recovery_verified:
  assumes "manual_recovery env path ((handle, w), h) = (Inr receipt, (jw, h'))"
  shows "\<exists>records s. journal_records (ce_os env) handle w = Inr records \<and>
    and_then (record_field (hd records) ''snapshot'') (snapshot_from_record (jo_unicode (ce_os env))) = Inr s \<and>
    verify_snapshot_exact (jo_unicode (ce_os env)) (ce_profile env) s (ce_backend env) False h' = []"
proof -
  from assms obtain records s started st1 st2 verified st3 where r: "journal_records (ce_os env) handle w = Inr records"
    "and_then (record_field (hd records) ''snapshot'') (snapshot_from_record (jo_unicode (ce_os env))) = Inr s"
    and rec: "recover_snapshot_exact (jo_unicode (ce_os env)) (ce_profile env) s (ce_backend env) child_host snd False None st1 = (Inr (), st2)"
    and gn: "guardian_note (ce_os env) ''manual_recovery_verified'' st2 = (Inr verified, st3)" and st3: "st3 = (jw, h')"
    by (auto simp: manual_recovery_def sx_bind_Inr sx_then_Inr split: if_splits)
  have "snd st3 = snd st2" using guardian_note_host [THEN upholdsD, OF gn] by (simp add: same_def)
  then show ?thesis using r recover_verified [OF rec] st3 by auto
qed

lemma refresh_handle: "upholds (same (handle_id \<circ> fst)) (refresh_chain os)"
proof -
  have h: "upholds (same (handle_id \<circ> fst)) (on_handle f)" if f: "\<And>j. handle_id (f j) = handle_id j" for f
    unfolding upholds_def on_handle_run using f by (simp add: same_def)
  show ?thesis unfolding refresh_chain_def
    by (intro same.upholds_bind same.upholds_then same.upholds_read h) (simp_all add: handle_id_def)
qed

lemma refresh_result:
  "(case r of (Inl e, _) \<Rightarrow> Inl e | (Inr _, (j, _)) \<Rightarrow> Inr j) = Inr handle \<longleftrightarrow> (\<exists>u w. r = (Inr u, (handle, w)))"
  by (cases r; cases "fst r") auto

lemma existing_handle_shape:
  assumes "existing_handle os profile name parent_fd file_fd payload = Inr handle"
  shows "\<exists>txn. handle = (fresh_journal parent_fd file_fd (cp_recovery_journal_parent profile) (cp_sha256 profile) txn)\<lparr>j_name := name\<rparr>"
proof -
  from assms obtain first where
    "(case map_of first (PyStr (lit ''transaction_id'')) of
        Some (PyStr transaction_id) \<Rightarrow>
          if \<not> lower_hex_exactly 32 transaction_id then control_fail ''existing recovery journal transaction ID is invalid''
          else Inr ((fresh_journal parent_fd file_fd (cp_recovery_journal_parent profile) (cp_sha256 profile) transaction_id)\<lparr>j_name := name\<rparr>)
      | _ \<Rightarrow> control_fail ''existing recovery journal transaction ID is invalid'') = Inr handle"
    unfolding existing_handle_def Let_def if_control_fail_eq and_then_eq_Inr by blast
  then show ?thesis by (simp split: option.split_asm pyval.split_asm) blast
qed

text \<open>The file the recovery reads is the one its parent directory and name lead to.\<close>

lemma open_existing_file:
  assumes "open_existing_journal os profile path w = Inr handle"
  shows "\<exists>parent_fd. open_absolute_directory_nofollow (cp_recovery_journal_parent profile) w = Inr parent_fd \<and>
    dir_lookup parent_fd (path_tail path) w = Some (j_file_fd handle)"
proof -
  from assms obtain parent_fd file_fd payload handle0 w1 where p: "open_absolute_directory_nofollow (cp_recovery_journal_parent profile) w = Inr parent_fd"
    and f: "open_file_at parent_fd (path_tail path) w = Inr file_fd" and h: "existing_handle os profile (path_tail path) parent_fd file_fd payload = Inr handle0"
    and r: "refresh_chain os (handle0, w) = (Inr (), (handle, w1))"
    by (auto simp: open_existing_journal_def and_then_eq_Inr refresh_result)
  have "j_file_fd handle0 = file_fd" using existing_handle_shape [OF h] by (auto simp: fresh_journal_def)
  moreover have "j_file_fd handle = j_file_fd handle0" using refresh_handle [THEN upholdsD, OF r] by (simp add: same_def handle_id_def)
  moreover have "dir_lookup parent_fd (path_tail path) w = Some file_fd"
    using f by (auto simp: open_file_at_def os_stat_def stat_at_def split: option.splits)
  ultimately show ?thesis using p by simp
qed

lemma recover_control_Inr:
  assumes "recover_control_journal env path (w, h) = (Inr receipt, (w', h'))"
  shows "\<exists>handle jw. open_existing_journal (ce_os env) (ce_profile env) path w = Inr handle \<and> manual_recovery env path ((handle, w), h) = (Inr receipt, (jw, h'))"
  using assms by (auto simp: recover_control_journal_def sx_try_def sx_bind_def split: sum.splits prod.splits exn.splits)

lemma path_tail_journal: "47 \<notin> set name \<Longrightarrow> parent \<noteq> [] \<Longrightarrow> path_tail (journal_path parent name) = name"
proof -
  assume n: "47 \<notin> set name" and p: "parent \<noteq> []"
  have t: "takeWhile (\<lambda>c. c \<noteq> 47) (rev name @ 47 # r) = rev name" for r using n by (subst takeWhile_append2) auto
  show ?thesis
  proof (cases "last parent = 47")
    case True
    then obtain q where "parent = q @ [47]" using p by (metis append_butlast_last_id)
    then show ?thesis using t by (simp add: path_tail_def journal_path_def)
  qed (use t in \<open>simp add: path_tail_def journal_path_def\<close>)
qed

lemma journal_name_plain: "lower_hex_exactly k txn \<Longrightarrow> 47 \<notin> set (journal_name txn)"
  by (auto simp: journal_name_def lit_def lower_hex_exactly_def is_lower_hex_def list_all_iff)

section \<open>A journal without a torn line\<close>

text \<open>A predicate every step keeps when it returns.\<close>

definition kept_by :: "('s \<Rightarrow> bool) \<Rightarrow> ('s, 'a) sx \<Rightarrow> bool" where
  "kept_by P m \<longleftrightarrow> (\<forall>s x s'. m s = (Inr x, s') \<longrightarrow> P s \<longrightarrow> P s')"

lemma kept_byD: "kept_by P m \<Longrightarrow> m s = (Inr x, s') \<Longrightarrow> P s \<Longrightarrow> P s'"
  by (simp add: kept_by_def)

lemma kept_by_bind: "kept_by P m \<Longrightarrow> (\<And>x. kept_by P (f x)) \<Longrightarrow> kept_by P (sx_bind m f)"
  unfolding kept_by_def sx_bind_Inr by blast

lemma kept_by_then: "kept_by P m \<Longrightarrow> kept_by P n \<Longrightarrow> kept_by P (sx_then m n)"
  unfolding kept_by_def sx_then_Inr by blast

lemma kept_by_each: "(\<And>x. kept_by P (f x)) \<Longrightarrow> kept_by P (sx_each f xs)"
  by (induction xs) (simp_all add: kept_by_bind kept_by_def [of P "sx_return ()"])

lemma kept_by_if: "kept_by P m \<Longrightarrow> kept_by P n \<Longrightarrow> kept_by P (if b then m else n)"
  by simp

lemma kept_by_basic:
  "kept_by P (sx_return x)" "kept_by P (sx_read f)" "(\<And>s. P (g s) = P s) \<Longrightarrow> kept_by P (sx_modify g)"
  by (simp_all add: kept_by_def)

lemmas kept_by_intros = kept_by_bind kept_by_then kept_by_each kept_by_if kept_by_basic

definition written_journal :: "journal_os \<Rightarrow> control_snapshot \<Rightarrow> journal \<Rightarrow> world \<Rightarrow> bool" where
  "written_journal os s j w \<longleftrightarrow> (\<exists>entries. journal_written os j w ((lit ''prior_state_captured'', snapshot_as_record s) # entries) \<and>
     (\<forall>e \<in> set entries. event_ok (fst e) \<and> snd e = PyNone))"

lemma append_written_journal:
  assumes "journal_append os event PyNone (j, w) = (Inr u, (j', w'))" "written_journal os s j w"
  shows "written_journal os s j' w'"
proof -
  have e: "event_ok event" using assms(1) by (rule journal_append_run)
  from assms(2) obtain entries where "journal_written os j w ((lit ''prior_state_captured'', snapshot_as_record s) # entries)"
    "\<forall>e \<in> set entries. event_ok (fst e) \<and> snd e = PyNone" by (auto simp: written_journal_def)
  with journal_append_written [OF assms(1) this(1)] e show ?thesis
    by (auto simp: written_journal_def intro!: exI [of _ "entries @ [(event, PyNone)]"])
qed

definition complete_journal :: "'h control_env \<Rightarrow> control_snapshot \<Rightarrow> 'h transaction \<Rightarrow> bool" where
  "complete_journal env s t \<longleftrightarrow> (\<exists>j. tx_journal t = Some j \<and> written_journal (ce_os env) s j (tx_fs t))"

lemma complete_journal_fields [simp]:
  "complete_journal env s (t\<lparr>tx_boundary_history := x1\<rparr>) = complete_journal env s t" "complete_journal env s (t\<lparr>tx_host := h\<rparr>) = complete_journal env s t"
  "complete_journal env s (t\<lparr>tx_guardian := x2\<rparr>) = complete_journal env s t" "complete_journal env s (t\<lparr>tx_state := x3\<rparr>) = complete_journal env s t"
  "complete_journal env s (t\<lparr>tx_signal_handlers := x4\<rparr>) = complete_journal env s t" "complete_journal env s (t\<lparr>tx_clock_reads := x5\<rparr>) = complete_journal env s t"
  "complete_journal env s (t\<lparr>tx_applied_receipt := x6\<rparr>) = complete_journal env s t"
  by (simp_all add: complete_journal_def)

lemma append_complete: "kept_by (complete_journal env s) (tx_on_journal (journal_append (ce_os env) event PyNone))"
  unfolding kept_by_def complete_journal_def tx_on_journal_def
  by (auto split: prod.splits) (rule append_written_journal)

lemma checkpoint_complete: "kept_by (complete_journal env s) (checkpoint env journal name)"
proof -
  have "kept_by (complete_journal env s) (\<lambda>t. if journal \<and> tx_journal t \<noteq> None then tx_on_journal (journal_append (ce_os env) (colons name) PyNone) t else (Inr (), t))"
    unfolding kept_by_def [of _ "\<lambda>t. if _ t then _ t else _ t"] by (auto dest: kept_byD [OF append_complete] split: if_splits)
  moreover have "kept_by (complete_journal env s) (guardian_assert_alive env)"
    unfolding kept_by_def by (auto simp: guardian_assert_alive_def split: option.splits if_splits)
  ultimately show ?thesis unfolding checkpoint_def by (intro kept_by_intros) simp_all
qed

lemma host_complete: "kept_by (complete_journal env s) (tx_on_host m)"
  unfolding kept_by_def by (auto simp: tx_on_host_def sx_on_def split: prod.splits)

lemma mutation_complete: "kept_by (complete_journal env s) (mutation env label m)"
  unfolding mutation_def by (intro kept_by_then checkpoint_complete host_complete)

lemma start_journal_complete:
  assumes "start_journal env s t = (Inr u, t')" "\<forall>k. length (jo_urandom (ce_os env) k) = 16" "lower_hex_exactly 64 (cp_sha256 (ce_profile env))"
  shows "complete_journal env s t'"
proof -
  from assms(1) obtain t1 j w where
    j: "create_journal (ce_os env) (cp_recovery_journal_parent (ce_profile env)) (cp_sha256 (ce_profile env)) s (tx_fs t1) = (Inr j, w)"
    and a: "checkpoint env True (lit ''apply:after_journal'')
      (t1\<lparr>tx_fs := w, tx_journal := Some j, tx_journal_path := Some (journal_path (j_parent j) (j_name j)), tx_state := Journaled\<rparr>) = (Inr u, t')"
    by (auto simp: start_journal_def sx_then_Inr sx_bind_Inr sx_on_run)
  show ?thesis by (rule kept_byD [OF checkpoint_complete a])
    (use create_journal_written(1) [OF j assms(2,3)] in \<open>auto simp: complete_journal_def written_journal_def\<close>)
qed

lemma apply_rest_complete: "kept_by (complete_journal env s) (apply_rest env s)"
proof -
  have "kept_by (complete_journal env s) (start_guardian env s)"
    unfolding start_guardian_def by (intro kept_by_intros checkpoint_complete) (simp split: option.splits)
  moreover have "kept_by (complete_journal env s) (install_signal_handlers env)"
    unfolding install_signal_handlers_def by (intro kept_by_intros) simp
  moreover have "kept_by (complete_journal env s) (apply_mutations env s)"
    unfolding apply_mutations_def apply_module_def apply_service_def apply_write_def
    by (intro kept_by_then kept_by_each mutation_complete) (auto split: prod.splits intro!: kept_by_intros mutation_complete)
  moreover have "kept_by (complete_journal env s) (apply_validated env)"
    unfolding apply_validated_def validate_applied_def capture_applied_state_def
    by (intro kept_by_intros checkpoint_complete) (auto simp: kept_by_def monotonic_ns_def)
  moreover have "kept_by (complete_journal env s) (set_state st)" for st :: tx_state
    unfolding set_state_def by (intro kept_by_intros) simp
  ultimately show ?thesis unfolding apply_rest_def by (intro kept_by_then)
qed

lemma applied_journal_complete:
  assumes "apply_guarded env s t = (Inr u, t')" "\<forall>k. length (jo_urandom (ce_os env) k) = 16" "lower_hex_exactly 64 (cp_sha256 (ce_profile env))"
  shows "complete_journal env s t'"
proof -
  have "sx_then (start_journal env s) (apply_rest env s) t = (Inr u, t')" using assms(1) by (simp add: apply_guarded_def apply_rest_def)
  then obtain v t1 where 1: "start_journal env s t = (Inr v, t1)" and 2: "apply_rest env s t1 = (Inr u, t')" unfolding sx_then_Inr by blast
  show ?thesis by (rule kept_byD [OF apply_rest_complete 2 start_journal_complete [OF 1 assms(2,3)]])
qed

section \<open>Opening a complete journal\<close>

lemma journal_records_cong:
  assumes "j_file_fd j' = j_file_fd j" "j_profile_sha256 j' = j_profile_sha256 j" "j_transaction_id j' = j_transaction_id j"
  shows "journal_records os j' w = journal_records os j w"
proof -
  have l: "journal_line os j' sequence previous line = journal_line os j sequence previous line" for sequence previous line
    unfolding journal_line_def assms ..
  have "journal_lines os j' sequence previous lines = journal_lines os j sequence previous lines" for sequence previous lines
    by (induction lines arbitrary: sequence previous) (simp_all add: l)
  then show ?thesis unfolding journal_records_def assms by (simp only:)
qed

lemma written_records:
  assumes "written_journal os s j w" "4 \<le> jo_depth os" "identity_ok j" "snapshot_ok (jo_unicode os) s"
  obtains recs where "journal_records os j w = Inr recs" "length recs = j_next_sequence j"
    "and_then (record_field (hd recs) ''snapshot'') (snapshot_from_record (jo_unicode os)) = Inr s"
proof -
  from assms(1) obtain entries where w: "journal_written os j w ((lit ''prior_state_captured'', snapshot_as_record s) # entries)"
    "\<forall>e \<in> set entries. event_ok (fst e) \<and> snd e = PyNone" by (auto simp: written_journal_def)
  obtain d where d: "jo_depth os = Suc (Suc (Suc (Suc d)))" using le_Suc_ex [OF assms(2)] by (auto simp: eval_nat_numeral)
  from journal_written_reads [OF w(1) d assms(3,4) w(2)] obtain recs where r: "journal_records os j w = Inr recs"
    "map (\<lambda>r. record_field r ''event'') recs = map (\<lambda>e. Inr (PyStr e)) (lit ''prior_state_captured'' # map fst entries)"
    "and_then (record_field (hd recs) ''snapshot'') (snapshot_from_record (jo_unicode os)) = Inr s" by blast
  have "length recs = Suc (length entries)" using arg_cong [OF r(2), of length] by simp
  moreover have "j_next_sequence j = Suc (length entries)" using w(1) by (auto simp: journal_written_def)
  ultimately show ?thesis using that [OF r(1) _ r(3)] by simp
qed

lemma written_first_line:
  assumes "written_journal os s j w" "4 \<le> jo_depth os" "identity_ok j" "snapshot_ok (jo_unicode os) s"
  obtains node line ls rec where "w_fs w (j_file_fd j) = Some node" "splitlines_keep (n_data node) = line # ls" "line \<noteq> []" "last line = 10"
    "strict_journal_json (jo_depth os) (butlast line) = Inr rec" "map_of rec (PyStr (lit ''transaction_id'')) = Some (PyStr (j_transaction_id j))"
    "j_previous_sha256 j = hexdigest (sha256 (last (line # ls)))" "n_data node \<noteq> []" "length (n_data node) \<le> MAX_JOURNAL_BYTES"
proof -
  from assms(1) obtain entries where w: "journal_written os j w ((lit ''prior_state_captured'', snapshot_as_record s) # entries)"
    "\<forall>e \<in> set entries. event_ok (fst e) \<and> snd e = PyNone" by (auto simp: written_journal_def)
  obtain d where d: "jo_depth os = Suc (Suc (Suc (Suc d)))" using le_Suc_ex [OF assms(2)] by (auto simp: eval_nat_numeral)
  obtain line ls node recs where n: "w_fs w (j_file_fd j) = Some node" "n_data node = concat (line # ls)" "whole_lines (line # ls)"
    and l: "journal_line os j 0 ZERO_SHA256 line =
       Inr (entry_record (Suc (Suc (Suc d))) j 0 ZERO_SHA256 (lit ''prior_state_captured'', snapshot_as_record s))"
    and p: "j_previous_sha256 j = hexdigest (sha256 (last (line # ls)))"
    by (rule journal_written_lines [OF w(1) d assms(3,4) w(2)])
  let ?rec = "entry_record (Suc (Suc (Suc d))) j 0 ZERO_SHA256 (lit ''prior_state_captured'', snapshot_as_record s)"
  have s: "strict_journal_json (jo_depth os) (butlast line) = Inr ?rec" and g: "line \<noteq> [] \<and> last line = 10"
    and t: "record_field ?rec ''transaction_id'' = Inr (PyStr (j_transaction_id j))"
    using l by (auto simp: journal_line_def split: if_splits)
  have "map_of ?rec (PyStr (lit ''transaction_id'')) = Some (PyStr (j_transaction_id j))"
    using t by (simp add: record_field_def split: option.splits)
  moreover have "n_data node \<noteq> []" using n(2) g by simp
  moreover have "length (n_data node) \<le> MAX_JOURNAL_BYTES" using w(1) n(1) by (auto simp: journal_written_def)
  ultimately show ?thesis using that [OF n(1) _ _ _ s] splitlines_whole [OF n(3)] n(2) g p by simp
qed

lemma refresh_written:
  assumes "written_journal os s j w" "4 \<le> jo_depth os" "identity_ok j" "snapshot_ok (jo_unicode os) s"
    and "j_file_fd j' = j_file_fd j" "j_profile_sha256 j' = j_profile_sha256 j" "j_transaction_id j' = j_transaction_id j"
  shows "refresh_chain os (j', w) = (Inr (), (j'\<lparr>j_next_sequence := j_next_sequence j, j_previous_sha256 := j_previous_sha256 j\<rparr>, w))"
proof -
  obtain recs where r: "journal_records os j w = Inr recs" "length recs = j_next_sequence j"
    by (rule written_records [OF assms(1-4)])
  obtain node line ls where n: "w_fs w (j_file_fd j) = Some node" "splitlines_keep (n_data node) = line # ls"
    "j_previous_sha256 j = hexdigest (sha256 (last (line # ls)))" by (rule written_first_line [OF assms(1-4)])
  show ?thesis using r n journal_records_cong [OF assms(5-7)] assms(5)
    by (simp add: refresh_chain_def on_handle_run fstat_def)
qed

lemma existing_handle_written:
  assumes "written_journal os s j w" "4 \<le> jo_depth os" "identity_ok j" "snapshot_ok (jo_unicode os) s" "w_fs w (j_file_fd j) = Some node"
  shows "existing_handle os profile name parent_fd file_fd (n_data node) =
    Inr ((fresh_journal parent_fd file_fd (cp_recovery_journal_parent profile) (cp_sha256 profile) (j_transaction_id j))\<lparr>j_name := name\<rparr>)"
proof -
  obtain line ls rec where l: "splitlines_keep (n_data node) = line # ls" "line \<noteq> []" "last line = 10"
    "strict_journal_json (jo_depth os) (butlast line) = Inr rec" "map_of rec (PyStr (lit ''transaction_id'')) = Some (PyStr (j_transaction_id j))"
    by (rule written_first_line [OF assms(1-4)]) (use assms(5) in auto)
  moreover have "lower_hex_exactly 32 (j_transaction_id j)" using assms(3) by (simp add: identity_ok_def)
  ultimately show ?thesis by (simp add: existing_handle_def del: and_then_eq_Inr)
qed

text \<open>The handle a recovery opens is the handle the dead transaction held.\<close>

definition journal_of :: "control_profile \<Rightarrow> journal \<Rightarrow> bool" where
  "journal_of profile j \<longleftrightarrow> j_parent j = cp_recovery_journal_parent profile \<and> j_profile_sha256 j = cp_sha256 profile \<and>
     j_name j = journal_name (j_transaction_id j)"

lemma open_existing_complete:
  assumes "written_journal os s j w" "4 \<le> jo_depth os" "snapshot_ok (jo_unicode os) s" "journal_ready j w used" "journal_of profile j"
    and "open_absolute_directory_nofollow (cp_recovery_journal_parent profile) w = Inr (j_parent_fd j)" "jo_flock os (j_file_fd j) w = Inr ()"
    and "path_tail path = j_name j" "path_head path = cp_recovery_journal_parent profile" "normpath path = path"
  shows "open_existing_journal os profile path w = Inr j"
proof -
  have i: "identity_ok j" using assms(4) by (simp add: journal_ready_def)
  obtain node where n: "w_fs w (j_file_fd j) = Some node" "n_kind node = KReg" "n_mode node = 384" "n_nlink node = 1" "n_uid node = w_euid w"
    and lk: "dir_lookup (j_parent_fd j) (j_name j) w = Some (j_file_fd j)" using assms(4) by (auto simp: journal_ready_def)
  obtain node' where "w_fs w (j_file_fd j) = Some node'" "n_data node' \<noteq> []" "length (n_data node') \<le> MAX_JOURNAL_BYTES"
    by (rule written_first_line [OF assms(1,2) i assms(3)])
  then have b: "n_data node \<noteq> []" "length (n_data node) \<le> MAX_JOURNAL_BYTES" using n(1) by simp_all
  have name: "journal_name_ok (j_name j)" using i assms(5)
    by (simp add: journal_name_ok_def journal_of_def identity_ok_def journal_name_def lit_def lower_hex_exactly_def)
  have o: "open_file_at (j_parent_fd j) (j_name j) w = Inr (j_file_fd j)"
    using lk n by (simp add: open_file_at_def os_stat_def stat_at_def)
  let ?h = "(fresh_journal (j_parent_fd j) (j_file_fd j) (cp_recovery_journal_parent profile) (cp_sha256 profile) (j_transaction_id j))\<lparr>j_name := j_name j\<rparr>"
  have e: "existing_handle os profile (j_name j) (j_parent_fd j) (j_file_fd j) (n_data node) = Inr ?h"
    by (rule existing_handle_written [OF assms(1,2) i assms(3) n(1)])
  have "refresh_chain os (?h, w) = (Inr (), (?h\<lparr>j_next_sequence := j_next_sequence j, j_previous_sha256 := j_previous_sha256 j\<rparr>, w))"
    by (rule refresh_written [OF assms(1,2) i assms(3)]) (use assms(5) in \<open>simp_all add: fresh_journal_def journal_of_def\<close>)
  moreover have "?h\<lparr>j_next_sequence := j_next_sequence j, j_previous_sha256 := j_previous_sha256 j\<rparr> = j"
    using assms(4,5) by (simp add: fresh_journal_def journal_of_def journal_ready_def)
  ultimately show ?thesis using assms(6-10) name o n b e
    by (simp add: open_existing_journal_def fstat_def flock_existing_def del: and_then_eq_Inr)
qed

section \<open>A recovery that succeeds\<close>

lemma note_written:
  assumes "written_journal os s j w" "4 \<le> jo_depth os" "snapshot_ok (jo_unicode os) s" "makes_progress os" "event_ok (lit event)"
    and "journal_ready j w used" "used + 40000 \<le> MAX_JOURNAL_BYTES" "j_next_sequence j < MAX_JOURNAL_RECORDS"
  obtains j' w' where "guardian_note os event ((j, w), h) = (Inr [], ((j', w'), h))" 
proof -
  have i: "identity_ok j" using assms(6) by (simp add: journal_ready_def)
  have d: "0 < jo_depth os" using assms(2) by simp
  from append_event_ready [OF assms(4) d assms(6,5,7,8)] obtain j' w' where
    a: "journal_append os (lit event) PyNone (j, w) = (Inr (), (j', w'))" by blast
  have r: "refresh_chain os (j, w) = (Inr (), (j, w))" using refresh_written [OF assms(1,2) i assms(3), of j] by simp
  have "guardian_note os event ((j, w), h) = (Inr [], ((j', w'), h))"
    using a r by (simp add: guardian_note_def attempt_run child_journal_def sx_on_def)
  then show ?thesis by (rule that)
qed

lemma manual_recovery_succeeds:
  assumes "written_journal (ce_os env) s j w" "4 \<le> jo_depth (ce_os env)" "snapshot_ok (jo_unicode (ce_os env)) s" "makes_progress (ce_os env)"
    and "journal_ready j w used" "used + 80000 \<le> MAX_JOURNAL_BYTES" "j_next_sequence j + 1 < MAX_JOURNAL_RECORDS"
    and "be_require_privilege (ce_backend env) h = Inr ()" "recovery_receipt env path s = Inr receipt"
    and "\<And>jw. recover_snapshot_exact (jo_unicode (ce_os env)) (ce_profile env) s (ce_backend env) child_host snd False None (jw, h) = (Inr (), (jw, h'))"
  shows "\<exists>jw. manual_recovery env path ((j, w), h) = (Inr receipt, (jw, h'))"
proof -
  let ?os = "ce_os env"
  have i: "identity_ok j" using assms(5) by (simp add: journal_ready_def)
  obtain recs where r: "journal_records ?os j w = Inr recs" "and_then (record_field (hd recs) ''snapshot'') (snapshot_from_record (jo_unicode ?os)) = Inr s"
    by (rule written_records [OF assms(1,2) i assms(3)])
  have ev: "event_ok (lit ''manual_recovery_started'')" "event_ok (lit ''manual_recovery_verified'')" by (simp_all add: event_ok_def lit_def is_digit_def)
  have d: "0 < jo_depth ?os" "used + 40000 \<le> MAX_JOURNAL_BYTES" "j_next_sequence j < MAX_JOURNAL_RECORDS" using assms(2,6,7) by simp_all
  from append_event_ready [OF assms(4) d(1) assms(5) ev(1) d(2,3)] obtain j1 w1 where
    a: "journal_append ?os (lit ''manual_recovery_started'') PyNone (j, w) = (Inr (), (j1, w1))" "journal_ready j1 w1 (used + 40000)"
    "j_next_sequence j1 = j_next_sequence j + 1" by blast
  have s1: "attempt (child_journal (journal_append ?os (lit ''manual_recovery_started'') PyNone)) ((j, w), h) = (Inr [], ((j1, w1), h))"
    using a(1) by (simp add: attempt_run child_journal_def sx_on_def)
  obtain j2 w2 where n: "guardian_note ?os ''manual_recovery_verified'' ((j1, w1), h') = (Inr [], ((j2, w2), h'))"
    by (rule note_written [OF append_written_journal [OF a(1) assms(1)] assms(2-4) ev(2) a(2)]) (use assms(6,7) a(3) in simp_all)
  have "manual_recovery env path ((j, w), h) = (Inr receipt, ((j2, w2), h'))"
    unfolding manual_recovery_def using r assms(8-10) s1 n by (simp del: and_then_eq_Inr)
  then show ?thesis by blast
qed

lemma recover_control_succeeds:
  assumes "open_existing_journal (ce_os env) (ce_profile env) path w = Inr j" "manual_recovery env path ((j, w), h) = (Inr receipt, (jw, h'))"
  shows "\<exists>w'. recover_control_journal env path (w, h) = (Inr receipt, (w', h'))"
  using assms by (cases jw) (simp add: recover_control_journal_def sx_try_def)

section \<open>The journal a stopped application leaves\<close>

lemma apply_guarded_parts: "apply_guarded env s = sx_then (start_journal env s) (apply_rest env s)"
  by (simp add: apply_guarded_def apply_rest_def)

lemma journal_left:
  assumes "start_journal env s t = (Inr u, t1)" "apply_rest env s t1 = (r, t')" "w_fs (tx_fs t) (w_next (tx_fs t)) = None"
  obtains j0 line k j where
    "control_json (jo_depth (ce_os env)) (journal_record j0 (lit ''prior_state_captured'') (snapshot_as_record s)) = Inr line"
    "j0 = fresh_journal (j_parent_fd j0) (j_file_fd j0) (cp_recovery_journal_parent (ce_profile env)) (cp_sha256 (ce_profile env))
       (hexdigest (jo_urandom (ce_os env) k))"
    "tx_journal t' = Some j" "handle_id j = handle_id j0" "line_kept line (j_file_fd j0) (j_parent_fd j0) (j_name j0) (tx_fs t')"
    "open_absolute_directory_nofollow (cp_recovery_journal_parent (ce_profile env)) (tx_fs t') = Inr (j_parent_fd j0)"
proof -
  from start_journal_first [OF assms(1,3)] obtain j0 line k where
    l: "control_json (jo_depth (ce_os env)) (journal_record j0 (lit ''prior_state_captured'') (snapshot_as_record s)) = Inr line"
    and kept: "line_kept line (j_file_fd j0) (j_parent_fd j0) (j_name j0) (tx_fs t1)" and h: "tx_handle t1 = Some (handle_id j0)"
    and j0: "j0 = fresh_journal (j_parent_fd j0) (j_file_fd j0) (cp_recovery_journal_parent (ce_profile env)) (cp_sha256 (ce_profile env))
       (hexdigest (jo_urandom (ce_os env) k))"
    and op: "open_absolute_directory_nofollow (cp_recovery_journal_parent (ce_profile env)) (tx_fs t1) = Inr (j_parent_fd j0)" by blast
  have "tx_handle t' = Some (handle_id j0)" using tx_handle.apply_rest_upholds [THEN upholdsD, OF assms(2)] h by (simp add: same_def)
  then obtain j where j: "tx_journal t' = Some j" "handle_id j = handle_id j0" by (auto simp: tx_handle_def)
  have "line_kept line (j_file_fd j0) (j_parent_fd j0) (j_name j0) (tx_fs t')"
    using tx_line.apply_rest_upholds [THEN upholdsD, OF assms(2)] kept by (simp add: keeps_line_def)
  with that [OF l j0 j] show ?thesis
    using open_absolute_extends [OF op tx_extends.apply_rest_upholds [THEN upholdsD, OF assms(2)]] by blast
qed

lemma journal_path_tail:
  assumes "handle_id j = handle_id (fresh_journal parent_fd file_fd parent profile txn)" "lower_hex_exactly 32 txn"
    and "open_absolute_directory_nofollow parent w = Inr fd"
  shows "path_tail (journal_path (j_parent j) (j_name j)) = j_name j" "j_name j = journal_name txn" "j_parent j = parent"
proof -
  have "parent \<noteq> []" using assms(3) by (auto simp: open_absolute_directory_nofollow_def isabs_def starts_with_def lit_def split: if_splits)
  then show "path_tail (journal_path (j_parent j) (j_name j)) = j_name j" "j_name j = journal_name txn" "j_parent j = parent"
    using path_tail_journal journal_name_plain [OF assms(2)] assms(1) by (simp_all add: handle_id_def fresh_journal_def)
qed

section \<open>The sample transaction, crashed and recovered\<close>

lemma sample_journal_path:
  assumes "lower_hex_exactly 32 txn"
  shows "normpath (journal_path (lit ''/tmp'') (journal_name txn)) = journal_path (lit ''/tmp'') (journal_name txn)"
    "path_head (journal_path (lit ''/tmp'') (journal_name txn)) = lit ''/tmp''"
proof -
  have n: "47 \<notin> set (journal_name txn)" by (rule journal_name_plain [OF assms])
  have p: "journal_path (lit ''/tmp'') (journal_name txn) = lit ''/tmp/'' @ journal_name txn" by (simp add: journal_path_def lit_def)
  have e: "journal_name txn \<noteq> []" "journal_name txn \<noteq> lit ''.''" "journal_name txn \<noteq> lit ''..''" by (simp_all add: journal_name_def lit_def)
  have s: "split_on 47 (journal_name txn) = [journal_name txn]" using n by (rule split_on_single)
  show "normpath (journal_path (lit ''/tmp'') (journal_name txn)) = journal_path (lit ''/tmp'') (journal_name txn)"
    unfolding p using s e by (simp add: normpath_def posix_root_def norm_step_def Cp2_Schema.join_with_def lit_def)
  have "path_tail (lit ''/tmp/'' @ journal_name txn) = journal_name txn"
    using path_tail_journal [OF n, of "lit ''/tmp''"] p by (simp add: lit_def)
  then show "path_head (journal_path (lit ''/tmp'') (journal_name txn)) = lit ''/tmp''"
    unfolding p by (simp add: path_head_def lit_def)
qed

lemma sample_recovery:
  "recover_snapshot_exact plain_unicode sample_profile prior_snapshot sample_backend child_host snd False None (jw, applied_host) =
     (Inr (), (jw, (lit ''0'', [1])))"
proof -
  have p: "cp_module_actions sample_profile = []" "cp_service_actions sample_profile = []" "cs_values prior_snapshot = [(lit ''/proc/irq/9'', lit ''text'', PyStr (lit ''0''))]"
    "cp_writes sample_profile = [\<lparr>wa_path = lit ''/proc/irq/9'', wa_desired_text = lit ''1'', wa_parser = lit ''text''\<rparr>]"
    by (simp_all add: sample_profile_def prior_snapshot_def)
  have w: "restore_write plain_unicode sample_backend (lit ''/proc/irq/9'') (lit ''text'') (PyStr (lit ''0'')) applied_host = (Inr (), (lit ''0'', [1]))"
    by (simp add: restore_write_def sample_backend_def applied_host_def parse_control_value_def)
  then have "recover_operation None (indexed ''write_'' 0) (child_host (restore_write plain_unicode sample_backend (lit ''/proc/irq/9'') (lit ''text'') (PyStr (lit ''0''))))
      (jw, applied_host) = (Inr [], (jw, (lit ''0'', [1])))"
    by (simp add: recover_operation_def attempt_run child_host_def sx_on_def)
  moreover have "verify_snapshot_exact plain_unicode sample_profile prior_snapshot sample_backend False (lit ''0'', [1]) = []"
    by (simp add: verify_snapshot_exact_def p verify_value_def) (simp add: sample_backend_def parse_control_value_def)
  ultimately show ?thesis by (simp add: recover_snapshot_exact_def p)
qed

lemma sample_receipt:
  assumes "list_all is_scalar path"
  shows "\<exists>receipt. recovery_receipt (sample_env f) path prior_snapshot = Inr receipt"
proof -
  have "json_wf (Suc (Suc (Suc (Suc 0)))) (snapshot_as_record prior_snapshot)" 
    using wf_snapshot [OF prior_snapshot_ok, of "Suc 0"] by (simp add: eval_nat_numeral del: json_wf.simps)
  then obtain b where b: "control_json 4 (snapshot_as_record prior_snapshot) = Inr b"
    using line_reads_back unfolding snapshot_record_items by (auto simp: eval_nat_numeral simp del: json_wf.simps)
  let ?items = "[(''schema_version'', PyInt 1), (''record_type'', PyStr (lit ''cp2_timing_control_manual_recovery'')),
       (''profile_sha256'', PyStr ZERO_SHA256), (''journal_path'', PyStr path),
       (''snapshot_sha256'', PyStr (hexdigest (sha256 b))), (''passed'', PyBool True)]"
  have "list_all is_scalar (hexdigest (sha256 b))" "list_all is_scalar ZERO_SHA256"
    using lower_hex_scalars sha_hex zero_sha_hex by blast+
  then have "json_wf (Suc (Suc (Suc (Suc 0)))) (PyDict (lit_items ?items))"
    using assms by (simp add: lit_items_def lit_def is_scalar_def scalar_normal_def)
  from line_reads_back [OF this] obtain c where "control_json 4 (PyDict (lit_items ?items)) = Inr c" by (auto simp: eval_nat_numeral)
  then show ?thesis using b by (simp add: recovery_receipt_def snapshot_digest_def sample_env_simps str_record_items Let_def)
qed

lemma sample_crash:
  obtains t j receipt w' where "apply_guarded (sample_env (fault_at [])) prior_snapshot captured_tx = (Inr (), t)" "tx_host t = applied_host"
    "tx_journal t = Some j"
    "recover_control_journal (sample_env (fault_at [])) (journal_path (j_parent j) (j_name j)) (tx_fs t, applied_host) = (Inr receipt, (w', (lit ''0'', [1])))"
proof -
  let ?e = "sample_env (fault_at [])"
  obtain t where a: "apply_guarded ?e prior_snapshot captured_tx = (Inr (), t)" and ready: "tx_ready 8 t" and c: "core t = core_of applied_host Applied (Some applied_receipt) None"
    by (rule sample_apply_guarded [of "[]"]) (simp_all add: late_fault_def lit_def)
  then obtain t1 where st: "start_journal ?e prior_snapshot captured_tx = (Inr (), t1)" and rest: "apply_rest ?e prior_snapshot t1 = (Inr (), t)"
    unfolding apply_guarded_parts sx_then_Inr by auto
  have fs: "w_fs (tx_fs captured_tx) (w_next (tx_fs captured_tx)) = None" by (simp add: captured_tx_def start_tx_def sample_world_def)
  note s = sample_env_simps sample_os_works
  have par: "cp_recovery_journal_parent sample_profile = lit ''/tmp''" by (simp add: sample_profile_def)
  obtain j0 k j where j0: "j0 = fresh_journal (j_parent_fd j0) (j_file_fd j0) (lit ''/tmp'') ZERO_SHA256 (hexdigest (jo_urandom sample_os k))"
    and j: "tx_journal t = Some j" "handle_id j = handle_id j0" and op: "open_absolute_directory_nofollow (lit ''/tmp'') (tx_fs t) = Inr (j_parent_fd j0)"
    by (rule journal_left [OF st rest fs]) (simp add: s par)
  have txn: "lower_hex_exactly 32 (hexdigest (jo_urandom sample_os k))" using hexdigest_shape [of "jo_urandom sample_os k"] sample_os_works(3) by simp
  note jp = journal_path_tail [OF j(2) [unfolded j0 [THEN arg_cong, of handle_id]] txn op]
  have of: "journal_of sample_profile j" using j(2) unfolding j0 [THEN arg_cong, of handle_id]
    by (simp add: journal_of_def handle_id_def fresh_journal_def par s)
  have wr: "written_journal sample_os prior_snapshot j (tx_fs t)"
    using applied_journal_complete [OF a] j(1) zero_sha_hex by (simp add: s complete_journal_def)
  have rd: "journal_ready j (tx_fs t) 520000" "j_next_sequence j = 9" using ready j(1) by (auto simp: tx_ready_def)
  let ?path = "journal_path (j_parent j) (j_name j)"
  have d: "4 \<le> jo_depth sample_os" "snapshot_ok (jo_unicode sample_os) prior_snapshot" using prior_snapshot_ok by (simp_all add: s)
  have o: "open_existing_journal sample_os sample_profile ?path (tx_fs t) = Inr j"
    by (rule open_existing_complete [OF wr d rd(1) of _ sample_os_works(4) [rule_format]])
      (use op jp j(2) sample_journal_path [OF txn] in \<open>simp_all add: par handle_id_def\<close>)
  have "list_all is_scalar ?path" using lower_hex_scalars [OF txn] by (simp add: jp journal_path_def journal_name_def lit_scalar) (simp add: lit_def is_scalar_def)
  then obtain receipt where r: "recovery_receipt ?e ?path prior_snapshot = Inr receipt" using sample_receipt by blast
  have "\<exists>jw. manual_recovery ?e ?path ((j, tx_fs t), applied_host) = (Inr receipt, (jw, (lit ''0'', [1])))"
    by (rule manual_recovery_succeeds [where s = prior_snapshot and used = 520000])
      (use wr d rd r sample_recovery sample_os_works in \<open>simp_all add: s MAX_JOURNAL_BYTES_def MAX_JOURNAL_RECORDS_def\<close>)
  then obtain jw where m: "manual_recovery ?e ?path ((j, tx_fs t), applied_host) = (Inr receipt, (jw, (lit ''0'', [1])))" ..
  have "open_existing_journal (ce_os ?e) (ce_profile ?e) ?path (tx_fs t) = Inr j" using o by (simp add: s)
  from recover_control_succeeds [OF this m]
  obtain w' where "recover_control_journal ?e ?path (tx_fs t, applied_host) = (Inr receipt, (w', (lit ''0'', [1])))" ..
  moreover have "tx_host t = applied_host" using c by (simp add: core_def core_of_def)
  ultimately show ?thesis using that a j(1) by blast
qed

section \<open>Properties\<close>



end
