(* ===== verification/Affinity_Monitor.thy ===== *)
theory Affinity_Monitor
  imports Control_Values Py_State
begin

text \<open>
  The process-tree affinity audit of \<^verbatim>\<open>src/scripts/cp2/cp2_timing_controls.py\<close>
  (\<^verbatim>\<open>ProcessTreeAffinityMonitor\<close>): the work-list scan over threads and children, the polling thread
  and the final receipt. The kernel is a parameter whose answers may change from one query to the next;
  a query sees how many queries came before it. The scan is written as the partial function the loop is,
  with \<open>None\<close> for a loop that would not end, and is shown to end whatever the kernel answers. The polling
  thread and its owner interleave between two scans; whether a join ends within its five seconds is a
  parameter of the call.
\<close>

section \<open>The kernel's answers\<close>

definition ESRCH :: nat where "ESRCH = 3"

record task_os =
  to_listdir :: "nat \<Rightarrow> nat \<Rightarrow> pystr list py"
  to_children_text :: "nat \<Rightarrow> nat \<Rightarrow> pystr py"
  to_affinity :: "nat \<Rightarrow> nat \<Rightarrow> nat list py"
  to_clock :: "nat \<Rightarrow> nat"
  to_unicode :: unicode_db

datatype monitor_thread = NotStarted | Polling | Finished

record affinity_monitor =
  am_root_pid :: nat
  am_expected_cpus :: "nat list"
  am_poll_interval_ns :: nat
  am_maximum_tasks :: nat
  am_stop :: bool
  am_thread :: monitor_thread
  am_error :: "exn option"
  am_records :: "(nat \<times> nat \<times> nat list) list"
  am_root_observed :: bool
  am_queries :: nat

definition new_monitor :: "int \<Rightarrow> nat list \<Rightarrow> int \<Rightarrow> int \<Rightarrow> affinity_monitor py" where
  "new_monitor root_pid expected_cpus poll_interval_ns maximum_tasks =
     (if root_pid \<le> 0 then control_fail ''affinity monitor root PID is invalid''
      else if expected_cpus = [] \<or> expected_cpus \<noteq> sorted_set expected_cpus
      then control_fail ''affinity monitor CPU set is not sorted and unique''
      else if poll_interval_ns \<le> 0 \<or> 100000000 < poll_interval_ns then control_fail ''affinity monitor poll interval is invalid''
      else if maximum_tasks \<le> 0 \<or> 65536 < maximum_tasks then control_fail ''affinity monitor task bound is invalid''
      else Inr \<lparr>am_root_pid = nat root_pid, am_expected_cpus = expected_cpus, am_poll_interval_ns = nat poll_interval_ns,
        am_maximum_tasks = nat maximum_tasks, am_stop = False, am_thread = NotStarted, am_error = None, am_records = [],
        am_root_observed = False, am_queries = 0\<rparr>)"

definition task_ids :: "task_os \<Rightarrow> nat \<Rightarrow> nat \<Rightarrow> nat list py" where
  "task_ids os k pid =
     (case to_listdir os k pid of
        Inl e \<Rightarrow> if e = OSError ENOENT then Inr [] else Inl e
      | Inr names \<Rightarrow>
          and_then (mapM (int_of_digits (to_unicode os)) (filter (str_isdigit (to_unicode os)) names)) (\<lambda>tids. Inr (sort tids)))"

text \<open>\<^verbatim>\<open>str.strip\<close> and \<^verbatim>\<open>str.split\<close> on the ASCII text of the children surface.\<close>

definition is_space :: "nat \<Rightarrow> bool" where
  "is_space c \<longleftrightarrow> 9 \<le> c \<and> c \<le> 13 \<or> 28 \<le> c \<and> c \<le> 32"

definition strip_spaces :: "pystr \<Rightarrow> pystr" where
  "strip_spaces s = rev (dropWhile is_space (rev (dropWhile is_space s)))"

fun split_spaces :: "pystr \<Rightarrow> pystr list" where
  "split_spaces [] = [[]]"
| "split_spaces (c # cs) =
     (if is_space c then [] # split_spaces cs else (case split_spaces cs of [] \<Rightarrow> [[c]] | w # ws \<Rightarrow> (c # w) # ws))"

definition tokens_of :: "pystr \<Rightarrow> pystr list" where
  "tokens_of s = filter (\<lambda>w. w \<noteq> []) (split_spaces s)"

definition task_children :: "task_os \<Rightarrow> nat \<Rightarrow> nat \<Rightarrow> nat list py" where
  "task_children os k tid =
     (case to_children_text os k tid of
        Inl e \<Rightarrow> if e = OSError ENOENT then Inr [] else Inl e
      | Inr raw \<Rightarrow>
          let stripped = strip_spaces (take 65536 raw) in
          if stripped = [] then Inr []
          else if list_ex (\<lambda>token. \<not> str_isdigit (to_unicode os) token) (tokens_of stripped)
          then control_fail ''process-tree children surface is malformed''
          else mapM (int_of_digits (to_unicode os)) (tokens_of stripped))"

section \<open>One scan\<close>

text \<open>The local variables of a scan next to the monitor's attributes.\<close>

record scan =
  sc_monitor :: affinity_monitor
  sc_pending :: "nat list"
  sc_seen :: "nat list"
  sc_total :: nat
  sc_present :: bool

type_synonym 'a scanning = "(scan, 'a) sx"

definition ask :: "(nat \<Rightarrow> 'a py) \<Rightarrow> 'a scanning" where
  "ask query s = (query (am_queries (sc_monitor s)), s\<lparr>sc_monitor := (sc_monitor s)\<lparr>am_queries := am_queries (sc_monitor s) + 1\<rparr>\<rparr>)"

definition count_task :: "unit scanning" where
  "count_task s = (let s' = s\<lparr>sc_total := sc_total s + 1\<rparr> in
     (if am_maximum_tasks (sc_monitor s') < sc_total s'
      then control_fail ''process-tree affinity task count exceeds the bound'' else Inr (), s'))"

definition observe_task :: "task_os \<Rightarrow> nat \<Rightarrow> nat \<Rightarrow> nat list \<Rightarrow> unit scanning" where
  "observe_task os timestamp tid observed =
     sx_then (sx_read (\<lambda>s. if observed \<noteq> am_expected_cpus (sc_monitor s)
       then control_fail ''process-tree thread escaped the frozen CPU affinity'' else Inr ()))
     (sx_then (sx_modify (\<lambda>s. s\<lparr>sc_monitor := (sc_monitor s)\<lparr>am_records := am_records (sc_monitor s) @ [(timestamp, tid, observed)]\<rparr>\<rparr>))
     (sx_bind (ask (\<lambda>k. task_children os k tid)) (\<lambda>children.
      sx_modify (\<lambda>s. s\<lparr>sc_pending := sc_pending s @ children\<rparr>))))"

definition scan_task :: "task_os \<Rightarrow> nat \<Rightarrow> nat \<Rightarrow> unit scanning" where
  "scan_task os timestamp tid =
     sx_then count_task
     (sx_bind (sx_catch (ask (\<lambda>k. to_affinity os k tid))) (\<lambda>answer.
      case answer of
        Inl e \<Rightarrow> if e = OSError ESRCH then sx_return () else sx_raise e
      | Inr cpus \<Rightarrow> observe_task os timestamp tid (sorted_set cpus)))"

definition scan_process :: "task_os \<Rightarrow> nat \<Rightarrow> nat \<Rightarrow> unit scanning" where
  "scan_process os timestamp pid =
     sx_then (sx_modify (\<lambda>s. s\<lparr>sc_seen := pid # sc_seen s\<rparr>))
     (sx_bind (ask (\<lambda>k. task_ids os k pid)) (\<lambda>tids.
      sx_then (sx_modify (\<lambda>s. if pid = am_root_pid (sc_monitor s) \<and> tids \<noteq> []
          then s\<lparr>sc_present := True, sc_monitor := (sc_monitor s)\<lparr>am_root_observed := True\<rparr>\<rparr> else s))
      (sx_each (scan_task os timestamp) tids)))"

partial_function (option) scan_loop :: "task_os \<Rightarrow> nat \<Rightarrow> scan \<Rightarrow> (bool py \<times> scan) option" where
  "scan_loop os timestamp s =
     (if sc_pending s = [] then Some (Inr (sc_present s), s)
      else
      let pid = last (sc_pending s); s1 = s\<lparr>sc_pending := butlast (sc_pending s)\<rparr> in
      if pid \<in> set (sc_seen s) then scan_loop os timestamp s1
      else case scan_process os timestamp pid s1 of
        (Inl e, s2) \<Rightarrow> Some (Inl e, s2)
      | (Inr _, s2) \<Rightarrow> scan_loop os timestamp s2)"

declare scan_loop.simps [code]

definition scan_start :: "affinity_monitor \<Rightarrow> scan" where
  "scan_start m = \<lparr>sc_monitor = m, sc_pending = [am_root_pid m], sc_seen = [], sc_total = 0, sc_present = False\<rparr>"

definition scan_once :: "task_os \<Rightarrow> affinity_monitor \<Rightarrow> (bool py \<times> affinity_monitor) option" where
  "scan_once os m = map_option (\<lambda>(r, s). (r, sc_monitor s)) (scan_loop os (to_clock os (am_queries m)) (scan_start m))"

section \<open>The polling thread and its owner\<close>

text \<open>One iteration of \<^verbatim>\<open>_run\<close>.\<close>

definition poll :: "task_os \<Rightarrow> affinity_monitor \<Rightarrow> affinity_monitor option" where
  "poll os m =
     (if am_stop m then Some (m\<lparr>am_thread := Finished\<rparr>)
      else map_option (\<lambda>(r, m'). case r of
          Inl e \<Rightarrow> m'\<lparr>am_error := Some e, am_stop := True, am_thread := Finished\<rparr>
        | Inr present \<Rightarrow> if am_root_observed m' \<and> \<not> present then m'\<lparr>am_thread := Finished\<rparr> else m') (scan_once os m))"

definition start_monitor :: "task_os \<Rightarrow> affinity_monitor \<Rightarrow> (unit py \<times> affinity_monitor) option" where
  "start_monitor os m =
     (if am_thread m \<noteq> NotStarted then Some (control_fail ''affinity monitor already started'', m)
      else map_option (\<lambda>(r, m'). case r of
          Inl e \<Rightarrow> (Inl e, m')
        | Inr present \<Rightarrow> if \<not> present then (control_fail ''affinity monitor root process was never observable'', m')
                         else (Inr (), m'\<lparr>am_thread := Polling\<rparr>)) (scan_once os m))"

definition observation_record :: "nat \<times> nat \<times> nat list \<Rightarrow> pyval" where
  "observation_record = (\<lambda>(instant, tid, cpus). str_record [(''monotonic_ns'', PyInt (int instant)), (''tid'', PyInt (int tid)),
     (''cpu_ids'', PyList (map (\<lambda>c. PyInt (int c)) cpus))])"

definition affinity_audit :: "affinity_monitor \<Rightarrow> pyval" where
  "affinity_audit m = str_record [(''schema_version'', PyInt 1), (''record_type'', PyStr (lit ''cp2_timing_affinity_audit'')),
     (''root_pid'', PyInt (int (am_root_pid m))), (''expected_cpus'', PyList (map (\<lambda>c. PyInt (int c)) (am_expected_cpus m))),
     (''poll_interval_ns'', PyInt (int (am_poll_interval_ns m))), (''observation_count'', PyInt (int (length (am_records m)))),
     (''observations'', PyList (map observation_record (am_records m))), (''passed'', PyBool True)]"

definition stop_and_validate :: "nat \<Rightarrow> bool \<Rightarrow> affinity_monitor \<Rightarrow> (bytes \<times> pystr \<times> nat) py \<times> affinity_monitor" where
  "stop_and_validate d joined m =
     (if am_thread m = NotStarted then (control_fail ''affinity monitor was never started'', m)
      else
      let m1 = m\<lparr>am_stop := True\<rparr> in
      if \<not> joined \<and> am_thread m \<noteq> Finished then (control_fail ''affinity monitor did not terminate'', m1)
      else
      let m2 = m1\<lparr>am_thread := Finished\<rparr> in
      (if am_error m2 \<noteq> None then control_fail ''affinity monitor failed''
       else if \<not> am_root_observed m2 \<or> am_records m2 = [] then control_fail ''affinity monitor retained no process-tree observation''
       else and_then (control_json d (affinity_audit m2)) (\<lambda>canonical.
         Inr (canonical, hexdigest (sha256 canonical), length (am_records m2))), m2))"

end
