(* ===== verification/Affinity_Monitor_Correct.thy ===== *)
theory Affinity_Monitor_Correct
  imports Affinity_Monitor Control_Journal_Correct
begin

text \<open>
  Correctness of the affinity audit: a scan ends whatever the kernel answers, a scan that passes on a tree
  at rest has looked at every thread of every descendant, and the receipt of the monitor certifies that no
  scan ever saw a thread outside the frozen mask.
\<close>

section \<open>What a scan changes\<close>

text \<open>The configuration of the monitor and the control attributes of its thread.\<close>

definition setting :: "affinity_monitor \<Rightarrow> nat \<times> nat list \<times> nat \<times> nat \<times> bool \<times> monitor_thread \<times> exn option" where
  "setting m = (am_root_pid m, am_expected_cpus m, am_poll_interval_ns m, am_maximum_tasks m, am_stop m, am_thread m, am_error m)"

definition clean :: "affinity_monitor \<Rightarrow> bool" where
  "clean m \<longleftrightarrow> (\<forall>(t, tid, cpus) \<in> set (am_records m). cpus = am_expected_cpus m)"

definition scan_grows :: "scan \<Rightarrow> scan \<Rightarrow> bool" where
  "scan_grows s s' \<longleftrightarrow> setting (sc_monitor s') = setting (sc_monitor s) \<and> sc_total s \<le> sc_total s' \<and>
     set (sc_seen s) \<subseteq> set (sc_seen s') \<and>
     (\<exists>new. am_records (sc_monitor s') = am_records (sc_monitor s) @ new \<and>
        (\<forall>(t, tid, cpus) \<in> set new. cpus = am_expected_cpus (sc_monitor s))) \<and>
     (am_root_observed (sc_monitor s) \<longrightarrow> am_root_observed (sc_monitor s')) \<and>
     (\<exists>more. sc_pending s' = sc_pending s @ more)"

interpretation grows: state_order scan_grows
proof
  fix s t u assume "scan_grows s t" "scan_grows t u"
  then show "scan_grows s u" unfolding scan_grows_def setting_def by fastforce
qed (simp add: scan_grows_def)

lemma ask_grows: "upholds scan_grows (ask query)"
  by (rule upholdsI) (simp add: ask_def scan_grows_def setting_def)

lemma observe_grows: "upholds scan_grows (observe_task os timestamp tid observed)"
  unfolding upholds_def
proof (intro allI impI)
  fix s r s' assume run: "observe_task os timestamp tid observed s = (r, s')"
  then show "scan_grows s s'"
    by (cases r) (auto simp: observe_task_def sx_then_Inl sx_then_Inr sx_bind_Inl sx_bind_Inr ask_def scan_grows_def setting_def)
qed

lemma scan_task_grows: "upholds scan_grows (scan_task os timestamp tid)"
proof -
  have "upholds scan_grows count_task" by (rule upholdsI) (simp add: count_task_def Let_def scan_grows_def)
  then show ?thesis unfolding scan_task_def
    by (intro grows.upholds_then grows.upholds_bind grows.upholds_catch ask_grows)
      (auto intro: grows.upholds_return grows.upholds_raise observe_grows split: sum.splits)
qed

lemma scan_process_grows: "upholds scan_grows (scan_process os timestamp pid)"
  unfolding scan_process_def
  by (intro grows.upholds_then grows.upholds_bind grows.upholds_each scan_task_grows ask_grows grows.upholds_modify)
    (auto simp: scan_grows_def setting_def)

section \<open>A scan ends\<close>

lemma scan_task_counts:
  assumes "scan_task os timestamp tid s = (Inr u, s')"
  shows "sc_total s < sc_total s'" "sc_total s' \<le> am_maximum_tasks (sc_monitor s')"
proof -
  from assms obtain s1 where c: "count_task s = (Inr (), s1)"
    and r: "sx_bind (sx_catch (ask (\<lambda>k. to_affinity os k tid))) (\<lambda>answer. case answer of
        Inl e \<Rightarrow> if e = OSError ESRCH then sx_return () else sx_raise e
      | Inr cpus \<Rightarrow> observe_task os timestamp tid (sorted_set cpus)) s1 = (Inr u, s')"
    by (auto simp: scan_task_def sx_then_Inr)
  have "sc_total s1 = sc_total s + 1" "sc_total s1 \<le> am_maximum_tasks (sc_monitor s1)"
    using c by (auto simp: count_task_def Let_def control_fail_def split: if_splits)
  moreover have "sc_total s' = sc_total s1" "am_maximum_tasks (sc_monitor s') = am_maximum_tasks (sc_monitor s1)"
    using r by (auto simp: sx_bind_Inr sx_catch_eq ask_def observe_task_def sx_then_Inr split: sum.splits if_splits)
  ultimately show "sc_total s < sc_total s'" "sc_total s' \<le> am_maximum_tasks (sc_monitor s')" by simp_all
qed

lemma scan_tasks_count:
  assumes "sx_each (scan_task os timestamp) tids s = (Inr u, s')" "tids \<noteq> []"
  shows "sc_total s < sc_total s' \<and> sc_total s' \<le> am_maximum_tasks (sc_monitor s')"
  using assms
proof (induction tids arbitrary: s)
  case (Cons tid tids)
  then obtain s1 where 1: "scan_task os timestamp tid s = (Inr (), s1)" and 2: "sx_each (scan_task os timestamp) tids s1 = (Inr u, s')"
    by (auto simp: sx_bind_Inr)
  show ?case
  proof (cases "tids = []")
    case True
    then show ?thesis using scan_task_counts [OF 1] 2 by simp
  next
    case False
    then show ?thesis using scan_task_counts(1) [OF 1] Cons.IH [OF 2] by simp
  qed
qed simp

lemma scan_process_run:
  assumes "scan_process os timestamp pid s = (Inr u, s')"
  shows "\<exists>tids s1. task_ids os (am_queries (sc_monitor s)) pid = Inr tids \<and> sx_each (scan_task os timestamp) tids s1 = (Inr u, s') \<and>
    sc_total s1 = sc_total s \<and> sc_pending s1 = sc_pending s \<and> sc_seen s1 = pid # sc_seen s \<and>
    setting (sc_monitor s1) = setting (sc_monitor s) \<and> am_records (sc_monitor s1) = am_records (sc_monitor s)"
proof (cases "task_ids os (am_queries (sc_monitor s)) pid")
  case (Inr tids)
  let ?q = "s\<lparr>sc_seen := pid # sc_seen s, sc_monitor := (sc_monitor s)\<lparr>am_queries := am_queries (sc_monitor s) + 1\<rparr>\<rparr>"
  define s1 where "s1 = (if pid = am_root_pid (sc_monitor ?q) \<and> tids \<noteq> []
    then ?q\<lparr>sc_present := True, sc_monitor := (sc_monitor ?q)\<lparr>am_root_observed := True\<rparr>\<rparr> else ?q)"
  have "sx_each (scan_task os timestamp) tids s1 = (Inr u, s')" using assms Inr
    by (auto simp: scan_process_def sx_then_Inr sx_bind_Inr ask_def s1_def split: if_splits)
  moreover have "sc_total s1 = sc_total s" "sc_pending s1 = sc_pending s" "sc_seen s1 = pid # sc_seen s"
    "setting (sc_monitor s1) = setting (sc_monitor s)" "am_records (sc_monitor s1) = am_records (sc_monitor s)"
    by (simp_all add: s1_def setting_def)
  ultimately show ?thesis using Inr by blast
qed (use assms in \<open>auto simp: scan_process_def sx_then_Inr sx_bind_Inr ask_def\<close>)

lemma scan_process_measure:
  assumes "scan_process os timestamp pid s = (Inr u, s')"
  shows "am_maximum_tasks (sc_monitor s') = am_maximum_tasks (sc_monitor s) \<and>
    (sc_total s < sc_total s' \<and> sc_total s' \<le> am_maximum_tasks (sc_monitor s) \<or>
     sc_total s' = sc_total s \<and> sc_pending s' = sc_pending s)"
proof -
  have k: "am_maximum_tasks (sc_monitor s') = am_maximum_tasks (sc_monitor s)"
    using scan_process_grows [THEN upholdsD, OF assms] by (simp add: scan_grows_def setting_def)
  obtain tids s1 where e: "sx_each (scan_task os timestamp) tids s1 = (Inr u, s')"
    and s1: "sc_total s1 = sc_total s" "sc_pending s1 = sc_pending s" using scan_process_run [OF assms] by blast
  show ?thesis
  proof (cases "tids = []")
    case True
    then show ?thesis using e s1 k by simp
  next
    case False
    then show ?thesis using scan_tasks_count [OF e] s1 k by simp
  qed
qed

lemma scan_loop_ends: "\<exists>r s'. scan_loop os timestamp s = Some (r, s')"
proof (induction s rule: wf_induct_rule [OF wf_measures [of "[\<lambda>s. am_maximum_tasks (sc_monitor s) + 1 - sc_total s, \<lambda>s. length (sc_pending s)]"]])
  case (1 s)
  let ?pid = "last (sc_pending s)" and ?s1 = "s\<lparr>sc_pending := butlast (sc_pending s)\<rparr>"
  show ?case
  proof (cases "sc_pending s = []")
    case True
    then show ?thesis by (simp add: scan_loop.simps)
  next
    case False
    then have l: "length (butlast (sc_pending s)) < length (sc_pending s)" by simp
    show ?thesis
    proof (cases "?pid \<in> set (sc_seen s)")
      case True
      have "\<exists>r s'. scan_loop os timestamp ?s1 = Some (r, s')" by (rule 1) (use l in simp)
      then show ?thesis using False True by (simp add: scan_loop.simps [of os timestamp s])
    next
      case new: False
      obtain r s2 where p: "scan_process os timestamp ?pid ?s1 = (r, s2)" by (cases "scan_process os timestamp ?pid ?s1")
      show ?thesis
      proof (cases r)
        case (Inl e)
        then show ?thesis using False new p by (simp add: scan_loop.simps [of os timestamp s])
      next
        case (Inr u)
        have "\<exists>r s'. scan_loop os timestamp s2 = Some (r, s')"
          by (rule 1) (use scan_process_measure [OF p [unfolded Inr]] l in auto)
        then show ?thesis using False new p Inr by (simp add: scan_loop.simps [of os timestamp s])
      qed
    qed
  qed
qed

section \<open>A scan that passes has seen the whole tree\<close>

text \<open>A process tree at rest: a query answers the same whenever it is asked.\<close>

definition at_rest :: "task_os \<Rightarrow> bool" where
  "at_rest os \<longleftrightarrow> (\<forall>k x. to_listdir os k x = to_listdir os 0 x \<and> to_children_text os k x = to_children_text os 0 x \<and> to_affinity os k x = to_affinity os 0 x)"

lemma at_rest_answers:
  assumes "at_rest os"
  shows "to_affinity os k x = to_affinity os 0 x" "task_ids os k x = task_ids os 0 x" "task_children os k x = task_children os 0 x"
proof -
  have a: "to_listdir os k x = to_listdir os 0 x" "to_children_text os k x = to_children_text os 0 x" "to_affinity os k x = to_affinity os 0 x"
    using assms unfolding at_rest_def by blast+
  show "to_affinity os k x = to_affinity os 0 x" by (rule a(3))
  show "task_ids os k x = task_ids os 0 x" unfolding task_ids_def a(1) ..
  show "task_children os k x = task_children os 0 x" unfolding task_children_def a(2) ..
qed

text \<open>The processes the tree consists of: the root, and the children of every live thread of a member.\<close>

inductive in_tree :: "task_os \<Rightarrow> nat \<Rightarrow> nat \<Rightarrow> bool" for os root_pid where
  tree_root: "in_tree os root_pid root_pid"
| tree_child: "in_tree os root_pid pid \<Longrightarrow> task_ids os 0 pid = Inr tids \<Longrightarrow> tid \<in> set tids \<Longrightarrow> to_affinity os 0 tid = Inr cpus \<Longrightarrow>
    task_children os 0 tid = Inr children \<Longrightarrow> child \<in> set children \<Longrightarrow> in_tree os root_pid child"

text \<open>A thread is confined when it is gone or runs on exactly the expected processors and is in the record.\<close>

definition confined :: "task_os \<Rightarrow> affinity_monitor \<Rightarrow> nat \<Rightarrow> bool" where
  "confined os m tid \<longleftrightarrow> to_affinity os 0 tid = Inl (OSError ESRCH) \<or>
     (\<exists>cpus t. to_affinity os 0 tid = Inr cpus \<and> sorted_set cpus = am_expected_cpus m \<and> (t, tid, am_expected_cpus m) \<in> set (am_records m))"

lemma confined_grows: "confined os (sc_monitor s) tid \<Longrightarrow> scan_grows s s' \<Longrightarrow> confined os (sc_monitor s') tid"
  by (fastforce simp: confined_def scan_grows_def setting_def)

definition followed :: "task_os \<Rightarrow> nat set \<Rightarrow> nat \<Rightarrow> bool" where
  "followed os known tid \<longleftrightarrow> (\<forall>cpus. to_affinity os 0 tid = Inr cpus \<longrightarrow> (\<exists>children. task_children os 0 tid = Inr children \<and> set children \<subseteq> known))"

lemma scan_task_covers:
  assumes "scan_task os timestamp tid s = (Inr u, s')" "at_rest os"
  shows "confined os (sc_monitor s') tid \<and> followed os (set (sc_pending s')) tid \<and> sc_seen s' = sc_seen s"
proof -
  let ?k = "am_queries (sc_monitor s)"
  note a = at_rest_answers(1) [OF assms(2), of ?k] at_rest_answers(3) [OF assms(2), of "Suc ?k"]
  from assms(1) show ?thesis
    by (auto simp: scan_task_def sx_then_Inr sx_bind_Inr sx_catch_eq ask_def observe_task_def count_task_def Let_def a
        confined_def followed_def split: sum.splits if_splits)
qed

lemma scan_tasks_cover:
  assumes "sx_each (scan_task os timestamp) tids s = (Inr u, s')" "at_rest os"
  shows "(\<forall>tid \<in> set tids. confined os (sc_monitor s') tid \<and> followed os (set (sc_pending s')) tid) \<and> sc_seen s' = sc_seen s"
  using assms(1)
proof (induction tids arbitrary: s)
  case (Cons tid tids)
  then obtain s1 where 1: "scan_task os timestamp tid s = (Inr (), s1)" and 2: "sx_each (scan_task os timestamp) tids s1 = (Inr u, s')"
    by (auto simp: sx_bind_Inr)
  have g: "scan_grows s1 s'" using grows.upholds_each [OF scan_task_grows] 2 by (rule upholdsD)
  then have "set (sc_pending s1) \<subseteq> set (sc_pending s')" by (auto simp: scan_grows_def)
  then have "followed os (set (sc_pending s')) tid" using scan_task_covers [OF 1 assms(2)] unfolding followed_def by blast
  then show ?case using scan_task_covers [OF 1 assms(2)] Cons.IH [OF 2] confined_grows [OF _ g] by auto
qed simp

definition scan_inv :: "task_os \<Rightarrow> scan \<Rightarrow> bool" where
  "scan_inv os s \<longleftrightarrow> am_root_pid (sc_monitor s) \<in> set (sc_seen s) \<union> set (sc_pending s) \<and>
     (\<forall>pid \<in> set (sc_seen s). \<exists>tids. task_ids os 0 pid = Inr tids \<and>
        (\<forall>tid \<in> set tids. confined os (sc_monitor s) tid \<and> followed os (set (sc_seen s) \<union> set (sc_pending s)) tid))"

lemma followed_mono: "followed os A tid \<Longrightarrow> A \<subseteq> B \<Longrightarrow> followed os B tid"
  unfolding followed_def by blast

lemma scan_process_inv:
  assumes "scan_process os timestamp pid (s\<lparr>sc_pending := rest\<rparr>) = (Inr u, s')" "at_rest os" "scan_inv os s" "set (sc_pending s) = insert pid (set rest)"
  shows "scan_inv os s'"
proof -
  from scan_process_run [OF assms(1)] obtain tids s1 where t: "task_ids os 0 pid = Inr tids"
    and e: "sx_each (scan_task os timestamp) tids s1 = (Inr u, s')"
    and s1: "sc_pending s1 = rest" "sc_seen s1 = pid # sc_seen s" "setting (sc_monitor s1) = setting (sc_monitor s)"
      "am_records (sc_monitor s1) = am_records (sc_monitor s)"
    by (auto simp: at_rest_answers(2) [OF assms(2), of "am_queries (sc_monitor s)"])
  have g: "scan_grows s1 s'" using grows.upholds_each [OF scan_task_grows] e by (rule upholdsD)
  note c = scan_tasks_cover [OF e assms(2)]
  have seen: "sc_seen s' = pid # sc_seen s" using c s1 by simp
  have sub: "set (sc_seen s) \<union> set (sc_pending s) \<subseteq> set (sc_seen s') \<union> set (sc_pending s')"
    using g assms(4) s1 seen by (auto simp: scan_grows_def)
  have old: "confined os (sc_monitor s') tid" if "confined os (sc_monitor s) tid" for tid
    by (rule confined_grows [OF _ g]) (use that s1 in \<open>auto simp: confined_def setting_def\<close>)
  have "am_root_pid (sc_monitor s') = am_root_pid (sc_monitor s)" using g s1 by (simp add: scan_grows_def setting_def)
  moreover have "\<forall>tid \<in> set tids. confined os (sc_monitor s') tid \<and> followed os (set (sc_seen s') \<union> set (sc_pending s')) tid"
    using c followed_mono [OF _ Un_upper2] by blast
  ultimately show ?thesis using assms(3) sub old followed_mono [OF _ sub] t unfolding scan_inv_def seen
    by (metis (no_types, lifting) set_ConsD subset_iff)
qed

lemma scan_loop_inv:
  assumes "scan_loop os timestamp s = Some (Inr b, s')" "at_rest os" "scan_inv os s"
  shows "scan_inv os s' \<and> sc_pending s' = [] \<and> setting (sc_monitor s') = setting (sc_monitor s)"
proof -
  let ?P = "\<lambda>os (timestamp :: nat) s (y :: bool py \<times> scan). \<forall>b s'. y = (Inr b, s') \<longrightarrow> at_rest os \<longrightarrow> scan_inv os s \<longrightarrow>
    scan_inv os s' \<and> sc_pending s' = [] \<and> setting (sc_monitor s') = setting (sc_monitor s)"
  have "?P os timestamp s (Inr b, s')"
  proof (rule scan_loop.raw_induct [where P = ?P, OF _ assms(1)])
    fix loop :: "task_os \<Rightarrow> nat \<Rightarrow> scan \<Rightarrow> (bool py \<times> scan) option" and os timestamp s y
    assume ih: "\<And>os timestamp s y. loop os timestamp s = Some y \<Longrightarrow> ?P os timestamp s y"
      and body: "(if sc_pending s = [] then Some (Inr (sc_present s), s)
      else
      let pid = last (sc_pending s); s1 = s\<lparr>sc_pending := butlast (sc_pending s)\<rparr> in
      if pid \<in> set (sc_seen s) then loop os timestamp s1
      else case scan_process os timestamp pid s1 of
        (Inl e, s2) \<Rightarrow> Some (Inl e, s2)
      | (Inr _, s2) \<Rightarrow> loop os timestamp s2) = Some y"
    let ?pid = "last (sc_pending s)" and ?s1 = "s\<lparr>sc_pending := butlast (sc_pending s)\<rparr>"
    show "?P os timestamp s y"
    proof (intro allI impI)
      fix b s' assume y: "y = (Inr b, s')" and r: "at_rest os" and i: "scan_inv os s"
      show "scan_inv os s' \<and> sc_pending s' = [] \<and> setting (sc_monitor s') = setting (sc_monitor s)"
      proof (cases "sc_pending s = []")
        case True
        then show ?thesis using body y i by simp
      next
        case False
        then have p: "set (sc_pending s) = insert ?pid (set (butlast (sc_pending s)))" by (metis Un_insert_right append_butlast_last_id list.simps(15) set_append sup_bot_right list.set(1))
        show ?thesis
        proof (cases "?pid \<in> set (sc_seen s)")
          case True
          then have run: "loop os timestamp ?s1 = Some y" using body False by simp
          have "set (sc_seen s) \<union> set (sc_pending s) = set (sc_seen s) \<union> set (butlast (sc_pending s))" using True p by auto
          then have "scan_inv os ?s1" using i by (simp add: scan_inv_def)
          then show ?thesis using ih [OF run] y r by simp
        next
          case new: False
          obtain q s2 where sp: "scan_process os timestamp ?pid ?s1 = (q, s2)" by (cases "scan_process os timestamp ?pid ?s1")
          then obtain u where q: "q = Inr u" using body False new y by (cases q) (auto simp: Let_def)
          then have run: "loop os timestamp s2 = Some y" using body False new sp by (simp add: Let_def)
          have "scan_inv os s2" using scan_process_inv [OF sp [unfolded q] r i p] .
          moreover have "setting (sc_monitor s2) = setting (sc_monitor s)"
            using scan_process_grows [THEN upholdsD, OF sp] by (simp add: scan_grows_def setting_def)
          ultimately show ?thesis using ih [OF run] y r by simp
        qed
      qed
    qed
  qed
  then show ?thesis using assms by simp
qed

lemma scan_complete:
  assumes "scan_once os m = Some (Inr b, m')" "at_rest os" "in_tree os (am_root_pid m) pid"
  shows "\<exists>tids. task_ids os 0 pid = Inr tids \<and> (\<forall>tid \<in> set tids. confined os m' tid)"
proof -
  from assms(1) obtain s' where run: "scan_loop os (to_clock os (am_queries m)) (scan_start m) = Some (Inr b, s')" and m': "m' = sc_monitor s'"
    by (auto simp: scan_once_def)
  have "scan_inv os (scan_start m)" by (simp add: scan_inv_def scan_start_def)
  from scan_loop_inv [OF run assms(2) this] have i: "scan_inv os s'" "sc_pending s' = []" "am_root_pid (sc_monitor s') = am_root_pid m"
    by (simp_all add: setting_def scan_start_def)
  from assms(3) have "pid \<in> set (sc_seen s')"
  proof induction
    case tree_root
    then show ?case using i by (simp add: scan_inv_def)
  next
    case (tree_child pid tids tid cpus children child)
    then show ?case using i unfolding scan_inv_def followed_def by fastforce
  qed
  then show ?thesis using i m' by (auto simp: scan_inv_def)
qed

section \<open>The monitor between two calls\<close>

lemma scan_once_ends: "\<exists>r m'. scan_once os m = Some (r, m')"
  using scan_loop_ends by (fastforce simp: scan_once_def)

lemma scan_once_grows:
  assumes "scan_once os m = Some (r, m')"
  shows "setting m' = setting m" "clean m \<Longrightarrow> clean m'"
proof -
  from assms obtain s' where run: "scan_loop os (to_clock os (am_queries m)) (scan_start m) = Some (r, s')" and m': "m' = sc_monitor s'"
    by (auto simp: scan_once_def)
  let ?P = "\<lambda>os (timestamp :: nat) s (y :: bool py \<times> scan). setting (sc_monitor (snd y)) = setting (sc_monitor s) \<and> (clean (sc_monitor s) \<longrightarrow> clean (sc_monitor (snd y)))"
  have "?P os (to_clock os (am_queries m)) (scan_start m) (r, s')"
  proof (rule scan_loop.raw_induct [where P = ?P, OF _ run])
    fix loop :: "task_os \<Rightarrow> nat \<Rightarrow> scan \<Rightarrow> (bool py \<times> scan) option" and os timestamp s y
    assume ih: "\<And>os timestamp s y. loop os timestamp s = Some y \<Longrightarrow> ?P os timestamp s y"
      and body: "(if sc_pending s = [] then Some (Inr (sc_present s), s)
      else
      let pid = last (sc_pending s); s1 = s\<lparr>sc_pending := butlast (sc_pending s)\<rparr> in
      if pid \<in> set (sc_seen s) then loop os timestamp s1
      else case scan_process os timestamp pid s1 of
        (Inl e, s2) \<Rightarrow> Some (Inl e, s2)
      | (Inr _, s2) \<Rightarrow> loop os timestamp s2) = Some y"
    let ?s1 = "s\<lparr>sc_pending := butlast (sc_pending s)\<rparr>"
    obtain q s2 where sp: "scan_process os timestamp (last (sc_pending s)) ?s1 = (q, s2)"
      by (cases "scan_process os timestamp (last (sc_pending s)) ?s1")
    from scan_process_grows [THEN upholdsD, OF sp]
    have g: "setting (sc_monitor s2) = setting (sc_monitor s)" "clean (sc_monitor s) \<longrightarrow> clean (sc_monitor s2)"
      by (fastforce simp: scan_grows_def setting_def clean_def)+
    show "?P os timestamp s y" using body sp g ih [of os timestamp ?s1 y] ih [of os timestamp s2 y]
      by (auto simp: Let_def split: if_splits sum.splits)
  qed
  then show "setting m' = setting m" "clean m \<Longrightarrow> clean m'" using m' by (simp_all add: scan_start_def)
qed

inductive monitor_step :: "task_os \<Rightarrow> nat \<Rightarrow> affinity_monitor \<Rightarrow> affinity_monitor \<Rightarrow> bool" for os d where
  step_start: "start_monitor os m = Some (r, m') \<Longrightarrow> monitor_step os d m m'"
| step_poll: "am_thread m = Polling \<Longrightarrow> poll os m = Some m' \<Longrightarrow> monitor_step os d m m'"
| step_stop: "stop_and_validate d joined m = (r, m') \<Longrightarrow> monitor_step os d m m'"

text \<open>What every call keeps: the frozen mask, that the records show nothing else, and a failure once it is set.\<close>

definition monitor_order :: "affinity_monitor \<Rightarrow> affinity_monitor \<Rightarrow> bool" where
  "monitor_order m m' \<longleftrightarrow> am_expected_cpus m' = am_expected_cpus m \<and> (clean m \<longrightarrow> clean m') \<and>
     (am_thread m = Finished \<and> am_error m \<noteq> None \<longrightarrow> am_thread m' = Finished \<and> am_error m' \<noteq> None)"

lemma step_order: "monitor_step os d m m' \<Longrightarrow> monitor_order m m'"
proof (induction rule: monitor_step.induct)
  case (step_start m r m')
  obtain q m1 where q: "scan_once os m = Some (q, m1)" using scan_once_ends by blast
  from scan_once_grows [OF q] step_start q show ?case
    by (cases q) (auto simp: start_monitor_def monitor_order_def setting_def clean_def split: if_splits)
next
  case (step_poll m m')
  obtain q m1 where q: "scan_once os m = Some (q, m1)" using scan_once_ends by blast
  from scan_once_grows [OF q] step_poll q show ?case
    by (cases q) (auto simp: poll_def monitor_order_def setting_def clean_def split: if_splits)
next
  case (step_stop joined m r m')
  then show ?case by (auto simp: stop_and_validate_def Let_def monitor_order_def clean_def split: if_splits)
qed

lemma steps_order: "(monitor_step os d)\<^sup>*\<^sup>* m m' \<Longrightarrow> monitor_order m m'"
proof (induction rule: rtranclp_induct)
  case (step m1 m2)
  then show ?case using step_order [OF step(2)] by (auto simp: monitor_order_def)
qed (simp add: monitor_order_def)

section \<open>A sample tree\<close>

text \<open>Process 7 with two threads, the second of which has the child 9.\<close>

definition sample_tasks :: task_os where
  "sample_tasks = \<lparr>to_listdir = (\<lambda>_ pid. if pid = 7 then Inr [lit ''8'', lit ''7''] else if pid = 9 then Inr [lit ''9''] else Inl (OSError ENOENT)),
     to_children_text = (\<lambda>_ tid. Inr (if tid = 8 then lit ''9 '' else [])),
     to_affinity = (\<lambda>_ tid. Inr [3, 2]), to_clock = (\<lambda>k. k), to_unicode = \<lparr>udb_isdigit = (\<lambda>_. False), udb_decimal = (\<lambda>_. None)\<rparr>\<rparr>"

definition sample_monitor :: affinity_monitor where
  "sample_monitor = \<lparr>am_root_pid = 7, am_expected_cpus = [2, 3], am_poll_interval_ns = 1000, am_maximum_tasks = 16, am_stop = False,
     am_thread = NotStarted, am_error = None, am_records = [], am_root_observed = False, am_queries = 0\<rparr>"

lemma sample_answers:
  "task_ids sample_tasks k 7 = Inr [7, 8]" "task_ids sample_tasks k 9 = Inr [9]" "task_children sample_tasks k 7 = Inr []"
  "task_children sample_tasks k 8 = Inr [9]" "task_children sample_tasks k 9 = Inr []" "to_affinity sample_tasks k tid = Inr [3, 2]"
  by (simp_all add: task_ids_def task_children_def sample_tasks_def lit_def str_isdigit_def char_isdigit_def is_digit_def int_of_digits_def
      char_decimal_def of_digits_def strip_spaces_def tokens_of_def is_space_def)

lemma sample_sorted: "sorted_set [3, 2 :: nat] = [2, 3]"
  by (simp add: sorted_set_def)

lemma sample_scan:
  "\<exists>m. scan_once sample_tasks sample_monitor = Some (Inr True, m) \<and> am_records m = [(0, 7, [2, 3]), (0, 8, [2, 3]), (0, 9, [2, 3])] \<and>
     setting m = setting sample_monitor \<and> am_root_observed m"
  by (simp add: scan_once_def scan_start_def sample_monitor_def scan_loop.simps scan_process_def sx_then_def sx_bind_def ask_def sample_answers
      scan_task_def count_task_def observe_task_def sx_catch_def sample_sorted setting_def) (simp add: sample_tasks_def)

section \<open>Properties\<close>

text \<open>
  C12. The scan ends. Whatever the kernel answers, however the process table changes while it is read, and
  whether or not the answers form a tree, the work-list loop of \<^verbatim>\<open>_scan_once\<close> returns or raises: every
  iteration either counts a thread against the bound or shortens the list.
\<close>

theorem scan_terminates: "\<exists>r m'. scan_once os m = Some (r, m')"
  by (rule scan_once_ends)

text \<open>
  C16. A scan that passes is complete. When the process tree is at rest and \<^verbatim>\<open>_scan_once\<close> returns, every
  process reachable from the root through children of live threads was listed, and each of its threads has
  gone or is recorded with exactly the frozen processors.
\<close>

theorem scan_covers_tree:
  assumes "scan_once os m = Some (Inr present, m')" "at_rest os" "in_tree os (am_root_pid m) pid"
  shows "\<exists>tids. task_ids os 0 pid = Inr tids \<and> (\<forall>tid \<in> set tids. confined os m' tid)"
  by (rule scan_complete [OF assms])

theorem scan_covers_tree_witness:
  "\<exists>m'. scan_once sample_tasks sample_monitor = Some (Inr True, m') \<and> at_rest sample_tasks \<and> in_tree sample_tasks 7 9 \<and>
     (\<exists>tids. task_ids sample_tasks 0 9 = Inr tids \<and> (\<forall>tid \<in> set tids. confined sample_tasks m' tid))"
proof -
  obtain m' where s: "scan_once sample_tasks sample_monitor = Some (Inr True, m')" using sample_scan by blast
  have r: "at_rest sample_tasks" by (simp add: at_rest_def sample_tasks_def)
  have t: "in_tree sample_tasks 7 9"
    by (rule tree_child [OF tree_root sample_answers(1) _ sample_answers(6) [where tid = 8] sample_answers(4)]) simp_all
  have p: "am_root_pid sample_monitor = 7" by (simp add: sample_monitor_def)
  from scan_covers_tree [OF s r] t show ?thesis unfolding p using s r by blast
qed



text \<open>
  A failed scan is permanent. Once the polling thread's scan raised, no later call of the monitor
  produces a receipt.
\<close>

theorem failed_scan_permanent:
  assumes "scan_once os m = Some (Inl e, m1)" "\<not> am_stop m" "poll os m = Some m2" "(monitor_step os d)\<^sup>*\<^sup>* m2 m3"
  shows "\<exists>message m4. stop_and_validate d joined m3 = (Inl (TimingControlError message), m4)"
proof -
  have "am_thread m2 = Finished" "am_error m2 \<noteq> None" using assms(1-3) by (auto simp: poll_def)
  then have "am_thread m3 = Finished" "am_error m3 \<noteq> None" using steps_order [OF assms(4)] by (simp_all add: monitor_order_def)
  then show ?thesis by (auto simp: stop_and_validate_def Let_def control_fail_def)
qed

definition escaped_tasks :: task_os where
  "escaped_tasks = sample_tasks\<lparr>to_affinity := (\<lambda>_ tid. Inr (if tid = 8 then [5] else [3, 2]))\<rparr>"

lemma escaped_scan: "\<exists>e m1. scan_once escaped_tasks (sample_monitor\<lparr>am_thread := Polling\<rparr>) = Some (Inl e, m1)"
proof -
  have a: "task_ids escaped_tasks k 7 = Inr [7, 8]" "task_children escaped_tasks k 7 = Inr []" "to_affinity escaped_tasks k 7 = Inr [3, 2]"
    "to_affinity escaped_tasks k 8 = Inr [5]" for k
    by (simp_all add: escaped_tasks_def task_ids_def task_children_def sample_tasks_def lit_def str_isdigit_def char_isdigit_def is_digit_def
        int_of_digits_def char_decimal_def of_digits_def strip_spaces_def)
  show ?thesis
    by (simp add: scan_once_def scan_start_def sample_monitor_def scan_loop.simps scan_process_def sx_then_def sx_bind_def ask_def a
        scan_task_def count_task_def observe_task_def sx_catch_def sample_sorted control_fail_def) (simp add: sorted_set_def)
qed

theorem failed_scan_permanent_witness:
  "\<exists>m2 message m4. poll escaped_tasks (sample_monitor\<lparr>am_thread := Polling\<rparr>) = Some m2 \<and>
     stop_and_validate 4 True m2 = (Inl (TimingControlError message), m4)"
proof -
  obtain e m1 where s: "scan_once escaped_tasks (sample_monitor\<lparr>am_thread := Polling\<rparr>) = Some (Inl e, m1)" using escaped_scan by blast
  have n: "\<not> am_stop (sample_monitor\<lparr>am_thread := Polling\<rparr>)" by (simp add: sample_monitor_def)
  obtain m2 where p: "poll escaped_tasks (sample_monitor\<lparr>am_thread := Polling\<rparr>) = Some m2" using s n by (simp add: poll_def)
  from failed_scan_permanent [OF s n p rtranclp.rtrancl_refl, where joined = True and d = 4] p show ?thesis by blast
qed

end
