(* ===== verification/Control_Telemetry.thy ===== *)
theory Control_Telemetry
  imports Host_Control "HOL-Library.AList" "HOL-Library.Sublist"
begin

text \<open>
  Raw telemetry receipts and the structural coverage audit of
  \<^verbatim>\<open>src/scripts/cp2/cp2_timing_controls.py\<close>: telemetry specifications, the parsers of their raw bytes,
  receipts and snapshots, their capture, the comparison of a pre and a post snapshot, and the categories of
  controls a profile covers. Dictionaries are insertion-ordered association lists. The lower-casing of
  \<^verbatim>\<open>str.lower\<close> and the clock and reads of a capture are parameters.
\<close>

section \<open>Specifications\<close>

record telemetry_spec =
  ts_metric_id :: pystr
  ts_role :: pystr
  ts_cpu_id :: "int option"
  ts_source_kind :: pystr
  ts_path :: pystr
  ts_register :: "int option"

definition MSR_APERF :: int where "MSR_APERF = 232"
definition MSR_MPERF :: int where "MSR_MPERF = 231"

definition TELEMETRY_ROLES :: "pystr list" where
  "TELEMETRY_ROLES = map lit [''aperf'', ''mperf'', ''thermal_throttle_count'', ''scaling_current_frequency_khz'', ''temperature_millicelsius'']"

definition SAFE_METRIC_ID :: "pystr \<Rightarrow> bool" where
  "SAFE_METRIC_ID s =
     (case s of [] \<Rightarrow> False | c # r \<Rightarrow> is_alnum c \<and> length r \<le> 127 \<and> list_all (\<lambda>c. is_alnum c \<or> c \<in> set (lit ''_.-'')) r)"

text \<open>The substring test \<^verbatim>\<open>part in text\<close>.\<close>

definition has_part :: "pystr \<Rightarrow> pystr \<Rightarrow> bool" where
  "has_part part s \<longleftrightarrow> list_ex (starts_with part) (suffixes s)"

definition check_msr_source :: "telemetry_spec \<Rightarrow> unit py" where
  "check_msr_source s =
     (if (case ts_cpu_id s of None \<Rightarrow> True | Some cpu \<Rightarrow> ts_path s \<noteq> lit ''/dev/cpu/'' @ int_repr cpu @ lit ''/msr'')
      then control_fail ''MSR telemetry path is not bound to its CPU''
      else
      let expected = if ts_role s = lit ''aperf'' then Some MSR_APERF else if ts_role s = lit ''mperf'' then Some MSR_MPERF else None in
      if expected = None \<or> ts_register s \<noteq> expected then control_fail ''MSR telemetry register differs from APERF/MPERF'' else Inr ())"

definition check_text_source :: "telemetry_spec \<Rightarrow> unit py" where
  "check_text_source s =
     (if ts_register s \<noteq> None then control_fail ''text telemetry unexpectedly names an MSR register''
      else if \<not> list_ex (\<lambda>surface. starts_with (lit surface) (ts_path s)) [''/sys/devices/system/cpu/'', ''/sys/class/hwmon/'', ''/sys/class/thermal/'', ''/proc/'']
      then control_fail ''text telemetry path is outside approved read-only surfaces''
      else case ts_cpu_id s of
        None \<Rightarrow> Inr ()
      | Some cpu \<Rightarrow>
          if ts_role s \<noteq> lit ''temperature_millicelsius'' \<and> \<not> has_part (lit ''/cpu'' @ int_repr cpu @ lit ''/'') (ts_path s) \<and>
             \<not> starts_with (lit ''/proc/'') (ts_path s)
          then control_fail ''per-CPU telemetry path is not bound to its CPU'' else Inr ())"

definition make_telemetry_spec :: "telemetry_spec \<Rightarrow> telemetry_spec py" where
  "make_telemetry_spec s =
     (if \<not> SAFE_METRIC_ID (ts_metric_id s) then control_fail ''raw telemetry metric ID is invalid''
      else if ts_role s \<notin> set TELEMETRY_ROLES then control_fail ''raw telemetry role is unsupported''
      else if (case ts_cpu_id s of None \<Rightarrow> False | Some cpu \<Rightarrow> cpu < 0 \<or> 4095 < cpu) then control_fail ''raw telemetry CPU ID is invalid''
      else if \<not> isabs (ts_path s) \<or> normpath (ts_path s) \<noteq> ts_path s
      then control_fail ''raw telemetry path is not normalized absolute syntax''
      else if ts_source_kind s = lit ''msr_u64_le'' then and_then (check_msr_source s) (\<lambda>_. Inr s)
      else if ts_source_kind s = lit ''text_integer'' then and_then (check_text_source s) (\<lambda>_. Inr s)
      else control_fail ''raw telemetry source kind is unsupported'')"

definition optional_int :: "int option \<Rightarrow> pyval" where
  "optional_int x = (case x of None \<Rightarrow> PyNone | Some n \<Rightarrow> PyInt n)"

definition spec_record :: "telemetry_spec \<Rightarrow> pyval" where
  "spec_record s = str_record [(''metric_id'', PyStr (ts_metric_id s)), (''role'', PyStr (ts_role s)), (''cpu_id'', optional_int (ts_cpu_id s)),
     (''source_kind'', PyStr (ts_source_kind s)), (''path'', PyStr (ts_path s)), (''register'', optional_int (ts_register s))]"

section \<open>Raw bytes\<close>

definition check_u64 :: "int \<Rightarrow> unit py" where
  "check_u64 value = and_then (plain_u64 (PyInt value)) (\<lambda>_. Inr ())"

text \<open>The signed decimal of a text whose digits were checked.\<close>

definition signed_decimal :: "pystr \<Rightarrow> int" where
  "signed_decimal text =
     (case text of
        [] \<Rightarrow> 0
      | c # r \<Rightarrow> if c = 45 then - int (dec_value r) else int (dec_value text))"

definition telemetry_digits :: "bool \<Rightarrow> pystr \<Rightarrow> pystr" where
  "telemetry_digits is_signed text = (if is_signed \<and> starts_with (lit ''-'') text then tl text else text)"

definition parse_text_telemetry :: "bool \<Rightarrow> pystr \<Rightarrow> int py" where
  "parse_text_telemetry is_signed raw_text =
     (let text = if raw_text \<noteq> [] \<and> last raw_text = 10 then butlast raw_text else raw_text in
      if text = [] \<or> 0 \<in> set text \<or> 13 \<in> set text \<or> 10 \<in> set text then control_fail ''raw text telemetry is not one canonical line''
      else
      let digits = telemetry_digits is_signed text in
      if digits = [] \<or> \<not> list_all is_digit digits \<or> 1 < length digits \<and> starts_with (lit ''0'') digits
      then control_fail ''raw text telemetry is not canonical decimal syntax''
      else
      let value = signed_decimal text in
      if is_signed then
        if value < - 273150 \<or> 1000000 < value then control_fail ''temperature telemetry is outside its physical integer domain'' else Inr value
      else and_then (check_u64 value) (\<lambda>_. Inr value))"

definition parse_raw_telemetry :: "telemetry_spec \<Rightarrow> bytes \<Rightarrow> int py" where
  "parse_raw_telemetry s raw =
     (if raw = [] \<or> 128 < length raw then control_fail ''raw telemetry payload is empty or oversized''
      else if ts_source_kind s = lit ''msr_u64_le'' then
        if length raw \<noteq> 8 then control_fail ''raw MSR telemetry payload is not exactly eight bytes'' else Inr (int (from_bytes (rev raw)))
      else if \<not> list_all (\<lambda>b. unat b < 128) raw then control_fail ''raw text telemetry is not ASCII''
      else parse_text_telemetry (ts_role s = lit ''temperature_millicelsius'') (map unat raw))"

section \<open>Receipts and snapshots\<close>

record telemetry_receipt =
  tr_specification :: telemetry_spec
  tr_phase :: pystr
  tr_started :: int
  tr_ended :: int
  tr_raw :: bytes
  tr_parsed :: int

definition PHASES :: "pystr list" where
  "PHASES = [lit ''pre'', lit ''post'']"

definition make_telemetry_receipt :: "telemetry_receipt \<Rightarrow> telemetry_receipt py" where
  "make_telemetry_receipt r =
     (if tr_phase r \<notin> set PHASES then control_fail ''raw telemetry phase is not pre or post''
      else
      and_then (check_u64 (tr_started r)) (\<lambda>_.
      and_then (check_u64 (tr_ended r)) (\<lambda>_.
      if tr_ended r < tr_started r then control_fail ''telemetry read interval is reversed''
      else
      and_then (parse_raw_telemetry (tr_specification r) (tr_raw r)) (\<lambda>value.
      if value \<noteq> tr_parsed r then control_fail ''raw telemetry parsed value differs from retained bytes'' else Inr r))))"

definition receipt_record :: "telemetry_receipt \<Rightarrow> pyval" where
  "receipt_record r = str_record [(''schema_version'', PyInt 1), (''record_type'', PyStr (lit ''cp2_timing_raw_telemetry_receipt'')),
     (''specification'', spec_record (tr_specification r)), (''phase'', PyStr (tr_phase r)), (''started_monotonic_ns'', PyInt (tr_started r)),
     (''ended_monotonic_ns'', PyInt (tr_ended r)), (''raw_hex'', PyStr (hexdigest (tr_raw r))), (''raw_sha256'', PyStr (hexdigest (sha256 (tr_raw r)))),
     (''parsed_value'', PyInt (tr_parsed r))]"

record telemetry_snapshot =
  tn_phase :: pystr
  tn_receipts :: "telemetry_receipt list"

definition metric_id_of :: "telemetry_receipt \<Rightarrow> pystr" where
  "metric_id_of r = ts_metric_id (tr_specification r)"

definition make_telemetry_snapshot :: "pystr \<Rightarrow> telemetry_receipt list \<Rightarrow> telemetry_snapshot py" where
  "make_telemetry_snapshot phase receipts =
     (if phase \<notin> set PHASES \<or> receipts = [] then control_fail ''raw telemetry snapshot phase or population is invalid''
      else if map metric_id_of receipts \<noteq> sorted_set (map metric_id_of receipts) then control_fail ''raw telemetry receipt IDs are not sorted and unique''
      else if list_ex (\<lambda>r. tr_phase r \<noteq> phase) receipts then control_fail ''raw telemetry receipt phase differs from its snapshot''
      else Inr \<lparr>tn_phase = phase, tn_receipts = receipts\<rparr>)"

definition telemetry_snapshot_record :: "telemetry_snapshot \<Rightarrow> pyval" where
  "telemetry_snapshot_record n = str_record [(''schema_version'', PyInt 1), (''record_type'', PyStr (lit ''cp2_timing_raw_telemetry_snapshot'')),
     (''phase'', PyStr (tn_phase n)), (''receipts'', PyList (map receipt_record (tn_receipts n)))]"

definition telemetry_snapshot_sha256 :: "nat \<Rightarrow> telemetry_snapshot \<Rightarrow> pystr py" where
  "telemetry_snapshot_sha256 d n = and_then (control_json d (telemetry_snapshot_record n)) (\<lambda>canonical. Inr (hexdigest (sha256 canonical)))"

text \<open>
  \<^verbatim>\<open>HostBackend.read_telemetry_raw\<close>: the register read is a positioned read of a character device, given
  by the device's kind and the bytes it returns; everything else is the bounded text read.
\<close>

definition host_read_telemetry_raw ::
  "'x host_os \<Rightarrow> (pystr \<Rightarrow> int \<Rightarrow> 'x \<Rightarrow> (bool \<times> bytes) py) \<Rightarrow> telemetry_spec \<Rightarrow> 'x host \<Rightarrow> bytes py" where
  "host_read_telemetry_raw ops pread s h =
     (if ts_source_kind s = lit ''msr_u64_le'' then
        if os_geteuid ops (hb_system h) \<noteq> 0 then control_fail ''MSR read requires a source-bound privileged descriptor helper''
        else and_then (case ts_register s of None \<Rightarrow> Inl (TypeError ''pread offset'') | Some register \<Rightarrow> pread (ts_path s) register (hb_system h)) (\<lambda>(character_device, payload).
          if \<not> character_device then control_fail ''MSR telemetry path is not a character device''
          else if length payload \<noteq> 8 then control_fail ''MSR telemetry read did not return exactly eight bytes'' else Inr payload)
      else host_read_raw ops (ts_path s) 128 h)"

text \<open>The capture loop: the clock before and after the \<open>k\<close>-th read, and what that read returned.\<close>

fun capture_receipts :: "(nat \<Rightarrow> int) \<Rightarrow> (nat \<Rightarrow> telemetry_spec \<Rightarrow> bytes py) \<Rightarrow> pystr \<Rightarrow> nat \<Rightarrow> telemetry_spec list \<Rightarrow> telemetry_receipt list py" where
  "capture_receipts clock read phase k [] = Inr []"
| "capture_receipts clock read phase k (s # ss) =
     and_then (read k s) (\<lambda>raw.
     and_then (parse_raw_telemetry s raw) (\<lambda>parsed.
     and_then (make_telemetry_receipt \<lparr>tr_specification = s, tr_phase = phase, tr_started = clock (2 * k), tr_ended = clock (2 * k + 1), tr_raw = raw, tr_parsed = parsed\<rparr>) (\<lambda>r.
     and_then (capture_receipts clock read phase (k + 1) ss) (\<lambda>rs. Inr (r # rs)))))"

definition capture_raw_telemetry :: "(nat \<Rightarrow> int) \<Rightarrow> (nat \<Rightarrow> telemetry_spec \<Rightarrow> bytes py) \<Rightarrow> telemetry_spec list \<Rightarrow> pystr \<Rightarrow> telemetry_snapshot py" where
  "capture_raw_telemetry clock read specifications phase =
     (if specifications = [] then control_fail ''raw telemetry specification population is invalid''
      else if map ts_metric_id specifications \<noteq> sorted_set (map ts_metric_id specifications)
      then control_fail ''raw telemetry specifications are not sorted and unique''
      else and_then (capture_receipts clock read phase 0 specifications) (make_telemetry_snapshot phase))"

section \<open>Comparing a pre and a post snapshot\<close>

type_synonym rational_bound = "int \<times> int"

definition check_ratio_bound :: "rational_bound \<Rightarrow> unit py" where
  "check_ratio_bound = (\<lambda>(numerator, denominator).
     if numerator \<le> 0 \<or> denominator \<le> 0 then control_fail ''APERF/MPERF ratio bound is outside its positive rational domain''
     else if gcd numerator denominator \<noteq> 1 then control_fail ''APERF/MPERF ratio bound is not reduced'' else Inr ())"

definition check_comparison_inputs ::
  "telemetry_snapshot \<Rightarrow> telemetry_snapshot \<Rightarrow> int list \<Rightarrow> int list \<Rightarrow> int \<times> int \<Rightarrow> rational_bound \<times> rational_bound \<Rightarrow> unit py" where
  "check_comparison_inputs pre post cpus frequencies temperature_range ratio_bounds =
     (if tn_phase pre \<noteq> lit ''pre'' \<or> tn_phase post \<noteq> lit ''post'' then control_fail ''raw telemetry snapshots are not pre/post ordered''
      else if cpus = [] \<or> cpus \<noteq> sorted_set cpus then control_fail ''raw telemetry expected CPU population is invalid''
      else if frequencies = [] \<or> frequencies \<noteq> sorted_set frequencies then control_fail ''raw telemetry accepted frequencies are invalid''
      else if snd temperature_range \<le> fst temperature_range then control_fail ''raw telemetry temperature range is invalid''
      else
      and_then (check_ratio_bound (fst ratio_bounds)) (\<lambda>_.
      and_then (check_ratio_bound (snd ratio_bounds)) (\<lambda>_.
      if fst (snd ratio_bounds) * snd (fst ratio_bounds) \<le> fst (fst ratio_bounds) * snd (snd ratio_bounds)
      then control_fail ''APERF/MPERF ratio interval is empty''
      else if Min (tr_started ` set (tn_receipts post)) \<le> Max (tr_ended ` set (tn_receipts pre))
      then control_fail ''raw telemetry pre/post capture intervals overlap or touch'' else Inr ())))"

definition receipts_by_id :: "telemetry_receipt list \<Rightarrow> (pystr \<times> telemetry_receipt) list" where
  "receipts_by_id receipts = fold (\<lambda>r. AList.update (metric_id_of r) r) receipts []"

type_synonym role_cpu = "pystr \<times> int option"
type_synonym receipt_pairs = "(role_cpu \<times> telemetry_receipt \<times> telemetry_receipt) list"

definition pair_step :: "(pystr \<times> telemetry_receipt) list \<Rightarrow> receipt_pairs \<Rightarrow> pystr \<times> telemetry_receipt \<Rightarrow> receipt_pairs py" where
  "pair_step post_by_id pairs = (\<lambda>(metric_id, before).
     case map_of post_by_id metric_id of
       None \<Rightarrow> Inl (KeyError ''post_by_id'')
     | Some after \<Rightarrow>
         if tr_specification before \<noteq> tr_specification after then control_fail ''raw telemetry pre/post source identity differs''
         else
         let key = (ts_role (tr_specification before), ts_cpu_id (tr_specification before)) in
         if map_of pairs key \<noteq> None then control_fail ''raw telemetry duplicates one role/CPU''
         else Inr (pairs @ [(key, before, after)]))"

definition pair_receipts :: "telemetry_snapshot \<Rightarrow> telemetry_snapshot \<Rightarrow> receipt_pairs py" where
  "pair_receipts pre post =
     (let pre_by_id = receipts_by_id (tn_receipts pre); post_by_id = receipts_by_id (tn_receipts post) in
      if map fst pre_by_id \<noteq> map fst post_by_id then control_fail ''raw telemetry pre/post metric population differs''
      else foldM (pair_step post_by_id) [] pre_by_id)"

definition expected_key :: "int list \<Rightarrow> role_cpu \<Rightarrow> unit py" where
  "expected_key cpus = (\<lambda>(role, cpu).
     if role = lit ''temperature_millicelsius'' then
       (case cpu of None \<Rightarrow> Inr () | Some c \<Rightarrow>
          if c \<notin> set cpus then control_fail ''raw temperature telemetry names an unexpected CPU'' else Inr ())
     else (case cpu of None \<Rightarrow> control_fail ''raw telemetry contains an unexpected per-CPU metric'' | Some c \<Rightarrow>
          if c \<notin> set cpus then control_fail ''raw telemetry contains an unexpected per-CPU metric'' else Inr ()))"

text \<open>The values of one role on one processor, checked as the role demands.\<close>

definition role_values :: "receipt_pairs \<Rightarrow> int list \<Rightarrow> int \<Rightarrow> string \<Rightarrow> (int \<times> int) py" where
  "role_values pairs frequencies cpu role =
     (case map_of pairs (lit role, Some cpu) of
        None \<Rightarrow> control_fail ''raw telemetry omits a role for a CPU''
      | Some (first, second) \<Rightarrow>
          let before = tr_parsed first; after = tr_parsed second in
          if role = ''thermal_throttle_count'' \<and> after \<noteq> before then control_fail ''thermal throttle counter changed''
          else if role \<in> {''aperf'', ''mperf''} \<and> after \<le> before then control_fail ''did not advance without wrap''
          else if role = ''scaling_current_frequency_khz'' \<and> (before \<notin> set frequencies \<or> after \<notin> set frequencies)
          then control_fail ''current frequency differs from the frozen accepted set''
          else Inr (before, after))"

definition role_fields :: "string \<Rightarrow> int \<times> int \<Rightarrow> (string \<times> pyval) list" where
  "role_fields role values =
     [(role @ ''_pre'', PyInt (fst values)), (role @ ''_post'', PyInt (snd values))] @
     (if role \<in> {''aperf'', ''mperf''} then [(role @ ''_delta'', PyInt (snd values - fst values))] else [])"

definition cpu_report :: "receipt_pairs \<Rightarrow> int list \<Rightarrow> rational_bound \<times> rational_bound \<Rightarrow> int \<Rightarrow> pyval py" where
  "cpu_report pairs frequencies ratio_bounds cpu =
     and_then (role_values pairs frequencies cpu ''thermal_throttle_count'') (\<lambda>throttle.
     and_then (role_values pairs frequencies cpu ''aperf'') (\<lambda>aperf.
     and_then (role_values pairs frequencies cpu ''mperf'') (\<lambda>mperf.
     and_then (role_values pairs frequencies cpu ''scaling_current_frequency_khz'') (\<lambda>frequency.
     let aperf_delta = snd aperf - fst aperf; mperf_delta = snd mperf - fst mperf in
     if aperf_delta * snd (fst ratio_bounds) < fst (fst ratio_bounds) * mperf_delta \<or>
        aperf_delta * snd (snd ratio_bounds) > fst (snd ratio_bounds) * mperf_delta
     then control_fail ''exact APERF/MPERF delta ratio is outside the frozen bounds''
     else
     let divisor = gcd aperf_delta mperf_delta in
     Inr (str_record ((''cpu_id'', PyInt cpu) # role_fields ''thermal_throttle_count'' throttle @ role_fields ''aperf'' aperf @
       role_fields ''mperf'' mperf @ role_fields ''scaling_current_frequency_khz'' frequency @
       [(''aperf_mperf_ratio'', PyList [PyInt (aperf_delta div divisor), PyInt (mperf_delta div divisor)])]))))))"

definition temperature_report :: "int \<times> int \<Rightarrow> role_cpu \<times> telemetry_receipt \<times> telemetry_receipt \<Rightarrow> pyval py" where
  "temperature_report temperature_range = (\<lambda>((role, cpu), first, second).
     let before = tr_parsed first; after = tr_parsed second; low = fst temperature_range; high = snd temperature_range in
     if \<not> (low \<le> before \<and> before \<le> high \<and> low \<le> after \<and> after \<le> high) then control_fail ''temperature is outside the frozen inclusive range''
     else Inr (str_record [(''cpu_id'', optional_int cpu), (''pre'', PyInt before), (''post'', PyInt after)]))"

definition temperature_pairs :: "receipt_pairs \<Rightarrow> receipt_pairs" where
  "temperature_pairs pairs = filter (\<lambda>((role, _), _). role = lit ''temperature_millicelsius'') pairs"

definition int_pair :: "int \<times> int \<Rightarrow> pyval" where
  "int_pair p = PyList [PyInt (fst p), PyInt (snd p)]"

definition compare_raw_telemetry ::
  "nat \<Rightarrow> telemetry_snapshot \<Rightarrow> telemetry_snapshot \<Rightarrow> int list \<Rightarrow> int list \<Rightarrow> int \<times> int \<Rightarrow> rational_bound \<times> rational_bound \<Rightarrow>
   (pyval \<times> bytes \<times> pystr) py" where
  "compare_raw_telemetry d pre post cpus frequencies temperature_range ratio_bounds =
     and_then (check_comparison_inputs pre post cpus frequencies temperature_range ratio_bounds) (\<lambda>_.
     and_then (pair_receipts pre post) (\<lambda>pairs.
     and_then (all_checked (\<lambda>(key, _). expected_key cpus key) pairs) (\<lambda>_.
     and_then (mapM (cpu_report pairs frequencies ratio_bounds) cpus) (\<lambda>per_cpu.
     and_then (mapM (temperature_report temperature_range) (temperature_pairs pairs)) (\<lambda>temperatures.
     if temperatures = [] then control_fail ''raw telemetry has no bound temperature sensor''
     else
     and_then (telemetry_snapshot_sha256 d pre) (\<lambda>pre_sha.
     and_then (telemetry_snapshot_sha256 d post) (\<lambda>post_sha.
     let comparison = str_record [(''schema_version'', PyInt 1), (''record_type'', PyStr (lit ''cp2_timing_raw_telemetry_comparison'')),
       (''pre_snapshot_sha256'', PyStr pre_sha), (''post_snapshot_sha256'', PyStr post_sha), (''expected_cpu_ids'', PyList (map PyInt cpus)),
       (''accepted_frequency_khz'', PyList (map PyInt frequencies)), (''temperature_range_millicelsius'', int_pair temperature_range),
       (''aperf_mperf_ratio_bounds'', PyList [int_pair (fst ratio_bounds), int_pair (snd ratio_bounds)]),
       (''per_cpu'', PyList per_cpu), (''temperatures'', PyList temperatures), (''passed'', PyBool True)] in
     and_then (control_json d comparison) (\<lambda>canonical.
     Inr (comparison, canonical, hexdigest (sha256 canonical))))))))))"

section \<open>Structural coverage\<close>

definition REQUIRED_CONTROL_COVERAGE :: "string list" where
  "REQUIRED_CONTROL_COVERAGE = [''process_affinity'', ''cpuset'', ''smt_sibling_placement'', ''governor'', ''minimum_frequency'', ''maximum_frequency'',
     ''boost'', ''cpu_online'', ''cpu_idle'', ''irq_affinity'', ''irqbalance'', ''dma_latency'', ''k10temp'', ''msr'', ''temperature_telemetry'',
     ''frequency_telemetry'', ''aperf_telemetry'', ''mperf_telemetry'', ''throttle_telemetry'']"

text \<open>The regular expressions on the path's components; \<^verbatim>\<open>$\<close> also matches before a final newline.\<close>

definition numbered :: "string \<Rightarrow> pystr \<Rightarrow> bool" where
  "numbered stem s \<longleftrightarrow> starts_with (lit stem) s \<and> (let r = drop (length stem) s in r \<noteq> [] \<and> list_all is_digit r)"

definition without_newline :: "pystr \<Rightarrow> pystr" where
  "without_newline s = (if s \<noteq> [] \<and> last s = 10 then butlast s else s)"

definition cpu_online_path :: "pystr \<Rightarrow> bool" where
  "cpu_online_path path =
     (case rev (split_on 47 (without_newline path)) of
        file_name # cpu # _ # _ \<Rightarrow> file_name = lit ''online'' \<and> numbered ''cpu'' cpu
      | _ \<Rightarrow> False)"

definition cpu_idle_path :: "pystr \<Rightarrow> bool" where
  "cpu_idle_path path =
     (case rev (split_on 47 (without_newline path)) of
        file_name # state # cpuidle # cpu # _ # _ \<Rightarrow>
          file_name = lit ''disable'' \<and> numbered ''state'' state \<and> cpuidle = lit ''cpuidle'' \<and> numbered ''cpu'' cpu
      | _ \<Rightarrow> False)"

definition irq_affinity_path :: "pystr \<Rightarrow> bool" where
  "irq_affinity_path path \<longleftrightarrow>
     path = lit ''/proc/irq/default_smp_affinity'' \<or>
     (case split_on 47 path of
        [lead, p, i, number, file_name] \<Rightarrow> lead = [] \<and> p = lit ''proc'' \<and> i = lit ''irq'' \<and> number \<noteq> [] \<and> list_all is_digit number \<and>
          (file_name = lit ''smp_affinity'' \<or> file_name = lit ''smp_affinity_list'')
      | _ \<Rightarrow> False)"

definition control_path_categories :: "pystr \<Rightarrow> string list" where
  "control_path_categories path =
     (let basename = path_tail path in
      (if basename = lit ''scaling_governor'' then [''governor''] else []) @
      (if basename = lit ''scaling_min_freq'' then [''minimum_frequency''] else []) @
      (if basename = lit ''scaling_max_freq'' then [''maximum_frequency''] else []) @
      (if basename \<in> {lit ''boost'', lit ''no_turbo''} then [''boost''] else []) @
      (if cpu_online_path path then [''cpu_online''] else []) @
      (if cpu_idle_path path then [''cpu_idle''] else []) @
      (if irq_affinity_path path then [''irq_affinity''] else []) @
      (if starts_with (lit ''/sys/fs/cgroup/'') path \<and> basename \<in> {lit ''cpuset.cpus'', lit ''cpuset.mems'', lit ''tasks'', lit ''cgroup.procs''}
       then [''cpuset''] else []))"

record observation =
  ob_id :: pystr
  ob_argv :: "pystr list"
  ob_parser :: pystr

definition observation_categories :: "(pystr \<Rightarrow> pystr) \<Rightarrow> observation \<Rightarrow> string list" where
  "observation_categories lower ob =
     (let descriptor = lower (join_with (lit '' '') (ob_id ob # ob_argv ob)) in
      (if ob_parser ob = lit ''hwmon_temperature_millicelsius'' \<or> has_part (lit ''temperature'') descriptor then [''temperature_telemetry''] else []) @
      (if has_part (lit ''scaling_cur_freq'') descriptor \<or> has_part (lit ''current_frequency'') descriptor then [''frequency_telemetry''] else []) @
      (if has_part (lit ''aperf'') descriptor then [''aperf_telemetry''] else []) @
      (if has_part (lit ''mperf'') descriptor then [''mperf_telemetry''] else []) @
      (if has_part (lit ''throttle'') descriptor then [''throttle_telemetry''] else []))"

definition coverage_categories :: "(pystr \<Rightarrow> pystr) \<Rightarrow> control_profile \<Rightarrow> observation list \<Rightarrow> pystr list" where
  "coverage_categories lower profile observations =
     map lit [''process_affinity'', ''smt_sibling_placement'', ''dma_latency''] @
     concat (map (\<lambda>w. map lit (control_path_categories (wa_path w))) (cp_writes profile)) @
     map ma_name (cp_module_actions profile) @
     (if list_ex (\<lambda>a. sa_name a = lit ''irqbalance'') (cp_service_actions profile) then [lit ''irqbalance''] else []) @
     concat (map (\<lambda>ob. map lit (observation_categories lower ob)) observations)"

definition missing_categories :: "pystr list \<Rightarrow> pystr list" where
  "missing_categories categories = filter (\<lambda>c. c \<notin> set categories) (map lit REQUIRED_CONTROL_COVERAGE)"

definition validate_control_coverage :: "(pystr \<Rightarrow> pystr) \<Rightarrow> control_profile \<Rightarrow> observation list \<Rightarrow> pyval" where
  "validate_control_coverage lower profile observations =
     (let categories = coverage_categories lower profile observations; missing = missing_categories categories in
      str_record [(''schema_version'', PyInt 1), (''record_type'', PyStr (lit ''cp2_timing_control_coverage'')),
        (''profile_sha256'', PyStr (cp_sha256 profile)), (''required_categories'', PyList (map (PyStr o lit) REQUIRED_CONTROL_COVERAGE)),
        (''present_categories'', PyList (map PyStr (sorted_set categories))), (''missing_categories'', PyList (map PyStr missing)),
        (''scope'', PyStr (lit ''structural_categories_only_runtime_population_requires_raw_receipts'')), (''passed'', PyBool (missing = []))])"

definition require_complete_control_coverage :: "(pystr \<Rightarrow> pystr) \<Rightarrow> control_profile \<Rightarrow> observation list \<Rightarrow> pyval py" where
  "require_complete_control_coverage lower profile observations =
     (if missing_categories (coverage_categories lower profile observations) \<noteq> []
      then control_fail ''timing control profile lacks required structural coverage''
      else Inr (validate_control_coverage lower profile observations))"

end
