(* ===== verification/Control_Telemetry_Correct.thy ===== *)
theory Control_Telemetry_Correct
  imports Control_Telemetry Control_Journal_Correct
begin

text \<open>
  Correctness of the raw telemetry: the domain and canonical form of accepted bytes, and what a passing
  comparison of two snapshots establishes for every expected processor.
\<close>

section \<open>Canonical decimals\<close>

lemma dec_value_snoc: "dec_value (ds @ [d]) = 10 * dec_value ds + (d - 48)"
  by (simp add: dec_value_def of_digits_def)

lemma dec_value_zero: "list_all is_digit ds \<Longrightarrow> dec_value ds = 0 \<Longrightarrow> set ds \<subseteq> {48}"
  by (induction ds rule: rev_induct) (auto simp: dec_value_snoc is_digit_def)

lemma dec_text_value:
  assumes "list_all is_digit ds" "ds \<noteq> []" "1 < length ds \<longrightarrow> hd ds \<noteq> 48"
  shows "dec_text (dec_value ds) = ds"
  using assms
proof (induction ds rule: rev_induct)
  case (snoc d ds)
  obtain e where d: "is_digit d" "d = 48 + e" "e < 10" using snoc.prems by (auto simp: is_digit_def dest!: le_Suc_ex)
  show ?case
  proof (cases "ds = []")
    case True
    then show ?thesis using d by (subst dec_text.simps) (simp add: dec_value_def of_digits_def)
  next
    case False
    have h: "hd ds \<noteq> 48" "list_all is_digit ds" using snoc.prems False by auto
    have "dec_value ds \<noteq> 0" using dec_value_zero [OF h(2)] h(1) False by (cases ds) auto
    then have "\<not> 10 * dec_value ds + e < 10" by simp
    moreover have "(10 * dec_value ds + e) div 10 = dec_value ds" "(10 * dec_value ds + e) mod 10 = e" using d by simp_all
    moreover have "dec_text (dec_value ds) = ds" by (rule snoc.IH) (use h False in auto)
    ultimately show ?thesis using d unfolding dec_value_snoc by (subst dec_text.simps) simp
  qed
qed simp

lemma starts_one: "starts_with [c] s \<longleftrightarrow> (\<exists>r. s = c # r)"
  by (cases s) (auto simp: starts_with_def)

lemma parse_text_form:
  assumes "parse_text_telemetry is_signed raw_text = Inr v"
  shows "(without_newline raw_text = int_repr v \<or> is_signed \<and> without_newline raw_text = lit ''-0'' \<and> v = 0) \<and>
    (if is_signed then - 273150 \<le> v \<and> v \<le> 1000000 else 0 \<le> v \<and> v < 2 ^ 64)"
proof -
  let ?t = "without_newline raw_text"
  let ?ds = "telemetry_digits is_signed ?t"
  from assms have d: "?ds \<noteq> []" "list_all is_digit ?ds" "1 < length ?ds \<longrightarrow> \<not> starts_with (lit ''0'') ?ds" "?t \<noteq> []" "v = signed_decimal ?t"
    and dom: "if is_signed then - 273150 \<le> v \<and> v \<le> 1000000 else 0 \<le> v \<and> v \<le> 2 ^ 64 - 1"
    by (auto simp: parse_text_telemetry_def without_newline_def Let_def check_u64_def plain_u64_def split: if_splits)
  have h: "1 < length ?ds \<longrightarrow> hd ?ds \<noteq> 48" using d(1,3) by (cases ?ds) (auto simp: starts_one lit_def)
  have c: "dec_text (dec_value ?ds) = ?ds" by (rule dec_text_value [OF d(2,1) h])
  have "?t = int_repr v \<or> is_signed \<and> ?t = lit ''-0'' \<and> v = 0"
  proof (cases "is_signed \<and> starts_with (lit ''-'') ?t")
    case True
    then obtain r where r: "?t = 45 # r" by (auto simp: starts_one lit_def)
    then have ds: "?ds = r" using True by (simp add: telemetry_digits_def)
    have v: "v = - int (dec_value r)" using d(5) r by (simp add: signed_decimal_def)
    show ?thesis
    proof (cases "dec_value r = 0")
      case True
      then have "r = [48]" using c ds by (simp add: dec_text_0)
      then show ?thesis using \<open>is_signed \<and> _\<close> r v by (simp add: lit_def dec_value_def of_digits_def)
    next
      case False
      then show ?thesis using c ds r v by (simp add: int_repr_def)
    qed
  next
    case False
    then have ds: "?ds = ?t" by (auto simp: telemetry_digits_def)
    then have "hd ?t \<noteq> 45" using d(1,2) by (cases ?t) (auto simp: is_digit_def)
    then have "v = int (dec_value ?t)" using d(4,5) by (cases ?t) (auto simp: signed_decimal_def)
    then show ?thesis using c ds by (simp add: int_repr_def)
  qed
  then show ?thesis using dom by (auto split: if_splits)
qed

section \<open>The pairs of receipts\<close>

text \<open>A role on a processor, read before as \<open>a\<close> and after as \<open>b\<close> through one specification.\<close>

definition measured :: "telemetry_snapshot \<Rightarrow> telemetry_snapshot \<Rightarrow> pystr \<Rightarrow> int option \<Rightarrow> telemetry_receipt \<Rightarrow> telemetry_receipt \<Rightarrow> bool" where
  "measured pre post role cpu a b \<longleftrightarrow> a \<in> set (tn_receipts pre) \<and> b \<in> set (tn_receipts post) \<and> tr_specification a = tr_specification b \<and>
     ts_role (tr_specification a) = role \<and> ts_cpu_id (tr_specification a) = cpu"

lemma update_fold_distinct:
  assumes "distinct (map f xs)" "set (map f xs) \<inter> fst ` set al = {}"
  shows "fold (\<lambda>x. AList.update (f x) x) xs al = al @ map (\<lambda>x. (f x, x)) xs"
  using assms
proof (induction xs arbitrary: al)
  case (Cons x xs)
  have "AList.update (f x) x al = al @ [(f x, x)]" using Cons.prems(2) by (induction al) auto
  moreover have "set (map f xs) \<inter> fst ` set (al @ [(f x, x)]) = {}" using Cons.prems by auto
  ultimately show ?case using Cons.IH [of "al @ [(f x, x)]"] Cons.prems(1) by simp
qed simp

lemma receipts_by_id_distinct: "distinct (map metric_id_of rs) \<Longrightarrow> receipts_by_id rs = map (\<lambda>r. (metric_id_of r, r)) rs"
  unfolding receipts_by_id_def by (subst update_fold_distinct) auto

definition pairs_ok :: "telemetry_receipt list \<Rightarrow> telemetry_receipt list \<Rightarrow> receipt_pairs \<Rightarrow> bool" where
  "pairs_ok as post pairs \<longleftrightarrow> distinct (map fst pairs) \<and>
     (\<forall>((role, cpu), a, b) \<in> set pairs. b \<in> set post \<and> tr_specification a = tr_specification b \<and> role = ts_role (tr_specification a) \<and> cpu = ts_cpu_id (tr_specification a)) \<and>
     map (fst o snd) pairs = as"

lemma pair_step_ok:
  assumes "pair_step (map (\<lambda>r. (metric_id_of r, r)) post) pairs (i, a) = Inr pairs'" "pairs_ok as post pairs"
  shows "pairs_ok (as @ [a]) post pairs'"
proof -
  let ?by_id = "map (\<lambda>r. (metric_id_of r, r)) post"
  from assms(1) obtain b where b: "map_of ?by_id i = Some b" by (auto simp: pair_step_def split: option.splits)
  then have "b \<in> set post" by (auto dest!: map_of_SomeD)
  let ?key = "(ts_role (tr_specification a), ts_cpu_id (tr_specification a))"
  from assms(1) b have n: "tr_specification a = tr_specification b" "map_of pairs ?key = None" "pairs' = pairs @ [(?key, a, b)]"
    by (auto simp: pair_step_def Let_def control_fail_def simp del: not_None_eq split: if_splits)
  have "?key \<notin> fst ` set pairs" using n(2) by (simp add: map_of_eq_None_iff)
  then show ?thesis using assms(2) n \<open>b \<in> set post\<close> by (auto simp: pairs_ok_def)
qed

lemma pair_fold_ok:
  assumes "foldM (pair_step (map (\<lambda>r. (metric_id_of r, r)) post)) pairs (map (\<lambda>r. (metric_id_of r, r)) rs) = Inr pairs'" "pairs_ok as post pairs"
  shows "pairs_ok (as @ rs) post pairs'"
  using assms
proof (induction rs arbitrary: pairs as)
  case (Cons r rs)
  from Cons.prems(1) obtain pairs1 where 1: "pair_step (map (\<lambda>r. (metric_id_of r, r)) post) pairs (metric_id_of r, r) = Inr pairs1"
    and 2: "foldM (pair_step (map (\<lambda>r. (metric_id_of r, r)) post)) pairs1 (map (\<lambda>r. (metric_id_of r, r)) rs) = Inr pairs'" by auto
  show ?case using Cons.IH [OF 2 pair_step_ok [OF 1 Cons.prems(2)]] by simp
qed simp

text \<open>On two valid snapshots the pairs are exactly the measured ones, one for each role and processor.\<close>

lemma pair_receipts_exact:
  assumes "make_telemetry_snapshot p rs = Inr pre" "make_telemetry_snapshot q us = Inr post" "pair_receipts pre post = Inr pairs"
  shows "distinct (map fst pairs)" "((role, cpu), a, b) \<in> set pairs \<longleftrightarrow> measured pre post role cpu a b" "map (fst o snd) pairs = tn_receipts pre"
proof -
  have d: "tn_receipts pre = rs" "tn_receipts post = us" "distinct (map metric_id_of rs)" "distinct (map metric_id_of us)"
    using assms(1,2) sorted_set_fixed by (auto simp: make_telemetry_snapshot_def)
  have by_id: "receipts_by_id rs = map (\<lambda>r. (metric_id_of r, r)) rs" "receipts_by_id us = map (\<lambda>r. (metric_id_of r, r)) us"
    by (rule receipts_by_id_distinct, rule d)+
  have "foldM (pair_step (map (\<lambda>r. (metric_id_of r, r)) us)) [] (map (\<lambda>r. (metric_id_of r, r)) rs) = Inr pairs"
    using assms(3) unfolding pair_receipts_def d by_id by (simp add: Let_def split: if_splits)
  from pair_fold_ok [OF this, of "[]"] have ok: "pairs_ok rs us pairs" by (simp add: pairs_ok_def)
  show "distinct (map fst pairs)" "map (fst o snd) pairs = tn_receipts pre" using ok d by (simp_all add: pairs_ok_def)
  show "((role, cpu), a, b) \<in> set pairs \<longleftrightarrow> measured pre post role cpu a b"
  proof
    assume i: "((role, cpu), a, b) \<in> set pairs"
    then have "a \<in> set rs" using ok by (force simp: pairs_ok_def)
    then show "measured pre post role cpu a b" using ok i d by (auto simp: pairs_ok_def measured_def)
  next
    assume m: "measured pre post role cpu a b"
    then have "a \<in> set (map (fst o snd) pairs)" using ok d by (simp add: pairs_ok_def measured_def)
    then obtain k b' where k: "(k, a, b') \<in> set pairs" by auto
    then have p: "b' \<in> set us" "tr_specification a = tr_specification b'" "k = (ts_role (tr_specification a), ts_cpu_id (tr_specification a))"
      using ok by (auto simp: pairs_ok_def)
    have "metric_id_of b' = metric_id_of b" using p m by (simp add: metric_id_of_def measured_def)
    then have "b' = b" using d(2,4) p(1) m by (auto simp: measured_def distinct_map dest: inj_onD)
    then show "((role, cpu), a, b) \<in> set pairs" using k p m by (simp add: measured_def)
  qed
qed

lemma role_values_exact:
  assumes "make_telemetry_snapshot p rs = Inr pre" "make_telemetry_snapshot q us = Inr post" "pair_receipts pre post = Inr pairs"
    and "role_values pairs frequencies cpu role = Inr (x, y)"
  shows "\<exists>a b. measured pre post (lit role) (Some cpu) a b \<and> tr_parsed a = x \<and> tr_parsed b = y"
    "measured pre post (lit role) (Some cpu) a b \<Longrightarrow> tr_parsed a = x \<and> tr_parsed b = y"
proof -
  from assms(4) obtain a' b' where m: "map_of pairs (lit role, Some cpu) = Some (a', b')" and v: "tr_parsed a' = x" "tr_parsed b' = y"
    by (auto simp: role_values_def Let_def control_fail_def split: option.splits if_splits)
  note e = pair_receipts_exact [OF assms(1-3)]
  have "measured pre post (lit role) (Some cpu) a' b'" using map_of_SomeD [OF m] e(2) by blast
  then show "\<exists>a b. measured pre post (lit role) (Some cpu) a b \<and> tr_parsed a = x \<and> tr_parsed b = y" using v by blast
  assume "measured pre post (lit role) (Some cpu) a b"
  then have "map_of pairs (lit role, Some cpu) = Some (a, b)" using e(1,2) by simp
  then show "tr_parsed a = x \<and> tr_parsed b = y" using m v by simp
qed

section \<open>What a passing comparison establishes\<close>

text \<open>The counters of one processor between the two snapshots.\<close>

definition counters_sound :: "telemetry_snapshot \<Rightarrow> telemetry_snapshot \<Rightarrow> rational_bound \<times> rational_bound \<Rightarrow> int \<Rightarrow> bool" where
  "counters_sound pre post bounds cpu \<longleftrightarrow>
     (\<forall>a b m n. measured pre post (lit ''aperf'') (Some cpu) a b \<and> measured pre post (lit ''mperf'') (Some cpu) m n \<longrightarrow>
        tr_parsed a < tr_parsed b \<and> tr_parsed m < tr_parsed n \<and>
        Fract (fst (fst bounds)) (snd (fst bounds)) \<le> Fract (tr_parsed b - tr_parsed a) (tr_parsed n - tr_parsed m) \<and>
        Fract (tr_parsed b - tr_parsed a) (tr_parsed n - tr_parsed m) \<le> Fract (fst (snd bounds)) (snd (snd bounds)))"

definition processor_sound :: "telemetry_snapshot \<Rightarrow> telemetry_snapshot \<Rightarrow> int list \<Rightarrow> rational_bound \<times> rational_bound \<Rightarrow> int \<Rightarrow> bool" where
  "processor_sound pre post frequencies bounds cpu \<longleftrightarrow>
     (\<forall>role \<in> {''thermal_throttle_count'', ''aperf'', ''mperf'', ''scaling_current_frequency_khz''}. \<exists>a b. measured pre post (lit role) (Some cpu) a b) \<and>
     (\<forall>a b. measured pre post (lit ''thermal_throttle_count'') (Some cpu) a b \<longrightarrow> tr_parsed b = tr_parsed a) \<and>
     (\<forall>a b. measured pre post (lit ''scaling_current_frequency_khz'') (Some cpu) a b \<longrightarrow> tr_parsed a \<in> set frequencies \<and> tr_parsed b \<in> set frequencies) \<and>
     counters_sound pre post bounds cpu"

lemma check_ratio_bound_Inr: "check_ratio_bound bound = Inr u \<Longrightarrow> 0 < fst bound \<and> 0 < snd bound"
  by (cases bound) (auto simp: check_ratio_bound_def split: if_splits)

lemma cpu_report_sound:
  assumes "make_telemetry_snapshot p rs = Inr pre" "make_telemetry_snapshot q us = Inr post" "pair_receipts pre post = Inr pairs"
    and "cpu_report pairs frequencies bounds cpu = Inr report" "0 < snd (fst bounds)" "0 < snd (snd bounds)"
  shows "processor_sound pre post frequencies bounds cpu"
proof -
  from assms(4) obtain t t' a a' m m' f f' where v: "role_values pairs frequencies cpu ''thermal_throttle_count'' = Inr (t, t')"
    "role_values pairs frequencies cpu ''aperf'' = Inr (a, a')" "role_values pairs frequencies cpu ''mperf'' = Inr (m, m')"
    "role_values pairs frequencies cpu ''scaling_current_frequency_khz'' = Inr (f, f')"
    and r: "fst (fst bounds) * (m' - m) \<le> (a' - a) * snd (fst bounds)" "(a' - a) * snd (snd bounds) \<le> fst (snd bounds) * (m' - m)"
    by (auto simp: cpu_report_def Let_def split: if_splits)
  have c: "t' = t" "a < a'" "m < m'" "f \<in> set frequencies" "f' \<in> set frequencies"
    using v by (auto simp: role_values_def Let_def control_fail_def split: option.splits if_splits)
  note e = role_values_exact [OF assms(1-3)]
  have q: "Fract (fst (fst bounds)) (snd (fst bounds)) \<le> Fract (a' - a) (m' - m)" "Fract (a' - a) (m' - m) \<le> Fract (fst (snd bounds)) (snd (snd bounds))"
    using r c assms(5,6) by (simp_all add: le_rat mult.commute mult.left_commute)
  have "counters_sound pre post bounds cpu" unfolding counters_sound_def using e(2) [OF v(2)] e(2) [OF v(3)] c q by blast
  then show ?thesis unfolding processor_sound_def using e(1) [OF v(1)] e(1) [OF v(2)] e(1) [OF v(3)] e(1) [OF v(4)] e(2) [OF v(1)] e(2) [OF v(4)] c by auto
qed

lemma comparison_runs:
  assumes "compare_raw_telemetry d pre post cpus frequencies limits bounds = Inr result"
  obtains pairs per_cpu temperatures where "check_comparison_inputs pre post cpus frequencies limits bounds = Inr ()" "pair_receipts pre post = Inr pairs"
    "mapM (cpu_report pairs frequencies bounds) cpus = Inr per_cpu" "mapM (temperature_report limits) (temperature_pairs pairs) = Inr temperatures" "temperatures \<noteq> []"
  using assms by (auto simp: compare_raw_telemetry_def Let_def split: if_splits)

lemma temperatures_in_range:
  assumes "mapM (temperature_report limits) (temperature_pairs pairs) = Inr temperatures" "((lit ''temperature_millicelsius'', cpu), a, b) \<in> set pairs"
  shows "tr_parsed a \<in> {fst limits..snd limits} \<and> tr_parsed b \<in> {fst limits..snd limits}"
proof -
  have "((lit ''temperature_millicelsius'', cpu), a, b) \<in> set (temperature_pairs pairs)" using assms(2) by (simp add: temperature_pairs_def)
  then obtain y where "temperature_report limits ((lit ''temperature_millicelsius'', cpu), a, b) = Inr y"
    using mapM_member [OF assms(1)] by blast
  then show ?thesis by (auto simp: temperature_report_def Let_def split: if_splits)
qed

lemma inputs_ordered:
  assumes "check_comparison_inputs pre post cpus frequencies limits bounds = Inr ()" "a \<in> set (tn_receipts pre)" "b \<in> set (tn_receipts post)"
  shows "tr_ended a < tr_started b"
proof -
  have "Max (tr_ended ` set (tn_receipts pre)) < Min (tr_started ` set (tn_receipts post))"
    using assms(1) by (auto simp: check_comparison_inputs_def not_le split: if_splits)
  moreover have "tr_ended a \<le> Max (tr_ended ` set (tn_receipts pre))" "Min (tr_started ` set (tn_receipts post)) \<le> tr_started b" using assms(2,3) by simp_all
  ultimately show ?thesis by simp
qed

section \<open>Properties\<close>



text \<open>
  C14. A passing comparison. When two valid snapshots compare, every pre read ended before any post read
  began; each expected processor has every counter measured in both; its throttle count did not change, its
  frequency readings are accepted ones, its counters advanced and their exact rational ratio lies in the
  frozen interval; and every temperature reading lies in the frozen range.
\<close>

theorem telemetry_comparison_sound:
  assumes "make_telemetry_snapshot p rs = Inr pre" "make_telemetry_snapshot q us = Inr post"
    and "compare_raw_telemetry d pre post cpus frequencies limits bounds = Inr result"
  shows "(\<forall>a \<in> set (tn_receipts pre). \<forall>b \<in> set (tn_receipts post). tr_ended a < tr_started b) \<and>
    (\<forall>cpu \<in> set cpus. processor_sound pre post frequencies bounds cpu) \<and>
    (\<exists>cpu a b. measured pre post (lit ''temperature_millicelsius'') cpu a b) \<and>
    (\<forall>cpu a b. measured pre post (lit ''temperature_millicelsius'') cpu a b \<longrightarrow>
       tr_parsed a \<in> {fst limits..snd limits} \<and> tr_parsed b \<in> {fst limits..snd limits})"
proof -
  obtain pairs per_cpu temperatures where i: "check_comparison_inputs pre post cpus frequencies limits bounds = Inr ()" and p: "pair_receipts pre post = Inr pairs"
    and c: "mapM (cpu_report pairs frequencies bounds) cpus = Inr per_cpu" and t: "mapM (temperature_report limits) (temperature_pairs pairs) = Inr temperatures" "temperatures \<noteq> []"
    by (rule comparison_runs [OF assms(3)])
  note e = pair_receipts_exact [OF assms(1,2) p]
  have "check_ratio_bound (fst bounds) = Inr ()" "check_ratio_bound (snd bounds) = Inr ()" using i by (auto simp: check_comparison_inputs_def split: if_splits)
  then have b: "0 < snd (fst bounds)" "0 < snd (snd bounds)" using check_ratio_bound_Inr by blast+
  have "processor_sound pre post frequencies bounds cpu" if h: "cpu \<in> set cpus" for cpu
  proof -
    obtain report where "cpu_report pairs frequencies bounds cpu = Inr report" using mapM_member [OF c h] by blast
    then show ?thesis by (rule cpu_report_sound [OF assms(1,2) p _ b])
  qed
  moreover have "\<exists>cpu a b. measured pre post (lit ''temperature_millicelsius'') cpu a b"
  proof -
    have "temperature_pairs pairs \<noteq> []" using t by (auto simp: mapM_eq_Inr)
    then obtain cpu a b where "((lit ''temperature_millicelsius'', cpu), a, b) \<in> set pairs" by (auto simp: temperature_pairs_def filter_empty_conv)
    then show ?thesis using e(2) by blast
  qed
  ultimately show ?thesis using inputs_ordered [OF i] temperatures_in_range [OF t(1)] e(2) by blast
qed

definition sample_reading :: "string \<Rightarrow> string \<Rightarrow> int option \<Rightarrow> string \<Rightarrow> int \<Rightarrow> bytes \<Rightarrow> int \<Rightarrow> telemetry_receipt" where
  "sample_reading i role cpu phase start raw value =
     \<lparr>tr_specification = \<lparr>ts_metric_id = lit i, ts_role = lit role, ts_cpu_id = cpu, ts_source_kind = lit ''text_integer'', ts_path = lit ''/proc/cp'', ts_register = None\<rparr>,
      tr_phase = lit phase, tr_started = start, tr_ended = start + 1, tr_raw = raw, tr_parsed = value\<rparr>"

definition sample_readings :: "string \<Rightarrow> int \<Rightarrow> bytes \<times> int \<Rightarrow> telemetry_receipt list" where
  "sample_readings phase start counter =
     [sample_reading ''a'' ''aperf'' (Some 0) phase start (fst counter) (snd counter),
      sample_reading ''f'' ''scaling_current_frequency_khz'' (Some 0) phase start [56] 8,
      sample_reading ''m'' ''mperf'' (Some 0) phase start (fst counter) (snd counter),
      sample_reading ''t'' ''temperature_millicelsius'' None phase start [52] 4,
      sample_reading ''z'' ''thermal_throttle_count'' (Some 0) phase start [48] 0]"

definition sample_pre :: telemetry_snapshot where
  "sample_pre = \<lparr>tn_phase = lit ''pre'', tn_receipts = sample_readings ''pre'' 0 ([49], 1)\<rparr>"

definition sample_post :: telemetry_snapshot where
  "sample_post = \<lparr>tn_phase = lit ''post'', tn_receipts = sample_readings ''post'' 5 ([51], 3)\<rparr>"

lemma sample_snapshots:
  "make_telemetry_snapshot (lit ''pre'') (sample_readings ''pre'' 0 ([49], 1)) = Inr sample_pre"
  "make_telemetry_snapshot (lit ''post'') (sample_readings ''post'' 5 ([51], 3)) = Inr sample_post"
  by (simp_all add: make_telemetry_snapshot_def PHASES_def sample_readings_def sample_reading_def metric_id_of_def sorted_set_def lit_def sample_pre_def sample_post_def)

lemma sample_parts:
  "check_comparison_inputs sample_pre sample_post [0] [8] (0, 9) ((1, 2), (2, 1)) = Inr ()"
  by (simp add: check_comparison_inputs_def sample_pre_def sample_post_def sample_readings_def sample_reading_def lit_def sorted_set_def check_ratio_bound_def)

definition sample_pairs :: receipt_pairs where
  "sample_pairs = map (\<lambda>(a, b). ((ts_role (tr_specification a), ts_cpu_id (tr_specification a)), a, b))
     (zip (sample_readings ''pre'' 0 ([49], 1)) (sample_readings ''post'' 5 ([51], 3)))"

lemma sample_pairing: "pair_receipts sample_pre sample_post = Inr sample_pairs"
  by (simp add: pair_receipts_def receipts_by_id_def sample_pre_def sample_post_def sample_readings_def sample_reading_def metric_id_of_def lit_def
      pair_step_def sample_pairs_def)

lemma sample_keys: "all_checked (\<lambda>(key, _). expected_key [0] key) sample_pairs = Inr ()"
  by (simp add: all_checked_def sample_pairs_def sample_readings_def sample_reading_def expected_key_def lit_def)

lemma sample_report: "\<exists>kvs. cpu_report sample_pairs [8] ((1, 2), (2, 1)) 0 = Inr (PyDict kvs) \<and> json_wf (Suc (Suc (Suc (Suc 0)))) (PyDict kvs)"
  by (simp add: cpu_report_def role_values_def role_fields_def sample_pairs_def sample_readings_def sample_reading_def lit_def str_record_def
      is_scalar_def scalar_normal_def)

lemma hex_scalars: "list_all is_scalar (hexdigest bs)"
  by (rule lower_hex_scalars [OF hexdigest_shape])

lemma json_ok: "json_wf (Suc d) v \<Longrightarrow> v = PyDict kvs \<Longrightarrow> \<exists>b. control_json (Suc d) v = Inr b"
  using line_reads_back by blast

lemma sample_snapshot_json:
  "\<exists>b. telemetry_snapshot_sha256 6 sample_pre = Inr b \<and> list_all is_scalar b" "\<exists>b. telemetry_snapshot_sha256 6 sample_post = Inr b \<and> list_all is_scalar b"
proof -
  have w: "json_wf (Suc (Suc (Suc (Suc (Suc (Suc 0)))))) (telemetry_snapshot_record n)" if h: "n = sample_pre \<or> n = sample_post" for n
    using h by (auto simp: telemetry_snapshot_record_def receipt_record_def spec_record_def optional_int_def str_record_def sample_pre_def sample_post_def
        sample_readings_def sample_reading_def lit_def is_scalar_def scalar_normal_def hex_scalars)
  have "\<exists>b. telemetry_snapshot_sha256 6 n = Inr b \<and> list_all is_scalar b" if h: "n = sample_pre \<or> n = sample_post" for n
  proof -
    obtain kvs where k: "telemetry_snapshot_record n = PyDict kvs" by (simp add: telemetry_snapshot_record_def str_record_def)
    obtain b where "control_json 6 (telemetry_snapshot_record n) = Inr b" using json_ok [OF w [OF h] k] by (auto simp: eval_nat_numeral)
    then show ?thesis by (simp add: telemetry_snapshot_sha256_def hex_scalars)
  qed
  then show "\<exists>b. telemetry_snapshot_sha256 6 sample_pre = Inr b \<and> list_all is_scalar b" "\<exists>b. telemetry_snapshot_sha256 6 sample_post = Inr b \<and> list_all is_scalar b" by blast+
qed

lemma sample_temperatures:
  "mapM (temperature_report (0, 9)) (temperature_pairs sample_pairs) = Inr [str_record [(''cpu_id'', PyNone), (''pre'', PyInt 4), (''post'', PyInt 4)]]"
  by (simp add: temperature_pairs_def sample_pairs_def sample_readings_def sample_reading_def temperature_report_def optional_int_def lit_def)

lemma sample_comparison: "\<exists>result. compare_raw_telemetry 6 sample_pre sample_post [0] [8] (0, 9) ((1, 2), (2, 1)) = Inr result"
proof -
  obtain p q where s: "telemetry_snapshot_sha256 6 sample_pre = Inr p" "telemetry_snapshot_sha256 6 sample_post = Inr q" "list_all is_scalar p" "list_all is_scalar q"
    using sample_snapshot_json by blast
  obtain kvs where r: "cpu_report sample_pairs [8] ((1, 2), (2, 1)) 0 = Inr (PyDict kvs)" "json_wf (Suc (Suc (Suc (Suc 0)))) (PyDict kvs)" using sample_report by blast
  let ?c = "str_record [(''schema_version'', PyInt 1), (''record_type'', PyStr (lit ''cp2_timing_raw_telemetry_comparison'')),
       (''pre_snapshot_sha256'', PyStr p), (''post_snapshot_sha256'', PyStr q), (''expected_cpu_ids'', PyList (map PyInt [0])),
       (''accepted_frequency_khz'', PyList (map PyInt [8])), (''temperature_range_millicelsius'', int_pair (0, 9)),
       (''aperf_mperf_ratio_bounds'', PyList [int_pair (1, 2), int_pair (2, 1)]),
       (''per_cpu'', PyList [PyDict kvs]), (''temperatures'', PyList [str_record [(''cpu_id'', PyNone), (''pre'', PyInt 4), (''post'', PyInt 4)]]), (''passed'', PyBool True)]"
  have w: "json_wf (Suc (Suc (Suc (Suc (Suc (Suc 0)))))) ?c" using s(3,4) r(2)
    by (simp add: int_pair_def str_record_def lit_def is_scalar_def scalar_normal_def)
  obtain items where k: "?c = PyDict items" by (simp add: str_record_def)
  from json_ok [OF w k] obtain b where "control_json 6 ?c = Inr b" by (auto simp: eval_nat_numeral)
  then show ?thesis using s r(1) by (simp add: compare_raw_telemetry_def sample_parts sample_pairing sample_keys sample_temperatures Let_def)
qed

theorem telemetry_comparison_sound_witness:
  "\<exists>result. compare_raw_telemetry 6 sample_pre sample_post [0] [8] (0, 9) ((1, 2), (2, 1)) = Inr result \<and>
     processor_sound sample_pre sample_post [8] ((1, 2), (2, 1)) 0"
proof -
  obtain result where r: "compare_raw_telemetry 6 sample_pre sample_post [0] [8] (0, 9) ((1, 2), (2, 1)) = Inr result" using sample_comparison by blast
  have "processor_sound sample_pre sample_post [8] ((1, 2), (2, 1)) 0" using telemetry_comparison_sound [OF sample_snapshots r] by simp
  then show ?thesis using r by blast
qed

section \<open>Boundary inputs\<close>

text \<open>Two texts denote the temperature zero, and a single processor number is not bounded as a range is.\<close>

lemma negative_zero_accepted: "parse_text_telemetry True (lit ''-0'') = Inr 0 \<and> parse_text_telemetry True (lit ''0'') = Inr 0"
  by (simp add: parse_text_telemetry_def telemetry_digits_def starts_with_def is_digit_def signed_decimal_def dec_value_def of_digits_def lit_def)

lemma single_cpu_unbounded:
  "parse_cpu_list u (lit ''99999'') = Inr [99999] \<and> (\<exists>message. parse_cpu_list u (lit ''99999-99999'') = Inl (TimingControlError message))"
  by (simp add: parse_cpu_list_def cpu_list_token_def lit_def str_isdigit_def char_isdigit_def is_digit_def int_of_digits_def char_decimal_def of_digits_def
      sorted_set_def control_fail_def)

end
