(* ===== verification/Spec2Isabelle.thy ===== *)
theory Spec2Isabelle
  imports Timing_Math_Correct Timing_Publication_Correct F64_Codec_Correct Schema_Json Sequence_Codec_Correct Stereo_Census_Correct Capsule_Profile_Correct Crash_Recovery Affinity_Monitor_Correct Control_Telemetry_Correct
begin

text \<open>
  \<^bold>\<open>A verification of the evidence tooling of BRAVO.\<close>

  The repository holds a visual-inertial estimator (C++, \<^verbatim>\<open>src/ov_*\<close>) and the Python programs under
  \<^verbatim>\<open>src/scripts\<close> that run it, measure it and decide whether a result may be published. The Python programs
  are built on a few self-contained modules of \<^verbatim>\<open>src/scripts/cp2\<close> that fix what a number, a record, a
  digest, an archive, a published directory and a controlled host are. This development models those
  modules, function by function, and proves what the programs above them rely on.

  \<^bold>\<open>How the parts interact.\<close> A timing campaign first brings the host into a frozen state
  (\<^verbatim>\<open>cp2_timing_controls.py\<close>): it captures the prior controls, writes them to a hash-chained journal, applies
  the frozen ones, watches processor affinity and raw telemetry during the measurement, and restores. The
  samples go through exact rational quantiles and ratio gates (\<^verbatim>\<open>cp2_timing_math.py\<close>), and the retained
  directory is published by one rename (\<^verbatim>\<open>cp2_timing_publication.py\<close>). A sequence evaluation intersects
  and associates timestamps (\<^verbatim>\<open>cp2_sequence_math.py\<close>) inside a sealed capsule (\<^verbatim>\<open>cp2_capsule.py\<close>) and
  talks to it in canonical JSON (\<^verbatim>\<open>cp2_sequence_math_codec.py\<close>, \<^verbatim>\<open>cp2_f64_codec.py\<close>); a verifier replays
  the association by another algorithm. All of them share the schema primitives (\<^verbatim>\<open>cp2_schema.py\<close>). The
  stereo-pairing census (\<^verbatim>\<open>icra27/kaist_pairing_census.py\<close>) compares two ways of pairing camera messages.

  \<^bold>\<open>The theories.\<close>

  \<^item> \<^verbatim>\<open>Py_Prelude\<close>, \<^verbatim>\<open>Sha256\<close>, \<^verbatim>\<open>Utf8\<close>, \<^verbatim>\<open>Binary64\<close>, \<^verbatim>\<open>Py_Json\<close>, \<^verbatim>\<open>Py_State\<close>: the language and its
    standard library. A Python value is a \<open>pyval\<close>, an exception the left summand of \<open>'a py\<close>, a float its
    bit pattern, a stateful method a function \<open>'s \<Rightarrow> 'a py \<times> 's\<close> that keeps the state reached when it
    raises. Mappings are insertion-ordered association lists. The semantics is that of Python 3.8.
  \<^item> \<^verbatim>\<open>Cp2_Schema\<close>, \<^verbatim>\<open>Cp2_Schema_Correct\<close>, \<^verbatim>\<open>Schema_Json\<close>: \<^verbatim>\<open>cp2_schema.py\<close>. Validators and checked
    arithmetic, exact timestamps, manifests, accepted sets and sequences, typed parameters, strict JSON and
    JSONL. Shown: encodings agree exactly on equal values, manifests and JSONL round trip.
  \<^item> \<^verbatim>\<open>Timing_Math\<close>, \<^verbatim>\<open>Timing_Math_Correct\<close>: \<^verbatim>\<open>cp2_timing_math.py\<close>. Shown: quantiles, gates and the
    campaign decision are the rational ones, the median network sorts, well-formed measurements always give a
    result, and retained evidence that revalidates is true of the retained populations.
  \<^item> \<^verbatim>\<open>Timing_Publication\<close>, \<^verbatim>\<open>Timing_Publication_Correct\<close>: \<^verbatim>\<open>cp2_timing_publication.py\<close> over an inode table
    with a cached and a durable image. Shown: failure atomicity under arbitrary behaviour of the rename,
    fsync, hook and validator; restoration after a fault; success without faults; sealing establishes what
    validation checks; cleanup never removes another inode.
  \<^item> \<^verbatim>\<open>F64_Codec\<close>, \<^verbatim>\<open>Sequence_Assoc\<close>, \<^verbatim>\<open>Sequence_Codec\<close> and their \<^verbatim>\<open>_Correct\<close> theories: the array codec, the
    association and the transport. Shown: round trips, one canonical document per array, the association
    refines the exhaustive nearest-row search, the verifier's replay agrees, and an accepted response states
    what its request determines.
  \<^item> \<^verbatim>\<open>Stereo_Census\<close>, \<^verbatim>\<open>Stereo_Census_Correct\<close>: both selectors with their loop invariants, the accounting,
    and the nearest-rank quantile.
  \<^item> \<^verbatim>\<open>Capsule\<close>, \<^verbatim>\<open>Capsule_Identity\<close>, \<^verbatim>\<open>Capsule_Profile\<close> and their \<^verbatim>\<open>_Correct\<close> theories: the archive, the
    records around it and the profile validator. Shown: encoder and parser are inverse, search paths stay
    inside the root, an accepted native closure is complete, the source lock carries no output identity.
  \<^item> \<^verbatim>\<open>Control_Values\<close>, \<^verbatim>\<open>Host_Backend\<close>, \<^verbatim>\<open>Control_Journal\<close>, \<^verbatim>\<open>Host_Control\<close>, \<^verbatim>\<open>Affinity_Monitor\<close>,
    \<^verbatim>\<open>Control_Telemetry\<close> and their \<^verbatim>\<open>_Correct\<close> theories, with \<^verbatim>\<open>Host_Control_Runs\<close> and \<^verbatim>\<open>Crash_Recovery\<close>:
    \<^verbatim>\<open>cp2_timing_controls.py\<close>. The transaction object is a record of its attributes beside the host and the
    file system; its calls are the steps of an inductive relation. Shown: restoration is exact whatever the
    backend does, the prior state is durable before the first change, a failed application restores,
    after a crash a recovery
    from the journal that returns has brought the captured controls back, passing receipts are sound in every reachable state, the journal reads back, the scan of the process
    tree ends and covers the tree, and telemetry comparisons bound what they claim.

  \<^bold>\<open>Interfaces.\<close> \<open>prefix_code\<close>, \<open>fixed_width_code\<close>, \<open>raising_code\<close> and \<open>decodable_code\<close> are the contracts of
  byte encodings, \<open>stream_reader\<close> that of the capsule's readers, \<open>json_reader\<close> that of a configured JSON
  reader (interpreted for each module's hooks), \<open>state_order\<close> that of a relation every step of a stateful
  method upholds and \<open>journal_relation\<close> its extension to the steps of
  the transaction.

  \<^bold>\<open>Bounds.\<close> \<open>depth\<close> is the interpreter's remaining recursion limit: JSON, the seal and the validation walks
  raise \<^verbatim>\<open>RecursionError\<close> beyond it, so theorems that promise a result ask for enough of it. The JSON
  scanner recurses with the length of its text as fuel; each nested value consumes a character, so the fuel
  cannot run out before the text does. The walk over the process tree is a partial function with no fuel,
  and the termination theorem is about it. The journal has a size limit in the code; the lemmas that promise
  a successful append account 40000 bytes for each event. Integers of the program are unbounded; widths are
  the guards the source writes.

  \<^bold>\<open>Parameters.\<close> What is not in the repository is an argument: the operating system below the backend, the
  journal and the monitor (subprocesses, sysfs, procfs, the scheduler, the clock, random bytes, how much a
  write accepts), the Unicode digit tables and \<^verbatim>\<open>str.lower\<close>, the seams of a publication, the capsule that
  answers a request. Theorems hold for all of them unless a hypothesis says otherwise, and every hypothesis
  is discharged once, at a concrete instance, by the theorem's witness.

  \<^bold>\<open>Simplifications.\<close> Arguments annotated as typed records, or as iterables of them, are given as such
  records and lists; a profile is its typed view. NumPy integer scalars, which some validators also accept,
  are not values of the model. Exception texts keep their fixed part. The guardian process, when not killed,
  runs to its end at the point where it is told to recover; signals arrive between two calls of the
  transaction, and the polling thread runs between two calls of its owner.

  \<^bold>\<open>Not modelled.\<close> The estimator itself (floating-point C++ over Eigen, OpenCV and Ceres). NumPy alignment and
  metrics, and \<^verbatim>\<open>validate_stored_quaternion\<close>. Reading bags, ELF files, ZIP archives and YAML (third-party or
  binary formats). Report assembly and verification, campaign orchestration, readiness, the privileged
  helper and backend, capsule construction, the study runners of \<^verbatim>\<open>icra27\<close> and \<^verbatim>\<open>turnsafe\<close> and the earlier
  checkpoints: these are drivers of processes, sockets, descriptors and files around the modelled modules,
  where the behaviour that matters lies in code outside the repository. Streaming the capsule archive through
  descriptors (\<^verbatim>\<open>encode_capsule_file\<close>, \<^verbatim>\<open>_BoundArchive\<close>) repeats the modelled framing and is left out too.
\<close>

end
